(* ===== verification/Prelude.thy ===== *)
theory Prelude
  imports Main "HOL-Library.Word" "HOL-Library.Sublist"
begin

text \<open>
  Shared vocabulary of the development: the Go strings functions the services
  call, JSON values and their decoding into struct fields, the JSON printer of
  \<open>encoding/json\<close>, time, SQL row-level security settings of a pooled
  connection, and the generic invariant argument of a step relation.

  Go strings and byte slices are \<open>string\<close> (lists of 8-bit characters).  Time
  is an \<open>int\<close> number of nanoseconds, as \<open>time.Duration\<close> counts them.  A JSON
  text is represented by the value it denotes, \<open>None\<close> standing for a text that
  \<open>encoding/json\<close> rejects; numbers are integral, since no modelled field is a
  fraction.
\<close>

named_theorems go_str \<open>facts about the Go strings functions\<close>
named_theorems table_simps \<open>facts about row lists that stand for SQL tables\<close>

type_synonym time = int
type_synonym ('e, 'a) result = "'e + 'a"

abbreviation Ok :: "'a \<Rightarrow> ('e, 'a) result" where "Ok \<equiv> Inr"
abbreviation Err :: "'e \<Rightarrow> ('e, 'a) result" where "Err \<equiv> Inl"

definition Millisecond :: time where "Millisecond = 1000000"
definition Second :: time where "Second = 1000 * Millisecond"
definition Minute :: time where "Minute = 60 * Second"
definition Hour :: time where "Hour = 60 * Minute"

lemmas time_units = Millisecond_def Second_def Minute_def Hour_def

fun is_ok :: "('e, 'a) result \<Rightarrow> bool" where
  "is_ok (Inr _) = True"
| "is_ok (Inl _) = False"

subsection \<open>Package strings\<close>

definition HasPrefix :: "string \<Rightarrow> string \<Rightarrow> bool" where
  "HasPrefix s p \<longleftrightarrow> take (length p) s = p"

definition HasSuffix :: "string \<Rightarrow> string \<Rightarrow> bool" where
  "HasSuffix s p \<longleftrightarrow> length p \<le> length s \<and> drop (length s - length p) s = p"

definition TrimPrefix :: "string \<Rightarrow> string \<Rightarrow> string" where
  "TrimPrefix s p = (if HasPrefix s p then drop (length p) s else s)"

definition TrimSuffix :: "string \<Rightarrow> string \<Rightarrow> string" where
  "TrimSuffix s p = (if HasSuffix s p then take (length s - length p) s else s)"

fun Contains :: "string \<Rightarrow> string \<Rightarrow> bool" where
  "Contains [] p \<longleftrightarrow> p = []"
| "Contains (c # s) p \<longleftrightarrow> HasPrefix (c # s) p \<or> Contains s p"

text \<open>\<open>strings.Split\<close> at a one-byte separator: always at least one part.\<close>

fun Split :: "char \<Rightarrow> string \<Rightarrow> string list" where
  "Split c [] = [[]]"
| "Split c (x # xs) = (if x = c then [] # Split c xs
     else (case Split c xs of [] \<Rightarrow> [[x]] | p # ps \<Rightarrow> (x # p) # ps))"

text \<open>The first occurrence of a separator: the text before it, and the text after it if there is one.\<close>

fun split_first :: "string \<Rightarrow> string \<Rightarrow> string \<times> string option" where
  "split_first sep [] = ([], None)"
| "split_first sep (c # s) = (if HasPrefix (c # s) sep then ([], Some (drop (length sep) (c # s)))
     else (case split_first sep s of (a, r) \<Rightarrow> (c # a, r)))"

fun Join :: "string list \<Rightarrow> string \<Rightarrow> string" where
  "Join [] sep = []"
| "Join [x] sep = x"
| "Join (x # xs) sep = x @ sep @ Join xs sep"

definition ToLowerC :: "char \<Rightarrow> char" where
  "ToLowerC c = (if 65 \<le> (of_char c :: nat) \<and> (of_char c :: nat) \<le> 90
     then char_of ((of_char c :: nat) + 32) else c)"

definition ToLower :: "string \<Rightarrow> string" where
  "ToLower = map ToLowerC"

lemma HasPrefix_iff [go_str]: "HasPrefix s p \<longleftrightarrow> (\<exists>r. s = p @ r)"
  unfolding HasPrefix_def by (metis append_eq_conv_conj append_take_drop_id)

lemma HasSuffix_iff [go_str]: "HasSuffix s p \<longleftrightarrow> (\<exists>r. s = r @ p)"
proof
  assume "HasSuffix s p"
  then have "s = take (length s - length p) s @ p"
    unfolding HasSuffix_def by (metis append_take_drop_id)
  then show "\<exists>r. s = r @ p" by blast
qed (auto simp: HasSuffix_def)

lemma HasPrefix_append [simp]: "HasPrefix (p @ r) p"
  by (simp add: HasPrefix_def)

lemma HasSuffix_append [simp]: "HasSuffix (r @ p) p"
  by (simp add: HasSuffix_def)

lemma TrimSuffix_append [simp]: "TrimSuffix (r @ p) p = r"
  by (simp add: TrimSuffix_def)

lemma TrimPrefix_append [simp]: "TrimPrefix (p @ r) p = r"
  by (simp add: TrimPrefix_def)

lemma HasPrefix_trans: "HasPrefix s p \<Longrightarrow> HasPrefix p q \<Longrightarrow> HasPrefix s q"
  by (auto simp: go_str)

lemma Split_not_Nil [simp]: "Split c s \<noteq> []"
  by (induction s) (auto split: list.splits)

lemma Split_no_sep [simp]: "c \<notin> set s \<Longrightarrow> Split c s = [s]"
  by (induction s) auto

lemma Split_append_sep: "c \<notin> set p \<Longrightarrow> Split c (p @ c # s) = p # Split c s"
  by (induction p) auto

lemma Contains_iff [go_str]: "Contains s p \<longleftrightarrow> (\<exists>a b. s = a @ p @ b)"
proof (induction s)
  case (Cons c s)
  have "HasPrefix (c # s) p \<or> (\<exists>a b. s = a @ p @ b) \<longleftrightarrow> (\<exists>a b. c # s = a @ p @ b)"
    (is "?l \<longleftrightarrow> ?r")
  proof
    assume ?l then show ?r
      by (metis HasPrefix_iff append_Cons append_Nil)
  next
    assume ?r
    then obtain a b where ab: "c # s = a @ p @ b" by blast
    show ?l
      using ab by (cases a) (auto simp: HasPrefix_iff)
  qed
  then show ?case using Cons.IH by simp
qed simp

subsection \<open>JSON values and their decoding into struct fields\<close>

datatype json = JNull | JBool bool | JNum int | JStr string
  | JArr "json list" | JObj "(string \<times> json) list"

text \<open>
  A raw JSON text: \<open>None\<close> when \<open>encoding/json\<close> rejects it.  Decoding an object
  into a struct visits the members in order; a member whose name equals a
  field's name up to letter case is decoded into the field, \<open>null\<close> leaves the
  field as it is, a value of another kind makes Unmarshal return an error.
\<close>

type_synonym raw_json = "json option"

fun dec_string :: "json \<Rightarrow> string \<Rightarrow> string option" where
  "dec_string JNull old = Some old"
| "dec_string (JStr s) old = Some s"
| "dec_string _ old = None"

fun dec_int :: "json \<Rightarrow> int \<Rightarrow> int option" where
  "dec_int JNull old = Some old"
| "dec_int (JNum n) old = Some n"
| "dec_int _ old = None"

fun dec_bool :: "json \<Rightarrow> bool \<Rightarrow> bool option" where
  "dec_bool JNull old = Some old"
| "dec_bool (JBool b) old = Some b"
| "dec_bool _ old = None"

fun dec_strings :: "json list \<Rightarrow> string list option" where
  "dec_strings [] = Some []"
| "dec_strings (JStr s # js) = map_option ((#) s) (dec_strings js)"
| "dec_strings (JNull # js) = map_option ((#) []) (dec_strings js)"
| "dec_strings (_ # js) = None"

text \<open>A slice field: \<open>null\<close> sets it to nil, which is \<open>None\<close> here.\<close>

fun dec_slice :: "json \<Rightarrow> string list option option" where
  "dec_slice JNull = Some None"
| "dec_slice (JArr js) = map_option Some (dec_strings js)"
| "dec_slice _ = None"

definition key_is :: "string \<Rightarrow> string \<Rightarrow> bool" where
  "key_is k field \<longleftrightarrow> ToLower k = field"

text \<open>
  The members of an object, as a struct decoder sees them; the setter says what
  one member does to the struct.  The first ill-typed member is an error.
\<close>

fun dec_members :: "(string \<Rightarrow> json \<Rightarrow> 'a \<Rightarrow> 'a option) \<Rightarrow> (string \<times> json) list \<Rightarrow> 'a \<Rightarrow> 'a option" where
  "dec_members f [] x = Some x"
| "dec_members f ((k, j) # ms) x = (case f k j x of None \<Rightarrow> None | Some y \<Rightarrow> dec_members f ms y)"

fun dec_struct :: "(string \<Rightarrow> json \<Rightarrow> 'a \<Rightarrow> 'a option) \<Rightarrow> 'a \<Rightarrow> raw_json \<Rightarrow> 'a option" where
  "dec_struct f x (Some (JObj ms)) = dec_members f ms x"
| "dec_struct f x (Some JNull) = Some x"
| "dec_struct f x _ = None"

text \<open>Reading a \<open>map[string]interface{}\<close>: the last member of a name counts.\<close>

definition json_lookup :: "(string \<times> json) list \<Rightarrow> string \<Rightarrow> json option" where
  "json_lookup ms k = map_of (rev ms) k"

definition json_str :: "(string \<times> json) list \<Rightarrow> string \<Rightarrow> string" where
  "json_str ms k = (case json_lookup ms k of Some (JStr s) \<Rightarrow> s | _ \<Rightarrow> [])"

text \<open>Assigning \<open>m[k] = v\<close> in such a map.\<close>

definition json_put :: "string \<Rightarrow> json \<Rightarrow> (string \<times> json) list \<Rightarrow> (string \<times> json) list" where
  "json_put k v ms = filter (\<lambda>(k', _). k' \<noteq> k) ms @ [(k, v)]"

lemma json_lookup_put [simp]:
  "json_lookup (json_put k v ms) k' = (if k' = k then Some v else json_lookup ms k')"
proof -
  have "map_of (filter (\<lambda>(k'', _). k'' \<noteq> k) xs) k' = (if k' = k then None else map_of xs k')"
    for xs :: "(string \<times> json) list"
    by (induction xs) auto
  then show ?thesis
    by (auto simp: json_lookup_def json_put_def rev_filter)
qed

lemma json_str_put [simp]:
  "json_str (json_put k v ms) k' =
     (if k' = k then (case v of JStr s \<Rightarrow> s | _ \<Rightarrow> []) else json_str ms k')"
  by (simp add: json_str_def split: json.splits)

subsection \<open>Decimal and hexadecimal printing\<close>

definition digit :: "nat \<Rightarrow> char" where
  "digit n = (if n < 10 then char_of (48 + n) else char_of (87 + n))"

fun nat_str :: "nat \<Rightarrow> string" where
  "nat_str n = (if n < 10 then [digit n] else nat_str (n div 10) @ [digit (n mod 10)])"

declare nat_str.simps [simp del]

text \<open>\<open>%d\<close> of package fmt.\<close>

definition itoa :: "int \<Rightarrow> string" where
  "itoa n = (if n < 0 then CHR ''-'' # nat_str (nat (- n)) else nat_str (nat n))"

definition hex_byte :: "char \<Rightarrow> string" where
  "hex_byte c = [digit (of_char c div 16), digit (of_char c mod 16)]"

text \<open>\<open>hex.EncodeToString\<close>.\<close>

definition hex_encode :: "string \<Rightarrow> string" where
  "hex_encode s = concat (map hex_byte s)"

lemma of_char_digit [simp]:
  "n < 16 \<Longrightarrow> (of_char (digit n) :: nat) = (if n < 10 then 48 + n else 87 + n)"
  by (simp add: digit_def)

lemma digit_inj:
  assumes lt: "m < 16" "n < 16"
  shows "digit m = digit n \<longleftrightarrow> m = n"
proof
  assume eq: "digit m = digit n"
  from eq have "(of_char (digit m) :: nat) = of_char (digit n)" by simp
  then show "m = n" using lt by (simp split: if_splits)
qed simp

lemma hex_byte_inj: "hex_byte c = hex_byte d \<longleftrightarrow> c = d"
proof
  assume eq: "hex_byte c = hex_byte d"
  have lt: "(of_char x :: nat) div 16 < 16" "(of_char x :: nat) mod 16 < 16" for x :: char
    using nat_of_char_less_256 [of x] by (auto simp: less_mult_imp_div_less)
  from eq have "(of_char c :: nat) div 16 = of_char d div 16" "(of_char c :: nat) mod 16 = of_char d mod 16"
    using lt by (auto simp: hex_byte_def digit_inj)
  then have "(of_char c :: nat) = of_char d" by (metis div_mult_mod_eq)
  then show "c = d" by simp
qed simp

lemma length_hex_byte [simp]: "length (hex_byte c) = 2"
  by (simp add: hex_byte_def)

lemma hex_encode_inj: "hex_encode s = hex_encode t \<longleftrightarrow> s = t"
proof
  show "hex_encode s = hex_encode t \<Longrightarrow> s = t"
  proof (induction s arbitrary: t)
    case Nil
    then show ?case by (cases t) (auto simp: hex_encode_def hex_byte_def)
  next
    case (Cons c s)
    then obtain d t' where t: "t = d # t'"
      by (cases t) (auto simp: hex_encode_def hex_byte_def)
    with Cons.prems have "hex_byte c = hex_byte d \<and> hex_encode s = hex_encode t'"
      by (simp add: hex_encode_def)
    with Cons.IH t show ?case by (simp add: hex_byte_inj)
  qed
qed simp

lemma length_hex_encode [simp]: "length (hex_encode s) = 2 * length s"
  by (induction s) (auto simp: hex_encode_def)

text \<open>\<open>strconv.Atoi\<close>: an optional sign and at least one decimal digit, within 64 bits.\<close>

definition is_digit :: "char \<Rightarrow> bool" where
  "is_digit c \<longleftrightarrow> 48 \<le> (of_char c :: nat) \<and> (of_char c :: nat) \<le> 57"

fun dec_nat :: "nat \<Rightarrow> string \<Rightarrow> nat" where
  "dec_nat acc [] = acc"
| "dec_nat acc (c # s) = dec_nat (10 * acc + (of_char c - 48)) s"

definition Atoi :: "string \<Rightarrow> int option" where
  "Atoi s = (let neg = (s \<noteq> [] \<and> hd s = CHR ''-'');
                 ds = (if s \<noteq> [] \<and> (hd s = CHR ''-'' \<or> hd s = CHR ''+'') then tl s else s);
                 n = int (dec_nat 0 ds)
             in if ds = [] \<or> \<not> list_all is_digit ds then None
                else if neg then (if n \<le> 2 ^ 63 then Some (- n) else None)
                else (if n < 2 ^ 63 then Some n else None))"

lemma dec_nat_append: "dec_nat acc (s @ t) = dec_nat (dec_nat acc s) t"
  by (induction acc s rule: dec_nat.induct) simp_all

lemma digit_code: "n < 10 \<Longrightarrow> of_char (digit n) = 48 + n"
  by (simp add: digit_def)

lemma nat_str_digits: "list_all is_digit (nat_str n) \<and> nat_str n \<noteq> [] \<and> dec_nat 0 (nat_str n) = n"
proof (induction n rule: nat_str.induct)
  case (1 n)
  have d: "is_digit (digit m)" if "m < 10" for m
    using that by (simp add: is_digit_def digit_code)
  show ?case
  proof (cases "n < 10")
    case True
    then show ?thesis using d by (subst (1 2 3) nat_str.simps) (simp add: digit_code)
  next
    case False
    with 1 have IH: "list_all is_digit (nat_str (n div 10))" "dec_nat 0 (nat_str (n div 10)) = n div 10" by simp_all
    show ?thesis using False IH d by (subst (1 2 3) nat_str.simps) (simp add: digit_code dec_nat_append)
  qed
qed

lemma Atoi_itoa:
  assumes "\<bar>n\<bar> < 2 ^ 63"
  shows "Atoi (itoa n) = Some n"
proof -
  have d: "hd (nat_str m) \<noteq> CHR ''-'' \<and> hd (nat_str m) \<noteq> CHR ''+''" for m
  proof -
    have "is_digit (hd (nat_str m))" using nat_str_digits [of m] by (cases "nat_str m") auto
    then show ?thesis by (auto simp: is_digit_def)
  qed
  show ?thesis
    using nat_str_digits [of "nat n"] nat_str_digits [of "nat (- n)"] d [of "nat n"] assms
    by (auto simp: itoa_def Atoi_def)
qed

subsection \<open>The JSON printer\<close>

text \<open>
  \<open>json.Marshal\<close>: quotes, backslashes and control characters are escaped, and
  so are the HTML characters.  Other bytes are copied, as for valid UTF-8 text.
  A Go map is printed with its keys sorted; the maps of the program have fixed
  keys and are written down in that order.
\<close>

definition json_esc :: "char \<Rightarrow> string" where
  "json_esc c = (if c = CHR 0x22 \<or> c = CHR 0x5C then [CHR 0x5C, c]
     else if c = CHR 0x08 then [CHR 0x5C, CHR ''b'']
     else if c = CHR 0x0C then [CHR 0x5C, CHR ''f'']
     else if c = CHR 0x0A then [CHR 0x5C, CHR ''n'']
     else if c = CHR 0x0D then [CHR 0x5C, CHR ''r'']
     else if c = CHR 0x09 then [CHR 0x5C, CHR ''t'']
     else if (of_char c :: nat) < 32 \<or> c = CHR ''<'' \<or> c = CHR ''>'' \<or> c = CHR ''&''
       then [CHR 0x5C] @ ''u00'' @ hex_byte c
     else [c])"

definition json_quote :: "string \<Rightarrow> string" where
  "json_quote s = CHR 0x22 # concat (map json_esc s) @ [CHR 0x22]"

fun json_marshal :: "json \<Rightarrow> string" where
  "json_marshal JNull = ''null''"
| "json_marshal (JBool b) = (if b then ''true'' else ''false'')"
| "json_marshal (JNum n) = itoa n"
| "json_marshal (JStr s) = json_quote s"
| "json_marshal (JArr js) = ''['' @ Join (map json_marshal js) '','' @ '']''"
| "json_marshal (JObj ms) = ''{'' @ Join (map (\<lambda>(k, j). json_quote k @ '':'' @ json_marshal j) ms) '','' @ ''}''"

text \<open>No escape is a prefix of another, and none starts with a quote.\<close>

lemma json_esc_cases:
  "json_esc c = [c] \<and> c \<noteq> CHR 0x22 \<and> c \<noteq> CHR 0x5C
   \<or> (\<exists>d. json_esc c = [CHR 0x5C, d] \<and> d \<noteq> CHR ''u'')
   \<or> json_esc c = [CHR 0x5C, CHR ''u'', CHR ''0'', CHR ''0''] @ hex_byte c"
  by (simp add: json_esc_def)

lemma json_esc_head: "json_esc c @ r \<noteq> CHR 0x22 # r'"
  using json_esc_cases [of c] by auto

lemma json_esc_prefix_free: "json_esc c @ r = json_esc d @ r' \<Longrightarrow> c = d \<and> r = r'"
  by (auto simp: json_esc_def hex_byte_inj split: if_splits)

lemma json_body_inj:
  "concat (map json_esc s) @ CHR 0x22 # r = concat (map json_esc t) @ CHR 0x22 # r' \<Longrightarrow> s = t \<and> r = r'"
proof (induction s arbitrary: t)
  case Nil
  then show ?case
  proof (cases t)
    case (Cons d t')
    with Nil show ?thesis using json_esc_head [of d "concat (map json_esc t') @ CHR 0x22 # r'" r] by simp
  qed simp
next
  case (Cons c s)
  then obtain d t' where t: "t = d # t'"
    using json_esc_head [of c "concat (map json_esc s) @ CHR 0x22 # r" r'] by (cases t) auto
  with Cons.prems json_esc_prefix_free [of c _ d] have "c = d"
    "concat (map json_esc s) @ CHR 0x22 # r = concat (map json_esc t') @ CHR 0x22 # r'"
    by force+
  with Cons.IH t show ?case by blast
qed

lemma json_quote_inj: "json_quote s @ r = json_quote t @ r' \<longleftrightarrow> s = t \<and> r = r'"
  using json_body_inj [of s r t r'] by (auto simp: json_quote_def)

subsection \<open>Invariants of step relations\<close>

text \<open>
  The argument every state machine of the development uses: an invariant of the
  initial states that each step keeps holds in all reachable states.
\<close>

locale step_invariant =
  fixes step :: "'s \<Rightarrow> 's \<Rightarrow> bool"
    and inv :: "'s \<Rightarrow> bool"
  assumes step_inv: "inv s \<Longrightarrow> step s t \<Longrightarrow> inv t"
begin

lemma reach_inv: "step\<^sup>*\<^sup>* s t \<Longrightarrow> inv s \<Longrightarrow> inv t"
  by (induction rule: rtranclp_induct) (auto intro: step_inv)

end

subsection \<open>Operations of tenants\<close>

text \<open>
  A component whose operations act for one tenant: whatever an operation of a
  tenant does, the rows of every other tenant stay as they are.
\<close>

locale tenant_ops =
  fixes run :: "'op \<Rightarrow> 'db \<Rightarrow> 'db"
    and owner :: "'op \<Rightarrow> string option"
    and rows_of :: "string \<Rightarrow> 'db \<Rightarrow> 'r list"
  assumes run_other: "owner op \<noteq> Some t \<Longrightarrow> rows_of t (run op db) = rows_of t db"
begin

lemma fold_other: "(\<And>op. op \<in> set ops \<Longrightarrow> owner op \<noteq> Some t) \<Longrightarrow> rows_of t (fold run ops db) = rows_of t db"
  by (induction ops arbitrary: db) (auto simp: run_other)

end

subsection \<open>Row lists\<close>

lemma filter_map_update_other [table_simps]:
  "(\<And>r. r \<in> set xs \<Longrightarrow> P (f r) = P r) \<Longrightarrow> (\<And>r. r \<in> set xs \<Longrightarrow> P r \<Longrightarrow> f r = r) \<Longrightarrow>
   filter P (map f xs) = filter P xs"
  by (induction xs) auto

lemma find_Some_iff_set: "find P xs = Some x \<Longrightarrow> x \<in> set xs \<and> P x"
  by (induction xs) (auto split: if_splits)

lemma find_map_same: "(\<And>x. P (f x) = P x) \<Longrightarrow> find P (map f xs) = map_option f (find P xs)"
  by (induction xs) auto

lemma find_None_all: "find P xs = None \<longleftrightarrow> (\<forall>x\<in>set xs. \<not> P x)"
  by (induction xs) auto

lemma find_snoc_unique: "find P xs = None \<Longrightarrow> P x \<Longrightarrow> find P (xs @ [x]) = Some x"
  by (induction xs) (auto split: if_splits)

end
