(* ===== verification/Policy_Engine.thy ===== *)
theory Policy_Engine
  imports Prelude "HOL-Library.Multiset"
begin

text \<open>
  The decision procedure of services/policy/pkg/service/service.go: the JSON
  form of a policy's logic, glob matching, and the evaluation loop.  The CEL
  library (google/cel-go) is a parameter: which expressions compile, for which a
  program can be built, and what a program returns on the four variables the
  service binds.
\<close>

subsection \<open>Data\<close>

record EvaluateRequest =
  OrgID' :: string
  SubjectID :: string
  UserGroups :: "string list option"
  Action :: string
  Resource :: string

record PolicyLogic =
  Type :: string
  Subjects :: "string list"
  Actions :: "string list"
  Resources :: "string list"
  Expression :: string

record Policy =
  pol_ID :: string
  pol_OrgID :: string
  pol_Name :: string
  pol_Description :: string
  pol_Logic :: raw_json
  pol_Version :: int
  pol_CreatedAt :: time
  pol_UpdatedAt :: time

datatype cel_val = CelBool bool | CelOther

record cel_env =
  cel_Compile :: "string \<Rightarrow> bool"
  cel_Program :: "string \<Rightarrow> bool"
  cel_Eval :: "string \<Rightarrow> string \<Rightarrow> string \<Rightarrow> string \<Rightarrow> string list \<Rightarrow> cel_val option"

definition nil_slice :: "string list option \<Rightarrow> string list" where
  "nil_slice x = (case x of None \<Rightarrow> [] | Some xs \<Rightarrow> xs)"

subsection \<open>Decoding the logic column\<close>

definition logic_member :: "string \<Rightarrow> json \<Rightarrow> PolicyLogic \<Rightarrow> PolicyLogic option" where
  "logic_member k j l =
     (if key_is k ''type'' then map_option (\<lambda>v. l\<lparr>Type := v\<rparr>) (dec_string j (Type l))
      else if key_is k ''subjects'' then map_option (\<lambda>v. l\<lparr>Subjects := nil_slice v\<rparr>) (dec_slice j)
      else if key_is k ''actions'' then map_option (\<lambda>v. l\<lparr>Actions := nil_slice v\<rparr>) (dec_slice j)
      else if key_is k ''resources'' then map_option (\<lambda>v. l\<lparr>Resources := nil_slice v\<rparr>) (dec_slice j)
      else if key_is k ''expression'' then map_option (\<lambda>v. l\<lparr>Expression := v\<rparr>) (dec_string j (Expression l))
      else Some l)"

definition unmarshal_logic :: "raw_json \<Rightarrow> PolicyLogic option" where
  "unmarshal_logic = dec_struct logic_member
     \<lparr>Type = [], Subjects = [], Actions = [], Resources = [], Expression = []\<rparr>"

subsection \<open>Glob matching\<close>

fun matchesGlob :: "string list \<Rightarrow> string \<Rightarrow> bool" where
  "matchesGlob [] v = False"
| "matchesGlob (p # ps) v =
     (if p = ''*'' \<or> p = v then True
      else if HasSuffix p '':*'' \<and>
          (HasPrefix v (TrimSuffix p '':*'' @ '':'') \<or> v = TrimSuffix p '':*'') then True
      else if HasSuffix p ''*'' \<and> HasPrefix v (TrimSuffix p ''*'') then True
      else matchesGlob ps v)"

subsection \<open>The evaluation loop\<close>

record eval_acc =
  matchedIDs :: "string list"
  maxVersion :: int
  hasExplicitAllow :: bool
  hasExplicitDeny :: bool

definition note_match :: "Policy \<Rightarrow> eval_acc \<Rightarrow> eval_acc" where
  "note_match p acc = acc\<lparr>matchedIDs := matchedIDs acc @ [pol_ID p],
     maxVersion := (if pol_Version p > maxVersion acc then pol_Version p else maxVersion acc)\<rparr>"

text \<open>The CEL branch of the switch: true exactly when the expression compiles, runs and yields true.\<close>

definition cel_match :: "cel_env option \<Rightarrow> EvaluateRequest \<Rightarrow> string \<Rightarrow> bool" where
  "cel_match env req expr =
     (case env of
        None \<Rightarrow> False
      | Some c \<Rightarrow>
          if expr = [] then False
          else if \<not> cel_Compile c expr then False
          else if \<not> cel_Program c expr then False
          else (case cel_Eval c expr (SubjectID req) (Action req) (Resource req) (nil_slice (UserGroups req)) of
                  None \<Rightarrow> False
                | Some (CelBool b) \<Rightarrow> b
                | Some CelOther \<Rightarrow> False))"

definition eval_step :: "cel_env option \<Rightarrow> EvaluateRequest \<Rightarrow> Policy \<Rightarrow> eval_acc \<Rightarrow> eval_acc" where
  "eval_step env req p acc =
     (case unmarshal_logic (pol_Logic p) of
        None \<Rightarrow> acc
      | Some logic \<Rightarrow>
          if Type logic = ''deny_all'' then (note_match p acc)\<lparr>hasExplicitDeny := True\<rparr>
          else if Type logic = ''allow_all'' then (note_match p acc)\<lparr>hasExplicitAllow := True\<rparr>
          else if Type logic = ''rbac'' then
            (let subjectMatch = matchesGlob (Subjects logic) (SubjectID req);
                 actionMatch = matchesGlob (Actions logic) (Action req);
                 resourceMatch = matchesGlob (Resources logic) (Resource req)
             in if subjectMatch \<and> actionMatch \<and> resourceMatch
                then (note_match p acc)\<lparr>hasExplicitAllow := True\<rparr> else acc)
          else if Type logic = ''cel'' then
            (if cel_match env req (Expression logic)
             then (note_match p acc)\<lparr>hasExplicitAllow := True\<rparr> else acc)
          else acc)"

definition evaluate :: "cel_env option \<Rightarrow> EvaluateRequest \<Rightarrow> Policy list \<Rightarrow> string \<times> string list \<times> int" where
  "evaluate env req policies =
     (let acc = fold (eval_step env req) policies
            \<lparr>matchedIDs = [], maxVersion = 0, hasExplicitAllow = False, hasExplicitDeny = False\<rparr>
      in if hasExplicitDeny acc then (''deny'', matchedIDs acc, maxVersion acc)
         else ((if hasExplicitAllow acc then ''allow'' else ''deny''), matchedIDs acc, maxVersion acc))"

subsection \<open>Validation of a policy before it is stored\<close>

definition validatePolicyLogic :: "cel_env option \<Rightarrow> raw_json \<Rightarrow> (string, unit) result" where
  "validatePolicyLogic env logic =
     (case unmarshal_logic logic of
        None \<Rightarrow> Err ''json''
      | Some l \<Rightarrow>
          if Type l = ''cel'' then
            (case env of
               None \<Rightarrow> Err ''CEL environment not initialized''
             | Some c \<Rightarrow>
                 if Expression l = [] then Err ''CEL expression is required''
                 else if \<not> cel_Compile c (Expression l) then Err ''cel issues''
                 else Ok ())
          else Ok ())"

subsection \<open>Reference semantics\<close>

text \<open>The verdict of one policy on a request; the whole set is combined by deny-overrides.\<close>

datatype verdict = Allows | Denies

definition verdict :: "cel_env option \<Rightarrow> EvaluateRequest \<Rightarrow> Policy \<Rightarrow> verdict option" where
  "verdict env req p =
     (case unmarshal_logic (pol_Logic p) of
        None \<Rightarrow> None
      | Some l \<Rightarrow>
          if Type l = ''deny_all'' then Some Denies
          else if Type l = ''allow_all''
            \<or> Type l = ''rbac'' \<and> matchesGlob (Subjects l) (SubjectID req)
                \<and> matchesGlob (Actions l) (Action req) \<and> matchesGlob (Resources l) (Resource req)
            \<or> Type l = ''cel'' \<and> cel_match env req (Expression l) then Some Allows
          else None)"

definition matching :: "cel_env option \<Rightarrow> EvaluateRequest \<Rightarrow> Policy list \<Rightarrow> Policy list" where
  "matching env req = filter (\<lambda>p. verdict env req p \<noteq> None)"

subsection \<open>Lemmas\<close>

lemma matchesGlob_single:
  "matchesGlob [p] v \<longleftrightarrow> p = v \<or> (\<exists>q. p = q @ ''*'' \<and> HasPrefix v q) \<or> (\<exists>q. p = q @ '':*'' \<and> v = q)"
    (is "?l \<longleftrightarrow> ?r")
proof
  assume ?l
  then consider "p = v" | "p = ''*''"
    | "HasSuffix p '':*''" "HasPrefix v (TrimSuffix p '':*'' @ '':'') \<or> v = TrimSuffix p '':*''"
    | "HasSuffix p ''*''" "HasPrefix v (TrimSuffix p ''*'')"
    by (auto split: if_splits)
  then show ?r
  proof cases
    case 2 then show ?thesis by (auto simp: HasPrefix_def)
  next
    case 3
    then obtain q where q: "p = q @ '':*''" by (auto simp: HasSuffix_iff)
    with 3 have "HasPrefix v (q @ '':'') \<or> v = q" by simp
    moreover have "p = (q @ '':'') @ ''*''" using q by simp
    ultimately show ?thesis using q by blast
  next
    case 4
    then obtain q where "p = q @ ''*''" by (auto simp: HasSuffix_iff)
    with 4 show ?thesis by simp
  qed simp
next
  assume ?r
  then show ?l by (auto simp: HasPrefix_def)
qed

lemma matchesGlob_exists: "matchesGlob ps v \<longleftrightarrow> (\<exists>p\<in>set ps. matchesGlob [p] v)"
  by (induction ps) auto

lemma eval_step_verdict:
  "eval_step env req p acc = (case verdict env req p of
      None \<Rightarrow> acc
    | Some Denies \<Rightarrow> (note_match p acc)\<lparr>hasExplicitDeny := True\<rparr>
    | Some Allows \<Rightarrow> (note_match p acc)\<lparr>hasExplicitAllow := True\<rparr>)"
  by (simp add: eval_step_def verdict_def Let_def split: option.splits)

text \<open>The loop, from any accumulator.\<close>

lemma eval_loop:
  defines "max_v \<equiv> \<lambda>ps. fold (\<lambda>p m. max m (pol_Version p)) ps"
  shows "fold (eval_step env req) ps acc = \<lparr>
     matchedIDs = matchedIDs acc @ map pol_ID (matching env req ps),
     maxVersion = max_v (matching env req ps) (maxVersion acc),
     hasExplicitAllow = (hasExplicitAllow acc \<or> (\<exists>p\<in>set ps. verdict env req p = Some Allows)),
     hasExplicitDeny = (hasExplicitDeny acc \<or> (\<exists>p\<in>set ps. verdict env req p = Some Denies)),
     \<dots> = eval_acc.more acc\<rparr>"
  unfolding max_v_def
  by (induction ps arbitrary: acc)
    (auto simp: matching_def eval_step_verdict note_match_def max_def split: option.splits verdict.splits)

lemma fold_max_Max: "fold (\<lambda>p m. max m (f p)) ps (a::int) = Max (insert a (f ` set ps))"
proof (induction ps arbitrary: a)
  case (Cons p ps)
  have "Max (insert (max a (f p)) S) = Max (insert a (insert (f p) S))" if "finite S" for S
    using that by (cases "S = {}") (simp_all add: max.assoc)
  with Cons show ?case by simp
qed simp

lemma evaluate_closed:
  "evaluate env req ps =
     (if (\<exists>p\<in>set ps. verdict env req p = Some Denies) then ''deny''
      else if (\<exists>p\<in>set ps. verdict env req p = Some Allows) then ''allow'' else ''deny'',
      map pol_ID (matching env req ps),
      Max (insert 0 (pol_Version ` set (matching env req ps))))"
  by (simp add: evaluate_def eval_loop fold_max_Max)

lemma matching_mset: "mset ps = mset qs \<Longrightarrow> mset (matching env req ps) = mset (matching env req qs)"
  by (simp add: matching_def mset_filter)

lemma cel_match_compiled: "cel_match (Some c) req e \<Longrightarrow> cel_Compile c e"
  by (simp add: cel_match_def split: if_splits)

subsection \<open>Properties\<close>

text \<open>
  C1. The evaluation loop implements deny-overrides with default deny: the
  effect is deny when some policy denies, otherwise allow exactly when some
  policy allows; the matched ids are those of the policies with a verdict, in
  order; and the reported version is the largest of theirs (0 if none).
\<close>

theorem evaluate_deny_overrides:
  "evaluate env req ps =
     (if (\<exists>p\<in>set ps. verdict env req p = Some Denies) then ''deny''
      else if (\<exists>p\<in>set ps. verdict env req p = Some Allows) then ''allow'' else ''deny'',
      map pol_ID (matching env req ps),
      Max (insert 0 (pol_Version ` set (matching env req ps))))"
  by (rule evaluate_closed)

text \<open>
  The decision does not depend on the order in which the database returns
  the policies: a permutation changes neither the effect nor the version, and
  the matched ids only in their order.
\<close>

theorem evaluate_order_irrelevant:
  assumes "mset ps = mset qs"
  shows "fst (evaluate env req ps) = fst (evaluate env req qs)
    \<and> mset (fst (snd (evaluate env req ps))) = mset (fst (snd (evaluate env req qs)))
    \<and> snd (snd (evaluate env req ps)) = snd (snd (evaluate env req qs))"
proof -
  have m: "mset (matching env req ps) = mset (matching env req qs)"
    using assms by (rule matching_mset)
  from assms m have "set ps = set qs" "set (matching env req ps) = set (matching env req qs)"
    by (auto dest: mset_eq_setD)
  with m show ?thesis by (simp add: evaluate_closed mset_map)
qed

definition sample_policy :: "string \<Rightarrow> json \<Rightarrow> int \<Rightarrow> Policy" where
  "sample_policy i l v = \<lparr>pol_ID = i, pol_OrgID = ''o1'', pol_Name = i, pol_Description = [], pol_Logic = Some l,
     pol_Version = v, pol_CreatedAt = 0, pol_UpdatedAt = 0\<rparr>"

definition allow_all_logic :: json where
  "allow_all_logic = JObj [(''type'', JStr ''allow_all'')]"

definition deny_all_logic :: json where
  "deny_all_logic = JObj [(''type'', JStr ''deny_all'')]"

definition rbac_logic :: json where
  "rbac_logic = JObj [(''type'', JStr ''rbac''), (''subjects'', JArr [JStr ''user:*'']),
     (''actions'', JArr [JStr ''read'']), (''resources'', JArr [JStr ''*''])]"

definition sample_req :: EvaluateRequest where
  "sample_req = \<lparr>OrgID' = ''o1'', SubjectID = ''user:7'', UserGroups = None, Action = ''read'', Resource = ''doc:1''\<rparr>"

lemmas sample_simps = sample_policy_def allow_all_logic_def deny_all_logic_def rbac_logic_def sample_req_def
  unmarshal_logic_def logic_member_def key_is_def ToLower_def ToLowerC_def nil_slice_def
  HasSuffix_def HasPrefix_def TrimSuffix_def

theorem evaluate_order_irrelevant_witness:
  "fst (evaluate None sample_req [sample_policy ''a'' rbac_logic 3, sample_policy ''b'' deny_all_logic 2])
   = fst (evaluate None sample_req [sample_policy ''b'' deny_all_logic 2, sample_policy ''a'' rbac_logic 3])"
  using evaluate_order_irrelevant [of "[sample_policy ''a'' rbac_logic 3, sample_policy ''b'' deny_all_logic 2]"
      "[sample_policy ''b'' deny_all_logic 2, sample_policy ''a'' rbac_logic 3]" None sample_req]
  by (simp add: add_mset_commute)

text \<open>
  What a list of glob patterns matches: a value matches when some pattern
  equals it, is a prefix of it followed by a star (so the lone star matches
  everything), or is the value itself followed by colon-star.
\<close>

theorem matchesGlob_meaning:
  "matchesGlob ps v \<longleftrightarrow>
     (\<exists>p\<in>set ps. p = v \<or> (\<exists>q. p = q @ ''*'' \<and> HasPrefix v q) \<or> p = v @ '':*'')"
  unfolding matchesGlob_exists [of ps] matchesGlob_single by blast

text \<open>
  Validation guarantees evaluation: the logic of a policy accepted by
  validatePolicyLogic decodes, and if it is a CEL policy its expression is
  non-empty and compiles, so the evaluation loop never skips an accepted policy
  as unparsable or uncompilable: a policy of type deny_all always denies, one
  of type allow_all always allows.
\<close>

theorem validated_policy_is_evaluated:
  assumes "validatePolicyLogic env (pol_Logic p) = Ok ()"
  shows "\<exists>l. unmarshal_logic (pol_Logic p) = Some l
    \<and> (Type l = ''cel'' \<longrightarrow> (\<exists>c. env = Some c \<and> Expression l \<noteq> [] \<and> cel_Compile c (Expression l)))
    \<and> (Type l = ''deny_all'' \<longrightarrow> verdict env req p = Some Denies)
    \<and> (Type l = ''allow_all'' \<longrightarrow> verdict env req p = Some Allows)"
  using assms by (auto simp: validatePolicyLogic_def verdict_def split: option.splits if_splits)

theorem validated_policy_is_evaluated_witness:
  "validatePolicyLogic None (pol_Logic (sample_policy ''b'' deny_all_logic 2)) = Ok ()
   \<and> verdict None sample_req (sample_policy ''b'' deny_all_logic 2) = Some Denies"
proof -
  have v: "validatePolicyLogic None (pol_Logic (sample_policy ''b'' deny_all_logic 2)) = Ok ()"
    by code_simp
  have u: "unmarshal_logic (pol_Logic (sample_policy ''b'' deny_all_logic 2)) =
      Some \<lparr>Type = ''deny_all'', Subjects = [], Actions = [], Resources = [], Expression = []\<rparr>"
    by code_simp
  from validated_policy_is_evaluated [OF v, where req = sample_req, unfolded u] v show ?thesis
    by simp
qed

end
