(* ===== verification/Rls.thy ===== *)
theory Rls
  imports Prelude
begin

text \<open>
  Package shared/rls: the tenant carried by a request context, and the
  \<open>app.org_id\<close> setting of a PostgreSQL connection that the row-level-security
  policies of the migrations compare with a row's \<open>org_id\<close>.

  A connection has a session-level value of the setting and, inside an explicit
  transaction, a transaction-local one.  \<open>set_config(name, v, true)\<close> sets the
  local value; outside an explicit transaction the statement is a transaction
  of its own, so the local value is gone when the statement returns.
\<close>

record go_ctx =
  rls_org :: "string option"

definition WithOrgID :: "go_ctx \<Rightarrow> string \<Rightarrow> go_ctx" where
  "WithOrgID ctx orgID = ctx\<lparr>rls_org := Some orgID\<rparr>"

definition OrgID :: "go_ctx \<Rightarrow> string" where
  "OrgID ctx = (case rls_org ctx of None \<Rightarrow> [] | Some o' \<Rightarrow> o')"

record pg_conn =
  guc_session :: string
  guc_local :: "string option"
  in_tx :: bool

definition current_setting :: "pg_conn \<Rightarrow> string" where
  "current_setting c = (case guc_local c of None \<Rightarrow> guc_session c | Some v \<Rightarrow> v)"

definition set_config :: "pg_conn \<Rightarrow> string \<Rightarrow> bool \<Rightarrow> pg_conn" where
  "set_config c v is_local =
     (if is_local then (if in_tx c then c\<lparr>guc_local := Some v\<rparr> else c)
      else c\<lparr>guc_session := v, guc_local := None\<rparr>)"

definition begin_tx :: "pg_conn \<Rightarrow> pg_conn" where
  "begin_tx c = c\<lparr>in_tx := True, guc_local := None\<rparr>"

text \<open>What SetSessionVar and TxSetSessionVar leave on the connection when the statement succeeds.\<close>

definition SetSessionVar :: "pg_conn \<Rightarrow> string \<Rightarrow> pg_conn" where
  "SetSessionVar conn orgID = set_config conn orgID True"

definition TxSetSessionVar :: "pg_conn \<Rightarrow> string \<Rightarrow> pg_conn" where
  "TxSetSessionVar tx orgID = set_config tx orgID True"

text \<open>
  A connection of the pool: main.go's AfterRelease hook resets the session
  value to the empty string whenever a connection goes back.
\<close>

definition AfterRelease :: "pg_conn \<Rightarrow> pg_conn" where
  "AfterRelease conn = set_config conn [] False"

definition idle_conn :: pg_conn where
  "idle_conn = \<lparr>guc_session = [], guc_local = None, in_tx = False\<rparr>"

text \<open>
  The database the service talks to: whether its role is subject to row-level
  security (superusers and BYPASSRLS roles are not), the cast of a text to the
  canonical form of a UUID, and the check \<open>uuid.Parse\<close> of google/uuid.
\<close>

record pg_env =
  rls_enforced :: bool
  pg_uuid :: "string \<Rightarrow> string option"
  uuid_parse :: "string \<Rightarrow> bool"

text \<open>\<open>org_id = NULLIF(current_setting('app.org_id', true), '')::UUID\<close>, for USING and WITH CHECK.\<close>

definition rls_visible :: "pg_env \<Rightarrow> pg_conn \<Rightarrow> string \<Rightarrow> bool" where
  "rls_visible env c org \<longleftrightarrow> \<not> rls_enforced env \<or>
     (current_setting c \<noteq> [] \<and> pg_uuid env (current_setting c) = Some org)"

lemma OrgID_WithOrgID [simp]: "OrgID (WithOrgID ctx o') = o'"
  by (simp add: OrgID_def WithOrgID_def)

lemma rls_visible_bypass [simp]: "\<not> rls_enforced env \<Longrightarrow> rls_visible env c org"
  by (simp add: rls_visible_def)

lemma visible_in_tx:
  "rls_enforced env \<Longrightarrow> rls_visible env (TxSetSessionVar (begin_tx c) o') org \<longleftrightarrow>
     o' \<noteq> [] \<and> pg_uuid env o' = Some org"
  by (simp add: rls_visible_def TxSetSessionVar_def begin_tx_def set_config_def current_setting_def)

lemma invisible_without_tx:
  "rls_enforced env \<Longrightarrow> \<not> rls_visible env (SetSessionVar idle_conn o') org"
  by (simp add: rls_visible_def SetSessionVar_def idle_conn_def set_config_def current_setting_def)

lemma AfterRelease_idle [simp]: "AfterRelease idle_conn = idle_conn"
  by (simp add: AfterRelease_def idle_conn_def set_config_def)

end
