(* ===== verification/Outbox.thy ===== *)
theory Outbox
  imports Prelude "HOL-Library.Multiset"
begin

text \<open>
  The transactional outbox of shared/kafka/outbox: Writer.WriteTx inserts a row
  inside the caller's transaction; Relay.drain selects at most 100 rows that
  are pending or failed, publishes them to Kafka and updates them, all in one
  transaction.  The table is a list of rows in insertion order, the Kafka side
  a log of the publish calls that the broker acknowledged (with the row they
  come from, so that deliveries can be counted).

  A statement that fails inside a PostgreSQL transaction aborts it: later
  statements fail too and the commit rolls back.
\<close>

record outbox_record =
  ob_id :: string
  ob_org_id :: string
  ob_topic :: string
  ob_key :: string
  ob_payload :: json
  ob_status :: string
  ob_attempts :: int
  ob_last_error :: "string option"
  ob_dead_at :: "time option"
  ob_published_at :: "time option"
  ob_created_at :: time

definition maxAttempts :: int where "maxAttempts = 5"

subsection \<open>Writer\<close>

text \<open>
  The INSERT of WriteTx, with the defaults of the migration.  The id is drawn
  by the database; a text that is no UUID makes the statement fail.
\<close>

definition WriteTx :: "(string \<Rightarrow> string option) \<Rightarrow> string \<Rightarrow> time \<Rightarrow> outbox_record list \<Rightarrow>
    string \<Rightarrow> string \<Rightarrow> string \<Rightarrow> json \<Rightarrow> (string, outbox_record list) result" where
  "WriteTx cast_uuid new_id now rows orgID topic key payload =
     (case cast_uuid orgID of
        None \<Rightarrow> Err ''write to outbox''
      | Some org \<Rightarrow> Ok (rows @ [\<lparr>ob_id = new_id, ob_org_id = org, ob_topic = topic, ob_key = key,
            ob_payload = payload, ob_status = ''pending'', ob_attempts = 0, ob_last_error = None,
            ob_dead_at = None, ob_published_at = None, ob_created_at = now\<rparr>]))"

subsection \<open>Relay\<close>

text \<open>One drain sees an environment: which calls fail, and the clock.\<close>

record drain_env =
  d_begin_ok :: bool
  d_query_ok :: bool
  d_locked :: "string \<Rightarrow> bool"
  d_scan_ok :: "outbox_record \<Rightarrow> bool"
  d_publish :: "outbox_record \<Rightarrow> string option"
  d_exec_ok :: "outbox_record \<Rightarrow> bool"
  d_commit_ok :: bool
  d_now :: time

definition eligible :: "outbox_record \<Rightarrow> bool" where
  "eligible r \<longleftrightarrow> (ob_status r = ''pending'' \<or> ob_status r = ''failed'' \<and> ob_attempts r < maxAttempts)
     \<and> ob_dead_at r = None"

definition fetch_batch :: "(string \<Rightarrow> bool) \<Rightarrow> outbox_record list \<Rightarrow> outbox_record list" where
  "fetch_batch locked rows =
     take 100 (sort_key ob_created_at (filter (\<lambda>r. eligible r \<and> \<not> locked (ob_id r)) rows))"

definition updateRecord :: "time \<Rightarrow> string \<Rightarrow> string \<Rightarrow> string \<Rightarrow> int \<Rightarrow> bool \<Rightarrow>
    outbox_record list \<Rightarrow> outbox_record list" where
  "updateRecord now i status lastErr attempts isDead rows =
     map (\<lambda>r. if ob_id r = i
        then r\<lparr>ob_status := status, ob_last_error := Some lastErr, ob_attempts := attempts,
               ob_dead_at := (if isDead then Some now else ob_dead_at r)\<rparr> else r) rows"

definition mark_published :: "time \<Rightarrow> string \<Rightarrow> int \<Rightarrow> outbox_record list \<Rightarrow> outbox_record list" where
  "mark_published now i attempts rows =
     map (\<lambda>r. if ob_id r = i
        then r\<lparr>ob_status := ''published'', ob_published_at := Some now, ob_attempts := attempts\<rparr> else r) rows"

text \<open>The row update that follows the publish call of one record.\<close>

definition settle :: "time \<Rightarrow> outbox_record \<Rightarrow> string option \<Rightarrow> outbox_record list \<Rightarrow> outbox_record list" where
  "settle now rec reply rows =
     (case reply of
        Some err \<Rightarrow> (let newAttempts = ob_attempts rec + 1 in
          if newAttempts \<ge> maxAttempts then updateRecord now (ob_id rec) ''dead'' err newAttempts True rows
          else updateRecord now (ob_id rec) ''failed'' err newAttempts False rows)
      | None \<Rightarrow> mark_published now (ob_id rec) (ob_attempts rec + 1) rows)"

text \<open>
  The loop over the fetched records: the rows as the transaction sees them,
  whether a statement has failed (and aborted the transaction), and the log.
\<close>

fun drain_loop :: "drain_env \<Rightarrow> outbox_record list \<Rightarrow> outbox_record list \<Rightarrow> bool \<Rightarrow> outbox_record list \<Rightarrow>
    outbox_record list \<times> bool \<times> outbox_record list" where
  "drain_loop e [] rows aborted klog = (rows, aborted, klog)"
| "drain_loop e (rec # recs) rows aborted klog =
     (let klog' = (if d_publish e rec = None then klog @ [rec] else klog);
          fails = aborted \<or> \<not> d_exec_ok e rec
      in drain_loop e recs (if fails then rows else settle (d_now e) rec (d_publish e rec) rows) fails klog')"

definition drain :: "drain_env \<Rightarrow> outbox_record list \<times> outbox_record list \<Rightarrow> outbox_record list \<times> outbox_record list" where
  "drain e st = (case st of (rows, klog) \<Rightarrow>
     if \<not> d_begin_ok e \<or> \<not> d_query_ok e then (rows, klog)
     else let recs = filter (d_scan_ok e) (fetch_batch (d_locked e) rows) in
       if recs = [] then (rows, klog)
       else (case drain_loop e recs rows False klog of
         (rows', aborted, klog') \<Rightarrow> (if aborted \<or> \<not> d_commit_ok e then rows else rows', klog')))"

text \<open>The table under the writers and the relays: a transition is an insert or a drain.\<close>

inductive outbox_step :: "outbox_record list \<times> outbox_record list \<Rightarrow> outbox_record list \<times> outbox_record list \<Rightarrow> bool" where
  insert_step: "WriteTx cast new_id now rows orgID topic key payload = Ok rows' \<Longrightarrow>
     new_id \<notin> ob_id ` set rows \<Longrightarrow> outbox_step (rows, klog) (rows', klog)"
| drain_step: "outbox_step st (drain e st)"

text \<open>
  The life cycle of a row: pending with no attempt, failed after one to four
  attempts, dead after the fifth, published after one to five.
\<close>

definition row_ok :: "outbox_record \<Rightarrow> bool" where
  "row_ok r \<longleftrightarrow>
     (ob_status r = ''pending'' \<and> ob_attempts r = 0 \<and> ob_dead_at r = None
      \<or> ob_status r = ''failed'' \<and> 1 \<le> ob_attempts r \<and> ob_attempts r < maxAttempts \<and> ob_dead_at r = None
      \<or> ob_status r = ''dead'' \<and> ob_attempts r = maxAttempts \<and> ob_dead_at r \<noteq> None
      \<or> ob_status r = ''published'' \<and> 1 \<le> ob_attempts r \<and> ob_attempts r \<le> maxAttempts \<and> ob_dead_at r = None)"

definition table_ok :: "outbox_record list \<Rightarrow> bool" where
  "table_ok rows \<longleftrightarrow> distinct (map ob_id rows) \<and> list_all row_ok rows"

text \<open>A row marked published has an acknowledged publish call with its topic, key and payload.\<close>

definition msg :: "outbox_record \<Rightarrow> string \<times> string \<times> string \<times> json" where
  "msg r = (ob_id r, ob_topic r, ob_key r, ob_payload r)"

text \<open>Steps whose transactions commit, and the exact delivery count they keep.\<close>

definition committed :: "drain_env \<Rightarrow> bool" where
  "committed e \<longleftrightarrow> d_commit_ok e \<and> (\<forall>r. d_exec_ok e r)"

inductive committed_step :: "outbox_record list \<times> outbox_record list \<Rightarrow> outbox_record list \<times> outbox_record list \<Rightarrow> bool" where
  c_insert: "WriteTx cast new_id now rows orgID topic key payload = Ok rows' \<Longrightarrow>
     new_id \<notin> ob_id ` set rows \<Longrightarrow> committed_step (rows, klog) (rows', klog)"
| c_drain: "committed e \<Longrightarrow> committed_step st (drain e st)"

definition deliveries :: "outbox_record list \<Rightarrow> string \<Rightarrow> nat" where
  "deliveries klog i = count_list (map ob_id klog) i"

definition once_inv :: "outbox_record list \<times> outbox_record list \<Rightarrow> bool" where
  "once_inv st \<longleftrightarrow> table_ok (fst st) \<and> ob_id ` set (snd st) \<subseteq> ob_id ` set (fst st) \<and>
     (\<forall>r\<in>set (fst st). deliveries (snd st) (ob_id r) = (if ob_status r = ''published'' then 1 else 0))"

definition outbox_inv :: "outbox_record list \<times> outbox_record list \<Rightarrow> bool" where
  "outbox_inv st \<longleftrightarrow> table_ok (fst st) \<and>
     (\<forall>r\<in>set (fst st). ob_status r = ''published'' \<longrightarrow> msg r \<in> msg ` set (snd st))"

subsection \<open>One drain, row by row\<close>

text \<open>What a drain makes of a row it handles.\<close>

definition settled :: "time \<Rightarrow> string option \<Rightarrow> outbox_record \<Rightarrow> outbox_record" where
  "settled now reply r = (case reply of
      None \<Rightarrow> r\<lparr>ob_status := ''published'', ob_published_at := Some now, ob_attempts := ob_attempts r + 1\<rparr>
    | Some err \<Rightarrow>
        if ob_attempts r + 1 \<ge> maxAttempts
        then r\<lparr>ob_status := ''dead'', ob_last_error := Some err, ob_attempts := ob_attempts r + 1, ob_dead_at := Some now\<rparr>
        else r\<lparr>ob_status := ''failed'', ob_last_error := Some err, ob_attempts := ob_attempts r + 1\<rparr>)"

lemma ob_id_settled [simp]: "ob_id (settled now reply r) = ob_id r"
  by (simp add: settled_def split: option.splits)

lemma msg_settled [simp]: "msg (settled now reply r) = msg r"
  by (simp add: settled_def msg_def split: option.splits)

lemma distinct_key_eq:
  "distinct (map f xs) \<Longrightarrow> x \<in> set xs \<Longrightarrow> y \<in> set xs \<Longrightarrow> f x = f y \<Longrightarrow> x = y"
  by (metis distinct_map inj_on_eq_iff)

lemma settle_rows:
  assumes "distinct (map ob_id rows)" "rec \<in> set rows"
  shows "settle now rec reply rows = map (\<lambda>r. if r = rec then settled now reply rec else r) rows"
  using assms distinct_key_eq [OF assms(1)]
  by (auto simp: settle_def settled_def updateRecord_def mark_published_def Let_def split: option.splits)

lemma drain_loop_log: "snd (snd (drain_loop e recs rows ab klog)) = klog @ filter (\<lambda>r. d_publish e r = None) recs"
  by (induction recs arbitrary: rows ab klog) (auto simp: Let_def)

lemma drain_loop_aborted: "fst (snd (drain_loop e recs rows ab klog)) \<longleftrightarrow> ab \<or> (\<exists>r\<in>set recs. \<not> d_exec_ok e r)"
  by (induction recs arbitrary: rows ab klog) (auto simp: Let_def)

lemma drain_loop_rows:
  assumes "distinct (map ob_id rows)" "distinct (map ob_id recs)" "set recs \<subseteq> set rows"
    and "\<forall>r\<in>set recs. d_exec_ok e r"
  shows "fst (drain_loop e recs rows False klog) =
     map (\<lambda>r. if r \<in> set recs then settled (d_now e) (d_publish e r) r else r) rows"
  using assms
proof (induction recs arbitrary: rows klog)
  case (Cons rec recs)
  let ?new = "settled (d_now e) (d_publish e rec) rec"
  let ?rows = "map (\<lambda>r. if r = rec then ?new else r) rows"
  have rec: "rec \<in> set rows" "rec \<notin> set recs" and ids: "ob_id rec \<notin> ob_id ` set recs"
    using Cons.prems by auto
  then have new: "?new \<notin> set recs" by (metis ob_id_settled image_eqI)
  have d: "distinct (map ob_id ?rows)"
  proof -
    have "map ob_id ?rows = map ob_id rows" by auto
    then show ?thesis using Cons.prems(1) by (simp only:)
  qed
  have "set recs \<subseteq> set ?rows" using Cons.prems(3) rec by auto
  with Cons.IH [OF d] Cons.prems rec new show ?case
    by (auto simp: Let_def settle_rows)
qed simp

lemma fetch_batch_subset: "r \<in> set (fetch_batch locked rows) \<Longrightarrow> r \<in> set rows \<and> eligible r \<and> \<not> locked (ob_id r)"
  unfolding fetch_batch_def by (auto dest!: in_set_takeD)

lemma distinct_fetch_batch: "distinct (map ob_id rows) \<Longrightarrow> distinct (map ob_id (fetch_batch locked rows))"
proof -
  assume d: "distinct (map ob_id rows)"
  have "distinct (map ob_id (sort_key ob_created_at (filter P rows)))" for P
    using d by (simp add: distinct_map inj_on_def)
  then show ?thesis
    unfolding fetch_batch_def take_map [symmetric] by (rule distinct_take)
qed

definition handled :: "drain_env \<Rightarrow> outbox_record list \<Rightarrow> outbox_record list" where
  "handled e rows = (if d_begin_ok e \<and> d_query_ok e then filter (d_scan_ok e) (fetch_batch (d_locked e) rows) else [])"

lemma handled_props:
  assumes "distinct (map ob_id rows)"
  shows "distinct (map ob_id (handled e rows))" "set (handled e rows) \<subseteq> set rows"
    "\<forall>r\<in>set (handled e rows). eligible r"
  using assms distinct_fetch_batch [OF assms] fetch_batch_subset
  by (auto simp: handled_def distinct_map_filter)

text \<open>The drain in closed form.\<close>

lemma drain_eq:
  assumes "distinct (map ob_id rows)"
  shows "drain e (rows, klog) =
    (if d_commit_ok e \<and> (\<forall>r\<in>set (handled e rows). d_exec_ok e r)
     then map (\<lambda>r. if r \<in> set (handled e rows) then settled (d_now e) (d_publish e r) r else r) rows else rows,
     klog @ filter (\<lambda>r. d_publish e r = None) (handled e rows))"
proof (cases "handled e rows = []")
  case True
  then show ?thesis by (auto simp: drain_def handled_def Let_def split: if_splits)
next
  case False
  let ?recs = "handled e rows"
  have "drain e (rows, klog) = (case drain_loop e ?recs rows False klog of
      (rows', aborted, klog') \<Rightarrow> (if aborted \<or> \<not> d_commit_ok e then rows else rows', klog'))"
    using False by (auto simp: drain_def handled_def Let_def split: if_splits)
  then show ?thesis
    using drain_loop_log [of e ?recs rows False klog] drain_loop_aborted [of e ?recs rows False klog]
      drain_loop_rows [OF assms handled_props(1,2) [OF assms], of e e klog]
    by (cases "drain_loop e ?recs rows False klog") auto
qed

lemma WriteTx_Ok: "WriteTx cast i now rows o' t k p = Ok rows' \<Longrightarrow>
   \<exists>r. rows' = rows @ [r] \<and> ob_id r = i \<and> row_ok r \<and> ob_status r = ''pending'' \<and> msg r = (i, t, k, p)"
  by (auto simp: WriteTx_def row_ok_def msg_def split: option.splits)

lemma row_ok_settled: "row_ok r \<Longrightarrow> eligible r \<Longrightarrow> row_ok (settled now reply r)"
  by (auto simp: row_ok_def eligible_def settled_def maxAttempts_def split: option.splits)

lemma table_ok_drain: "table_ok rows \<Longrightarrow> table_ok (fst (drain e (rows, klog)))"
  using handled_props [of rows e]
  by (auto simp: table_ok_def drain_eq list_all_iff row_ok_settled comp_def if_distrib [of ob_id] cong: if_cong)

lemma settled_published: "ob_status (settled now reply r) = ''published'' \<longleftrightarrow> reply = None"
  by (auto simp: settled_def split: option.splits)

lemma outbox_inv_drain: "outbox_inv st \<Longrightarrow> outbox_inv (drain e st)"
proof -
  assume inv: "outbox_inv st"
  obtain rows klog where st: "st = (rows, klog)" by fastforce
  with inv have d: "distinct (map ob_id rows)" by (simp add: outbox_inv_def table_ok_def)
  show ?thesis
    using inv table_ok_drain [of rows e klog] unfolding outbox_inv_def st
    by (auto simp: drain_eq [OF d] settled_published split: if_splits)
qed

lemma outbox_step_inv: "outbox_step st st' \<Longrightarrow> outbox_inv st \<Longrightarrow> outbox_inv st'"
proof (induction rule: outbox_step.induct)
  case (insert_step cast new_id now rows orgID topic key payload rows' klog)
  then show ?case by (auto dest!: WriteTx_Ok simp: outbox_inv_def table_ok_def)
qed (rule outbox_inv_drain)

interpretation outbox: step_invariant outbox_step outbox_inv
  by unfold_locales (auto intro: outbox_step_inv)

subsection \<open>Counting deliveries\<close>

lemma deliveries_append: "deliveries (k @ k') i = deliveries k i + deliveries k' i"
  by (simp add: deliveries_def)

lemma deliveries_distinct:
  "distinct (map ob_id xs) \<Longrightarrow> deliveries (filter P xs) i = (if i \<in> ob_id ` set (filter P xs) then 1 else 0)"
  unfolding deliveries_def
  by (induction xs) (auto simp: count_list_0_iff)

lemma once_inv_drain:
  assumes inv: "once_inv st" and e: "committed e"
  shows "once_inv (drain e st)"
proof -
  obtain rows klog where st: "st = (rows, klog)" by fastforce
  let ?h = "handled e rows"
  let ?ok = "\<lambda>r. d_publish e r = None"
  from inv st have tab: "table_ok rows" and d: "distinct (map ob_id rows)"
    and sub: "ob_id ` set klog \<subseteq> ob_id ` set rows"
    and del: "\<And>r. r \<in> set rows \<Longrightarrow> deliveries klog (ob_id r) = (if ob_status r = ''published'' then 1 else 0)"
    by (auto simp: once_inv_def table_ok_def)
  note h = handled_props [OF d, of e]
  have eq: "drain e st = (map (\<lambda>r. if r \<in> set ?h then settled (d_now e) (d_publish e r) r else r) rows,
      klog @ filter ?ok ?h)"
    using e st by (simp add: drain_eq [OF d] committed_def)
  have new: "deliveries (filter ?ok ?h) (ob_id r) = (if r \<in> set ?h \<and> ?ok r then 1 else 0)"
    if "r \<in> set rows" for r
    using that h(2) distinct_key_eq [OF d, of r] by (auto simp: deliveries_distinct [OF h(1)])
  have unpub: "ob_status r \<noteq> ''published''" if "r \<in> set ?h" for r
    using that h(3) by (auto simp: eligible_def)
  have "map ob_id (fst (drain e st)) = map ob_id rows" by (auto simp: eq)
  then have ids: "ob_id ` set (fst (drain e st)) = ob_id ` set rows" by (metis image_set)
  have "ob_id ` set (snd (drain e st)) \<subseteq> ob_id ` set (fst (drain e st))"
    using sub h(2) unfolding ids by (auto simp: eq)
  moreover have "\<forall>r\<in>set (fst (drain e st)).
      deliveries (snd (drain e st)) (ob_id r) = (if ob_status r = ''published'' then 1 else 0)"
    using unpub by (auto simp: eq deliveries_append new del settled_published split: if_splits)
  ultimately show ?thesis
    using table_ok_drain [OF tab, of e klog] st by (simp add: once_inv_def)
qed

lemma committed_step_inv: "committed_step st st' \<Longrightarrow> once_inv st \<Longrightarrow> once_inv st'"
proof (induction rule: committed_step.induct)
  case (c_insert cast new_id now rows orgID topic key payload rows' klog)
  then have "deliveries klog new_id = 0"
    by (auto simp: once_inv_def deliveries_def count_list_0_iff)
  with c_insert show ?case by (auto dest!: WriteTx_Ok simp: once_inv_def table_ok_def)
qed (rule once_inv_drain)

interpretation once: step_invariant committed_step once_inv
  by unfold_locales (rule committed_step_inv)

subsection \<open>Properties\<close>

text \<open>
  C12. In every state the writers and relays can reach from the empty table,
  whatever calls fail, each outbox row is in its life cycle (pending with no
  attempt, failed after 1 to 4 attempts, dead exactly after the fifth with
  dead_at set, published after 1 to 5), and every row marked published has an
  acknowledged publish call with its topic, key and payload: the relay never
  marks a row it has not delivered.
\<close>

theorem outbox_life_cycle:
  assumes "outbox_step\<^sup>*\<^sup>* ([], []) (rows, klog)"
  shows "distinct (map ob_id rows) \<and> list_all row_ok rows \<and>
    (\<forall>r\<in>set rows. ob_status r = ''published'' \<longrightarrow> msg r \<in> msg ` set klog)"
  using outbox.reach_inv [OF assms] by (simp add: outbox_inv_def table_ok_def)

definition all_ok :: drain_env where
  "all_ok = \<lparr>d_begin_ok = True, d_query_ok = True, d_locked = (\<lambda>_. False), d_scan_ok = (\<lambda>_. True),
     d_publish = (\<lambda>_. None), d_exec_ok = (\<lambda>_. True), d_commit_ok = True, d_now = 7\<rparr>"

definition sample_row :: outbox_record where
  "sample_row = \<lparr>ob_id = ''r1'', ob_org_id = ''o1'', ob_topic = ''policy.changes'', ob_key = ''p1'',
     ob_payload = JNull, ob_status = ''pending'', ob_attempts = 0, ob_last_error = None,
     ob_dead_at = None, ob_published_at = None, ob_created_at = 3\<rparr>"

lemma sample_insert: "WriteTx Some ''r1'' 3 [] ''o1'' ''policy.changes'' ''p1'' JNull = Ok [sample_row]"
  by (simp add: WriteTx_def sample_row_def)

lemma sample_drain: "drain all_ok ([sample_row], []) = ([settled 7 None sample_row], [sample_row])"
  by (simp add: drain_eq handled_def fetch_batch_def eligible_def all_ok_def sample_row_def)

theorem outbox_life_cycle_witness:
  "list_all row_ok [settled 7 None sample_row] \<and> msg (settled 7 None sample_row) \<in> msg ` set [sample_row]"
proof -
  have "outbox_step ([], []) ([sample_row], [])"
    using sample_insert by (rule outbox_step.insert_step) simp
  moreover have "outbox_step ([sample_row], []) ([settled 7 None sample_row], [sample_row])"
    using outbox_step.drain_step [of "([sample_row], [])" all_ok] by (simp only: sample_drain)
  ultimately have "outbox_step\<^sup>*\<^sup>* ([], []) ([settled 7 None sample_row], [sample_row])" by auto
  from outbox_life_cycle [OF this] show ?thesis by (simp add: settled_def)
qed



text \<open>
  A drain whose commit fails after the broker acknowledged a message leaves
  the row pending, so the next drain delivers the same row again: delivery is
  at least once, not exactly once.
\<close>

theorem outbox_redelivers_after_failed_commit:
  "let e = all_ok\<lparr>d_commit_ok := False\<rparr>;
       st = drain all_ok (drain e ([sample_row], []))
   in deliveries (snd st) (ob_id sample_row) = 2"
  by (simp add: drain_eq handled_def fetch_batch_def eligible_def all_ok_def sample_row_def deliveries_def)

text \<open>
  What one committed drain does to the table, row by row: the rows it
  fetched (at most 100, oldest first, none published, dead or locked by
  another relay) become published, or count one more attempt and become failed
  or, at the fifth attempt, dead; every other row is untouched; and the log
  grows by exactly the fetched rows the broker accepted.
\<close>

theorem drain_row_by_row:
  assumes "distinct (map ob_id rows)" "committed e" "d_begin_ok e" "d_query_ok e" "\<And>r. d_scan_ok e r"
  defines "batch \<equiv> fetch_batch (d_locked e) rows"
  shows "drain e (rows, klog) =
      (map (\<lambda>r. if r \<in> set batch then settled (d_now e) (d_publish e r) r else r) rows,
       klog @ filter (\<lambda>r. d_publish e r = None) batch)
    \<and> length batch \<le> 100 \<and> sorted (map ob_created_at batch)
    \<and> (\<forall>r\<in>set batch. r \<in> set rows \<and> eligible r \<and> \<not> d_locked e (ob_id r))"
proof (intro conjI)
  have h: "handled e rows = batch"
    using assms(3-5) by (simp add: handled_def batch_def)
  show "drain e (rows, klog) =
      (map (\<lambda>r. if r \<in> set batch then settled (d_now e) (d_publish e r) r else r) rows,
       klog @ filter (\<lambda>r. d_publish e r = None) batch)"
    using assms(2) by (simp add: drain_eq [OF assms(1)] committed_def h)
  show "length batch \<le> 100" by (simp add: batch_def fetch_batch_def)
  show "sorted (map ob_created_at batch)"
    unfolding batch_def fetch_batch_def take_map [symmetric] by (rule sorted_wrt_take) simp
  show "\<forall>r\<in>set batch. r \<in> set rows \<and> eligible r \<and> \<not> d_locked e (ob_id r)"
    unfolding batch_def using fetch_batch_subset by blast
qed

theorem drain_row_by_row_witness:
  "drain (all_ok\<lparr>d_publish := (\<lambda>_. Some ''down'')\<rparr>) ([sample_row\<lparr>ob_attempts := 4, ob_status := ''failed''\<rparr>], []) =
     ([sample_row\<lparr>ob_attempts := 5, ob_status := ''dead'', ob_last_error := Some ''down'', ob_dead_at := Some 7\<rparr>], [])"
proof -
  let ?r = "sample_row\<lparr>ob_attempts := 4, ob_status := ''failed''\<rparr>"
  let ?e = "all_ok\<lparr>d_publish := (\<lambda>_. Some ''down'')\<rparr>"
  have b: "fetch_batch (d_locked ?e) [?r] = [?r]"
    by (simp add: fetch_batch_def eligible_def all_ok_def sample_row_def maxAttempts_def)
  have "drain ?e ([?r], []) =
      (map (\<lambda>r. if r \<in> set [?r] then settled (d_now ?e) (d_publish ?e r) r else r) [?r],
       [] @ filter (\<lambda>r. d_publish ?e r = None) [?r])"
    by (rule drain_row_by_row [of "[?r]" ?e "[]", unfolded b, THEN conjunct1])
      (simp_all add: committed_def all_ok_def)
  then show ?thesis by (simp add: settled_def all_ok_def sample_row_def maxAttempts_def)
qed

end
