(* ===== verification/Policy_Store.thy ===== *)
theory Policy_Store
  imports Policy_Engine Rls Outbox
begin

text \<open>
  The repository of the policy service
  (services/policy/pkg/repository/repository.go): its SQL statements as
  operations on row lists, under the row-level-security policies and the
  constraints of the migrations.  The connection each statement runs on is
  explicit, because what a statement sees depends on the \<open>app.org_id\<close> setting
  of that connection.  UUID columns hold canonical texts; a parameter that is
  no UUID makes its statement fail.  Ids and times drawn by the database or by
  \<open>uuid.New\<close> are arguments.
\<close>

subsection \<open>Tables\<close>

record Assignment =
  asg_ID :: string
  asg_OrgID :: string
  asg_PolicyID :: string
  asg_SubjectID :: string
  asg_SubjectType :: string
  asg_CreatedAt :: time

record EvalLog =
  log_ID :: string
  log_OrgID :: string
  log_SubjectID :: string
  log_Action :: string
  log_Resource :: string
  log_Effect :: string
  log_MatchedPolicyIDs :: "string list option"
  log_CacheHit :: string
  log_LatencyMs :: int
  log_EvaluatedAt :: time

record policy_db =
  policies :: "Policy list"
  policy_assignments :: "Assignment list"
  policy_eval_log :: "EvalLog list"
  outbox_records :: "outbox_record list"

datatype db_error = ErrNotFound | DbErr string

text \<open>Which calls of the driver fail.\<close>

record db_faults =
  f_begin :: bool
  f_acquire :: bool
  f_setvar :: bool
  f_query :: bool
  f_scan :: "string \<Rightarrow> bool"
  f_commit :: bool

definition no_faults :: db_faults where
  "no_faults = \<lparr>f_begin = False, f_acquire = False, f_setvar = False, f_query = False,
     f_scan = (\<lambda>_. False), f_commit = False\<rparr>"

subsection \<open>Connections\<close>

text \<open>withOrgContext: a pooled connection, the setting, and the callback on that connection.\<close>

definition withOrgContext :: "go_ctx \<Rightarrow> db_faults \<Rightarrow> (pg_conn \<Rightarrow> (db_error, 'a) result) \<Rightarrow> (db_error, 'a) result" where
  "withOrgContext ctx f fn =
     (let orgID = Rls.OrgID ctx in
      if orgID = [] then Err (DbErr ''withOrgContext: org_id missing from context'')
      else if f_acquire f then Err (DbErr ''withOrgContext: acquire connection'')
      else if f_setvar f then Err (DbErr ''withOrgContext: set session var'')
      else fn (SetSessionVar idle_conn orgID))"

text \<open>The rows of a result, scanned one by one: a scan error ends the loop.\<close>

fun scanPolicies :: "db_faults \<Rightarrow> Policy list \<Rightarrow> (db_error, Policy list) result" where
  "scanPolicies f [] = Ok []"
| "scanPolicies f (p # ps) =
     (if f_scan f (pol_ID p) then Err (DbErr ''scan policy'')
      else (case scanPolicies f ps of Inl e \<Rightarrow> Err e | Inr qs \<Rightarrow> Ok (p # qs)))"

definition visible_policies :: "pg_env \<Rightarrow> pg_conn \<Rightarrow> policy_db \<Rightarrow> Policy list" where
  "visible_policies env c db = filter (\<lambda>p. rls_visible env c (pol_OrgID p)) (policies db)"

definition visible_assignments :: "pg_env \<Rightarrow> pg_conn \<Rightarrow> policy_db \<Rightarrow> Assignment list" where
  "visible_assignments env c db = filter (\<lambda>a. rls_visible env c (asg_OrgID a)) (policy_assignments db)"

subsection \<open>Reading policies\<close>

definition ListPolicies :: "pg_env \<Rightarrow> go_ctx \<Rightarrow> db_faults \<Rightarrow> policy_db \<Rightarrow> string \<Rightarrow> (db_error, Policy list) result" where
  "ListPolicies env ctx f db orgID = withOrgContext ctx f (\<lambda>conn.
     if f_query f then Err (DbErr ''list policies'')
     else scanPolicies f (sort_key (\<lambda>p. - pol_CreatedAt p) (visible_policies env conn db)))"

definition GetPolicy :: "pg_env \<Rightarrow> go_ctx \<Rightarrow> db_faults \<Rightarrow> policy_db \<Rightarrow> string \<Rightarrow> string \<Rightarrow> (db_error, Policy) result" where
  "GetPolicy env ctx f db orgID policyID = withOrgContext ctx f (\<lambda>conn.
     case pg_uuid env policyID of
       None \<Rightarrow> Err (DbErr ''get policy'')
     | Some i \<Rightarrow>
         if f_query f then Err (DbErr ''get policy'')
         else (case find (\<lambda>p. pol_ID p = i) (visible_policies env conn db) of
                 None \<Rightarrow> Err ErrNotFound
               | Some p \<Rightarrow> Ok p))"

text \<open>\<open>FROM policies p LEFT JOIN policy_assignments pa ON p.id = pa.policy_id\<close>\<close>

definition left_join :: "Policy list \<Rightarrow> Assignment list \<Rightarrow> (Policy \<times> Assignment option) list" where
  "left_join ps as = concat (map (\<lambda>p.
     case filter (\<lambda>a. asg_PolicyID a = pol_ID p) as of
       [] \<Rightarrow> [(p, None)]
     | xs \<Rightarrow> map (\<lambda>a. (p, Some a)) xs) ps)"

text \<open>The WHERE condition of the two queries of GetMatchingPolicies.\<close>

fun applies_to :: "string \<Rightarrow> string list \<Rightarrow> Assignment option \<Rightarrow> bool" where
  "applies_to subj groups None = True"
| "applies_to subj groups (Some a) =
     (asg_SubjectID a = subj \<and> asg_SubjectType a = ''user'' \<or>
      asg_SubjectID a \<in> set groups \<and> asg_SubjectType a = ''group'')"

fun cast_all :: "(string \<Rightarrow> string option) \<Rightarrow> string list \<Rightarrow> string list option" where
  "cast_all c [] = Some []"
| "cast_all c (g # gs) = (case c g of None \<Rightarrow> None | Some u \<Rightarrow> map_option ((#) u) (cast_all c gs))"

definition GetMatchingPolicies :: "pg_env \<Rightarrow> go_ctx \<Rightarrow> db_faults \<Rightarrow> policy_db \<Rightarrow>
    string \<Rightarrow> string \<Rightarrow> string list \<Rightarrow> (db_error, Policy list) result" where
  "GetMatchingPolicies env ctx f db orgID subjectID userGroups = withOrgContext ctx f (\<lambda>conn.
     let rows = left_join (visible_policies env conn db) (visible_assignments env conn db) in
     if \<not> uuid_parse env subjectID then
       (case pg_uuid env orgID of
          None \<Rightarrow> Err (DbErr ''get global policies'')
        | Some org \<Rightarrow>
            if f_query f then Err (DbErr ''get global policies'')
            else scanPolicies f (sort_key pol_CreatedAt
              (map fst (filter (\<lambda>(p, pa). pol_OrgID p = org \<and> pa = None) rows))))
     else
       (let validGroups = filter (uuid_parse env) userGroups in
        case (pg_uuid env orgID, pg_uuid env subjectID, cast_all (pg_uuid env) validGroups) of
          (Some org, Some subj, Some groups) \<Rightarrow>
            if f_query f then Err (DbErr ''get matching policies'')
            else scanPolicies f (sort_key pol_CreatedAt
              (remdups (map fst (filter (\<lambda>(p, pa). pol_OrgID p = org \<and> applies_to subj groups pa) rows))))
        | _ \<Rightarrow> Err (DbErr ''get matching policies'')))"

subsection \<open>Writing policies inside a transaction\<close>

definition tx_conn :: "string \<Rightarrow> pg_conn" where
  "tx_conn orgID = TxSetSessionVar (begin_tx idle_conn) orgID"

definition max_int4 :: int where "max_int4 = 2147483647"

definition CreatePolicyTx :: "pg_env \<Rightarrow> db_faults \<Rightarrow> policy_db \<Rightarrow> string \<Rightarrow> time \<Rightarrow>
    string \<Rightarrow> string \<Rightarrow> string \<Rightarrow> raw_json \<Rightarrow> (db_error, Policy \<times> policy_db) result" where
  "CreatePolicyTx env f db new_id now orgID name description logic =
     (if f_setvar f then Err (DbErr ''set rls'')
      else (case (pg_uuid env orgID, logic) of
        (Some org, Some j) \<Rightarrow>
          if f_query f \<or> \<not> rls_visible env (tx_conn orgID) org \<or> new_id \<in> pol_ID ` set (policies db)
          then Err (DbErr ''create policy'')
          else let p = \<lparr>pol_ID = new_id, pol_OrgID = org, pol_Name = name, pol_Description = description,
                 pol_Logic = Some j, pol_Version = 1, pol_CreatedAt = now, pol_UpdatedAt = now\<rparr>
               in Ok (p, db\<lparr>policies := policies db @ [p]\<rparr>)
      | _ \<Rightarrow> Err (DbErr ''create policy'')))"

definition UpdatePolicyTx :: "pg_env \<Rightarrow> db_faults \<Rightarrow> policy_db \<Rightarrow> time \<Rightarrow>
    string \<Rightarrow> string \<Rightarrow> string \<Rightarrow> string \<Rightarrow> raw_json \<Rightarrow> (db_error, Policy \<times> policy_db) result" where
  "UpdatePolicyTx env f db now orgID policyID name description logic =
     (if f_setvar f then Err (DbErr ''set rls'')
      else (case (pg_uuid env policyID, pg_uuid env orgID, logic) of
        (Some i, Some org, Some j) \<Rightarrow>
          if f_query f then Err (DbErr ''update policy'')
          else (case find (\<lambda>p. pol_ID p = i \<and> pol_OrgID p = org) (visible_policies env (tx_conn orgID) db) of
            None \<Rightarrow> Err ErrNotFound
          | Some p \<Rightarrow>
              if pol_Version p \<ge> max_int4 then Err (DbErr ''update policy'')
              else let p' = p\<lparr>pol_Name := name, pol_Description := description, pol_Logic := Some j,
                     pol_Version := pol_Version p + 1, pol_UpdatedAt := now\<rparr>
                   in Ok (p', db\<lparr>policies := map (\<lambda>q. if pol_ID q = i \<and> pol_OrgID q = org then p' else q) (policies db)\<rparr>))
      | _ \<Rightarrow> Err (DbErr ''update policy'')))"

text \<open>The DELETE; the assignments of a deleted policy go with it (ON DELETE CASCADE).\<close>

definition DeletePolicyTx :: "pg_env \<Rightarrow> db_faults \<Rightarrow> policy_db \<Rightarrow> string \<Rightarrow> string \<Rightarrow> (db_error, policy_db) result" where
  "DeletePolicyTx env f db orgID policyID =
     (if f_setvar f then Err (DbErr ''set rls'')
      else (case (pg_uuid env policyID, pg_uuid env orgID) of
        (Some i, Some org) \<Rightarrow>
          if f_query f then Err (DbErr ''delete policy'')
          else (let hit = (\<lambda>p. pol_ID p = i \<and> pol_OrgID p = org \<and> rls_visible env (tx_conn orgID) (pol_OrgID p)) in
            if filter hit (policies db) = [] then Err ErrNotFound
            else Ok (db\<lparr>policies := filter (\<lambda>p. \<not> hit p) (policies db),
                   policy_assignments := filter (\<lambda>a. asg_PolicyID a \<noteq> i) (policy_assignments db)\<rparr>))
      | _ \<Rightarrow> Err (DbErr ''delete policy'')))"

subsection \<open>Assignments\<close>

definition ListAssignments :: "pg_env \<Rightarrow> go_ctx \<Rightarrow> db_faults \<Rightarrow> policy_db \<Rightarrow> string \<Rightarrow> (db_error, Assignment list) result" where
  "ListAssignments env ctx f db orgID = withOrgContext ctx f (\<lambda>conn.
     if f_query f then Err (DbErr ''list assignments'')
     else if (\<exists>a\<in>set (visible_assignments env conn db). f_scan f (asg_ID a)) then Err (DbErr ''scan'')
     else Ok (visible_assignments env conn db))"

text \<open>The foreign key is checked against the whole policies table, whatever the tenant.\<close>

definition CreateAssignment :: "pg_env \<Rightarrow> go_ctx \<Rightarrow> db_faults \<Rightarrow> policy_db \<Rightarrow> string \<Rightarrow> time \<Rightarrow>
    string \<Rightarrow> string \<Rightarrow> string \<Rightarrow> string \<Rightarrow> (db_error, Assignment \<times> policy_db) result" where
  "CreateAssignment env ctx f db new_id now orgID policyID subjectID subjectType = withOrgContext ctx f (\<lambda>conn.
     case (pg_uuid env orgID, pg_uuid env policyID, pg_uuid env subjectID) of
       (Some org, Some pid, Some subj) \<Rightarrow>
         if f_query f \<or> \<not> rls_visible env conn org \<or> pid \<notin> pol_ID ` set (policies db)
         then Err (DbErr ''insert assignment'')
         else let a = \<lparr>asg_ID = new_id, asg_OrgID = org, asg_PolicyID = pid, asg_SubjectID = subj,
                asg_SubjectType = subjectType, asg_CreatedAt = now\<rparr>
              in Ok (a, db\<lparr>policy_assignments := policy_assignments db @ [a]\<rparr>)
     | _ \<Rightarrow> Err (DbErr ''insert assignment''))"

definition DeleteAssignment :: "pg_env \<Rightarrow> go_ctx \<Rightarrow> db_faults \<Rightarrow> policy_db \<Rightarrow> string \<Rightarrow> string \<Rightarrow> (db_error, policy_db) result" where
  "DeleteAssignment env ctx f db orgID assignmentID = withOrgContext ctx f (\<lambda>conn.
     case (pg_uuid env assignmentID, pg_uuid env orgID) of
       (Some i, Some org) \<Rightarrow>
         if f_query f then Err (DbErr ''delete assignment'')
         else (let hit = (\<lambda>a. asg_ID a = i \<and> asg_OrgID a = org \<and> rls_visible env conn (asg_OrgID a)) in
           if filter hit (policy_assignments db) = [] then Err ErrNotFound
           else Ok (db\<lparr>policy_assignments := filter (\<lambda>a. \<not> hit a) (policy_assignments db)\<rparr>))
     | _ \<Rightarrow> Err (DbErr ''delete assignment''))"

subsection \<open>Evaluation log\<close>

text \<open>
  The driver writes a nil slice as NULL, which the NOT NULL column
  \<open>matched_policy_ids\<close> refuses.
\<close>

definition WriteEvalLog :: "pg_env \<Rightarrow> go_ctx \<Rightarrow> db_faults \<Rightarrow> policy_db \<Rightarrow> string \<Rightarrow> time \<Rightarrow> EvalLog \<Rightarrow> (db_error, policy_db) result" where
  "WriteEvalLog env ctx f db new_id now log = withOrgContext ctx f (\<lambda>conn.
     case (pg_uuid env (log_OrgID log), Option.bind (log_MatchedPolicyIDs log) (cast_all (pg_uuid env))) of
       (Some org, Some ids) \<Rightarrow>
         if f_query f \<or> \<not> rls_visible env conn org then Err (DbErr ''insert eval log'')
         else Ok (db\<lparr>policy_eval_log := policy_eval_log db @
                [log\<lparr>log_ID := new_id, log_OrgID := org, log_MatchedPolicyIDs := Some ids, log_EvaluatedAt := now\<rparr>]\<rparr>)
     | _ \<Rightarrow> Err (DbErr ''insert eval log''))"

definition ListEvalLogs :: "pg_env \<Rightarrow> go_ctx \<Rightarrow> db_faults \<Rightarrow> policy_db \<Rightarrow> string \<Rightarrow> int \<Rightarrow> (db_error, EvalLog list) result" where
  "ListEvalLogs env ctx f db orgID limit =
     (let lim = (if limit \<le> 0 \<or> limit > 1000 then 100 else limit) in
      withOrgContext ctx f (\<lambda>conn.
        case pg_uuid env orgID of
          None \<Rightarrow> Err (DbErr ''list eval logs'')
        | Some org \<Rightarrow>
            if f_query f then Err (DbErr ''list eval logs'')
            else let rows = take (nat lim) (sort_key (\<lambda>l. - log_EvaluatedAt l)
                   (filter (\<lambda>l. log_OrgID l = org \<and> rls_visible env conn (log_OrgID l)) (policy_eval_log db)))
                 in if (\<exists>l\<in>set rows. f_scan f (log_ID l)) then Err (DbErr ''scan eval log'') else Ok rows))"

subsection \<open>Lemmas\<close>

definition sound :: "db_faults \<Rightarrow> bool" where
  "sound f \<longleftrightarrow> \<not> f_acquire f \<and> \<not> f_setvar f \<and> \<not> f_query f \<and> (\<forall>i. \<not> f_scan f i)"

lemma scanPolicies_sound [simp]: "(\<And>i. \<not> f_scan f i) \<Longrightarrow> scanPolicies f ps = Ok ps"
  by (induction ps) auto

lemma scanPolicies_Ok: "scanPolicies f ps = Ok qs \<Longrightarrow> qs = ps"
  by (induction ps arbitrary: qs) (auto split: if_splits sum.splits)

lemma withOrgContext_sound [simp]:
  "sound f \<Longrightarrow> Rls.OrgID ctx \<noteq> [] \<Longrightarrow> withOrgContext ctx f fn = fn (SetSessionVar idle_conn (Rls.OrgID ctx))"
  by (simp add: withOrgContext_def sound_def)

lemma withOrgContext_Ok: "withOrgContext ctx f fn = Ok x \<Longrightarrow>
   fn (SetSessionVar idle_conn (Rls.OrgID ctx)) = Ok x"
  by (simp add: withOrgContext_def Let_def split: if_splits)

lemma visible_policies_bypass [simp]: "\<not> rls_enforced env \<Longrightarrow> visible_policies env c db = policies db"
  by (simp add: visible_policies_def)

lemma visible_assignments_bypass [simp]: "\<not> rls_enforced env \<Longrightarrow> visible_assignments env c db = policy_assignments db"
  by (simp add: visible_assignments_def)

lemma visible_policies_enforced [simp]:
  "rls_enforced env \<Longrightarrow> visible_policies env (SetSessionVar idle_conn o') db = []"
  by (simp add: visible_policies_def invisible_without_tx)

lemma left_join_iff: "(p, pa) \<in> set (left_join ps as) \<longleftrightarrow> p \<in> set ps \<and>
   (case pa of None \<Rightarrow> (\<forall>a\<in>set as. asg_PolicyID a \<noteq> pol_ID p)
     | Some a \<Rightarrow> a \<in> set as \<and> asg_PolicyID a = pol_ID p)"
proof -
  have row: "(p, pa) \<in> set (case filter (\<lambda>a. asg_PolicyID a = pol_ID q) as of
       [] \<Rightarrow> [(q, None)] | xs \<Rightarrow> map (\<lambda>a. (q, Some a)) xs) \<longleftrightarrow> p = q \<and>
     (case pa of None \<Rightarrow> (\<forall>a\<in>set as. asg_PolicyID a \<noteq> pol_ID p)
       | Some a \<Rightarrow> a \<in> set as \<and> asg_PolicyID a = pol_ID p)" for q
  proof (cases "filter (\<lambda>a. asg_PolicyID a = pol_ID q) as")
    case Nil
    then have "\<forall>a\<in>set as. asg_PolicyID a \<noteq> pol_ID q" by (simp add: filter_empty_conv)
    with Nil show ?thesis by (auto split: option.splits)
  next
    case (Cons x xs)
    then have "set (x # xs) = {a \<in> set as. asg_PolicyID a = pol_ID q}" by (metis set_filter)
    with Cons show ?thesis by (cases pa) auto
  qed
  then show ?thesis by (auto simp: left_join_def)
qed

definition other_tenants :: "string \<Rightarrow> policy_db \<Rightarrow> Policy list" where
  "other_tenants org db = filter (\<lambda>p. pol_OrgID p \<noteq> org) (policies db)"

lemma find_pred: "find P xs = Some x \<Longrightarrow> P x"
  by (auto dest: find_Some_iff_set)

lemma CreatePolicyTx_isolated:
  "CreatePolicyTx env f db i now o' n d l = Ok (p, db') \<Longrightarrow>
   pg_uuid env o' = Some (pol_OrgID p) \<and> policies db' = policies db @ [p] \<and> pol_Version p = 1 \<and> pol_ID p = i
   \<and> other_tenants (pol_OrgID p) db' = other_tenants (pol_OrgID p) db \<and> outbox_records db' = outbox_records db
   \<and> i \<notin> pol_ID ` set (policies db)"
  by (auto simp: CreatePolicyTx_def other_tenants_def Let_def split: if_splits option.splits)

lemma UpdatePolicyTx_isolated:
  "UpdatePolicyTx env f db now o' i n d l = Ok (p, db') \<Longrightarrow>
   pg_uuid env o' = Some (pol_OrgID p) \<and> pg_uuid env i = Some (pol_ID p)
   \<and> other_tenants (pol_OrgID p) db' = other_tenants (pol_OrgID p) db \<and> outbox_records db' = outbox_records db
   \<and> (\<exists>q\<in>set (policies db). pol_ID q = pol_ID p \<and> pol_OrgID q = pol_OrgID p \<and> pol_Version p = pol_Version q + 1)"
  by (auto simp: UpdatePolicyTx_def other_tenants_def visible_policies_def Let_def filter_map_update_other
      dest!: find_Some_iff_set split: if_splits option.splits)

lemma DeletePolicyTx_isolated:
  "DeletePolicyTx env f db o' i = Ok db' \<Longrightarrow> \<exists>org j. pg_uuid env o' = Some org \<and> pg_uuid env i = Some j
   \<and> other_tenants org db' = other_tenants org db \<and> outbox_records db' = outbox_records db
   \<and> (\<exists>p\<in>set (policies db). pol_ID p = j \<and> pol_OrgID p = org)
   \<and> (\<forall>p\<in>set (policies db'). \<not> (pol_ID p = j \<and> pol_OrgID p = org))"
  by (auto simp: DeletePolicyTx_def other_tenants_def Let_def filter_empty_conv rls_visible_def
      intro: filter_cong split: if_splits option.splits)

subsection \<open>Properties\<close>

text \<open>The policies of a tenant that concern a subject: unassigned ones, and those assigned to it or to one of its groups.\<close>

definition concerns :: "policy_db \<Rightarrow> string \<Rightarrow> string list \<Rightarrow> Policy \<Rightarrow> bool" where
  "concerns db subj groups p \<longleftrightarrow>
     (\<forall>a\<in>set (policy_assignments db). asg_PolicyID a \<noteq> pol_ID p)
     \<or> (\<exists>a\<in>set (policy_assignments db). asg_PolicyID a = pol_ID p \<and> applies_to subj groups (Some a))"

lemma matching_set:
  assumes "\<not> rls_enforced env" "sound f" "Rls.OrgID ctx \<noteq> []" "uuid_parse env subjectID"
    and "pg_uuid env orgID = Some org" "pg_uuid env subjectID = Some subj"
    and "cast_all (pg_uuid env) (filter (uuid_parse env) userGroups) = Some groups"
  shows "\<exists>ps. GetMatchingPolicies env ctx f db orgID subjectID userGroups = Ok ps
    \<and> distinct ps \<and> sorted (map pol_CreatedAt ps)
    \<and> set ps = {p \<in> set (policies db). pol_OrgID p = org \<and> concerns db subj groups p}"
proof -
  let ?rows = "left_join (policies db) (policy_assignments db)"
  let ?ps = "remdups (map fst (filter (\<lambda>(p, pa). pol_OrgID p = org \<and> applies_to subj groups pa) ?rows))"
  have "set ?ps = {p \<in> set (policies db). pol_OrgID p = org \<and> concerns db subj groups p}"
    by (auto simp: left_join_iff concerns_def image_iff split: option.splits) force+
  moreover have "GetMatchingPolicies env ctx f db orgID subjectID userGroups = Ok (sort_key pol_CreatedAt ?ps)"
    using assms by (simp add: GetMatchingPolicies_def Let_def sound_def)
  ultimately show ?thesis by simp
qed


definition open_env :: pg_env where
  "open_env = \<lparr>rls_enforced = False, pg_uuid = Some, uuid_parse = (\<lambda>_. True)\<rparr>"

definition sample_ctx :: go_ctx where
  "sample_ctx = WithOrgID \<lparr>rls_org = None\<rparr> ''o1''"

definition sample_assignment :: Assignment where
  "sample_assignment = \<lparr>asg_ID = ''a1'', asg_OrgID = ''o1'', asg_PolicyID = ''p1'', asg_SubjectID = ''u1'',
     asg_SubjectType = ''user'', asg_CreatedAt = 0\<rparr>"

definition sample_db :: policy_db where
  "sample_db = \<lparr>policies = [sample_policy ''p1'' allow_all_logic 1],
     policy_assignments = [sample_assignment], policy_eval_log = [], outbox_records = []\<rparr>"

lemma cast_all_Some [simp]: "cast_all Some gs = Some gs"
  by (induction gs) auto

lemma no_faults_sel [simp]:
  "\<not> f_begin no_faults" "\<not> f_acquire no_faults" "\<not> f_setvar no_faults" "\<not> f_query no_faults"
  "\<not> f_scan no_faults i" "\<not> f_commit no_faults"
  by (simp_all add: no_faults_def)

lemma sound_no_faults [simp]: "sound no_faults"
  by (simp add: sound_def no_faults_def)


text \<open>
  For a role that row-level security does restrict, every read through
  withOrgContext comes back empty, whatever the tables hold: the setting that
  SetSessionVar makes local to its own statement is gone when the query runs.
  ListPolicies and GetMatchingPolicies return no rows, GetPolicy finds nothing,
  and an evaluation therefore sees no policy at all.
\<close>

theorem rls_setting_lost_before_query:
  assumes "rls_enforced env" "sound f" "Rls.OrgID ctx \<noteq> []"
  shows "ListPolicies env ctx f db orgID = Ok []
    \<and> (pg_uuid env i \<noteq> None \<longrightarrow> GetPolicy env ctx f db orgID i = Err ErrNotFound)
    \<and> (pg_uuid env orgID \<noteq> None \<longrightarrow> pg_uuid env s \<noteq> None \<longrightarrow>
        cast_all (pg_uuid env) (filter (uuid_parse env) gs) \<noteq> None \<longrightarrow>
        GetMatchingPolicies env ctx f db orgID s gs = Ok [])"
  using assms by (auto simp: ListPolicies_def GetPolicy_def GetMatchingPolicies_def Let_def sound_def left_join_def)

definition strict_env :: pg_env where
  "strict_env = \<lparr>rls_enforced = True, pg_uuid = Some, uuid_parse = (\<lambda>_. True)\<rparr>"

theorem rls_setting_lost_before_query_witness:
  "ListPolicies strict_env sample_ctx no_faults sample_db ''o1'' = Ok []
   \<and> GetMatchingPolicies strict_env sample_ctx no_faults sample_db ''o1'' ''u1'' [] = Ok []"
  using rls_setting_lost_before_query [of strict_env no_faults sample_ctx sample_db "''o1''" "''p1''" "''u1''" "[]"]
  by (simp add: strict_env_def sample_ctx_def)

text \<open>
  Deleting a policy's last assignment does not switch the policy off: it
  makes it apply to every subject of the tenant, since a policy with no
  assignment is a global one.
\<close>

theorem deleting_last_assignment_makes_policy_global:
  assumes "\<not> rls_enforced env" "DeleteAssignment env ctx f db orgID aid = Ok db'"
    and "p \<in> set (policies db)" "pol_OrgID p = org" "pg_uuid env orgID = Some org"
    and "\<forall>a\<in>set (policy_assignments db). asg_PolicyID a = pol_ID p \<longrightarrow>
           asg_OrgID a = org \<and> pg_uuid env aid = Some (asg_ID a)"
    and "sound f" "uuid_parse env s" "pg_uuid env s = Some subj"
  shows "\<exists>ps. GetMatchingPolicies env ctx f db' orgID s [] = Ok ps \<and> p \<in> set ps"
proof -
  have db': "policies db' = policies db" "\<forall>a\<in>set (policy_assignments db'). asg_PolicyID a \<noteq> pol_ID p"
    and ctx: "Rls.OrgID ctx \<noteq> []"
    using assms(1,2,5,6)
    by (auto simp: DeleteAssignment_def withOrgContext_def Let_def split: if_splits option.splits)
  then have "concerns db' subj [] p" by (simp add: concerns_def)
  with matching_set [OF assms(1,7) ctx assms(8,5,9), of "[]" "[]" db'] db'(1) assms(3,4)
  show ?thesis by auto
qed

theorem deleting_last_assignment_makes_policy_global_witness:
  "\<exists>db' ps. DeleteAssignment open_env sample_ctx no_faults sample_db ''o1'' ''a1'' = Ok db'
     \<and> GetMatchingPolicies open_env sample_ctx no_faults sample_db ''o1'' ''u2'' [] = Ok []
     \<and> GetMatchingPolicies open_env sample_ctx no_faults db' ''o1'' ''u2'' [] = Ok ps
     \<and> sample_policy ''p1'' allow_all_logic 1 \<in> set ps"
proof -
  let ?db' = "sample_db\<lparr>policy_assignments := []\<rparr>"
  have del: "DeleteAssignment open_env sample_ctx no_faults sample_db ''o1'' ''a1'' = Ok ?db'"
    by (simp add: DeleteAssignment_def sample_ctx_def open_env_def sample_db_def sample_assignment_def no_faults_def
        withOrgContext_def)
  have before: "GetMatchingPolicies open_env sample_ctx no_faults sample_db ''o1'' ''u2'' [] = Ok []"
    by (simp add: GetMatchingPolicies_def sample_ctx_def open_env_def sample_db_def sample_assignment_def
        withOrgContext_def no_faults_def left_join_def sample_policy_def)
  from deleting_last_assignment_makes_policy_global
    [OF _ del, of "sample_policy ''p1'' allow_all_logic 1" "''o1''" "''u2''" "''u2''"] del before
  show ?thesis
    by (simp add: open_env_def sample_db_def sample_policy_def sample_assignment_def)
qed

end
