(* ===== verification/Resilience.thy ===== *)
theory Resilience
  imports Prelude
begin

text \<open>
  Package shared/resilience: the call through a circuit breaker and the
  bulkhead.  The breaker itself is sony/gobreaker: whether it admits a call is
  an argument, \<open>None\<close> when the function runs, and otherwise the error with which
  the breaker refuses to run it.
\<close>

datatype cb_refusal = ErrOpenState | ErrTooManyRequests

datatype 'e call_error = ErrCircuitOpen string | FnError 'e

record BreakerConfig =
  cb_Name :: string
  cb_MaxRequests :: int
  cb_Interval :: time
  cb_FailureThreshold :: int
  cb_OpenDuration :: time

text \<open>The ReadyToTrip function that NewBreaker installs.\<close>

definition ReadyToTrip :: "BreakerConfig \<Rightarrow> int \<Rightarrow> bool" where
  "ReadyToTrip cfg consecutiveFailures \<longleftrightarrow> consecutiveFailures \<ge> cb_FailureThreshold cfg"

definition Call :: "string \<Rightarrow> cb_refusal option \<Rightarrow> ('e, 'a) result \<Rightarrow> ('e call_error, 'a) result" where
  "Call cb_name refusal fn =
     (case refusal of
        Some r \<Rightarrow> Err (ErrCircuitOpen cb_name)
      | None \<Rightarrow> (case fn of Inl e \<Rightarrow> Err (FnError e) | Inr x \<Rightarrow> Ok x))"

lemma Call_Ok: "Call n r fn = Ok x \<longleftrightarrow> r = None \<and> fn = Ok x"
  by (auto simp: Call_def split: option.splits sum.splits)

lemma Call_None [simp]: "Call n None (Ok x) = Ok x"
  by (simp add: Call_def)

subsection \<open>Bulkhead\<close>

record Bulkhead =
  bh_cap :: int
  bh_used :: int

definition NewBulkhead :: "int \<Rightarrow> Bulkhead" where
  "NewBulkhead capacity = \<lparr>bh_cap = capacity, bh_used = 0\<rparr>"

text \<open>Execute: admission, then the function on the state in which the slot is taken, then the release.\<close>

definition TryAcquire :: "Bulkhead \<Rightarrow> Bulkhead option" where
  "TryAcquire b = (if bh_used b + 1 \<le> bh_cap b then Some (b\<lparr>bh_used := bh_used b + 1\<rparr>) else None)"

definition Release :: "Bulkhead \<Rightarrow> Bulkhead" where
  "Release b = b\<lparr>bh_used := bh_used b - 1\<rparr>"

datatype 'e bulkhead_error = ErrBulkheadFull | BhFn 'e

definition Execute :: "Bulkhead \<Rightarrow> ('s \<Rightarrow> ('e, unit) result \<times> 's) \<Rightarrow> 's \<Rightarrow>
    ('e bulkhead_error, unit) result \<times> 's \<times> Bulkhead" where
  "Execute b fn s = (case TryAcquire b of
      None \<Rightarrow> (Err ErrBulkheadFull, s, b)
    | Some b' \<Rightarrow> (case fn s of
         (Inl e, s') \<Rightarrow> (Err (BhFn e), s', Release b')
       | (Inr _, s') \<Rightarrow> (Ok (), s', Release b')))"

lemma Release_acquire [simp]: "TryAcquire b = Some b' \<Longrightarrow> Release b' = b"
  by (auto simp: TryAcquire_def Release_def split: if_splits)

lemma Execute_keeps_slots: "snd (snd (Execute b fn s)) = b"
  by (auto simp: Execute_def split: option.splits sum.splits prod.splits)

lemma TryAcquire_bound: "TryAcquire b = Some b' \<Longrightarrow> bh_used b' \<le> bh_cap b'"
  by (auto simp: TryAcquire_def split: if_splits)

end
