(* ===== verification/Policy_Service.thy ===== *)
theory Policy_Service
  imports Policy_Store Resilience
begin

text \<open>
  The service layer of the policy engine
  (services/policy/pkg/service/service.go): the Redis decision cache with
  stale-while-revalidate, evaluation from the database behind a circuit
  breaker, and the policy mutations with their outbox event.

  Redis is a map of values and sets with expiry times; a pipeline that fails
  has applied some of its commands, and how many is an argument.  SHA-256 is a
  parameter.  The goroutines the service starts (background refreshes, cache
  invalidations, log writes) are lists of pending tasks in the service state.
\<close>

subsection \<open>State\<close>

record EvaluateResponse =
  Effect :: string
  MatchedPolicyIDs :: "string list option"
  MaxVersion :: int
  CacheHit :: string
  LatencyMs :: int

record cachedDecision =
  cd_Effect :: string
  cd_MatchedPolicyIDs :: "string list option"
  cd_MaxVersion :: int
  cd_ExpiresAt :: time

record redis =
  r_kv :: "string \<rightharpoonup> cachedDecision option \<times> time"
  r_sets :: "string \<rightharpoonup> string list \<times> time option"

record policy_svc =
  rdb :: "redis option"
  refreshSem :: nat
  refreshes :: "(EvaluateRequest \<times> string) list"
  invalidations :: "string list"
  logCh :: "(EvaluateRequest \<times> EvaluateResponse) list"

definition cacheTTL :: time where "cacheTTL = 60 * Second"
definition staleWindow :: time where "staleWindow = 5 * Second"

subsection \<open>Redis commands\<close>

definition redis_get :: "redis \<Rightarrow> time \<Rightarrow> string \<Rightarrow> cachedDecision option option" where
  "redis_get r now k = (case r_kv r k of None \<Rightarrow> None | Some (v, e) \<Rightarrow> if now < e then Some v else None)"

definition redis_set :: "string \<Rightarrow> cachedDecision \<Rightarrow> time \<Rightarrow> redis \<Rightarrow> redis" where
  "redis_set k v e r = r\<lparr>r_kv := (r_kv r)(k \<mapsto> (Some v, e))\<rparr>"

fun unexpired :: "time \<Rightarrow> time option \<Rightarrow> bool" where
  "unexpired now None = True"
| "unexpired now (Some e) = (now < e)"

definition set_alive :: "redis \<Rightarrow> time \<Rightarrow> string \<Rightarrow> string list" where
  "set_alive r now k = (case r_sets r k of None \<Rightarrow> [] | Some (xs, t) \<Rightarrow> if unexpired now t then xs else [])"

definition set_ttl :: "redis \<Rightarrow> time \<Rightarrow> string \<Rightarrow> time option" where
  "set_ttl r now k = (case r_sets r k of None \<Rightarrow> None | Some (xs, t) \<Rightarrow> if unexpired now t then t else None)"

definition redis_sadd :: "time \<Rightarrow> string \<Rightarrow> string \<Rightarrow> redis \<Rightarrow> redis" where
  "redis_sadd now k x r = r\<lparr>r_sets := (r_sets r)(k \<mapsto> (List.insert x (set_alive r now k), set_ttl r now k))\<rparr>"

definition redis_expire :: "time \<Rightarrow> string \<Rightarrow> time \<Rightarrow> redis \<Rightarrow> redis" where
  "redis_expire now k e r = (if set_alive r now k = [] then r
     else r\<lparr>r_sets := (r_sets r)(k \<mapsto> (set_alive r now k, Some e))\<rparr>)"

definition redis_del :: "string list \<Rightarrow> redis \<Rightarrow> redis" where
  "redis_del ks r = r\<lparr>r_kv := (\<lambda>k. if k \<in> set ks then None else r_kv r k),
     r_sets := (\<lambda>k. if k \<in> set ks then None else r_sets r k)\<rparr>"

definition pipe_exec :: "nat \<Rightarrow> (redis \<Rightarrow> redis) list \<Rightarrow> redis \<Rightarrow> redis" where
  "pipe_exec applied cmds r = fold (\<lambda>c. c) (take applied cmds) r"

subsection \<open>Keys\<close>

definition cachePrefix :: string where "cachePrefix = ''policy:eval:''"

definition slice_json :: "string list option \<Rightarrow> json" where
  "slice_json x = (case x of None \<Rightarrow> JNull | Some xs \<Rightarrow> JArr (map JStr xs))"

definition cache_input :: "EvaluateRequest \<Rightarrow> json" where
  "cache_input req = JObj [(''action'', JStr (Action req)), (''org_id'', JStr (OrgID' req)),
     (''resource'', JStr (Resource req)), (''subject_id'', JStr (SubjectID req)),
     (''user_groups'', slice_json (UserGroups req))]"

definition cacheKey :: "(string \<Rightarrow> string) \<Rightarrow> EvaluateRequest \<Rightarrow> string" where
  "cacheKey sha256 req = cachePrefix @ OrgID' req @ '':'' @ hex_encode (sha256 (json_marshal (cache_input req)))"

definition orgIndexKey :: "string \<Rightarrow> string" where
  "orgIndexKey orgID = ''policy:index:'' @ orgID"

subsection \<open>Evaluation\<close>

text \<open>What one evaluation observes of its environment.\<close>

record eval_io =
  io_ctx :: go_ctx
  io_pg :: pg_env
  io_cel :: "cel_env option"
  io_faults :: db_faults
  io_refusal :: "cb_refusal option"
  io_get_fails :: bool
  io_applied :: nat
  io_done :: bool
  io_start :: time
  io_check :: time
  io_stored :: time
  io_end :: time

definition to_slice :: "string list \<Rightarrow> string list option" where
  "to_slice xs = (if xs = [] then None else Some xs)"

definition evaluateFromDB :: "eval_io \<Rightarrow> policy_db \<Rightarrow> EvaluateRequest \<Rightarrow> string \<Rightarrow> redis option \<Rightarrow>
    EvaluateResponse \<times> redis option" where
  "evaluateFromDB io db req key rd =
     (case Call ''policy-db'' (io_refusal io)
             (GetMatchingPolicies (io_pg io) (io_ctx io) (io_faults io) db (OrgID' req) (SubjectID req)
               (nil_slice (UserGroups req))) of
        Inl _ \<Rightarrow> (\<lparr>Effect = ''deny'', MatchedPolicyIDs = Some [], MaxVersion = 0, CacheHit = ''none'', LatencyMs = 0\<rparr>, rd)
      | Inr ps \<Rightarrow>
          (case evaluate (io_cel io) req ps of (effect, ids, maxV) \<Rightarrow>
            (\<lparr>Effect = effect, MatchedPolicyIDs = to_slice ids, MaxVersion = maxV, CacheHit = ''none'', LatencyMs = 0\<rparr>,
             (case rd of None \<Rightarrow> None
              | Some r \<Rightarrow>
                  let now = io_stored io;
                      decision = \<lparr>cd_Effect = effect, cd_MatchedPolicyIDs = to_slice ids, cd_MaxVersion = maxV,
                        cd_ExpiresAt = now + (cacheTTL - staleWindow)\<rparr>
                  in Some (pipe_exec (io_applied io)
                       [redis_set key decision (now + cacheTTL),
                        redis_sadd now (orgIndexKey (OrgID' req)) key,
                        redis_expire now (orgIndexKey (OrgID' req)) (now + 24 * Hour)] r)))))"

definition latency :: "time \<Rightarrow> time \<Rightarrow> int" where
  "latency start now = (now - start) div Millisecond"

text \<open>The cache check of Evaluate: the value, when the key is alive and its bytes decode.\<close>

definition cache_lookup :: "eval_io \<Rightarrow> policy_svc \<Rightarrow> string \<Rightarrow> cachedDecision option" where
  "cache_lookup io svc key =
     (case rdb svc of
        None \<Rightarrow> None
      | Some r \<Rightarrow>
          if io_get_fails io then None
          else (case redis_get r (io_check io) key of Some (Some d) \<Rightarrow> Some d | _ \<Rightarrow> None))"

definition max_refresh :: nat where "max_refresh = 100"
definition max_log :: nat where "max_log = 1000"

definition Evaluate :: "(string \<Rightarrow> string) \<Rightarrow> eval_io \<Rightarrow> policy_db \<Rightarrow> EvaluateRequest \<Rightarrow> policy_svc \<Rightarrow>
    (string, EvaluateResponse) result \<times> policy_svc" where
  "Evaluate sha256 io db req svc =
     (let key = cacheKey sha256 req in
      case cache_lookup io svc key of
        Some d \<Rightarrow>
          (let isStale = io_check io > cd_ExpiresAt d;
               svc' = (if isStale \<and> refreshSem svc < max_refresh
                       then svc\<lparr>refreshSem := refreshSem svc + 1, refreshes := refreshes svc @ [(req, key)]\<rparr>
                       else svc)
           in (Ok \<lparr>Effect = cd_Effect d, MatchedPolicyIDs = cd_MatchedPolicyIDs d, MaxVersion = cd_MaxVersion d,
                   CacheHit = ''redis'', LatencyMs = latency (io_start io) (io_check io)\<rparr>, svc'))
      | None \<Rightarrow>
          (case evaluateFromDB io db req key (rdb svc) of (resp, rd') \<Rightarrow>
             (let svc' = svc\<lparr>rdb := rd'\<rparr> in
              if io_done io then (Err ''context canceled'', svc')
              else let resp' = resp\<lparr>LatencyMs := latency (io_start io) (io_end io)\<rparr> in
                (Ok resp', if length (logCh svc') < max_log
                   then svc'\<lparr>logCh := logCh svc' @ [(req, resp')]\<rparr> else svc'))))"

text \<open>The goroutine of a stale hit; it carries the request's tenant in a fresh context.\<close>

definition backgroundRefresh :: "eval_io \<Rightarrow> policy_db \<Rightarrow> EvaluateRequest \<Rightarrow> string \<Rightarrow> policy_svc \<Rightarrow> policy_svc" where
  "backgroundRefresh io db req key svc =
     svc\<lparr>rdb := snd (evaluateFromDB (io\<lparr>io_ctx := WithOrgID \<lparr>rls_org = None\<rparr> (OrgID' req)\<rparr>) db req key (rdb svc)),
         refreshSem := refreshSem svc - 1, refreshes := remove1 (req, key) (refreshes svc)\<rparr>"

text \<open>One iteration of the log worker.\<close>

definition processWriteEvalLog :: "pg_env \<Rightarrow> db_faults \<Rightarrow> string \<Rightarrow> time \<Rightarrow> EvaluateRequest \<Rightarrow> EvaluateResponse \<Rightarrow>
    policy_db \<Rightarrow> policy_db" where
  "processWriteEvalLog env f new_id now req resp db =
     (case WriteEvalLog env (WithOrgID \<lparr>rls_org = None\<rparr> (OrgID' req)) f db new_id now
        \<lparr>log_ID = [], log_OrgID = OrgID' req, log_SubjectID = SubjectID req, log_Action = Action req,
         log_Resource = Resource req, log_Effect = Effect resp, log_MatchedPolicyIDs = MatchedPolicyIDs resp,
         log_CacheHit = CacheHit resp, log_LatencyMs = LatencyMs resp, log_EvaluatedAt = 0\<rparr> of
        Inl _ \<Rightarrow> db | Inr db' \<Rightarrow> db')"

subsection \<open>Mutations\<close>

datatype svc_error = SvcDb db_error | InvalidLogic string | PublishChange string | BeginErr | CommitErr

definition PublishPolicyChange :: "pg_env \<Rightarrow> string \<Rightarrow> time \<Rightarrow> policy_db \<Rightarrow> string \<Rightarrow> string \<Rightarrow> string \<Rightarrow>
    (string, policy_db) result" where
  "PublishPolicyChange env new_id now db orgID policyID eventType =
     (case WriteTx (pg_uuid env) new_id now (outbox_records db) orgID ''policy.changes'' policyID
        (JObj [(''event_type'', JStr eventType), (''org_id'', JStr orgID), (''policy_id'', JStr policyID)]) of
        Inl e \<Rightarrow> Err e | Inr rows \<Rightarrow> Ok (db\<lparr>outbox_records := rows\<rparr>))"

text \<open>Each mutation: the result, and the database after its transaction committed or rolled back.\<close>

definition CreatePolicy :: "pg_env \<Rightarrow> cel_env option \<Rightarrow> db_faults \<Rightarrow> string \<Rightarrow> string \<Rightarrow> time \<Rightarrow> policy_db \<Rightarrow>
    string \<Rightarrow> string \<Rightarrow> string \<Rightarrow> raw_json \<Rightarrow> (svc_error, Policy) result \<times> policy_db" where
  "CreatePolicy env cel f new_id ob now db orgID name description logic =
     (if f_begin f then (Err BeginErr, db)
      else (case validatePolicyLogic cel logic of
        Inl e \<Rightarrow> (Err (InvalidLogic e), db)
      | Inr _ \<Rightarrow> (case CreatePolicyTx env f db new_id now orgID name description logic of
          Inl e \<Rightarrow> (Err (SvcDb e), db)
        | Inr (p, db1) \<Rightarrow> (case PublishPolicyChange env ob now db1 orgID (pol_ID p) ''policy.created'' of
            Inl e \<Rightarrow> (Err (PublishChange e), db)
          | Inr db2 \<Rightarrow> if f_commit f then (Err CommitErr, db) else (Ok p, db2)))))"

definition UpdatePolicy :: "pg_env \<Rightarrow> cel_env option \<Rightarrow> db_faults \<Rightarrow> string \<Rightarrow> time \<Rightarrow> policy_db \<Rightarrow>
    string \<Rightarrow> string \<Rightarrow> string \<Rightarrow> string \<Rightarrow> raw_json \<Rightarrow> (svc_error, Policy) result \<times> policy_db" where
  "UpdatePolicy env cel f ob now db orgID policyID name description logic =
     (if f_begin f then (Err BeginErr, db)
      else (case validatePolicyLogic cel logic of
        Inl e \<Rightarrow> (Err (InvalidLogic e), db)
      | Inr _ \<Rightarrow> (case UpdatePolicyTx env f db now orgID policyID name description logic of
          Inl e \<Rightarrow> (Err (SvcDb e), db)
        | Inr (p, db1) \<Rightarrow> (case PublishPolicyChange env ob now db1 orgID (pol_ID p) ''policy.updated'' of
            Inl e \<Rightarrow> (Err (PublishChange e), db)
          | Inr db2 \<Rightarrow> if f_commit f then (Err CommitErr, db) else (Ok p, db2)))))"

definition DeletePolicy :: "pg_env \<Rightarrow> db_faults \<Rightarrow> string \<Rightarrow> time \<Rightarrow> policy_db \<Rightarrow> string \<Rightarrow> string \<Rightarrow>
    (svc_error, unit) result \<times> policy_db" where
  "DeletePolicy env f ob now db orgID policyID =
     (if f_begin f then (Err BeginErr, db)
      else (case DeletePolicyTx env f db orgID policyID of
        Inl e \<Rightarrow> (Err (SvcDb e), db)
      | Inr db1 \<Rightarrow> (case PublishPolicyChange env ob now db1 orgID policyID ''policy.deleted'' of
          Inl e \<Rightarrow> (Err (PublishChange e), db)
        | Inr db2 \<Rightarrow> if f_commit f then (Err CommitErr, db) else (Ok (), db2))))"

definition InvalidateOrgCache :: "bool \<Rightarrow> nat \<Rightarrow> time \<Rightarrow> string \<Rightarrow> redis option \<Rightarrow> (string, unit) result \<times> redis option" where
  "InvalidateOrgCache smembers_fails applied now orgID rd =
     (case rd of
        None \<Rightarrow> (Ok (), None)
      | Some r \<Rightarrow>
          if smembers_fails then (Err ''get indexed keys'', rd)
          else let indexKey = orgIndexKey orgID; keys = set_alive r now indexKey in
            if keys = [] then (Ok (), rd)
            else (if applied < 2 then Err ''invalidate keys'' else Ok (),
                  Some (pipe_exec applied [redis_del keys, redis_del [indexKey]] r)))"

definition SvcCreateAssignment :: "pg_env \<Rightarrow> go_ctx \<Rightarrow> db_faults \<Rightarrow> policy_db \<Rightarrow> string \<Rightarrow> time \<Rightarrow>
    string \<Rightarrow> string \<Rightarrow> string \<Rightarrow> string \<Rightarrow> policy_svc \<Rightarrow> (db_error, Assignment) result \<times> policy_db \<times> policy_svc" where
  "SvcCreateAssignment env ctx f db new_id now orgID policyID subjectID subjectType svc =
     (case Policy_Store.CreateAssignment env ctx f db new_id now orgID policyID subjectID subjectType of
        Inl e \<Rightarrow> (Err e, db, svc)
      | Inr (a, db') \<Rightarrow> (Ok a, db', svc\<lparr>invalidations := invalidations svc @ [orgID]\<rparr>))"

definition SvcDeleteAssignment :: "pg_env \<Rightarrow> go_ctx \<Rightarrow> db_faults \<Rightarrow> policy_db \<Rightarrow> string \<Rightarrow> string \<Rightarrow> policy_svc \<Rightarrow>
    (db_error, unit) result \<times> policy_db \<times> policy_svc" where
  "SvcDeleteAssignment env ctx f db orgID assignmentID svc =
     (case Policy_Store.DeleteAssignment env ctx f db orgID assignmentID of
        Inl e \<Rightarrow> (Err e, db, svc)
      | Inr db' \<Rightarrow> (Ok (), db', svc\<lparr>invalidations := invalidations svc @ [orgID]\<rparr>))"

subsection \<open>Cache keys\<close>

lemma quotes_inj:
  "Join (map json_quote xs) '','' @ CHR '']'' # r = Join (map json_quote ys) '','' @ CHR '']'' # r' \<Longrightarrow> xs = ys \<and> r = r'"
proof (induction xs arbitrary: ys)
  case Nil
  then show ?case
    by (cases ys rule: Join.cases [of "(_, '','')", case_names nil one more]) (auto simp: json_quote_def)
next
  case (Cons x xs)
  have tail: "Join (map json_quote (z # zs)) '','' = json_quote z @ (if zs = [] then [] else CHR '','' # Join (map json_quote zs) '','')"
    for z zs by (cases zs) auto
  from Cons.prems obtain y ys' where ys: "ys = y # ys'"
    by (cases ys) (simp_all only: tail, auto simp: json_quote_def)
  from Cons.prems [unfolded ys tail append_assoc json_quote_inj] have "x = y"
    and rest: "(if xs = [] then [] else CHR '','' # Join (map json_quote xs) '','') @ CHR '']'' # r =
        (if ys' = [] then [] else CHR '','' # Join (map json_quote ys') '','') @ CHR '']'' # r'"
    by auto
  then show ?case
    using Cons.IH [of ys'] ys by (auto split: if_splits)
qed

lemma slice_json_inj: "json_marshal (slice_json x) @ r = json_marshal (slice_json y) @ r' \<Longrightarrow> x = y"
proof -
  have m: "map (json_marshal \<circ> JStr) xs = map json_quote xs" for xs by simp
  show "json_marshal (slice_json x) @ r = json_marshal (slice_json y) @ r' \<Longrightarrow> x = y"
    by (cases x; cases y) (auto simp: slice_json_def m dest!: quotes_inj)
qed

lemma cache_input_inj: "json_marshal (cache_input r) = json_marshal (cache_input r') \<Longrightarrow> r = r'"
proof -
  assume "json_marshal (cache_input r) = json_marshal (cache_input r')"
  then have "Action r = Action r' \<and> OrgID' r = OrgID' r' \<and> Resource r = Resource r' \<and> SubjectID r = SubjectID r' \<and>
      json_marshal (slice_json (UserGroups r)) @ ''}'' = json_marshal (slice_json (UserGroups r')) @ ''}''"
    by (simp add: cache_input_def json_quote_inj)
  then show ?thesis using slice_json_inj [of "UserGroups r" "''}''" "UserGroups r'" "''}''"]
    by (cases r; cases r') simp
qed

lemma cacheKey_parts:
  assumes len: "\<And>x. length (sha256 x) = 32" and eq: "cacheKey sha256 r = cacheKey sha256 r'"
  shows "OrgID' r = OrgID' r'" "sha256 (json_marshal (cache_input r)) = sha256 (json_marshal (cache_input r'))"
proof -
  let ?h = "\<lambda>r. hex_encode (sha256 (json_marshal (cache_input r)))"
  have l: "length (?h r) = length (?h r')" by (simp add: len)
  from eq have "(OrgID' r @ '':'') @ ?h r = (OrgID' r' @ '':'') @ ?h r'" by (simp add: cacheKey_def)
  then have "OrgID' r @ '':'' = OrgID' r' @ '':'' \<and> ?h r = ?h r'"
    by (rule append_eq_append_conv [THEN iffD1, rotated]) (simp add: len)
  then show "OrgID' r = OrgID' r'" "sha256 (json_marshal (cache_input r)) = sha256 (json_marshal (cache_input r'))"
    by (simp_all add: hex_encode_inj)
qed

lemma orgIndexKey_inj [simp]: "orgIndexKey a = orgIndexKey b \<longleftrightarrow> a = b"
  by (simp add: orgIndexKey_def)

subsection \<open>The cache between writes and invalidations\<close>

text \<open>
  Every live decision of a tenant is a member of the tenant's index set, which
  outlives it; and no decision lives longer than the cache TTL from now.
\<close>

fun outlives :: "time \<Rightarrow> time option \<Rightarrow> bool" where
  "outlives e None = True"
| "outlives e (Some u) = (e \<le> u)"

lemma outlives_unexpired: "outlives e t \<Longrightarrow> now < e \<Longrightarrow> unexpired now t"
  by (cases t) auto

definition indexed :: "(string \<Rightarrow> string) \<Rightarrow> time \<Rightarrow> redis \<Rightarrow> bool" where
  "indexed sha256 now r \<longleftrightarrow> (\<forall>req v e. r_kv r (cacheKey sha256 req) = Some (v, e) \<and> now < e \<longrightarrow>
     e \<le> now + cacheTTL \<and>
     (\<exists>xs t. r_sets r (orgIndexKey (OrgID' req)) = Some (xs, t) \<and> cacheKey sha256 req \<in> set xs \<and>
        outlives e t))
   \<and> (\<forall>org xs t. r_sets r (orgIndexKey org) = Some (xs, t) \<longrightarrow> (\<forall>x\<in>set xs. HasPrefix x cachePrefix))"

lemma set_alive_iff: "x \<in> set (set_alive r now k) \<longleftrightarrow>
   (\<exists>xs t. r_sets r k = Some (xs, t) \<and> x \<in> set xs \<and> unexpired now t)"
  by (cases "r_sets r k") (auto simp: set_alive_def split: if_splits)

lemma indexed_prefix:
  "indexed sha256 now r \<Longrightarrow> r_sets r (orgIndexKey org) = Some (xs, t) \<Longrightarrow> x \<in> set xs \<Longrightarrow> HasPrefix x cachePrefix"
  unfolding indexed_def by blast

lemma indexedD:
  assumes "indexed sha256 now r" "r_kv r (cacheKey sha256 req) = Some (v, e)" "now < e"
  obtains xs t where "e \<le> now + cacheTTL" "r_sets r (orgIndexKey (OrgID' req)) = Some (xs, t)"
    "cacheKey sha256 req \<in> set xs" "outlives e t"
    "cacheKey sha256 req \<in> set (set_alive r now (orgIndexKey (OrgID' req)))"
proof -
  from assms obtain xs t where h: "e \<le> now + cacheTTL" "r_sets r (orgIndexKey (OrgID' req)) = Some (xs, t)"
    "cacheKey sha256 req \<in> set xs" "outlives e t"
    unfolding indexed_def by blast
  moreover have "cacheKey sha256 req \<in> set (set_alive r now (orgIndexKey (OrgID' req)))"
    using h assms(3) by (auto simp: set_alive_iff dest: outlives_unexpired)
  ultimately show thesis by (rule that)
qed

lemma indexed_members:
  "indexed sha256 now r \<Longrightarrow> x \<in> set (set_alive r now (orgIndexKey org)) \<Longrightarrow> HasPrefix x cachePrefix"
  unfolding set_alive_iff by (auto intro: indexed_prefix)

lemma cacheKey_prefix [simp]: "HasPrefix (cacheKey sha256 q) cachePrefix"
  by (simp add: cacheKey_def)

lemma index_no_prefix [simp]: "\<not> HasPrefix (orgIndexKey org) cachePrefix"
  by (simp add: HasPrefix_def orgIndexKey_def cachePrefix_def)

text \<open>The pipeline of evaluateFromDB is applied as a whole, or not at all.\<close>

definition whole_pipe :: "eval_io \<Rightarrow> bool" where
  "whole_pipe io \<longleftrightarrow> io_applied io = 0 \<or> io_applied io \<ge> 3"

inductive cache_step :: "(string \<Rightarrow> string) \<Rightarrow> time \<times> redis \<Rightarrow> time \<times> redis \<Rightarrow> bool" for sha256 where
  cs_wait: "now \<le> now' \<Longrightarrow> cache_step sha256 (now, r) (now', r)"
| cs_eval: "whole_pipe io \<Longrightarrow> io_stored io = now \<Longrightarrow>
     snd (evaluateFromDB io db req (cacheKey sha256 req) (Some r)) = Some r' \<Longrightarrow>
     cache_step sha256 (now, r) (now, r')"
| cs_invalidate: "snd (InvalidateOrgCache False 2 now org (Some r)) = Some r' \<Longrightarrow> cache_step sha256 (now, r) (now, r')"

lemma indexed_empty: "indexed sha256 now \<lparr>r_kv = (\<lambda>_. None), r_sets = (\<lambda>_. None)\<rparr>"
  by (simp add: indexed_def)

lemma indexed_wait: "indexed sha256 now r \<Longrightarrow> now \<le> now' \<Longrightarrow> indexed sha256 now' r"
proof -
  assume inv: "indexed sha256 now r" and le: "now \<le> now'"
  have "e \<le> now' + cacheTTL \<and> (\<exists>xs t. r_sets r (orgIndexKey (OrgID' q)) = Some (xs, t) \<and>
        cacheKey sha256 q \<in> set xs \<and> outlives e t)"
    if "r_kv r (cacheKey sha256 q) = Some (v, e)" "now' < e" for q v e
  proof (rule indexedD [OF inv that(1)])
    show "now < e" using le that(2) by simp
  qed (use le in auto)
  with inv show ?thesis unfolding indexed_def by blast
qed

definition store_decision :: "time \<Rightarrow> string \<Rightarrow> string \<Rightarrow> cachedDecision \<Rightarrow> redis \<Rightarrow> redis" where
  "store_decision now idx key d r = redis_expire now idx (now + 24 * Hour)
     (redis_sadd now idx key (redis_set key d (now + cacheTTL) r))"

lemma evaluateFromDB_redis:
  assumes "snd (evaluateFromDB io db req key (Some r)) = Some r'" "whole_pipe io"
  shows "r' = r \<or> (\<exists>d. r' = store_decision (io_stored io) (orgIndexKey (OrgID' req)) key d r)"
proof -
  have t: "n \<ge> 3 \<Longrightarrow> take n [a, b, c] = [a, b, c]" for n and a b c :: "redis \<Rightarrow> redis" by simp
  show ?thesis
    using assms
    by (auto simp: evaluateFromDB_def whole_pipe_def pipe_exec_def store_decision_def Let_def t
        split: sum.splits prod.splits)
qed

lemma store_decision_kv: "r_kv (store_decision now idx key d r) = (r_kv r)(key \<mapsto> (Some d, now + cacheTTL))"
  by (simp add: store_decision_def redis_expire_def redis_sadd_def redis_set_def)

lemma set_alive_sadd: "set (set_alive (redis_sadd now k x r) now k) = insert x (set (set_alive r now k))"
proof (cases "r_sets r k")
  case None
  then show ?thesis by (simp add: set_alive_def redis_sadd_def set_ttl_def)
next
  case (Some p)
  then show ?thesis
    by (cases p; cases "unexpired now (snd p)") (simp_all add: set_alive_def redis_sadd_def set_ttl_def)
qed

lemma store_decision_sets:
  "\<exists>xs. r_sets (store_decision now idx key d r) = (r_sets r)(idx \<mapsto> (xs, Some (now + 24 * Hour)))
     \<and> set xs = insert key (set (set_alive r now idx))"
proof -
  let ?r = "redis_set key d (now + cacheTTL) r"
  have a: "set (set_alive (redis_sadd now idx key ?r) now idx) = insert key (set (set_alive r now idx))"
    unfolding set_alive_sadd by (simp add: set_alive_def redis_set_def)
  then have "set_alive (redis_sadd now idx key ?r) now idx \<noteq> []" by auto
  then show ?thesis
    using a by (auto simp: store_decision_def redis_expire_def redis_sadd_def redis_set_def)
qed

lemma indexed_store:
  fixes req :: EvaluateRequest
  assumes len: "\<And>x. length (sha256 x) = 32" and inv: "indexed sha256 now r"
  defines "idx \<equiv> orgIndexKey (OrgID' req)" and "key \<equiv> cacheKey sha256 req"
  shows "indexed sha256 now (store_decision now idx key d r)"
proof -
  let ?r = "store_decision now idx key d r"
  obtain xs where sets: "r_sets ?r = (r_sets r)(idx \<mapsto> (xs, Some (now + 24 * Hour)))"
    and xs: "set xs = insert key (set (set_alive r now idx))"
    using store_decision_sets by blast
  have entry: "e \<le> now + cacheTTL \<and> (\<exists>ys t. r_sets ?r (orgIndexKey (OrgID' q)) = Some (ys, t) \<and>
        cacheKey sha256 q \<in> set ys \<and> outlives e t)"
    if "r_kv ?r (cacheKey sha256 q) = Some (v, e)" "now < e" for q v e
  proof (cases "cacheKey sha256 q = key")
    case True
    then have "OrgID' q = OrgID' req" using cacheKey_parts(1) len unfolding key_def by blast
    moreover have "e = now + cacheTTL" using that True by (simp add: store_decision_kv)
    moreover have "cacheTTL \<le> 24 * Hour" by (simp add: cacheTTL_def time_units)
    moreover have "orgIndexKey (OrgID' q) = idx" using calculation by (simp add: idx_def)
    ultimately show ?thesis using True xs sets by simp
  next
    case False
    with that(1) have kv: "r_kv r (cacheKey sha256 q) = Some (v, e)" by (simp add: store_decision_kv)
    have day: "cacheTTL \<le> 24 * Hour" by (simp add: cacheTTL_def time_units)
    show ?thesis
    proof (rule indexedD [OF inv kv that(2)])
      fix ys t
      assume "e \<le> now + cacheTTL" "r_sets r (orgIndexKey (OrgID' q)) = Some (ys, t)"
        "cacheKey sha256 q \<in> set ys" "outlives e t"
        "cacheKey sha256 q \<in> set (set_alive r now (orgIndexKey (OrgID' q)))"
      then show ?thesis
        using xs day sets by (cases "orgIndexKey (OrgID' q) = idx") auto
    qed
  qed
  have "HasPrefix x cachePrefix" if "r_sets ?r (orgIndexKey org) = Some (ys, t)" "x \<in> set ys" for org ys t x
  proof (cases "orgIndexKey org = idx")
    case True
    with that xs have "x = key \<or> x \<in> set (set_alive r now idx)" by (auto simp: sets)
    then show ?thesis using indexed_members [OF inv] by (auto simp: key_def idx_def)
  next
    case False
    then show ?thesis using that by (auto simp: sets intro: indexed_prefix [OF inv])
  qed
  with entry show ?thesis unfolding indexed_def by blast
qed

lemma invalidate_redis:
  "InvalidateOrgCache False 2 now org (Some r) = (res, Some r') \<Longrightarrow>
   r' = (if set_alive r now (orgIndexKey org) = [] then r
     else redis_del [orgIndexKey org] (redis_del (set_alive r now (orgIndexKey org)) r))"
  by (auto simp: InvalidateOrgCache_def Let_def pipe_exec_def split: if_splits)

lemma indexed_invalidate:
  assumes inv: "indexed sha256 now r" and "InvalidateOrgCache False 2 now org (Some r) = (res, Some r')"
  shows "indexed sha256 now r'"
proof -
  let ?ks = "set_alive r now (orgIndexKey org)"
  note r' = invalidate_redis [OF assms(2)]
  have "e \<le> now + cacheTTL \<and> (\<exists>xs t. r_sets r' (orgIndexKey (OrgID' q)) = Some (xs, t) \<and>
        cacheKey sha256 q \<in> set xs \<and> outlives e t)"
    if k: "r_kv r' (cacheKey sha256 q) = Some (v, e)" "now < e" for q v e
  proof -
    have kv: "r_kv r (cacheKey sha256 q) = Some (v, e)" and notin: "?ks = [] \<or> cacheKey sha256 q \<notin> set ?ks"
      using k(1) by (auto simp: r' redis_del_def split: if_splits)
    have idx: "orgIndexKey (OrgID' q) \<notin> set ?ks"
      using indexed_members [OF inv, of "orgIndexKey (OrgID' q)" org] by auto
    show ?thesis
      by (rule indexedD [OF inv kv k(2)])
        (use notin idx in \<open>cases "OrgID' q = org"; auto simp: r' redis_del_def\<close>)
  qed
  moreover have "HasPrefix x cachePrefix" if "r_sets r' (orgIndexKey o') = Some (ys, t)" "x \<in> set ys" for o' ys t x
    using that unfolding r' by (auto simp: redis_del_def intro: indexed_prefix [OF inv] split: if_splits)
  ultimately show ?thesis unfolding indexed_def by blast
qed

lemma invalidated_gone:
  assumes inv: "indexed sha256 now r" and "InvalidateOrgCache False 2 now org (Some r) = (res, Some r')"
    and "OrgID' q = org" "now \<le> t"
  shows "redis_get r' t (cacheKey sha256 q) = None"
proof (rule ccontr)
  assume "redis_get r' t (cacheKey sha256 q) \<noteq> None"
  then obtain v e where kv: "r_kv r' (cacheKey sha256 q) = Some (v, e)" and "t < e"
    by (auto simp: redis_get_def split: option.splits if_splits)
  then have "now < e" using assms(4) by simp
  moreover have "r_kv r (cacheKey sha256 q) = Some (v, e)"
    using kv by (auto simp: invalidate_redis [OF assms(2)] redis_del_def split: if_splits)
  ultimately have "cacheKey sha256 q \<in> set (set_alive r now (orgIndexKey org))"
    using indexedD [OF inv] assms(3) by metis
  then show False
    using kv by (auto simp: invalidate_redis [OF assms(2)] redis_del_def split: if_splits)
qed

definition indexed_state :: "(string \<Rightarrow> string) \<Rightarrow> time \<times> redis \<Rightarrow> bool" where
  "indexed_state sha256 st \<longleftrightarrow> ((\<forall>x. length (sha256 x) = 32) \<longrightarrow> indexed sha256 (fst st) (snd st))"

lemma cache_step_indexed: "cache_step sha256 st st' \<Longrightarrow> indexed_state sha256 st \<Longrightarrow> indexed_state sha256 st'"
proof (induction rule: cache_step.induct)
  case (cs_wait now now' r)
  then show ?case by (auto simp: indexed_state_def intro: indexed_wait)
next
  case (cs_eval io now db req r r')
  show ?case
    unfolding indexed_state_def
  proof
    assume len: "\<forall>x. length (sha256 x) = 32"
    with cs_eval.prems have "indexed sha256 now r" by (simp add: indexed_state_def)
    with evaluateFromDB_redis [OF cs_eval.hyps(3,1)] cs_eval.hyps(2) len
    show "indexed sha256 (fst (now, r')) (snd (now, r'))" by (auto intro: indexed_store)
  qed
next
  case (cs_invalidate now org r r')
  then show ?case
    using indexed_invalidate [of sha256 now r org "fst (InvalidateOrgCache False 2 now org (Some r))" r']
    by (simp add: indexed_state_def prod_eq_iff)
qed

interpretation decision_cache: step_invariant "cache_step sha256" "indexed_state sha256" for sha256
  by unfold_locales (rule cache_step_indexed)

subsection \<open>Mutations and tenants\<close>

datatype policy_op =
    OpCreate db_faults string string time string string string raw_json
  | OpUpdate db_faults string time string string string string raw_json
  | OpDelete db_faults string time string string

fun run_op :: "pg_env \<Rightarrow> cel_env option \<Rightarrow> policy_op \<Rightarrow> policy_db \<Rightarrow> policy_db" where
  "run_op env cel (OpCreate f i ob now o' n d l) db = snd (CreatePolicy env cel f i ob now db o' n d l)"
| "run_op env cel (OpUpdate f ob now o' i n d l) db = snd (UpdatePolicy env cel f ob now db o' i n d l)"
| "run_op env cel (OpDelete f ob now o' i) db = snd (DeletePolicy env f ob now db o' i)"

fun op_org :: "pg_env \<Rightarrow> policy_op \<Rightarrow> string option" where
  "op_org env (OpCreate f i ob now o' n d l) = pg_uuid env o'"
| "op_org env (OpUpdate f ob now o' i n d l) = pg_uuid env o'"
| "op_org env (OpDelete f ob now o' i) = pg_uuid env o'"

definition tenant_policies :: "string \<Rightarrow> policy_db \<Rightarrow> Policy list" where
  "tenant_policies t db = filter (\<lambda>p. pol_OrgID p = t) (policies db)"

lemma tenant_policies_other:
  "other_tenants org db' = other_tenants org db \<Longrightarrow> t \<noteq> org \<Longrightarrow> tenant_policies t db' = tenant_policies t db"
proof -
  have "tenant_policies t x = filter (\<lambda>p. pol_OrgID p = t) (other_tenants org x)" if "t \<noteq> org" for x
    using that by (auto simp: tenant_policies_def other_tenants_def intro: filter_cong)
  then show "other_tenants org db' = other_tenants org db \<Longrightarrow> t \<noteq> org \<Longrightarrow> tenant_policies t db' = tenant_policies t db"
    by simp
qed

lemma PublishPolicyChange_Ok:
  "PublishPolicyChange env ob now db o' i ev = Ok db' \<Longrightarrow>
   policies db' = policies db \<and> (\<exists>r. outbox_records db' = outbox_records db @ [r]
     \<and> ob_topic r = ''policy.changes'' \<and> ob_key r = i \<and> ob_status r = ''pending'' \<and> pg_uuid env o' = Some (ob_org_id r)
     \<and> ob_payload r = JObj [(''event_type'', JStr ev), (''org_id'', JStr o'), (''policy_id'', JStr i)])"
  by (auto simp: PublishPolicyChange_def WriteTx_def split: option.splits)

lemmas mutation_defs = CreatePolicy_def UpdatePolicy_def DeletePolicy_def

lemma run_op_other: "op_org env op \<noteq> Some t \<Longrightarrow> tenant_policies t (run_op env cel op db) = tenant_policies t db"
proof (cases op)
  case (OpCreate f i ob now o' n d l)
  assume "op_org env op \<noteq> Some t"
  then show ?thesis
    unfolding OpCreate
    by (auto simp: CreatePolicy_def split: sum.splits dest!: CreatePolicyTx_isolated PublishPolicyChange_Ok
        intro!: tenant_policies_other) (auto simp: other_tenants_def)
next
  case (OpUpdate f ob now o' i n d l)
  assume "op_org env op \<noteq> Some t"
  then show ?thesis
    unfolding OpUpdate
    by (auto simp: UpdatePolicy_def split: sum.splits dest!: UpdatePolicyTx_isolated PublishPolicyChange_Ok
        intro!: tenant_policies_other) (auto simp: other_tenants_def)
next
  case (OpDelete f ob now o' i)
  assume "op_org env op \<noteq> Some t"
  then show ?thesis
    unfolding OpDelete
    by (auto simp: DeletePolicy_def split: sum.splits dest!: DeletePolicyTx_isolated PublishPolicyChange_Ok
        intro!: tenant_policies_other) (auto simp: other_tenants_def)
qed

interpretation policy_tenants: tenant_ops "run_op env cel" "op_org env" tenant_policies for env cel
  by unfold_locales (rule run_op_other)

subsection \<open>Properties\<close>

lemma GetMatching_org:
  "GetMatchingPolicies env ctx f db o' subj gs = Ok ps \<Longrightarrow> p \<in> set ps \<Longrightarrow>
   pg_uuid env o' = Some (pol_OrgID p) \<and> p \<in> set (policies db)"
  by (auto simp: GetMatchingPolicies_def Let_def left_join_iff visible_policies_def
      dest!: withOrgContext_Ok scanPolicies_Ok split: if_splits option.splits)


definition sample_io :: eval_io where
  "sample_io = \<lparr>io_ctx = sample_ctx, io_pg = open_env, io_cel = None, io_faults = no_faults, io_refusal = None,
     io_get_fails = False, io_applied = 3, io_done = False, io_start = 0, io_check = 0, io_stored = 0, io_end = 0\<rparr>"

definition user_req :: EvaluateRequest where
  "user_req = \<lparr>OrgID' = ''o1'', SubjectID = ''u1'', UserGroups = None, Action = ''read'', Resource = ''doc:1''\<rparr>"

definition empty_redis :: redis where
  "empty_redis = \<lparr>r_kv = (\<lambda>_. None), r_sets = (\<lambda>_. None)\<rparr>"

lemma sample_matching: "GetMatchingPolicies open_env sample_ctx no_faults sample_db ''o1'' ''u1'' [] =
   Ok [sample_policy ''p1'' allow_all_logic 1]"
  by (simp add: GetMatchingPolicies_def sample_ctx_def open_env_def sample_db_def sample_assignment_def
      withOrgContext_def no_faults_def left_join_def sample_policy_def)

lemma sample_evaluate: "evaluate None user_req [sample_policy ''p1'' allow_all_logic 1] = (''allow'', [''p1''], 1)"
  by code_simp


text \<open>
  A decision cache key identifies its request: two requests with the same
  key belong to the same tenant whatever the hash does, and are the same
  request (user groups included) unless their two JSON texts collide under
  SHA-256.
\<close>

theorem cacheKey_identifies_request:
  assumes "\<And>x. length (sha256 x) = 32" "cacheKey sha256 r = cacheKey sha256 r'"
  shows "OrgID' r = OrgID' r' \<and>
    (r = r' \<or> json_marshal (cache_input r) \<noteq> json_marshal (cache_input r') \<and>
      sha256 (json_marshal (cache_input r)) = sha256 (json_marshal (cache_input r')))"
  using cacheKey_parts [OF assms] cache_input_inj by blast

theorem cacheKey_identifies_request_witness:
  "cacheKey (\<lambda>_. replicate 32 CHR ''0'') user_req = cacheKey (\<lambda>_. replicate 32 CHR ''0'') (user_req\<lparr>Action := ''write''\<rparr>)
   \<and> json_marshal (cache_input user_req) \<noteq> json_marshal (cache_input (user_req\<lparr>Action := ''write''\<rparr>))"
proof -
  have k: "cacheKey (\<lambda>_. replicate 32 CHR ''0'') user_req = cacheKey (\<lambda>_. replicate 32 CHR ''0'') (user_req\<lparr>Action := ''write''\<rparr>)"
    by (simp add: cacheKey_def user_req_def)
  from cacheKey_identifies_request [OF _ k] k show ?thesis by (auto simp: user_req_def)
qed

lemma stored_decision:
  assumes "GetMatchingPolicies (io_pg io) (io_ctx io) (io_faults io) db (OrgID' req) (SubjectID req)
      (nil_slice (UserGroups req)) = Ok ps" "io_refusal io = None" "io_applied io \<ge> 1"
    and "evaluate (io_cel io) req ps = (eff, ids, v)"
    and "evaluateFromDB io db req key (Some r) = (resp, Some r')"
  shows "r_kv r' key = Some (Some \<lparr>cd_Effect = eff, cd_MatchedPolicyIDs = to_slice ids, cd_MaxVersion = v,
      cd_ExpiresAt = io_stored io + (cacheTTL - staleWindow)\<rparr>, io_stored io + cacheTTL)"
    "Effect resp = eff" "MatchedPolicyIDs resp = to_slice ids" "MaxVersion resp = v"
proof -
  have kv: "r_kv (redis_sadd a b c x) = r_kv x" "r_kv (redis_expire a b d x) = r_kv x" for a b c d x
    by (simp_all add: redis_sadd_def redis_expire_def)
  have f: "r_kv (fold (\<lambda>c. c) (take n [redis_sadd a b c, redis_expire a b d]) x) = r_kv x" for n a b c d x
    by (cases n; cases "n - 1") (auto simp: kv)
  obtain n where "io_applied io = Suc n" using assms(3) by (cases "io_applied io") auto
  then show "r_kv r' key = Some (Some \<lparr>cd_Effect = eff, cd_MatchedPolicyIDs = to_slice ids, cd_MaxVersion = v,
      cd_ExpiresAt = io_stored io + (cacheTTL - staleWindow)\<rparr>, io_stored io + cacheTTL)"
    using assms by (auto simp: evaluateFromDB_def Let_def pipe_exec_def f redis_set_def)
qed (use assms in \<open>auto simp: evaluateFromDB_def Let_def\<close>)

text \<open>
  The stale-while-revalidate window of the decision cache: after an
  evaluation stored its decision at time t, the same request is answered from
  Redis with the same effect, ids and version, without consulting the
  database, exactly while the clock is before t + 60 s; a background refresh
  is started (if fewer than 100 are running) exactly from t + 55 s on.
\<close>

theorem cache_hit_window:
  assumes "GetMatchingPolicies (io_pg io) (io_ctx io) (io_faults io) db (OrgID' req) (SubjectID req)
      (nil_slice (UserGroups req)) = Ok ps" "io_refusal io = None" "io_applied io \<ge> 1"
    and "evaluateFromDB io db req (cacheKey sha256 req) (Some r) = (resp, Some r')"
    and "rdb svc = Some r'" "\<not> io_get_fails io'"
  shows "(cache_lookup io' svc (cacheKey sha256 req) \<noteq> None \<longleftrightarrow> io_check io' < io_stored io + 60 * Second)
    \<and> (io_check io' < io_stored io + 60 * Second \<longrightarrow>
        (\<exists>out svc'. Evaluate sha256 io' db' req svc = (Ok out, svc') \<and> Effect out = Effect resp
          \<and> MatchedPolicyIDs out = MatchedPolicyIDs resp \<and> MaxVersion out = MaxVersion resp \<and> CacheHit out = ''redis''
          \<and> rdb svc' = rdb svc
          \<and> refreshes svc' = (if io_check io' > io_stored io + 55 * Second \<and> refreshSem svc < 100
               then refreshes svc @ [(req, cacheKey sha256 req)] else refreshes svc)))"
proof -
  obtain eff ids v where ev: "evaluate (io_cel io) req ps = (eff, ids, v)" by (cases "evaluate (io_cel io) req ps")
  note st = stored_decision [OF assms(1,2,3) ev assms(4)]
  show ?thesis
    using assms(5,6) st
    by (auto simp: cache_lookup_def redis_get_def Evaluate_def Let_def max_refresh_def
        cacheTTL_def staleWindow_def time_units)
qed

theorem cache_hit_window_witness:
  "\<exists>r'. snd (evaluateFromDB sample_io sample_db user_req (cacheKey (\<lambda>x. x) user_req) (Some empty_redis)) = Some r'
     \<and> cache_lookup (sample_io\<lparr>io_check := 59 * Second\<rparr>)
         \<lparr>rdb = Some r', refreshSem = 0, refreshes = [], invalidations = [], logCh = []\<rparr> (cacheKey (\<lambda>x. x) user_req) \<noteq> None"
proof -
  let ?k = "cacheKey (\<lambda>x. x) user_req"
  have g: "GetMatchingPolicies (io_pg sample_io) (io_ctx sample_io) (io_faults sample_io) sample_db (OrgID' user_req)
      (SubjectID user_req) (nil_slice (UserGroups user_req)) = Ok [sample_policy ''p1'' allow_all_logic 1]"
    by (simp add: sample_io_def user_req_def nil_slice_def sample_matching)
  obtain resp r' where e: "evaluateFromDB sample_io sample_db user_req ?k (Some empty_redis) = (resp, Some r')"
    by (cases "evaluateFromDB sample_io sample_db user_req ?k (Some empty_redis)")
      (auto simp: evaluateFromDB_def Let_def split: sum.splits prod.splits)
  from cache_hit_window [OF g _ _ e, of "\<lparr>rdb = Some r', refreshSem = 0, refreshes = [], invalidations = [], logCh = []\<rparr>"
      "sample_io\<lparr>io_check := 59 * Second\<rparr>" sample_db] e
  show ?thesis by (auto simp: sample_io_def time_units)
qed



definition db_after_deny :: policy_db where
  "db_after_deny = snd (CreatePolicy open_env None no_faults ''p2'' ''ob1'' 1 sample_db ''o1'' ''block'' [] (Some deny_all_logic))"

text \<open>
  Creating a policy does not reach the decision cache: after a decision
  allow is cached and a deny_all policy is then committed for the same tenant,
  Evaluate still answers allow 59 s later, although an evaluation from the
  database answers deny.  Only assignments schedule an invalidation; nothing
  consumes the policy.changes events for it.
\<close>

theorem policy_change_served_stale:
  "\<exists>r' out svc'. snd (evaluateFromDB sample_io sample_db user_req (cacheKey sha256 user_req) (Some empty_redis)) = Some r'
     \<and> is_ok (fst (CreatePolicy open_env None no_faults ''p2'' ''ob1'' 1 sample_db ''o1'' ''block'' [] (Some deny_all_logic)))
     \<and> Effect (fst (evaluateFromDB sample_io db_after_deny user_req (cacheKey sha256 user_req) None)) = ''deny''
     \<and> Evaluate sha256 (sample_io\<lparr>io_check := 59 * Second\<rparr>) db_after_deny user_req
         \<lparr>rdb = Some r', refreshSem = 0, refreshes = [], invalidations = [], logCh = []\<rparr> = (Ok out, svc')
     \<and> Effect out = ''allow''"
proof -
  let ?k = "cacheKey sha256 user_req"
  let ?p2 = "\<lparr>pol_ID = ''p2'', pol_OrgID = ''o1'', pol_Name = ''block'', pol_Description = [], pol_Logic = Some deny_all_logic,
      pol_Version = 1, pol_CreatedAt = 1, pol_UpdatedAt = 1\<rparr>"
  have g: "GetMatchingPolicies (io_pg sample_io) (io_ctx sample_io) (io_faults sample_io) sample_db (OrgID' user_req)
      (SubjectID user_req) (nil_slice (UserGroups user_req)) = Ok [sample_policy ''p1'' allow_all_logic 1]"
    by (simp add: sample_io_def user_req_def nil_slice_def sample_matching)
  obtain resp r' where e: "evaluateFromDB sample_io sample_db user_req ?k (Some empty_redis) = (resp, Some r')"
    by (cases "evaluateFromDB sample_io sample_db user_req ?k (Some empty_redis)")
      (auto simp: evaluateFromDB_def Let_def split: sum.splits prod.splits)
  have ev: "evaluate (io_cel sample_io) user_req [sample_policy ''p1'' allow_all_logic 1] = (''allow'', [''p1''], 1)"
    by (simp add: sample_evaluate sample_io_def)
  note st = stored_decision [OF g _ _ ev e]
  have v: "validatePolicyLogic None (Some deny_all_logic) = Ok ()" by code_simp
  have tx: "CreatePolicyTx open_env no_faults sample_db ''p2'' 1 ''o1'' ''block'' [] (Some deny_all_logic) =
      Ok (?p2, sample_db\<lparr>policies := [sample_policy ''p1'' allow_all_logic 1, ?p2]\<rparr>)"
    by (simp add: CreatePolicyTx_def open_env_def sample_db_def sample_policy_def Let_def)
  obtain ob where pub: "PublishPolicyChange open_env ''ob1'' 1 (sample_db\<lparr>policies := [sample_policy ''p1'' allow_all_logic 1, ?p2]\<rparr>)
      ''o1'' ''p2'' ''policy.created'' = Ok (sample_db\<lparr>policies := [sample_policy ''p1'' allow_all_logic 1, ?p2], outbox_records := ob\<rparr>)"
    by (simp add: PublishPolicyChange_def WriteTx_def open_env_def)
  have c0: "CreatePolicy open_env None no_faults ''p2'' ''ob1'' 1 sample_db ''o1'' ''block'' [] (Some deny_all_logic) =
      (Ok ?p2, sample_db\<lparr>policies := [sample_policy ''p1'' allow_all_logic 1, ?p2], outbox_records := ob\<rparr>)"
    by (simp add: CreatePolicy_def v tx pub)
  then have c: "CreatePolicy open_env None no_faults ''p2'' ''ob1'' 1 sample_db ''o1'' ''block'' [] (Some deny_all_logic) = (Ok ?p2, db_after_deny)"
    "policies db_after_deny = [sample_policy ''p1'' allow_all_logic 1, ?p2]"
    "policy_assignments db_after_deny = [sample_assignment]"
    by (simp_all add: db_after_deny_def sample_db_def)
  have g2: "GetMatchingPolicies open_env sample_ctx no_faults db_after_deny ''o1'' ''u1'' [] =
      Ok [sample_policy ''p1'' allow_all_logic 1, ?p2]"
    by (simp add: GetMatchingPolicies_def sample_ctx_def open_env_def c sample_assignment_def
        withOrgContext_def no_faults_def left_join_def sample_policy_def)
  have ev2: "fst (evaluate None user_req [sample_policy ''p1'' allow_all_logic 1, ?p2]) = ''deny''" by code_simp
  have "Effect (fst (evaluateFromDB sample_io db_after_deny user_req ?k None)) = ''deny''"
    using ev2 by (auto simp: evaluateFromDB_def sample_io_def user_req_def nil_slice_def g2 split: prod.splits)
  moreover have "Evaluate sha256 (sample_io\<lparr>io_check := 59 * Second\<rparr>) db_after_deny user_req
      \<lparr>rdb = Some r', refreshSem = 0, refreshes = [], invalidations = [], logCh = []\<rparr> = (Ok out, svc') \<Longrightarrow>
      Effect out = ''allow''" for out svc'
    using st by (auto simp: Evaluate_def Let_def cache_lookup_def redis_get_def sample_io_def cacheTTL_def time_units)
  moreover have "\<exists>out svc'. Evaluate sha256 (sample_io\<lparr>io_check := 59 * Second\<rparr>) db_after_deny user_req
      \<lparr>rdb = Some r', refreshSem = 0, refreshes = [], invalidations = [], logCh = []\<rparr> = (Ok out, svc')"
    using st by (auto simp: Evaluate_def Let_def cache_lookup_def redis_get_def sample_io_def cacheTTL_def time_units)
  ultimately show ?thesis using e c(1) by auto
qed

definition announces :: "pg_env \<Rightarrow> string \<Rightarrow> string \<Rightarrow> string \<Rightarrow> policy_db \<Rightarrow> policy_db \<Rightarrow> bool" where
  "announces env o' i ev db db' \<longleftrightarrow> (\<exists>r. outbox_records db' = outbox_records db @ [r]
     \<and> ob_topic r = ''policy.changes'' \<and> ob_key r = i \<and> ob_status r = ''pending'' \<and> pg_uuid env o' = Some (ob_org_id r)
     \<and> ob_payload r = JObj [(''event_type'', JStr ev), (''org_id'', JStr o'), (''policy_id'', JStr i)])"


text \<open>
  C8. Tenants do not interfere through policy mutations: after any sequence of
  create, update and delete calls on behalf of other tenants, with any
  failures, a tenant's policies are exactly what they were.
\<close>

theorem policy_mutations_tenant_isolated:
  assumes "\<And>op. op \<in> set ops \<Longrightarrow> op_org env op \<noteq> Some t"
  shows "filter (\<lambda>p. pol_OrgID p = t) (policies (fold (run_op env cel) ops db)) =
    filter (\<lambda>p. pol_OrgID p = t) (policies db)"
  using policy_tenants.fold_other [OF assms] unfolding tenant_policies_def by blast

theorem policy_mutations_tenant_isolated_witness:
  "filter (\<lambda>p. pol_OrgID p = ''o1'') (policies (fold (run_op open_env None)
     [OpDelete no_faults ''ob1'' 1 ''o2'' ''p1'', OpCreate no_faults ''p2'' ''ob2'' 2 ''o2'' ''n'' [] (Some deny_all_logic)] sample_db))
   = filter (\<lambda>p. pol_OrgID p = ''o1'') (policies sample_db)"
  by (rule policy_mutations_tenant_isolated) (auto simp: open_env_def)

text \<open>
  A default-deny decision leaves no trace in the evaluation log: when no
  policy matches, the response carries a nil id slice, the log worker's INSERT
  writes NULL into a NOT NULL column and fails, and the database is unchanged.
\<close>

theorem default_deny_is_not_logged:
  assumes "GetMatchingPolicies (io_pg io) (io_ctx io) (io_faults io) db (OrgID' req) (SubjectID req)
      (nil_slice (UserGroups req)) = Ok ps" "io_refusal io = None" "matching (io_cel io) req ps = []"
  shows "Effect (fst (evaluateFromDB io db req key rd)) = ''deny'' \<and>
    processWriteEvalLog env f i now req (fst (evaluateFromDB io db req key rd)) db = db"
proof -
  have "\<forall>p\<in>set ps. verdict (io_cel io) req p = None"
    using assms(3) by (simp add: matching_def filter_empty_conv)
  then have "evaluate (io_cel io) req ps = (''deny'', [], 0)"
    using assms(3) by (auto simp: evaluate_closed)
  with assms show ?thesis
    by (auto simp: evaluateFromDB_def to_slice_def processWriteEvalLog_def WriteEvalLog_def withOrgContext_def
        Let_def split: sum.splits if_splits option.splits)
qed

theorem default_deny_is_not_logged_witness:
  "processWriteEvalLog open_env no_faults ''l1'' 5 (user_req\<lparr>SubjectID := ''u2''\<rparr>)
     (fst (evaluateFromDB sample_io sample_db (user_req\<lparr>SubjectID := ''u2''\<rparr>) ''k'' None)) sample_db = sample_db"
proof -
  have "GetMatchingPolicies (io_pg sample_io) (io_ctx sample_io) (io_faults sample_io) sample_db
      (OrgID' (user_req\<lparr>SubjectID := ''u2''\<rparr>)) (SubjectID (user_req\<lparr>SubjectID := ''u2''\<rparr>))
      (nil_slice (UserGroups (user_req\<lparr>SubjectID := ''u2''\<rparr>))) = Ok []"
    by (simp add: GetMatchingPolicies_def sample_ctx_def open_env_def sample_db_def sample_assignment_def sample_io_def
        withOrgContext_def left_join_def sample_policy_def user_req_def nil_slice_def)
  from default_deny_is_not_logged [OF this, where key = "''k''" and rd = None] show ?thesis
    by (simp add: sample_io_def matching_def)
qed

end
