(* ===== verification/Http.thy ===== *)
theory Http
  imports Rls
begin

text \<open>
  Requests and responses as the handlers and middlewares see them.  A header
  map is an association list with canonical names; \<open>Get\<close> returns the first
  value or the empty string.  The body of a response is the Go value passed to
  the JSON encoder.
\<close>

type_synonym headers = "(string \<times> string) list"

definition hget :: "headers \<Rightarrow> string \<Rightarrow> string" where
  "hget h k = (case map_of h k of None \<Rightarrow> [] | Some v \<Rightarrow> v)"

definition hset :: "headers \<Rightarrow> string \<Rightarrow> string \<Rightarrow> headers" where
  "hset h k v = (k, v) # filter (\<lambda>(k', _). k' \<noteq> k) h"

definition hdel :: "headers \<Rightarrow> string \<Rightarrow> headers" where
  "hdel h k = filter (\<lambda>(k', _). k' \<noteq> k) h"

record 'b http_resp =
  rs_code :: int
  rs_headers :: headers
  rs_body :: 'b

lemma map_of_filter_ne: "map_of (filter (\<lambda>(k', _). k' \<noteq> k) h) k'' = (if k'' = k then None else map_of h k'')"
  by (induction h) auto

lemma hget_hset [simp]: "hget (hset h k v) k' = (if k' = k then v else hget h k')"
  by (simp add: hget_def hset_def map_of_filter_ne)

lemma hget_hdel [simp]: "hget (hdel h k) k' = (if k' = k then [] else hget h k')"
  by (simp add: hget_def hdel_def map_of_filter_ne)

end
