(* ===== verification/Policy_Handlers.thy ===== *)
theory Policy_Handlers
  imports Policy_Service Http
begin

text \<open>
  The HTTP handlers of the policy service
  (services/policy/pkg/handlers/handler.go).  Each takes the request context
  (with the tenant that the JWT middleware put there), the URL and query
  parameters and the decoded body, and returns the response with the new
  database and service state.
\<close>

datatype pol_body =
    BError string
  | BStatus string
  | BHealth
  | BEval EvaluateResponse
  | BPolicy Policy
  | BPolicies "Policy list" int
  | BLogs "EvalLog list" int
  | BAssignment Assignment
  | BAssignments "Assignment list" int

type_synonym pol_resp = "pol_body http_resp"

definition writeJSON :: "headers \<Rightarrow> int \<Rightarrow> pol_body \<Rightarrow> pol_resp" where
  "writeJSON h status data = \<lparr>rs_code = status, rs_headers = hset h ''Content-Type'' ''application/json'', rs_body = data\<rparr>"

definition writeError :: "headers \<Rightarrow> int \<Rightarrow> string \<Rightarrow> pol_resp" where
  "writeError h status text = writeJSON h status (BError text)"

definition orgIDFromContext :: "go_ctx \<Rightarrow> string \<times> bool" where
  "orgIDFromContext ctx = (Rls.OrgID ctx, Rls.OrgID ctx \<noteq> [])"

definition HealthH :: pol_resp where
  "HealthH = writeJSON [] 200 BHealth"

definition etag :: "string \<Rightarrow> int \<Rightarrow> string" where
  "etag i v = [CHR 0x22] @ i @ ''-v'' @ itoa v @ [CHR 0x22]"

subsection \<open>Request bodies\<close>

definition req_member :: "string \<Rightarrow> json \<Rightarrow> EvaluateRequest \<Rightarrow> EvaluateRequest option" where
  "req_member k j r =
     (if key_is k ''org_id'' then map_option (\<lambda>v. r\<lparr>OrgID' := v\<rparr>) (dec_string j (OrgID' r))
      else if key_is k ''subject_id'' then map_option (\<lambda>v. r\<lparr>SubjectID := v\<rparr>) (dec_string j (SubjectID r))
      else if key_is k ''user_groups'' then map_option (\<lambda>v. r\<lparr>UserGroups := v\<rparr>) (dec_slice j)
      else if key_is k ''action'' then map_option (\<lambda>v. r\<lparr>Action := v\<rparr>) (dec_string j (Action r))
      else if key_is k ''resource'' then map_option (\<lambda>v. r\<lparr>Resource := v\<rparr>) (dec_string j (Resource r))
      else Some r)"

definition dec_EvaluateRequest :: "raw_json \<Rightarrow> EvaluateRequest option" where
  "dec_EvaluateRequest = dec_struct req_member
     \<lparr>OrgID' = [], SubjectID = [], UserGroups = None, Action = [], Resource = []\<rparr>"

record policy_body =
  pb_Name :: string
  pb_Description :: string
  pb_Logic :: raw_json

definition pb_member :: "string \<Rightarrow> json \<Rightarrow> policy_body \<Rightarrow> policy_body option" where
  "pb_member k j b =
     (if key_is k ''name'' then map_option (\<lambda>v. b\<lparr>pb_Name := v\<rparr>) (dec_string j (pb_Name b))
      else if key_is k ''description'' then map_option (\<lambda>v. b\<lparr>pb_Description := v\<rparr>) (dec_string j (pb_Description b))
      else if key_is k ''logic'' then Some (b\<lparr>pb_Logic := Some j\<rparr>)
      else Some b)"

definition dec_policy_body :: "raw_json \<Rightarrow> policy_body option" where
  "dec_policy_body = dec_struct pb_member \<lparr>pb_Name = [], pb_Description = [], pb_Logic = None\<rparr>"

record assignment_body =
  ab_PolicyID :: string
  ab_SubjectID :: string
  ab_SubjectType :: string

definition ab_member :: "string \<Rightarrow> json \<Rightarrow> assignment_body \<Rightarrow> assignment_body option" where
  "ab_member k j b =
     (if key_is k ''policy_id'' then map_option (\<lambda>v. b\<lparr>ab_PolicyID := v\<rparr>) (dec_string j (ab_PolicyID b))
      else if key_is k ''subject_id'' then map_option (\<lambda>v. b\<lparr>ab_SubjectID := v\<rparr>) (dec_string j (ab_SubjectID b))
      else if key_is k ''subject_type'' then map_option (\<lambda>v. b\<lparr>ab_SubjectType := v\<rparr>) (dec_string j (ab_SubjectType b))
      else Some b)"

definition dec_assignment_body :: "raw_json \<Rightarrow> assignment_body option" where
  "dec_assignment_body = dec_struct ab_member \<lparr>ab_PolicyID = [], ab_SubjectID = [], ab_SubjectType = []\<rparr>"

text \<open>\<open>json.Unmarshal\<close> into a \<open>map[string]interface{}\<close> accepts objects and null.\<close>

fun is_json_map :: "raw_json \<Rightarrow> bool" where
  "is_json_map (Some (JObj _)) = True"
| "is_json_map (Some JNull) = True"
| "is_json_map _ = False"

subsection \<open>Handlers\<close>

definition EvaluateH :: "(string \<Rightarrow> string) \<Rightarrow> eval_io \<Rightarrow> policy_db \<Rightarrow> raw_json \<Rightarrow> policy_svc \<Rightarrow> pol_resp \<times> policy_svc" where
  "EvaluateH sha256 io db body svc =
     (case orgIDFromContext (io_ctx io) of (ctxOrgID, ok) \<Rightarrow>
      if \<not> ok then (writeError [] 500 ''missing org context'', svc)
      else (case dec_EvaluateRequest body of
        None \<Rightarrow> (writeError [] 400 ''invalid request body'', svc)
      | Some req \<Rightarrow>
          if SubjectID req = [] \<or> Action req = [] \<or> Resource req = []
          then (writeError [] 400 ''subject_id, action, and resource are required'', svc)
          else let req = req\<lparr>OrgID' := ctxOrgID\<rparr> in
            (case Evaluate sha256 io db req svc of
               (Inl e, svc') \<Rightarrow> (writeError [] 500 ''evaluation failed'', svc')
             | (Inr resp, svc') \<Rightarrow>
                 (writeJSON (hset (hset [] ''ETag'' (etag (OrgID' req) (MaxVersion resp))) ''Cache-Control'' ''no-store'')
                    200 (BEval resp), svc'))))"

definition ListPoliciesH :: "pg_env \<Rightarrow> go_ctx \<Rightarrow> db_faults \<Rightarrow> policy_db \<Rightarrow> pol_resp" where
  "ListPoliciesH env ctx f db =
     (case orgIDFromContext ctx of (orgID, ok) \<Rightarrow>
      if \<not> ok then writeError [] 500 ''missing org context''
      else (case ListPolicies env ctx f db orgID of
        Inl e \<Rightarrow> writeError [] 500 ''failed to list policies''
      | Inr ps \<Rightarrow> writeJSON [] 200 (BPolicies ps (int (length ps)))))"

definition CreatePolicyH :: "pg_env \<Rightarrow> cel_env option \<Rightarrow> go_ctx \<Rightarrow> db_faults \<Rightarrow> string \<Rightarrow> string \<Rightarrow> time \<Rightarrow> raw_json \<Rightarrow>
    policy_db \<Rightarrow> pol_resp \<times> policy_db" where
  "CreatePolicyH env cel ctx f new_id ob now body db =
     (case orgIDFromContext ctx of (orgID, ok) \<Rightarrow>
      if \<not> ok then (writeError [] 500 ''missing org context'', db)
      else (case dec_policy_body body of
        None \<Rightarrow> (writeError [] 400 ''invalid request body'', db)
      | Some b \<Rightarrow>
          if pb_Name b = [] \<or> pb_Logic b = None then (writeError [] 400 ''name and logic are required'', db)
          else if \<not> is_json_map (pb_Logic b) then (writeError [] 400 ''logic must be valid JSON'', db)
          else (case CreatePolicy env cel f new_id ob now db orgID (pb_Name b) (pb_Description b) (pb_Logic b) of
             (Inl e, db') \<Rightarrow> (writeError [] 500 ''failed to create policy'', db')
           | (Inr p, db') \<Rightarrow> (writeJSON (hset [] ''ETag'' (etag (pol_ID p) (pol_Version p))) 201 (BPolicy p), db'))))"

definition GetPolicyH :: "pg_env \<Rightarrow> go_ctx \<Rightarrow> db_faults \<Rightarrow> policy_db \<Rightarrow> string \<Rightarrow> pol_resp" where
  "GetPolicyH env ctx f db policyID =
     (case orgIDFromContext ctx of (orgID, ok) \<Rightarrow>
      if \<not> ok then writeError [] 500 ''missing org context''
      else if policyID = [] then writeError [] 400 ''id is required''
      else (case GetPolicy env ctx f db orgID policyID of
        Inl ErrNotFound \<Rightarrow> writeError [] 404 ''policy not found''
      | Inl (DbErr _) \<Rightarrow> writeError [] 500 ''failed to get policy''
      | Inr p \<Rightarrow> writeJSON (hset [] ''ETag'' (etag (pol_ID p) (pol_Version p))) 200 (BPolicy p)))"

definition UpdatePolicyH :: "pg_env \<Rightarrow> cel_env option \<Rightarrow> go_ctx \<Rightarrow> db_faults \<Rightarrow> string \<Rightarrow> time \<Rightarrow> string \<Rightarrow> raw_json \<Rightarrow>
    policy_db \<Rightarrow> pol_resp \<times> policy_db" where
  "UpdatePolicyH env cel ctx f ob now policyID body db =
     (case orgIDFromContext ctx of (orgID, ok) \<Rightarrow>
      if \<not> ok then (writeError [] 500 ''missing org context'', db)
      else (case dec_policy_body body of
        None \<Rightarrow> (writeError [] 400 ''invalid request body'', db)
      | Some b \<Rightarrow>
          if policyID = [] then (writeError [] 400 ''id is required'', db)
          else (case UpdatePolicy env cel f ob now db orgID policyID (pb_Name b) (pb_Description b) (pb_Logic b) of
             (Inl e, db') \<Rightarrow> (if e = SvcDb ErrNotFound then writeError [] 404 ''policy not found''
                else writeError [] 500 ''failed to update policy'', db')
           | (Inr p, db') \<Rightarrow> (writeJSON (hset [] ''ETag'' (etag (pol_ID p) (pol_Version p))) 200 (BPolicy p), db'))))"

definition DeletePolicyH :: "pg_env \<Rightarrow> go_ctx \<Rightarrow> db_faults \<Rightarrow> string \<Rightarrow> time \<Rightarrow> string \<Rightarrow> policy_db \<Rightarrow> pol_resp \<times> policy_db" where
  "DeletePolicyH env ctx f ob now policyID db =
     (case orgIDFromContext ctx of (orgID, ok) \<Rightarrow>
      if \<not> ok then (writeError [] 500 ''missing org context'', db)
      else if policyID = [] then (writeError [] 400 ''id is required'', db)
      else (case DeletePolicy env f ob now db orgID policyID of
         (Inl e, db') \<Rightarrow> (if e = SvcDb ErrNotFound then writeError [] 404 ''policy not found''
            else writeError [] 500 ''failed to delete policy'', db')
       | (Inr _, db') \<Rightarrow> (writeJSON [] 200 (BStatus ''deleted''), db')))"

definition maxLimit :: int where "maxLimit = 500"

definition ListEvalLogsH :: "pg_env \<Rightarrow> go_ctx \<Rightarrow> db_faults \<Rightarrow> policy_db \<Rightarrow> string \<Rightarrow> pol_resp" where
  "ListEvalLogsH env ctx f db l =
     (case orgIDFromContext ctx of (orgID, ok) \<Rightarrow>
      if \<not> ok then writeError [] 500 ''missing org context''
      else let limit = (if l \<noteq> [] then (case Atoi l of Some n \<Rightarrow> if n > 0 then n else 100 | None \<Rightarrow> 100) else 100);
               limit = (if limit > maxLimit then maxLimit else limit) in
        (case ListEvalLogs env ctx f db orgID limit of
           Inl e \<Rightarrow> writeError [] 500 ''failed to list eval logs''
         | Inr logs \<Rightarrow> writeJSON [] 200 (BLogs logs (int (length logs)))))"

definition ListAssignmentsH :: "pg_env \<Rightarrow> go_ctx \<Rightarrow> db_faults \<Rightarrow> policy_db \<Rightarrow> pol_resp" where
  "ListAssignmentsH env ctx f db =
     (case orgIDFromContext ctx of (orgID, ok) \<Rightarrow>
      if \<not> ok then writeError [] 500 ''missing org context''
      else (case ListAssignments env ctx f db orgID of
        Inl e \<Rightarrow> writeError [] 500 ''failed to list assignments''
      | Inr as \<Rightarrow> writeJSON [] 200 (BAssignments as (int (length as)))))"

definition CreateAssignmentH :: "pg_env \<Rightarrow> go_ctx \<Rightarrow> db_faults \<Rightarrow> string \<Rightarrow> time \<Rightarrow> raw_json \<Rightarrow> policy_db \<Rightarrow> policy_svc \<Rightarrow>
    pol_resp \<times> policy_db \<times> policy_svc" where
  "CreateAssignmentH env ctx f new_id now body db svc =
     (case orgIDFromContext ctx of (orgID, ok) \<Rightarrow>
      if \<not> ok then (writeError [] 500 ''missing org context'', db, svc)
      else (case dec_assignment_body body of
        None \<Rightarrow> (writeError [] 400 ''invalid request body'', db, svc)
      | Some b \<Rightarrow>
          if ab_PolicyID b = [] \<or> ab_SubjectID b = []
          then (writeError [] 400 ''policy_id and subject_id are required'', db, svc)
          else (case SvcCreateAssignment env ctx f db new_id now orgID (ab_PolicyID b) (ab_SubjectID b) (ab_SubjectType b) svc of
             (Inl e, db', svc') \<Rightarrow> (writeError [] 500 ''failed to create assignment'', db', svc')
           | (Inr a, db', svc') \<Rightarrow> (writeJSON [] 201 (BAssignment a), db', svc'))))"

definition DeleteAssignmentH :: "pg_env \<Rightarrow> go_ctx \<Rightarrow> db_faults \<Rightarrow> string \<Rightarrow> policy_db \<Rightarrow> policy_svc \<Rightarrow>
    pol_resp \<times> policy_db \<times> policy_svc" where
  "DeleteAssignmentH env ctx f assignmentID db svc =
     (case orgIDFromContext ctx of (orgID, ok) \<Rightarrow>
      if \<not> ok then (writeError [] 500 ''missing org context'', db, svc)
      else if assignmentID = [] then (writeError [] 400 ''id is required'', db, svc)
      else (case SvcDeleteAssignment env ctx f db orgID assignmentID svc of
         (Inl ErrNotFound, db', svc') \<Rightarrow> (writeError [] 404 ''assignment not found'', db', svc')
       | (Inl (DbErr _), db', svc') \<Rightarrow> (writeError [] 500 ''failed to delete assignment'', db', svc')
       | (Inr _, db', svc') \<Rightarrow> (writeJSON [] 200 (BStatus ''deleted''), db', svc')))"

subsection \<open>Properties\<close>

lemma EvaluateH_ok:
  assumes "EvaluateH sha256 io db body svc = (out, svc')" "rs_body out = BEval resp"
  obtains req where "dec_EvaluateRequest body = Some req" "Rls.OrgID (io_ctx io) \<noteq> []"
    "Evaluate sha256 io db (req\<lparr>OrgID' := Rls.OrgID (io_ctx io)\<rparr>) svc = (Ok resp, svc')"
  using assms
  by (auto simp: EvaluateH_def orgIDFromContext_def writeError_def writeJSON_def Let_def
      split: if_splits option.splits sum.splits prod.splits)

lemma Evaluate_uncached:
  assumes "Evaluate sha256 io db req svc = (Ok resp, svc')" "CacheHit resp \<noteq> ''redis''"
  shows "Effect resp = Effect (fst (evaluateFromDB io db req (cacheKey sha256 req) (rdb svc)))"
  using assms by (auto simp: Evaluate_def Let_def split: option.splits prod.splits if_splits)

lemma allow_justified:
  assumes "Effect (fst (evaluateFromDB io db req key rd)) = ''allow''"
  shows "\<exists>p\<in>set (policies db). pg_uuid (io_pg io) (OrgID' req) = Some (pol_OrgID p)
     \<and> verdict (io_cel io) req p = Some Allows"
proof -
  obtain ps where ps: "GetMatchingPolicies (io_pg io) (io_ctx io) (io_faults io) db (OrgID' req) (SubjectID req)
      (nil_slice (UserGroups req)) = Ok ps" "fst (evaluate (io_cel io) req ps) = ''allow''"
    using assms by (auto simp: evaluateFromDB_def Call_Ok split: sum.splits prod.splits)
  then show ?thesis
    using GetMatching_org [OF ps(1)] by (auto simp: evaluate_closed split: if_splits)
qed

text \<open>
  The tenant of an evaluation is the one of the caller's token: whatever
  org_id the body of POST /v1/policy/evaluate names, a decision that does not
  come from the cache and allows the request rests on a stored policy of the
  token's tenant that allows exactly this request.
\<close>

theorem evaluate_endpoint_uses_token_tenant:
  assumes "EvaluateH sha256 io db body svc = (out, svc')" "rs_body out = BEval resp"
    and "Effect resp = ''allow''" "CacheHit resp \<noteq> ''redis''"
  shows "\<exists>req. dec_EvaluateRequest body = Some req \<and>
    (\<exists>p\<in>set (policies db). pg_uuid (io_pg io) (Rls.OrgID (io_ctx io)) = Some (pol_OrgID p)
       \<and> verdict (io_cel io) (req\<lparr>OrgID' := Rls.OrgID (io_ctx io)\<rparr>) p = Some Allows)"
proof -
  obtain req where req: "dec_EvaluateRequest body = Some req"
    "Evaluate sha256 io db (req\<lparr>OrgID' := Rls.OrgID (io_ctx io)\<rparr>) svc = (Ok resp, svc')"
    using EvaluateH_ok [OF assms(1,2)] by blast
  from allow_justified [OF Evaluate_uncached [OF req(2) assms(4), symmetric, unfolded assms(3)]] req(1)
  show ?thesis by auto
qed

definition sample_body :: raw_json where
  "sample_body = Some (JObj [(''org_id'', JStr ''o9''), (''subject_id'', JStr ''u1''), (''action'', JStr ''read''),
     (''resource'', JStr ''doc:1'')])"

definition idle_svc :: policy_svc where
  "idle_svc = \<lparr>rdb = None, refreshSem = 0, refreshes = [], invalidations = [], logCh = []\<rparr>"

theorem evaluate_endpoint_uses_token_tenant_witness:
  "\<exists>out resp. fst (EvaluateH (\<lambda>x. x) sample_io sample_db sample_body idle_svc) = out \<and> rs_body out = BEval resp
     \<and> Effect resp = ''allow'' \<and> (\<exists>p\<in>set (policies sample_db). pol_OrgID p = ''o1'')"
proof -
  have d: "dec_EvaluateRequest sample_body = Some (user_req\<lparr>OrgID' := ''o9''\<rparr>)" by code_simp
  have o: "Rls.OrgID (io_ctx sample_io) = ''o1''" by (simp add: sample_io_def sample_ctx_def)
  have u: "user_req\<lparr>OrgID' := ''o9'', OrgID' := ''o1''\<rparr> = user_req" "SubjectID user_req \<noteq> []" "Action user_req \<noteq> []"
    "Resource user_req \<noteq> []" by (simp_all add: user_req_def)
  let ?resp = "\<lparr>Effect = ''allow'', MatchedPolicyIDs = Some [''p1''], MaxVersion = 1, CacheHit = ''none'', LatencyMs = 0\<rparr>"
  have "evaluateFromDB sample_io sample_db user_req k None = (?resp, None)" for k
    by (simp add: evaluateFromDB_def sample_io_def user_req_def nil_slice_def sample_matching to_slice_def
        sample_evaluate [unfolded user_req_def])
  then have "\<exists>svc'. Evaluate (\<lambda>x. x) sample_io sample_db user_req idle_svc = (Ok ?resp, svc')"
    by (auto simp: Evaluate_def Let_def cache_lookup_def idle_svc_def latency_def sample_io_def)
  then obtain out svc' where out: "EvaluateH (\<lambda>x. x) sample_io sample_db sample_body idle_svc = (out, svc')"
    "rs_body out = BEval ?resp"
    using d o u by (auto simp: EvaluateH_def orgIDFromContext_def writeJSON_def Let_def)
  from evaluate_endpoint_uses_token_tenant [OF out] out show ?thesis
    by (auto simp: sample_io_def open_env_def sample_ctx_def)
qed

end
