(* ===== verification/Audit_Trail.thy ===== *)
theory Audit_Trail
  imports Prelude Http
begin

text \<open>
  The audit service (services/audit): the Kafka consumer that appends batches
  of events to a per-tenant HMAC chain in MongoDB
  (pkg/consumer/consumer.go, pkg/repository/repository.go) and the ingestion
  endpoint with its DLP check (pkg/handlers/ingest.go).

  An event is the decoded JSON object, as the Go map the consumer updates in
  place.  HMAC-SHA256 is a parameter, and so is the text \<open>%v\<close> gives for an
  event id that is neither a string nor absent.  Several consumers (one per
  topic) share the collections: each MongoDB call is atomic, and what happens
  between two calls is explicit.
\<close>

type_synonym event = "(string \<times> json) list"

record chain_head =
  ch_hash :: string
  ch_sequence :: int

record audit_db =
  hash_chains :: "string \<rightharpoonup> chain_head"
  audit_events :: "event list"

subsection \<open>Repository\<close>

text \<open>FindOneAndUpdate with upsert and ReturnDocument After: (startSeq, prevHash) and the new state.\<close>

definition ReserveSequence :: "string \<Rightarrow> int \<Rightarrow> audit_db \<Rightarrow> int \<times> string \<times> audit_db" where
  "ReserveSequence orgID count db =
     (let doc = (case hash_chains db orgID of
            None \<Rightarrow> \<lparr>ch_hash = [], ch_sequence = count\<rparr>
          | Some d \<Rightarrow> d\<lparr>ch_sequence := ch_sequence d + count\<rparr>)
      in (ch_sequence doc - count, ch_hash doc, db\<lparr>hash_chains := (hash_chains db)(orgID \<mapsto> doc)\<rparr>))"

definition UpdateHashChainCAS :: "string \<Rightarrow> string \<Rightarrow> string \<Rightarrow> audit_db \<Rightarrow> bool \<times> audit_db" where
  "UpdateHashChainCAS orgID prevHash newHash db =
     (case hash_chains db orgID of
        None \<Rightarrow> (False, db)
      | Some d \<Rightarrow> if ch_hash d = prevHash
          then (True, db\<lparr>hash_chains := (hash_chains db)(orgID \<mapsto> d\<lparr>ch_hash := newHash\<rparr>)\<rparr>)
          else (False, db))"

text \<open>
  The ordered bulk insert under the unique sparse index on event_id: documents
  are inserted until one is refused, and then the call fails.
\<close>

definition dup_event_id :: "event list \<Rightarrow> event \<Rightarrow> bool" where
  "dup_event_id docs e \<longleftrightarrow> json_lookup e ''event_id'' \<noteq> None \<and>
     (\<exists>d\<in>set docs. json_lookup d ''event_id'' = json_lookup e ''event_id'')"

fun BulkWrite :: "(event \<Rightarrow> bool) \<Rightarrow> event list \<Rightarrow> audit_db \<Rightarrow> bool \<times> audit_db" where
  "BulkWrite fails [] db = (True, db)"
| "BulkWrite fails (e # es) db =
     (if fails e \<or> dup_event_id (audit_events db) e then (False, db)
      else BulkWrite fails es (db\<lparr>audit_events := audit_events db @ [e]\<rparr>))"

definition GetLatestHash :: "string \<Rightarrow> audit_db \<Rightarrow> string \<times> int" where
  "GetLatestHash orgID db = (case hash_chains db orgID of None \<Rightarrow> ([], 0) | Some d \<Rightarrow> (ch_hash d, ch_sequence d))"

text \<open>Find with a filter document: every member of the filter must be a member of the event; newest first.\<close>

definition doc_matches :: "event \<Rightarrow> event \<Rightarrow> bool" where
  "doc_matches flt e \<longleftrightarrow> list_all (\<lambda>(k, v). json_lookup e k = Some v) flt"

definition json_time :: "event \<Rightarrow> int" where
  "json_time e = (case json_lookup e ''timestamp'' of Some (JNum t) \<Rightarrow> t | _ \<Rightarrow> 0)"

definition FindEvents :: "event \<Rightarrow> nat \<Rightarrow> nat \<Rightarrow> audit_db \<Rightarrow> event list" where
  "FindEvents flt limit offset db =
     take limit (drop offset (sort_key (\<lambda>e. - json_time e) (filter (doc_matches flt) (audit_events db))))"

text \<open>The handler of GET /v1/events in main.go passes a nil filter.\<close>

definition ListEventsH :: "audit_db \<Rightarrow> event list" where
  "ListEventsH db = FindEvents [] 50 0 db"

subsection \<open>Consumer\<close>

definition fmt_v :: "(json \<Rightarrow> string) \<Rightarrow> json option \<Rightarrow> string" where
  "fmt_v other v = (case v of None \<Rightarrow> ''<nil>'' | Some JNull \<Rightarrow> ''<nil>'' | Some (JStr s) \<Rightarrow> s | Some j \<Rightarrow> other j)"

definition link_hash :: "(string \<Rightarrow> string \<Rightarrow> string) \<Rightarrow> (json \<Rightarrow> string) \<Rightarrow> string \<Rightarrow> event \<Rightarrow> string \<Rightarrow> string" where
  "link_hash hmac other key e prev =
     hex_encode (hmac key (fmt_v other (json_lookup e ''event_id'') @ ''|'' @ prev))"

text \<open>Step 2 of flush: sequence numbers and, with a key, the chained hashes; the last hash computed so far is carried along.\<close>

fun chain_loop :: "(string \<Rightarrow> string \<Rightarrow> string) \<Rightarrow> (json \<Rightarrow> string) \<Rightarrow> string \<Rightarrow> int \<Rightarrow> string \<Rightarrow> string \<Rightarrow> event list \<Rightarrow> event list \<times> string" where
  "chain_loop hmac other key sq prev cur [] = ([], cur)"
| "chain_loop hmac other key sq prev cur (e # es) =
     (let e1 = json_put ''sequence'' (JNum sq) e in
      if key \<noteq> [] then
        (let h = link_hash hmac other key e1 prev;
             r = chain_loop hmac other key (sq + 1) h h es
         in (json_put ''integrity_hash'' (JStr h) e1 # fst r, snd r))
      else
        (let r = chain_loop hmac other key (sq + 1) prev cur es in (e1 # fst r, snd r)))"

text \<open>Decoding the batch; an undecodable message is skipped, a JSON null makes the map assignment panic.\<close>

datatype decoded = Panic | Events "event list"

fun decode_batch :: "time \<Rightarrow> raw_json list \<Rightarrow> decoded" where
  "decode_batch now [] = Events []"
| "decode_batch now (m # ms) =
     (case m of
        Some JNull \<Rightarrow> Panic
      | Some (JObj e) \<Rightarrow> (case decode_batch now ms of Panic \<Rightarrow> Panic
           | Events es \<Rightarrow> Events (json_put ''timestamp'' (JNum now) e # es))
      | _ \<Rightarrow> decode_batch now ms)"

text \<open>
  What a flush meets: errors of the calls in each attempt, cancellation while
  it waits, and what the other consumers do to the database between its
  ReserveSequence and its compare-and-swap.
\<close>

record flush_env =
  fe_key :: string
  fe_now :: time
  fe_reserve_err :: "nat \<Rightarrow> bool"
  fe_cancelled :: "nat \<Rightarrow> bool"
  fe_others :: "nat \<Rightarrow> audit_db \<Rightarrow> audit_db"
  fe_cas_err :: "nat \<Rightarrow> bool"
  fe_doc_err :: "event \<Rightarrow> bool"
  fe_commit_ok :: bool

datatype attempts = Linked "event list" audit_db | GaveUp audit_db

fun flush_attempts :: "(string \<Rightarrow> string \<Rightarrow> string) \<Rightarrow> (json \<Rightarrow> string) \<Rightarrow> flush_env \<Rightarrow> string \<Rightarrow> nat \<Rightarrow> nat \<Rightarrow>
    string \<Rightarrow> event list \<Rightarrow> audit_db \<Rightarrow> attempts" where
  "flush_attempts hmac other env orgID 0 k cur es db = GaveUp db"
| "flush_attempts hmac other env orgID (Suc n) k cur es db =
     (if fe_reserve_err env k then
        (if fe_cancelled env k then GaveUp db else flush_attempts hmac other env orgID n (Suc k) cur es db)
      else (case ReserveSequence orgID (int (length es)) db of (startSeq, prevHash, db1) \<Rightarrow>
        (case chain_loop hmac other (fe_key env) startSeq prevHash cur es of (es', cur') \<Rightarrow>
          (let db2 = fe_others env k db1 in
           if fe_key env \<noteq> [] \<and> cur' \<noteq> [] then
             (if fe_cas_err env k then GaveUp db2
              else (case UpdateHashChainCAS orgID prevHash cur' db2 of (ok, db3) \<Rightarrow>
                if ok then Linked es' db3 else flush_attempts hmac other env orgID n (Suc k) cur' es' db3))
           else Linked es' db2))))"

datatype flush_result = FlushPanic | Dropped | NotWritten | Written bool

definition flush :: "(string \<Rightarrow> string \<Rightarrow> string) \<Rightarrow> (json \<Rightarrow> string) \<Rightarrow> flush_env \<Rightarrow> raw_json list \<Rightarrow> audit_db \<Rightarrow> flush_result \<times> audit_db" where
  "flush hmac other env batch db =
     (case decode_batch (fe_now env) batch of
        Panic \<Rightarrow> (FlushPanic, db)
      | Events es \<Rightarrow>
          if es = [] then (Dropped, db)
          else let orgID = json_str (hd es) ''org_id'' in
            if orgID = [] then (Dropped, db)
            else (case flush_attempts hmac other env orgID 5 0 [] es db of
              GaveUp db' \<Rightarrow> (Dropped, db')
            | Linked es' db' \<Rightarrow>
                (case BulkWrite (fe_doc_err env) es' db' of (ok, db'') \<Rightarrow>
                   if ok then (Written (fe_commit_ok env), db'') else (NotWritten, db''))))"

text \<open>The consumer loop of Start: messages are collected and flushed at the batch size or at a tick.\<close>

datatype consumer_event = Tick | Fetched raw_json | FetchFailed

definition batch_size :: "string \<Rightarrow> nat" where
  "batch_size val = (if val \<noteq> [] then (case Atoi val of
      Some i \<Rightarrow> if i > 0 then nat (if i > 500 then 500 else i) else 500 | None \<Rightarrow> 500) else 500)"

text \<open>State: the current batch and the batches handed to flush so far.\<close>

fun consumer_step :: "nat \<Rightarrow> consumer_event \<Rightarrow> raw_json list \<times> raw_json list list \<Rightarrow> raw_json list \<times> raw_json list list" where
  "consumer_step bsz Tick (batch, out) = (if batch \<noteq> [] then ([], out @ [batch]) else (batch, out))"
| "consumer_step bsz FetchFailed (batch, out) = (batch, out)"
| "consumer_step bsz (Fetched m) (batch, out) =
     (let batch' = batch @ [m] in if length batch' \<ge> bsz then ([], out @ [batch']) else (batch', out))"

subsection \<open>Ingestion\<close>

datatype http_reply = ReplyErr | Reply int raw_json

text \<open>The DLP service's reply to POST /v1/scan decides whether the event is blocked.\<close>

fun checkDLP :: "http_reply \<Rightarrow> bool" where
  "checkDLP ReplyErr = True"
| "checkDLP (Reply status body) =
     (if status \<noteq> 200 then True
      else (case body of
              Some (JArr fs) \<Rightarrow> length fs > 0
            | Some JNull \<Rightarrow> False
            | _ \<Rightarrow> False))"

record IngestHandler =
  ih_dlpURL :: string
  ih_dlpMode :: string

definition NewIngestHandler :: "string \<Rightarrow> string \<Rightarrow> IngestHandler" where
  "NewIngestHandler dlpURL dlpMode = \<lparr>ih_dlpURL = dlpURL, ih_dlpMode = (if dlpMode = [] then ''audit'' else dlpMode)\<rparr>"

datatype ingest_result = IngestPanic | Rejected int | Accepted string string event

text \<open>
  The outcome, with the Kafka topic, key and payload when the event was
  published.  The DLP reply may depend on the event sent; a publish error is an
  argument.
\<close>

definition Ingest :: "IngestHandler \<Rightarrow> string \<Rightarrow> raw_json \<Rightarrow> time \<Rightarrow> (event \<Rightarrow> http_reply) \<Rightarrow> bool \<Rightarrow> ingest_result" where
  "Ingest h orgID body now dlp publish_ok =
     (if orgID = [] then Rejected 401
      else (case body of
        Some JNull \<Rightarrow> IngestPanic
      | Some (JObj ev) \<Rightarrow>
          (let ev = json_put ''org_id'' (JStr orgID) ev;
               ev = (if json_lookup ev ''event_id'' = None \<or> json_lookup ev ''event_id'' = Some JNull
                     then json_put ''event_id'' (JStr (''evt-'' @ itoa now)) ev else ev)
           in if ih_dlpMode h = ''block'' \<and> ih_dlpURL h \<noteq> [] \<and> checkDLP (dlp ev) then Rejected 422
              else let topic = (if json_str ev ''topic'' \<noteq> [] then json_str ev ''topic'' else ''audit.trail'');
                       eventID = json_str ev ''event_id''
                in if publish_ok then Accepted topic eventID ev else Rejected 500)
      | _ \<Rightarrow> Rejected 400))"

subsection \<open>The chain an auditor can recompute\<close>

fun verify_chain :: "(string \<Rightarrow> string \<Rightarrow> string) \<Rightarrow> (json \<Rightarrow> string) \<Rightarrow> string \<Rightarrow> string \<Rightarrow> event list \<Rightarrow> string option" where
  "verify_chain hmac other key prev [] = Some prev"
| "verify_chain hmac other key prev (e # es) =
     (let h = link_hash hmac other key e prev in
      if json_lookup e ''integrity_hash'' = Some (JStr h) then verify_chain hmac other key h es else None)"

definition ev_seq :: "event \<Rightarrow> int" where
  "ev_seq e = (case json_lookup e ''sequence'' of Some (JNum n) \<Rightarrow> n | _ \<Rightarrow> -1)"

lemma verify_chain_append:
  "verify_chain hmac other key prev (es @ fs) =
     (case verify_chain hmac other key prev es of None \<Rightarrow> None | Some h \<Rightarrow> verify_chain hmac other key h fs)"
  by (induction es arbitrary: prev) (auto simp: Let_def)

lemma link_hash_put [simp]:
  "k \<noteq> ''event_id'' \<Longrightarrow> link_hash hmac other key (json_put k v e) prev = link_hash hmac other key e prev"
  by (simp add: link_hash_def)

lemma chain_loop_verifies_from:
  "key \<noteq> [] \<Longrightarrow> verify_chain hmac other key prev (fst (chain_loop hmac other key sq prev prev es)) =
     Some (snd (chain_loop hmac other key sq prev prev es))"
  by (induction es arbitrary: sq prev) (simp_all add: Let_def)

lemma chain_loop_cur: "key \<noteq> [] \<Longrightarrow> es \<noteq> [] \<Longrightarrow>
   chain_loop hmac other key sq prev cur es = chain_loop hmac other key sq prev prev es"
  by (cases es) (simp_all add: Let_def)

lemma chain_loop_verifies:
  "key \<noteq> [] \<Longrightarrow> es \<noteq> [] \<Longrightarrow> chain_loop hmac other key sq prev cur es = (es', h) \<Longrightarrow>
   verify_chain hmac other key prev es' = Some h"
  by (metis chain_loop_cur chain_loop_verifies_from fst_conv snd_conv)

lemma ev_seq_put [simp]: "ev_seq (json_put ''sequence'' (JNum n) e) = n"
  "k \<noteq> ''sequence'' \<Longrightarrow> ev_seq (json_put k v e) = ev_seq e"
  by (simp_all add: ev_seq_def)

lemma chain_loop_seqs_fst:
  "map ev_seq (fst (chain_loop hmac other key sq prev cur es)) = [sq .. sq + int (length es) - 1]"
proof (induction es arbitrary: sq prev cur)
  case (Cons e es)
  have "[sq .. sq + int (length (e # es)) - 1] = sq # [sq + 1 .. (sq + 1) + int (length es) - 1]"
    by (subst upto_rec1) (simp_all add: algebra_simps)
  with Cons show ?case by (auto simp: Let_def)
qed simp

lemma chain_loop_seqs:
  "chain_loop hmac other key sq prev cur es = (es', h) \<Longrightarrow> map ev_seq es' = [sq .. sq + int (length es) - 1]"
  by (metis chain_loop_seqs_fst fst_conv)

lemma chain_loop_ids:
  "chain_loop hmac other key sq prev cur es = (es', h) \<Longrightarrow>
   map (\<lambda>e. json_lookup e ''event_id'') es' = map (\<lambda>e. json_lookup e ''event_id'') es"
proof -
  have "map (\<lambda>e. json_lookup e ''event_id'') (fst (chain_loop hmac other key sq prev cur es)) =
      map (\<lambda>e. json_lookup e ''event_id'') es"
    by (induction es arbitrary: sq prev cur) (auto simp: Let_def)
  then show "chain_loop hmac other key sq prev cur es = (es', h) \<Longrightarrow>
      map (\<lambda>e. json_lookup e ''event_id'') es' = map (\<lambda>e. json_lookup e ''event_id'') es" by simp
qed

subsection \<open>The repository interface\<close>

text \<open>
  What the consumer relies on of AuditRepository: a reservation returns the
  current head and moves only the sequence, a compare-and-swap replaces the
  hash exactly when the head still has the expected one, and other tenants are
  not touched.
\<close>

locale audit_repository =
  fixes reserve :: "string \<Rightarrow> int \<Rightarrow> 'db \<Rightarrow> int \<times> string \<times> 'db"
    and cas :: "string \<Rightarrow> string \<Rightarrow> string \<Rightarrow> 'db \<Rightarrow> bool \<times> 'db"
    and head :: "string \<Rightarrow> 'db \<Rightarrow> string \<times> int"
    and known :: "string \<Rightarrow> 'db \<Rightarrow> bool"
  assumes reserve_result: "reserve o' n db = (sq, h, db') \<Longrightarrow> head o' db = (h, sq) \<and> head o' db' = (h, sq + n) \<and> known o' db'"
    and reserve_other: "reserve o' n db = (sq, h, db') \<Longrightarrow> p \<noteq> o' \<Longrightarrow> head p db' = head p db"
    and cas_ok: "cas o' h h' db = (True, db') \<Longrightarrow> fst (head o' db) = h \<and> head o' db' = (h', snd (head o' db))"
    and cas_fail: "cas o' h h' db = (False, db') \<Longrightarrow> db' = db"
    and cas_succeeds: "known o' db \<Longrightarrow> fst (head o' db) = h \<Longrightarrow> fst (cas o' h h' db)"
    and cas_other: "cas o' h h' db = (ok, db') \<Longrightarrow> p \<noteq> o' \<Longrightarrow> head p db' = head p db"
begin

text \<open>Undisturbed, a reservation followed by its compare-and-swap always succeeds and moves the head as a whole.\<close>

lemma append_undisturbed:
  assumes "reserve o' n db = (sq, h, db1)"
  shows "\<exists>db2. cas o' h h' db1 = (True, db2) \<and> head o' db2 = (h', sq + n)"
proof -
  have "known o' db1" "fst (head o' db1) = h" and h1: "head o' db1 = (h, sq + n)"
    using reserve_result [OF assms] by auto
  then have "fst (cas o' h h' db1)" by (intro cas_succeeds)
  then obtain db2 where "cas o' h h' db1 = (True, db2)" by (cases "cas o' h h' db1") auto
  with cas_ok [OF this] h1 show ?thesis by auto
qed

end

interpretation mongo: audit_repository ReserveSequence UpdateHashChainCAS GetLatestHash "\<lambda>o' db. hash_chains db o' \<noteq> None"
  by unfold_locales
    (auto simp: ReserveSequence_def UpdateHashChainCAS_def GetLatestHash_def Let_def split: option.splits if_splits)

subsection \<open>Concurrent consumers\<close>

text \<open>
  The consumers of the different topics run flush concurrently.  A consumer is
  idle, or has reserved a range and computed its links, or has won the
  compare-and-swap and is about to write.  \<open>sys_links\<close> is the history of won
  compare-and-swaps, per tenant in order.
\<close>

datatype flush_local =
    LIdle
  | LReserved string string "event list" string
  | LLinked "event list"

record audit_sys =
  sys_db :: audit_db
  sys_links :: "(string \<times> event list) list"
  sys_local :: "nat \<Rightarrow> flush_local"

inductive audit_step :: "(string \<Rightarrow> string \<Rightarrow> string) \<Rightarrow> (json \<Rightarrow> string) \<Rightarrow> string \<Rightarrow> audit_sys \<Rightarrow> audit_sys \<Rightarrow> bool"
  for hmac other key where
  a_reserve: "sys_local s c = LIdle \<Longrightarrow> es \<noteq> [] \<Longrightarrow>
     ReserveSequence org (int (length es)) (sys_db s) = (sq, prev, db') \<Longrightarrow>
     chain_loop hmac other key sq prev cur es = (es', h) \<Longrightarrow>
     audit_step hmac other key s (s\<lparr>sys_db := db', sys_local := (sys_local s)(c := LReserved org prev es' h)\<rparr>)"
| a_linked: "sys_local s c = LReserved org prev es h \<Longrightarrow>
     UpdateHashChainCAS org prev h (sys_db s) = (True, db') \<Longrightarrow>
     audit_step hmac other key s (s\<lparr>sys_db := db', sys_links := sys_links s @ [(org, es)],
       sys_local := (sys_local s)(c := LLinked es)\<rparr>)"
| a_retry: "sys_local s c = LReserved org prev es h \<Longrightarrow>
     UpdateHashChainCAS org prev h (sys_db s) = (False, db') \<Longrightarrow>
     audit_step hmac other key s (s\<lparr>sys_db := db', sys_local := (sys_local s)(c := LIdle)\<rparr>)"
| a_abandon: "sys_local s c = LReserved org prev es h \<Longrightarrow>
     audit_step hmac other key s (s\<lparr>sys_local := (sys_local s)(c := LIdle)\<rparr>)"
| a_write: "sys_local s c = LLinked es \<Longrightarrow> BulkWrite fails es (sys_db s) = (ok, db') \<Longrightarrow>
     audit_step hmac other key s (s\<lparr>sys_db := db', sys_local := (sys_local s)(c := LIdle)\<rparr>)"

definition chain_links :: "string \<Rightarrow> (string \<times> event list) list \<Rightarrow> event list" where
  "chain_links org ls = concat (map snd (filter (\<lambda>(o', _). o' = org) ls))"

abbreviation chain_of :: "string \<Rightarrow> audit_sys \<Rightarrow> event list" where
  "chain_of org s \<equiv> chain_links org (sys_links s)"

definition audit_init :: audit_sys where
  "audit_init = \<lparr>sys_db = \<lparr>hash_chains = (\<lambda>_. None), audit_events = []\<rparr>, sys_links = [], sys_local = (\<lambda>_. LIdle)\<rparr>"

text \<open>
  The invariant: the links of a tenant verify from the empty hash to the
  current head; the sequence numbers of links and pending reservations are
  distinct and below the head's; a stored event is a link.
\<close>

definition chain_inv :: "(string \<Rightarrow> string \<Rightarrow> string) \<Rightarrow> (json \<Rightarrow> string) \<Rightarrow> string \<Rightarrow> audit_sys \<Rightarrow> bool" where
  "chain_inv hmac other key s \<longleftrightarrow>
     (\<forall>org. verify_chain hmac other key [] (chain_of org s) = Some (fst (GetLatestHash org (sys_db s))))
   \<and> (\<forall>c org prev es h. sys_local s c = LReserved org prev es h \<longrightarrow> verify_chain hmac other key prev es = Some h)"

definition links_seq :: "audit_sys \<Rightarrow> string \<Rightarrow> bool" where
  "links_seq s org \<longleftrightarrow> distinct (map ev_seq (chain_of org s))
     \<and> (\<forall>e\<in>set (chain_of org s). ev_seq e < snd (GetLatestHash org (sys_db s)))"

definition pending_seq :: "audit_sys \<Rightarrow> string \<Rightarrow> event list \<Rightarrow> bool" where
  "pending_seq s org es \<longleftrightarrow> distinct (map ev_seq es) \<and> (\<forall>e\<in>set es. ev_seq e < snd (GetLatestHash org (sys_db s)))
     \<and> ev_seq ` set es \<inter> ev_seq ` set (chain_of org s) = {}"

definition disj_seq :: "event list \<Rightarrow> event list \<Rightarrow> bool" where
  "disj_seq es fs \<longleftrightarrow> ev_seq ` set es \<inter> ev_seq ` set fs = {}"

definition seq_inv :: "audit_sys \<Rightarrow> bool" where
  "seq_inv s \<longleftrightarrow> (\<forall>org. links_seq s org)
   \<and> (\<forall>c org prev es h. sys_local s c = LReserved org prev es h \<longrightarrow> pending_seq s org es)
   \<and> (\<forall>c d org p q es fs h k. c \<noteq> d \<longrightarrow> sys_local s c = LReserved org p es h \<longrightarrow> sys_local s d = LReserved org q fs k \<longrightarrow>
        disj_seq es fs)"

definition stored_inv :: "audit_sys \<Rightarrow> bool" where
  "stored_inv s \<longleftrightarrow> set (audit_events (sys_db s)) \<subseteq> (\<Union>(o', es)\<in>set (sys_links s). set es)
   \<and> (\<forall>c es. sys_local s c = LLinked es \<longrightarrow> set es \<subseteq> (\<Union>(o', es)\<in>set (sys_links s). set es))"

lemma chain_links_append [simp]: "chain_links o' (ls @ [(org, es)]) =
   (if o' = org then chain_links o' ls @ es else chain_links o' ls)"
  by (simp add: chain_links_def)

lemma chain_links_Nil [simp]: "chain_links o' [] = []"
  by (simp add: chain_links_def)

lemma BulkWrite_frame: "BulkWrite fails es db = (ok, db') \<Longrightarrow>
   hash_chains db' = hash_chains db \<and> (\<exists>fs. audit_events db' = audit_events db @ fs \<and> set fs \<subseteq> set es \<and> (ok \<longrightarrow> fs = es))"
proof (induction es arbitrary: db)
  case (Cons e es)
  show ?case
  proof (cases "fails e \<or> dup_event_id (audit_events db) e")
    case False
    with Cons.prems Cons.IH [of "db\<lparr>audit_events := audit_events db @ [e]\<rparr>"] show ?thesis by fastforce
  qed (use Cons.prems in auto)
qed auto

lemma BulkWrite_head: "BulkWrite fails es db = (ok, db') \<Longrightarrow> GetLatestHash o' db' = GetLatestHash o' db"
  by (auto dest!: BulkWrite_frame simp: GetLatestHash_def)

lemma reserve_hash: "ReserveSequence org n db = (sq, prev, db') \<Longrightarrow> fst (GetLatestHash o' db') = fst (GetLatestHash o' db)"
  using mongo.reserve_result mongo.reserve_other by (cases "o' = org") fastforce+

lemma reserve_seq: "ReserveSequence org n db = (sq, prev, db') \<Longrightarrow>
   snd (GetLatestHash o' db') = snd (GetLatestHash o' db) + (if o' = org then n else 0)"
  using mongo.reserve_result mongo.reserve_other by (cases "o' = org") fastforce+

lemma cas_frame: "UpdateHashChainCAS org p h db = (True, db') \<Longrightarrow>
   GetLatestHash o' db' = (if o' = org then (h, snd (GetLatestHash org db)) else GetLatestHash o' db)
   \<and> fst (GetLatestHash org db) = p"
  using mongo.cas_ok mongo.cas_other by (cases "o' = org") fastforce+

lemma cas_events: "UpdateHashChainCAS org p h db = (ok, db') \<Longrightarrow> audit_events db' = audit_events db"
  by (auto simp: UpdateHashChainCAS_def split: option.splits if_splits)

lemma reserve_events: "ReserveSequence org n db = (sq, p, db') \<Longrightarrow> audit_events db' = audit_events db"
  by (auto simp: ReserveSequence_def Let_def)

lemma chain_inv_step:
  assumes "audit_step hmac other key s t" "key \<noteq> []" "chain_inv hmac other key s"
  shows "chain_inv hmac other key t"
  using assms
proof (induction rule: audit_step.induct)
  case (a_reserve s c es org sq prev db' cur es' h)
  then show ?case
    using chain_loop_verifies [OF _ a_reserve.hyps(2,4)]
    by (auto simp: chain_inv_def reserve_hash [OF a_reserve.hyps(3)])
next
  case (a_linked s c org prev es h db')
  note cas = cas_frame [OF a_linked.hyps(2)]
  have "verify_chain hmac other key [] (chain_of org s) = Some prev" "verify_chain hmac other key prev es = Some h"
    using a_linked.prems(2) a_linked.hyps(1) cas by (auto simp: chain_inv_def)
  then have "verify_chain hmac other key [] (chain_of org s @ es) = Some h"
    by (simp add: verify_chain_append)
  with a_linked.prems(2) cas show ?case
    by (auto simp: chain_inv_def)
next
  case (a_retry s c org prev es h db')
  then show ?case using mongo.cas_fail [OF a_retry.hyps(2)] by (auto simp: chain_inv_def)
next
  case (a_write s c es fails ok db')
  then show ?case by (auto simp: chain_inv_def BulkWrite_head [OF a_write.hyps(2)])
qed (auto simp: chain_inv_def)

lemma seqs_of_reserve:
  assumes "ReserveSequence org (int (length es)) db = (sq, prev, db')" "chain_loop hmac other key sq prev cur es = (es', h)"
  shows "distinct (map ev_seq es')"
    "e \<in> set es' \<Longrightarrow> snd (GetLatestHash org db) \<le> ev_seq e \<and> ev_seq e < snd (GetLatestHash org db')"
proof -
  have m: "map ev_seq es' = [sq .. sq + int (length es) - 1]" by (rule chain_loop_seqs [OF assms(2)])
  then show "distinct (map ev_seq es')" by simp
  assume "e \<in> set es'"
  then have "ev_seq e \<in> set (map ev_seq es')" by simp
  then have "sq \<le> ev_seq e \<and> ev_seq e < sq + int (length es)" unfolding m by auto
  then show "snd (GetLatestHash org db) \<le> ev_seq e \<and> ev_seq e < snd (GetLatestHash org db')"
    using mongo.reserve_result [OF assms(1)] by simp
qed

lemma seq_invD:
  assumes "seq_inv s"
  shows "links_seq s org"
    and "sys_local s c = LReserved org p es h \<Longrightarrow> pending_seq s org es"
    and "c \<noteq> d \<Longrightarrow> sys_local s c = LReserved org p es h \<Longrightarrow> sys_local s d = LReserved org q fs k \<Longrightarrow> disj_seq es fs"
  using assms unfolding seq_inv_def by blast+

lemma seq_invI:
  assumes "\<And>org. links_seq s org"
    and "\<And>c org p es h. sys_local s c = LReserved org p es h \<Longrightarrow> pending_seq s org es"
    and "\<And>c d org p q es fs h k. c \<noteq> d \<Longrightarrow> sys_local s c = LReserved org p es h \<Longrightarrow>
      sys_local s d = LReserved org q fs k \<Longrightarrow> disj_seq es fs"
  shows "seq_inv s"
  using assms unfolding seq_inv_def by blast

lemma seq_inv_fewer:
  assumes inv: "seq_inv s" and eq: "sys_links t = sys_links s" "\<And>o'. GetLatestHash o' (sys_db t) = GetLatestHash o' (sys_db s)"
    and res: "\<And>c org p es h. sys_local t c = LReserved org p es h \<Longrightarrow> sys_local s c = LReserved org p es h"
  shows "seq_inv t"
proof -
  have "links_seq t = links_seq s" "pending_seq t = pending_seq s"
    by (auto simp: fun_eq_iff links_seq_def pending_seq_def eq)
  then show ?thesis using seq_invD [OF inv] by (intro seq_invI) (auto dest!: res)
qed

lemma seq_inv_reserve:
  assumes inv: "seq_inv s" and r: "ReserveSequence org (int (length es)) (sys_db s) = (sq, prev, db')"
    and l: "chain_loop hmac other key sq prev cur es = (es', h)"
  shows "seq_inv (s\<lparr>sys_db := db', sys_local := (sys_local s)(c := LReserved org prev es' h)\<rparr>)" (is "seq_inv ?t")
proof -
  note new = seqs_of_reserve [OF r l]
  have le: "snd (GetLatestHash o' (sys_db s)) \<le> snd (GetLatestHash o' db')" for o'
    by (simp add: reserve_seq [OF r])
  have links: "links_seq ?t o'" for o'
    using inv le [of o'] by (force simp: seq_inv_def links_seq_def)
  have keep: "pending_seq ?t o' fs" if "pending_seq s o' fs" for o' fs
    using that le [of o'] by (force simp: pending_seq_def)
  have fresh: "disj_seq es' fs" if "\<And>e. e \<in> set fs \<Longrightarrow> ev_seq e < snd (GetLatestHash org (sys_db s))" for fs
    using that new(2) by (force simp: disj_seq_def)
  have mine: "pending_seq ?t org es'"
    using new inv fresh [of "chain_of org s"] by (auto simp: pending_seq_def disj_seq_def seq_inv_def links_seq_def)
  have other: "disj_seq es' fs" if "sys_local s d = LReserved org q fs k" for d q fs k
    using seq_invD(2) [OF inv that] fresh [of fs] by (simp add: pending_seq_def)
  have sym: "disj_seq fs es'" if "disj_seq es' fs" for fs using that by (auto simp: disj_seq_def)
  show ?thesis
  proof (rule seq_invI)
    show "links_seq ?t o'" for o' by (rule links)
    show "pending_seq ?t o' fs" if "sys_local ?t d = LReserved o' p fs k" for d o' p fs k
      using that mine keep [OF seq_invD(2) [OF inv]] by (cases "d = c") auto
    show "disj_seq fs gs" if "d \<noteq> e" "sys_local ?t d = LReserved o' p fs k" "sys_local ?t e = LReserved o' q gs m"
      for d e o' p q fs gs k m
      using that other sym seq_invD(3) [OF inv that(1)] by (cases "d = c"; cases "e = c") auto
  qed
qed

lemma seq_inv_linked:
  assumes inv: "seq_inv s" and loc: "sys_local s c = LReserved org prev es h"
    and r: "UpdateHashChainCAS org prev h (sys_db s) = (True, db')"
  shows "seq_inv (s\<lparr>sys_db := db', sys_links := sys_links s @ [(org, es)], sys_local := (sys_local s)(c := LLinked es)\<rparr>)"
    (is "seq_inv ?t")
proof -
  have cas: "snd (GetLatestHash o' db') = snd (GetLatestHash o' (sys_db s))" for o'
    using cas_frame [OF r] by simp
  have mine: "pending_seq s org es" using inv loc unfolding seq_inv_def by blast
  have links: "links_seq ?t o'" for o'
  proof -
    have "links_seq s o'" using inv by (simp add: seq_inv_def)
    with mine show ?thesis by (auto simp: links_seq_def pending_seq_def cas)
  qed
  have others: "disj_seq fs es" if "d \<noteq> c" "sys_local s d = LReserved org q fs k" for d q fs k
    using inv loc that unfolding seq_inv_def by blast
  have pend: "pending_seq ?t o' fs" if "d \<noteq> c" "sys_local s d = LReserved o' q fs k" for d o' q fs k
  proof -
    have "pending_seq s o' fs" using inv that(2) unfolding seq_inv_def by blast
    with others [OF that(1)] that(2) show ?thesis by (auto simp: pending_seq_def disj_seq_def cas)
  qed
  show ?thesis
  proof (rule seq_invI)
    show "links_seq ?t o'" for o' by (rule links)
    show "pending_seq ?t o' fs" if "sys_local ?t d = LReserved o' p fs k" for d o' p fs k
      using that pend by (cases "d = c") auto
    show "disj_seq fs gs" if "d \<noteq> e" "sys_local ?t d = LReserved o' p fs k" "sys_local ?t e = LReserved o' q gs m"
      for d e o' p q fs gs k m
      using that seq_invD(3) [OF inv that(1)] by (cases "d = c"; cases "e = c") auto
  qed
qed

lemma seq_inv_step: "audit_step hmac other key s t \<Longrightarrow> seq_inv s \<Longrightarrow> seq_inv t"
proof (induction rule: audit_step.induct)
  case (a_reserve s c es org sq prev db' cur es' h)
  then show ?case by (blast intro: seq_inv_reserve)
next
  case (a_linked s c org prev es h db')
  then show ?case by (blast intro: seq_inv_linked)
next
  case (a_retry s c org prev es h db')
  then show ?case
    using mongo.cas_fail [OF a_retry.hyps(2)] by (auto intro!: seq_inv_fewer [OF a_retry.prems] split: if_splits)
next
  case (a_abandon s c org prev es h)
  then show ?case by (auto intro!: seq_inv_fewer [OF a_abandon.prems] split: if_splits)
next
  case (a_write s c es fails ok db')
  then show ?case
    by (auto intro!: seq_inv_fewer [OF a_write.prems] simp: BulkWrite_head [OF a_write.hyps(2)] split: if_splits)
qed

lemma stored_inv_step:
  assumes "audit_step hmac other key s t" "stored_inv s"
  shows "stored_inv t"
  using assms
proof (induction rule: audit_step.induct)
  case (a_reserve s c es org sq prev db' cur es' h)
  then show ?case by (auto simp: stored_inv_def reserve_events split: if_splits)
next
  case (a_linked s c org prev es h db')
  then show ?case by (fastforce simp: stored_inv_def cas_events split: if_splits)
next
  case (a_retry s c org prev es h db')
  then show ?case by (auto simp: stored_inv_def cas_events split: if_splits)
next
  case (a_write s c es fails ok db')
  then show ?case by (fastforce simp: stored_inv_def dest!: BulkWrite_frame split: if_splits)
qed (auto simp: stored_inv_def split: if_splits)

interpretation audit_chain: step_invariant "audit_step hmac other key"
  "\<lambda>s. (key \<noteq> [] \<longrightarrow> chain_inv hmac other key s) \<and> seq_inv s \<and> stored_inv s" for hmac other key
  by unfold_locales (auto intro: chain_inv_step seq_inv_step stored_inv_step)

lemma audit_init_inv: "chain_inv hmac other key audit_init" "seq_inv audit_init" "stored_inv audit_init"
  by (simp_all add: chain_inv_def seq_inv_def links_seq_def stored_inv_def audit_init_def GetLatestHash_def)

subsection \<open>Properties\<close>


definition sample_event :: event where
  "sample_event = [(''event_id'', JStr ''e1''), (''org_id'', JStr ''o1'')]"


lemma flush_first_attempt:
  assumes "key = fe_key env" "key \<noteq> []" "\<And>k d. hmac k d \<noteq> []" "\<not> fe_reserve_err env 0" "fe_others env 0 = id" "\<not> fe_cas_err env 0"
    and "es \<noteq> []" "GetLatestHash org db = (prev, sq)"
  shows "\<exists>es' h db'. flush_attempts hmac other env org (Suc n) 0 cur es db = Linked es' db'
    \<and> verify_chain hmac other key prev es' = Some h \<and> map ev_seq es' = [sq .. sq + int (length es) - 1]
    \<and> map (\<lambda>e. json_lookup e ''event_id'') es' = map (\<lambda>e. json_lookup e ''event_id'') es
    \<and> GetLatestHash org db' = (h, sq + int (length es)) \<and> audit_events db' = audit_events db
    \<and> (\<forall>o'. o' \<noteq> org \<longrightarrow> GetLatestHash o' db' = GetLatestHash o' db)"
proof -
  obtain db1 where r: "ReserveSequence org (int (length es)) db = (sq, prev, db1)"
    using mongo.reserve_result assms(8) by (cases "ReserveSequence org (int (length es)) db") fastforce
  obtain es' h where l: "chain_loop hmac other key sq prev cur es = (es', h)" by fastforce
  have hex: "hex_encode x \<noteq> []" if "x \<noteq> []" for x using that by (cases x) (auto simp: hex_encode_def hex_byte_def)
  have h: "h \<noteq> []"
  proof -
    have "snd (chain_loop hmac other key q p c es) \<noteq> []" if "c \<noteq> [] \<or> es \<noteq> []" for q p c
      using that by (induction es arbitrary: q p c) (auto simp: Let_def link_hash_def assms(2,3) hex)
    then show ?thesis using l assms(7) by (metis snd_conv)
  qed
  obtain db2 where c: "UpdateHashChainCAS org prev h db1 = (True, db2)" "GetLatestHash org db2 = (h, sq + int (length es))"
    using mongo.append_undisturbed [OF r] by blast
  have "flush_attempts hmac other env org (Suc n) 0 cur es db = Linked es' db2"
    using assms(1,2,4-6) h by (simp add: r l [unfolded assms(1)] c(1))
  moreover have "audit_events db2 = audit_events db" using reserve_events [OF r] cas_events [OF c(1)] by simp
  moreover have "GetLatestHash o' db2 = GetLatestHash o' db" if "o' \<noteq> org" for o'
    using mongo.reserve_other [OF r that] mongo.cas_other [OF c(1) that] by simp
  ultimately show ?thesis
    using chain_loop_verifies [OF assms(2,7) l] chain_loop_seqs [OF l] chain_loop_ids [OF l] c(2) by blast
qed

text \<open>The calls of a flush succeed and nobody interferes.\<close>

definition calm :: "flush_env \<Rightarrow> bool" where
  "calm env \<longleftrightarrow> fe_key env \<noteq> [] \<and> \<not> fe_reserve_err env 0 \<and> fe_others env 0 = id \<and> \<not> fe_cas_err env 0"

lemma five: "(5::nat) = Suc 4" by simp

lemma flush_calm:
  assumes "calm env" "\<And>k d. hmac k d \<noteq> []" "decode_batch (fe_now env) batch = Events es" "es \<noteq> []"
    and "org = json_str (hd es) ''org_id''" "org \<noteq> []" "GetLatestHash org db = (prev, sq)"
  obtains es' h db' where
    "flush hmac other env batch db = (case BulkWrite (fe_doc_err env) es' db' of (ok, db'') \<Rightarrow>
       if ok then (Written (fe_commit_ok env), db'') else (NotWritten, db''))"
    "verify_chain hmac other (fe_key env) prev es' = Some h" "map ev_seq es' = [sq .. sq + int (length es) - 1]"
    "map (\<lambda>e. json_lookup e ''event_id'') es' = map (\<lambda>e. json_lookup e ''event_id'') es"
    "GetLatestHash org db' = (h, sq + int (length es))" "audit_events db' = audit_events db"
    "\<forall>o'. o' \<noteq> org \<longrightarrow> GetLatestHash o' db' = GetLatestHash o' db"
proof -
  have c: "fe_key env \<noteq> []" "\<not> fe_reserve_err env 0" "fe_others env 0 = id" "\<not> fe_cas_err env 0"
    using assms(1) by (simp_all add: calm_def)
  from flush_first_attempt [where hmac = hmac and other = other and n = 4 and cur = "[]", OF refl c(1) assms(2) c(2-4) assms(4,7)]
  obtain es' h db' where
    l: "flush_attempts hmac other env org (Suc 4) 0 [] es db = Linked es' db'" and
    p: "verify_chain hmac other (fe_key env) prev es' = Some h" "map ev_seq es' = [sq .. sq + int (length es) - 1]"
    "map (\<lambda>e. json_lookup e ''event_id'') es' = map (\<lambda>e. json_lookup e ''event_id'') es"
    "GetLatestHash org db' = (h, sq + int (length es))" "audit_events db' = audit_events db"
    "\<forall>o'. o' \<noteq> org \<longrightarrow> GetLatestHash o' db' = GetLatestHash o' db"
    by (elim exE conjE)
  have "flush_attempts hmac other env org 5 0 [] es db = Linked es' db'"
    using l by (simp only: five)
  then have "flush hmac other env batch db = (case BulkWrite (fe_doc_err env) es' db' of (ok, db'') \<Rightarrow>
       if ok then (Written (fe_commit_ok env), db'') else (NotWritten, db''))"
    using assms(3-6) by (simp add: flush_def Let_def)
  from that [OF this p] show thesis .
qed

text \<open>
  An undisturbed flush whose bulk write succeeds appends exactly its
  events to the collection, with consecutive sequence numbers starting at the
  tenant's counter and hashes that continue the chain from the old head to the
  new one; the counter moves by the number of events and no other tenant's
  head changes.
\<close>

theorem flush_appends_segment:
  assumes "calm env" "\<And>k d. hmac k d \<noteq> []" "decode_batch (fe_now env) batch = Events es" "es \<noteq> []"
    and "org = json_str (hd es) ''org_id''" "org \<noteq> []" "GetLatestHash org db = (prev, sq)"
    and "flush hmac other env batch db = (Written c, db')"
  shows "\<exists>es' h. audit_events db' = audit_events db @ es' \<and> verify_chain hmac other (fe_key env) prev es' = Some h
    \<and> map ev_seq es' = [sq .. sq + int (length es) - 1]
    \<and> map (\<lambda>e. json_lookup e ''event_id'') es' = map (\<lambda>e. json_lookup e ''event_id'') es
    \<and> GetLatestHash org db' = (h, sq + int (length es)) \<and> (\<forall>o'. o' \<noteq> org \<longrightarrow> GetLatestHash o' db' = GetLatestHash o' db)"
proof -
  obtain es' h dbl where f: "flush hmac other env batch db = (case BulkWrite (fe_doc_err env) es' dbl of (ok, db'') \<Rightarrow>
       if ok then (Written (fe_commit_ok env), db'') else (NotWritten, db''))"
    and p: "verify_chain hmac other (fe_key env) prev es' = Some h" "map ev_seq es' = [sq .. sq + int (length es) - 1]"
    "map (\<lambda>e. json_lookup e ''event_id'') es' = map (\<lambda>e. json_lookup e ''event_id'') es"
    "GetLatestHash org dbl = (h, sq + int (length es))" "audit_events dbl = audit_events db"
    "\<forall>o'. o' \<noteq> org \<longrightarrow> GetLatestHash o' dbl = GetLatestHash o' db"
    by (rule flush_calm [where hmac = hmac and other = other, OF assms(1-7)])
  from f assms(8) have b: "BulkWrite (fe_doc_err env) es' dbl = (True, db')"
    by (cases "BulkWrite (fe_doc_err env) es' dbl") (auto split: if_splits)
  have "audit_events db' = audit_events db @ es'" using BulkWrite_frame [OF b] p(5) by auto
  with p BulkWrite_head [OF b] show ?thesis by auto
qed

definition sample_env :: "bool \<Rightarrow> flush_env" where
  "sample_env committed = \<lparr>fe_key = ''k'', fe_now = 5, fe_reserve_err = (\<lambda>_. False), fe_cancelled = (\<lambda>_. False),
     fe_others = (\<lambda>_. id), fe_cas_err = (\<lambda>_. False), fe_doc_err = (\<lambda>_. False), fe_commit_ok = committed\<rparr>"

definition empty_audit :: audit_db where
  "empty_audit = \<lparr>hash_chains = (\<lambda>_. None), audit_events = []\<rparr>"

definition flushed :: audit_db where
  "flushed = snd (flush (\<lambda>k d. d @ ''x'') json_marshal (sample_env False) [Some (JObj sample_event)] empty_audit)"

lemma sample_flush_result:
  "fst (flush (\<lambda>k d. d @ ''x'') json_marshal (sample_env False) [Some (JObj sample_event)] empty_audit) = Written False"
  by code_simp

lemma sample_flush:
  "flush (\<lambda>k d. d @ ''x'') json_marshal (sample_env False) [Some (JObj sample_event)] empty_audit = (Written False, flushed)"
  by (simp add: prod_eq_iff flushed_def sample_flush_result)

lemma sample_decode: "decode_batch (fe_now (sample_env b)) [Some (JObj sample_event)] = Events [json_put ''timestamp'' (JNum 5) sample_event]"
  by (simp add: sample_env_def)

lemma sample_org: "json_str (hd [json_put ''timestamp'' (JNum 5) sample_event]) ''org_id'' = ''o1''"
  by code_simp

lemma sample_calm: "calm (sample_env b)"
  by (simp add: calm_def sample_env_def)

lemma sample_head: "GetLatestHash ''o1'' empty_audit = ([], 0)"
  by (simp add: GetLatestHash_def empty_audit_def)

theorem flush_appends_segment_witness:
  "length (audit_events flushed) = 1 \<and> snd (GetLatestHash ''o1'' flushed) = 1"
proof -
  from flush_appends_segment [OF sample_calm _ sample_decode _ sample_org [symmetric] _ sample_head sample_flush]
  obtain es' h where "audit_events flushed = [] @ es'" "map ev_seq es' = [0 .. 0]" "GetLatestHash ''o1'' flushed = (h, 1)"
    by (auto simp: empty_audit_def)
  moreover from this(2) have "length es' = 1" by (metis length_map upto_single length_Cons list.size(3) One_nat_def)
  ultimately show ?thesis by simp
qed

text \<open>
  A batch that Kafka redelivers after its offset commit was lost is not
  ignored: the bulk write fails on the unique event_id, nothing is stored and
  the offset is again not committed; yet the compare-and-swap has already moved
  the tenant's head and counter past the events that are stored.
\<close>

theorem redelivered_batch_is_refused:
  assumes "calm env" "\<And>k d. hmac k d \<noteq> []" "decode_batch (fe_now env) batch = Events es" "es \<noteq> []"
    and "org = json_str (hd es) ''org_id''" "org \<noteq> []" "json_lookup (hd es) ''event_id'' \<noteq> None"
    and "flush hmac other env batch db = (Written c, db1)"
  shows "\<exists>db2. flush hmac other env batch db1 = (NotWritten, db2) \<and> audit_events db2 = audit_events db1
    \<and> snd (GetLatestHash org db2) = snd (GetLatestHash org db1) + int (length es)"
proof -
  obtain prev sq where h0: "GetLatestHash org db = (prev, sq)" by fastforce
  obtain es1 h1 dbl where f1: "flush hmac other env batch db = (case BulkWrite (fe_doc_err env) es1 dbl of (ok, db'') \<Rightarrow>
       if ok then (Written (fe_commit_ok env), db'') else (NotWritten, db''))"
    and p1: "map (\<lambda>e. json_lookup e ''event_id'') es1 = map (\<lambda>e. json_lookup e ''event_id'') es"
    by (rule flush_calm [where hmac = hmac and other = other, OF assms(1-6) h0])
  from f1 assms(8) have b1: "BulkWrite (fe_doc_err env) es1 dbl = (True, db1)"
    by (cases "BulkWrite (fe_doc_err env) es1 dbl") (auto split: if_splits)
  obtain q1 s1 where h1: "GetLatestHash org db1 = (q1, s1)" by fastforce
  obtain es2 h2 dbm where f2: "flush hmac other env batch db1 = (case BulkWrite (fe_doc_err env) es2 dbm of (ok, db'') \<Rightarrow>
       if ok then (Written (fe_commit_ok env), db'') else (NotWritten, db''))"
    and p2: "map (\<lambda>e. json_lookup e ''event_id'') es2 = map (\<lambda>e. json_lookup e ''event_id'') es"
    "GetLatestHash org dbm = (h2, s1 + int (length es))" "audit_events dbm = audit_events db1"
    by (rule flush_calm [where hmac = hmac and other = other, OF assms(1-6) h1])
  have ids: "json_lookup (hd x) ''event_id'' = json_lookup (hd es) ''event_id'' \<and> x \<noteq> []"
    if "map (\<lambda>e. json_lookup e ''event_id'') x = map (\<lambda>e. json_lookup e ''event_id'') es" for x
    using that assms(4) by (cases x; cases es) auto
  have "hd es1 \<in> set (audit_events dbm)"
    using BulkWrite_frame [OF b1] p2(3) ids [OF p1] by (auto intro!: hd_in_set)
  then have "dup_event_id (audit_events dbm) (hd es2)"
    using assms(7) ids [OF p1] ids [OF p2(1)] by (auto simp: dup_event_id_def)
  then have "BulkWrite (fe_doc_err env) es2 dbm = (False, dbm)"
    using ids [OF p2(1)] by (cases es2) auto
  then show ?thesis using f2 p2(2,3) h1 by auto
qed

theorem redelivered_batch_is_refused_witness:
  "\<exists>db2. flush (\<lambda>k d. d @ ''x'') json_marshal (sample_env False) [Some (JObj sample_event)] flushed = (NotWritten, db2)
     \<and> audit_events db2 = audit_events flushed"
proof -
  have "json_lookup (hd [json_put ''timestamp'' (JNum 5) sample_event]) ''event_id'' \<noteq> None" by code_simp
  from redelivered_batch_is_refused [OF sample_calm _ sample_decode _ sample_org [symmetric] _ this sample_flush]
  show ?thesis by auto
qed

fun fetched :: "consumer_event list \<Rightarrow> raw_json list" where
  "fetched [] = []"
| "fetched (Fetched m # evs) = m # fetched evs"
| "fetched (_ # evs) = fetched evs"

lemma consumer_loop:
  assumes "bsz > 0" "length b < bsz" "list_all (\<lambda>x. x \<noteq> [] \<and> length x \<le> bsz) out"
    and "fold (consumer_step bsz) evs (b, out) = (b', out')"
  shows "concat out' @ b' = concat out @ b @ fetched evs \<and> length b' < bsz
    \<and> list_all (\<lambda>x. x \<noteq> [] \<and> length x \<le> bsz) out'"
  using assms(2-4)
proof (induction evs arbitrary: b out)
  case (Cons ev evs)
  obtain b1 out1 where s: "consumer_step bsz ev (b, out) = (b1, out1)" by fastforce
  with Cons.prems assms(1) have "length b1 < bsz" "list_all (\<lambda>x. x \<noteq> [] \<and> length x \<le> bsz) out1"
    "concat out1 @ b1 = concat out @ b @ (case ev of Fetched m \<Rightarrow> [m] | _ \<Rightarrow> [])"
    by (cases ev; auto simp: Let_def split: if_splits)+
  with Cons.IH [of b1 out1] Cons.prems(3) s show ?case by (cases ev) auto
qed simp

text \<open>
  The consumer loop hands every fetched message to flush exactly once and
  in order: the batches flushed so far followed by the pending batch are the
  messages fetched so far; a flushed batch is never empty and never larger than
  the configured size, which is between 1 and 500 whatever AUDIT_BATCH_SIZE is.
\<close>

theorem consumer_batches_partition_stream:
  assumes "fold (consumer_step (batch_size val)) evs ([], []) = (pending, batches)"
  shows "concat batches @ pending = fetched evs \<and> list_all (\<lambda>b. b \<noteq> [] \<and> length b \<le> 500) batches
    \<and> 1 \<le> batch_size val \<and> batch_size val \<le> 500 \<and> length pending < batch_size val"
proof -
  have b: "1 \<le> batch_size val" "batch_size val \<le> 500"
    by (auto simp: batch_size_def split: option.splits)
  then have "concat batches @ pending = fetched evs \<and> length pending < batch_size val
      \<and> list_all (\<lambda>x. x \<noteq> [] \<and> length x \<le> batch_size val) batches"
    using consumer_loop [of "batch_size val" "[]" "[]" evs pending batches] assms by simp
  moreover then have "list_all (\<lambda>x. x \<noteq> [] \<and> length x \<le> 500) batches"
    using b(2) by (auto simp: list_all_iff)
  ultimately show ?thesis using b by simp
qed

theorem consumer_batches_partition_stream_witness:
  "fold (consumer_step (batch_size ''2'')) [Fetched None, Fetched (Some JNull), Tick, Fetched None] ([], [])
     = ([None], [[None, Some JNull]])
   \<and> concat [[None, Some JNull]] @ [None] = fetched [Fetched None, Fetched (Some JNull), Tick, Fetched None]"
proof -
  have f: "fold (consumer_step (batch_size ''2'')) [Fetched None, Fetched (Some JNull), Tick, Fetched None] ([], [])
     = ([None], [[None, Some JNull]])" by code_simp
  from consumer_batches_partition_stream [OF f] f show ?thesis by blast
qed

text \<open>
  What the ingestion endpoint publishes: only for an authenticated tenant,
  with the tenant's own org_id whatever the body says and with an event_id;
  and in block mode only after the DLP service answered 200 with no finding or
  an undecodable body.  The Kafka topic, however, is the caller's: any
  non-empty topic the body names is used, internal ones included.
\<close>

theorem ingest_publishes:
  assumes "Ingest h orgID (Some (JObj ev)) now dlp True = Accepted topic key ev'"
  shows "orgID \<noteq> [] \<and> json_str ev' ''org_id'' = orgID \<and> json_lookup ev' ''event_id'' \<notin> {None, Some JNull}
    \<and> (ih_dlpMode h = ''block'' \<and> ih_dlpURL h \<noteq> [] \<longrightarrow> \<not> checkDLP (dlp ev'))
    \<and> topic = (if json_str ev ''topic'' \<noteq> [] then json_str ev ''topic'' else ''audit.trail'')"
  using assms by (auto simp: Ingest_def Let_def split: if_splits)

theorem ingest_publishes_witness:
  "\<exists>ev'. Ingest (NewIngestHandler [] []) ''o1'' (Some (JObj [(''topic'', JStr ''saga.orchestration''), (''org_id'', JStr ''o2'')]))
      7 (\<lambda>_. ReplyErr) True = Accepted ''saga.orchestration'' ''evt-7'' ev' \<and> json_str ev' ''org_id'' = ''o1''"
proof -
  let ?i = "Ingest (NewIngestHandler [] []) ''o1'' (Some (JObj [(''topic'', JStr ''saga.orchestration''), (''org_id'', JStr ''o2'')]))
      7 (\<lambda>_. ReplyErr) True"
  have i: "?i = Accepted ''saga.orchestration'' ''evt-7'' [(''topic'', JStr ''saga.orchestration''), (''org_id'', JStr ''o1''),
      (''event_id'', JStr ''evt-7'')]" by code_simp
  from ingest_publishes [OF i] i show ?thesis by blast
qed

end
