(* ===== verification/IAM_Store.thy ===== *)
theory IAM_Store
  imports Rls Outbox
begin

text \<open>
  The repository of the IAM service (services/iam/pkg/repository): its tables
  as row lists and its SQL statements as operations on them, under the
  row-level-security policies and the constraints of services/iam/migrations.
  \<open>refresh_tokens\<close> has no row-level security.  Statements outside a transaction
  run on a pooled connection on which withOrgContext has set \<open>app.org_id\<close>.

  Ids drawn by the database are arguments.  UUID columns hold canonical texts;
  a parameter that is no UUID makes its statement fail.  The INET column
  of a session goes through the driver in both directions.
\<close>

subsection \<open>Tables\<close>

record User =
  u_ID :: string
  u_OrgID :: string
  u_Email :: string
  u_PasswordHash :: string
  u_DisplayName :: string
  u_Role :: string
  u_Status :: string
  u_FailedLoginCount :: int
  u_LockedUntil :: "time option"
  u_MFAEnabled :: bool
  u_MFAMethod :: string
  u_SCIMExternalID :: "string option"
  u_Version :: int
  u_CreatedAt :: time
  u_UpdatedAt :: time

record session_row =
  s_OrgID :: string
  s_UserID :: string
  s_JTI :: string
  s_UserAgent :: string
  s_IPAddress :: string
  s_ExpiresAt :: time
  s_CreatedAt :: time

record Session =
  JTI :: string
  UserAgent :: string
  IPAddress :: string

record RefreshToken =
  rt_ID :: string
  rt_OrgID :: string
  rt_UserID :: string
  rt_TokenHash :: string
  rt_FamilyID :: string
  rt_ExpiresAt :: time
  rt_Revoked :: bool

record mfa_row =
  m_OrgID :: string
  m_UserID :: string
  m_MFAType :: string
  m_SecretEncrypted :: string
  m_BackupCodeHashes :: "string list"

record MFAConfig =
  MFAType :: string
  SecretEncrypted :: string

record Connector =
  con_ID :: string
  con_OrgID :: string
  con_Name :: string
  con_ClientSecret :: string
  con_RedirectURIs :: "string list"

record org_row =
  org_id :: string
  org_name :: string
  org_slug :: string

record iam_db =
  orgs :: "org_row list"
  users :: "User list"
  sessions :: "session_row list"
  refresh_tokens :: "RefreshToken list"
  mfa_configs :: "mfa_row list"
  connectors :: "Connector list"
  iam_outbox :: "outbox_record list"

datatype repo_error = NotFound | RepoErr string

text \<open>Where a repository call fails in the driver, if it does.\<close>

datatype fault = NoFault | AcquireFault | RoleFault | SetVarFault | QueryFault

text \<open>
  What one request observes of the database: its settings, the driver's
  conversions of an address text to a stored INET value and back, the fault of
  each repository call by its name, \<open>NOW()\<close>, and the tables that the role
  openguard_login has been granted.
\<close>

record iam_env =
  ie_pg :: pg_env
  ie_inet_in :: "string \<Rightarrow> string option"
  ie_inet_out :: "string \<Rightarrow> string option"
  ie_flt :: "string \<Rightarrow> fault"
  ie_now :: time
  ie_login_reads :: "string \<Rightarrow> bool"

definition withOrgContext :: "iam_env \<Rightarrow> string \<Rightarrow> string \<Rightarrow> (pg_conn \<Rightarrow> (repo_error, 'a) result) \<Rightarrow>
    (repo_error, 'a) result" where
  "withOrgContext env op orgID fn =
     (if ie_flt env op = AcquireFault then Err (RepoErr ''acquire conn'')
      else if ie_flt env op = SetVarFault then Err (RepoErr ''set session var'')
      else fn (SetSessionVar idle_conn orgID))"

text \<open>The callback's statement, after its UUID parameter is encoded.\<close>

definition exec_uuid :: "iam_env \<Rightarrow> string \<Rightarrow> string \<Rightarrow> (string \<Rightarrow> (repo_error, 'a) result) \<Rightarrow>
    (repo_error, 'a) result" where
  "exec_uuid env op i stmt =
     (case pg_uuid (ie_pg env) i of
        None \<Rightarrow> Err (RepoErr ''invalid uuid'')
      | Some u \<Rightarrow> if ie_flt env op = QueryFault then Err (RepoErr op) else stmt u)"

definition sees :: "iam_env \<Rightarrow> pg_conn \<Rightarrow> string \<Rightarrow> bool" where
  "sees env conn org \<longleftrightarrow> rls_visible (ie_pg env) conn org"

definition int4_max :: int where "int4_max = 2147483647"

subsection \<open>repository_user.go\<close>

definition CreateUser :: "iam_env \<Rightarrow> iam_db \<Rightarrow> string \<Rightarrow> string \<Rightarrow> string \<Rightarrow> string \<Rightarrow> string \<Rightarrow> string \<Rightarrow> string \<Rightarrow>
    (repo_error, string \<times> iam_db) result" where
  "CreateUser env db new_id orgID email passwordHash displayName role status =
     withOrgContext env ''CreateUser'' orgID (\<lambda>conn. exec_uuid env ''CreateUser'' orgID (\<lambda>org.
       if \<not> sees env conn org \<or> org \<notin> org_id ` set (orgs db)
          \<or> (\<exists>u\<in>set (users db). u_OrgID u = org \<and> u_Email u = email) \<or> new_id \<in> u_ID ` set (users db)
       then Err (RepoErr ''create user'')
       else Ok (new_id, db\<lparr>users := users db @ [\<lparr>u_ID = new_id, u_OrgID = org, u_Email = email,
          u_PasswordHash = passwordHash, u_DisplayName = displayName, u_Role = role, u_Status = status,
          u_FailedLoginCount = 0, u_LockedUntil = None, u_MFAEnabled = False, u_MFAMethod = [],
          u_SCIMExternalID = None, u_Version = 1, u_CreatedAt = ie_now env, u_UpdatedAt = ie_now env\<rparr>]\<rparr>)))"

text \<open>An UPDATE of the visible users that satisfy a condition; a version at the int4 limit makes it fail.\<close>

definition update_users :: "iam_env \<Rightarrow> pg_conn \<Rightarrow> (User \<Rightarrow> bool) \<Rightarrow> (User \<Rightarrow> User) \<Rightarrow> iam_db \<Rightarrow> iam_db" where
  "update_users env conn P g db =
     db\<lparr>users := map (\<lambda>u. if sees env conn (u_OrgID u) \<and> P u then g u else u) (users db)\<rparr>"

definition version_room :: "iam_env \<Rightarrow> pg_conn \<Rightarrow> (User \<Rightarrow> bool) \<Rightarrow> iam_db \<Rightarrow> bool" where
  "version_room env conn P db \<longleftrightarrow>
     (\<forall>u\<in>set (users db). sees env conn (u_OrgID u) \<and> P u \<longrightarrow> u_Version u < int4_max)"

definition UpdateUserStatus :: "iam_env \<Rightarrow> go_ctx \<Rightarrow> iam_db \<Rightarrow> string \<Rightarrow> string \<Rightarrow> (repo_error, iam_db) result" where
  "UpdateUserStatus env ctx db userID status =
     withOrgContext env ''UpdateUserStatus'' (OrgID ctx) (\<lambda>conn. exec_uuid env ''UpdateUserStatus'' userID (\<lambda>i.
       if \<not> version_room env conn (\<lambda>u. u_ID u = i) db then Err (RepoErr ''integer out of range'')
       else Ok (update_users env conn (\<lambda>u. u_ID u = i)
         (\<lambda>u. u\<lparr>u_Status := status, u_Version := u_Version u + 1, u_UpdatedAt := ie_now env\<rparr>) db)))"

definition UpdateUserDisplayName :: "iam_env \<Rightarrow> go_ctx \<Rightarrow> iam_db \<Rightarrow> string \<Rightarrow> string \<Rightarrow> (repo_error, iam_db) result" where
  "UpdateUserDisplayName env ctx db userID displayName =
     withOrgContext env ''UpdateUserDisplayName'' (OrgID ctx) (\<lambda>conn. exec_uuid env ''UpdateUserDisplayName'' userID (\<lambda>i.
       if \<not> version_room env conn (\<lambda>u. u_ID u = i) db then Err (RepoErr ''integer out of range'')
       else Ok (update_users env conn (\<lambda>u. u_ID u = i)
         (\<lambda>u. u\<lparr>u_DisplayName := displayName, u_Version := u_Version u + 1, u_UpdatedAt := ie_now env\<rparr>) db)))"

text \<open>
  The columns a query selects, in a fresh User struct: the other fields keep
  their zero values.
\<close>

definition zero_user :: User where
  "zero_user = \<lparr>u_ID = [], u_OrgID = [], u_Email = [], u_PasswordHash = [], u_DisplayName = [], u_Role = [],
     u_Status = [], u_FailedLoginCount = 0, u_LockedUntil = None, u_MFAEnabled = False, u_MFAMethod = [],
     u_SCIMExternalID = None, u_Version = 0, u_CreatedAt = - 62135596800 * Second, u_UpdatedAt = - 62135596800 * Second\<rparr>"

definition login_columns :: "User \<Rightarrow> User" where
  "login_columns u = zero_user\<lparr>u_ID := u_ID u, u_OrgID := u_OrgID u, u_Email := u_Email u,
     u_PasswordHash := u_PasswordHash u, u_DisplayName := u_DisplayName u, u_Role := u_Role u, u_Status := u_Status u,
     u_FailedLoginCount := u_FailedLoginCount u, u_LockedUntil := u_LockedUntil u\<rparr>"

definition profile_columns :: "User \<Rightarrow> User" where
  "profile_columns u = zero_user\<lparr>u_ID := u_ID u, u_OrgID := u_OrgID u, u_Email := u_Email u,
     u_DisplayName := u_DisplayName u, u_Role := u_Role u, u_Status := u_Status u\<rparr>"

text \<open>GetUserByEmail runs under the role openguard_login, which bypasses row-level security: the first row of any tenant.\<close>

definition GetUserByEmail :: "iam_env \<Rightarrow> iam_db \<Rightarrow> string \<Rightarrow> (repo_error, User) result" where
  "GetUserByEmail env db email =
     (if ie_flt env ''GetUserByEmail'' = AcquireFault then Err (RepoErr ''acquire conn'')
      else if ie_flt env ''GetUserByEmail'' = RoleFault then Err (RepoErr ''set login role'')
      else if ie_flt env ''GetUserByEmail'' = QueryFault then Err (RepoErr ''GetUserByEmail'')
      else (case find (\<lambda>u. u_Email u = email) (users db) of
              None \<Rightarrow> Err NotFound
            | Some u \<Rightarrow> Ok (login_columns u)))"

definition GetUserByID :: "iam_env \<Rightarrow> go_ctx \<Rightarrow> iam_db \<Rightarrow> string \<Rightarrow> (repo_error, User) result" where
  "GetUserByID env ctx db i =
     withOrgContext env ''GetUserByID'' (OrgID ctx) (\<lambda>conn. exec_uuid env ''GetUserByID'' i (\<lambda>j.
       case find (\<lambda>u. u_ID u = j \<and> sees env conn (u_OrgID u)) (users db) of
         None \<Rightarrow> Err NotFound
       | Some u \<Rightarrow> Ok ((profile_columns u)\<lparr>u_ID := i\<rparr>)))"

text \<open>
  The tenant lookup by email of the failed-login operations: all three
  statements ignore their errors.  Without the login role the query runs under
  row-level security with no tenant set.
\<close>

definition lookup_org :: "iam_env \<Rightarrow> string \<Rightarrow> iam_db \<Rightarrow> string \<Rightarrow> string" where
  "lookup_org env op db email =
     (if ie_flt env op = AcquireFault \<or> ie_flt env op = QueryFault then []
      else (case find (\<lambda>u. u_Email u = email \<and>
                (ie_flt env op \<noteq> RoleFault \<or> sees env idle_conn (u_OrgID u))) (users db) of
              None \<Rightarrow> [] | Some u \<Rightarrow> u_OrgID u))"

text \<open>
  The UPDATE counts for every visible row of the email; the row returned is the
  first of them.
\<close>

definition IncrementFailedLogin :: "iam_env \<Rightarrow> iam_db \<Rightarrow> string \<Rightarrow> (repo_error, int) result \<times> iam_db" where
  "IncrementFailedLogin env db email =
     (if ie_flt env ''IncrementFailedLogin.lookup'' = AcquireFault then (Err (RepoErr ''acquire conn''), db)
      else let orgID = lookup_org env ''IncrementFailedLogin.lookup'' db email in
        if orgID = [] then (Err NotFound, db)
        else (case withOrgContext env ''IncrementFailedLogin'' orgID (\<lambda>conn.
            let hit = (\<lambda>u. u_Email u = email) in
            if ie_flt env ''IncrementFailedLogin'' = QueryFault
               \<or> (\<exists>u\<in>set (users db). sees env conn (u_OrgID u) \<and> hit u \<and> u_FailedLoginCount u \<ge> int4_max)
            then Err (RepoErr ''increment failed login'')
            else (case find (\<lambda>u. sees env conn (u_OrgID u) \<and> hit u) (users db) of
                None \<Rightarrow> Err NotFound
              | Some u \<Rightarrow> Ok (u_FailedLoginCount u + 1, update_users env conn hit
                  (\<lambda>u. u\<lparr>u_FailedLoginCount := u_FailedLoginCount u + 1, u_UpdatedAt := ie_now env\<rparr>) db))) of
          Inl e \<Rightarrow> (Err e, db) | Inr (n, db') \<Rightarrow> (Ok n, db')))"

definition update_by_email :: "iam_env \<Rightarrow> string \<Rightarrow> go_ctx \<Rightarrow> iam_db \<Rightarrow> string \<Rightarrow> (User \<Rightarrow> User) \<Rightarrow>
    (repo_error, iam_db) result" where
  "update_by_email env op ctx db email g =
     (let orgID = (if OrgID ctx = [] then lookup_org env (op @ ''.lookup'') db email else OrgID ctx) in
      withOrgContext env op orgID (\<lambda>conn.
        if ie_flt env op = QueryFault then Err (RepoErr op)
        else Ok (update_users env conn (\<lambda>u. u_Email u = email) g db)))"

definition ResetFailedLogin :: "iam_env \<Rightarrow> go_ctx \<Rightarrow> iam_db \<Rightarrow> string \<Rightarrow> (repo_error, iam_db) result" where
  "ResetFailedLogin env ctx db email = update_by_email env ''ResetFailedLogin'' ctx db email
     (\<lambda>u. u\<lparr>u_FailedLoginCount := 0, u_LockedUntil := None, u_UpdatedAt := ie_now env\<rparr>)"

definition LockAccount :: "iam_env \<Rightarrow> go_ctx \<Rightarrow> iam_db \<Rightarrow> string \<Rightarrow> time \<Rightarrow> (repo_error, iam_db) result" where
  "LockAccount env ctx db email until = update_by_email env ''LockAccount'' ctx db email
     (\<lambda>u. u\<lparr>u_LockedUntil := Some until, u_UpdatedAt := ie_now env\<rparr>)"

definition system_org :: string where "system_org = ''00000000-0000-0000-0000-000000000000''"

text \<open>The SCIM filter: the text between \<open>userName eq "\<close> and the next quote; other filters are ignored.\<close>

definition scim_query :: string where "scim_query = ''userName eq '' @ [CHR 0x22]"

definition filter_email :: "string \<Rightarrow> string option" where
  "filter_email flt = (if flt = [] then None
     else (case split_first scim_query flt of
       (_, Some rest) \<Rightarrow> Some (hd (Split (CHR 0x22) (fst (split_first scim_query rest))))
     | (_, None) \<Rightarrow> None))"

definition matches_filter :: "string \<Rightarrow> User \<Rightarrow> bool" where
  "matches_filter flt u \<longleftrightarrow> (case filter_email flt of None \<Rightarrow> True | Some e \<Rightarrow> u_Email u = e)"

definition list_columns :: "User \<Rightarrow> User" where
  "list_columns u = (profile_columns u)\<lparr>u_SCIMExternalID := u_SCIMExternalID u, u_Version := u_Version u,
     u_CreatedAt := u_CreatedAt u, u_UpdatedAt := u_UpdatedAt u\<rparr>"

text \<open>The system tenant reads across tenants, under the login role.\<close>

definition as_login :: "iam_env \<Rightarrow> string \<Rightarrow> string \<Rightarrow> (repo_error, 'a) result \<Rightarrow> (repo_error, 'a) result" where
  "as_login env op tbl stmt =
     (if ie_flt env op = AcquireFault then Err (RepoErr ''acquire conn'')
      else if ie_flt env op = RoleFault then Err (RepoErr ''set login role'')
      else if \<not> ie_login_reads env tbl \<or> ie_flt env op = QueryFault then Err (RepoErr op)
      else stmt)"

definition org_users :: "iam_env \<Rightarrow> pg_conn \<Rightarrow> iam_db \<Rightarrow> string \<Rightarrow> string \<Rightarrow> User list" where
  "org_users env conn db org flt =
     filter (\<lambda>u. sees env conn (u_OrgID u) \<and> u_OrgID u = org \<and> matches_filter flt u) (users db)"

definition ListUsers :: "iam_env \<Rightarrow> iam_db \<Rightarrow> string \<Rightarrow> string \<Rightarrow> (repo_error, User list) result" where
  "ListUsers env db orgID flt =
     (if orgID = system_org
      then as_login env ''ListUsers'' ''users'' (Ok (map list_columns (filter (matches_filter flt) (users db))))
      else withOrgContext env ''ListUsers'' orgID (\<lambda>conn. exec_uuid env ''ListUsers'' orgID (\<lambda>org.
        Ok (map list_columns (org_users env conn db org flt)))))"

text \<open>\<open>OFFSET o LIMIT n\<close>: a negative bound makes the statement fail.\<close>

definition page :: "int \<Rightarrow> int \<Rightarrow> User list \<Rightarrow> (repo_error, User list \<times> int) result" where
  "page offset limit us =
     (if offset < 0 \<or> limit < 0 then Err (RepoErr ''negative OFFSET or LIMIT'')
      else Ok (map list_columns (take (nat limit) (drop (nat offset) (sort_key u_CreatedAt us))), int (length us)))"

definition ListUsersPaginated :: "iam_env \<Rightarrow> iam_db \<Rightarrow> string \<Rightarrow> string \<Rightarrow> int \<Rightarrow> int \<Rightarrow>
    (repo_error, User list \<times> int) result" where
  "ListUsersPaginated env db orgID flt offset limit =
     (if orgID = system_org
      then as_login env ''ListUsersPaginated'' ''users'' (page offset limit (filter (matches_filter flt) (users db)))
      else withOrgContext env ''ListUsersPaginated'' orgID (\<lambda>conn. exec_uuid env ''ListUsersPaginated'' orgID (\<lambda>org.
        page offset limit (org_users env conn db org flt))))"

definition getUser :: "iam_env \<Rightarrow> string \<Rightarrow> go_ctx \<Rightarrow> iam_db \<Rightarrow> string \<Rightarrow> (string \<Rightarrow> User \<Rightarrow> bool) \<Rightarrow> (repo_error, User) result" where
  "getUser env op ctx db uuid_arg P =
     withOrgContext env op (OrgID ctx) (\<lambda>conn. exec_uuid env op uuid_arg (\<lambda>a.
       case find (\<lambda>u. sees env conn (u_OrgID u) \<and> P a u) (users db) of
         None \<Rightarrow> Err NotFound | Some u \<Rightarrow> Ok (profile_columns u)))"

definition GetUserByExternalID :: "iam_env \<Rightarrow> go_ctx \<Rightarrow> iam_db \<Rightarrow> string \<Rightarrow> string \<Rightarrow> (repo_error, User) result" where
  "GetUserByExternalID env ctx db orgID externalID = getUser env ''GetUserByExternalID'' ctx db orgID
     (\<lambda>org u. u_OrgID u = org \<and> u_SCIMExternalID u = Some externalID)"

definition UpdateUserSCIM :: "iam_env \<Rightarrow> go_ctx \<Rightarrow> iam_db \<Rightarrow> string \<Rightarrow> string \<Rightarrow> string \<Rightarrow> (repo_error, iam_db) result" where
  "UpdateUserSCIM env ctx db userID externalID status =
     withOrgContext env ''UpdateUserSCIM'' (OrgID ctx) (\<lambda>conn. exec_uuid env ''UpdateUserSCIM'' userID (\<lambda>i.
       if \<not> version_room env conn (\<lambda>u. u_ID u = i) db then Err (RepoErr ''integer out of range'')
       else Ok (update_users env conn (\<lambda>u. u_ID u = i)
         (\<lambda>u. u\<lparr>u_SCIMExternalID := Some externalID, u_Status := status, u_Version := u_Version u + 1,
               u_UpdatedAt := ie_now env\<rparr>) db)))"

definition EnableUserMFA :: "iam_env \<Rightarrow> go_ctx \<Rightarrow> iam_db \<Rightarrow> string \<Rightarrow> bool \<Rightarrow> string \<Rightarrow> (repo_error, iam_db) result" where
  "EnableUserMFA env ctx db userID enabled method =
     withOrgContext env ''EnableUserMFA'' (OrgID ctx) (\<lambda>conn. exec_uuid env ''EnableUserMFA'' userID (\<lambda>i.
       Ok (update_users env conn (\<lambda>u. u_ID u = i) (\<lambda>u. u\<lparr>u_MFAEnabled := enabled, u_MFAMethod := method\<rparr>) db)))"

definition DeprovisionAllUsers :: "iam_env \<Rightarrow> iam_db \<Rightarrow> string \<Rightarrow> (repo_error, iam_db) result" where
  "DeprovisionAllUsers env db orgID =
     withOrgContext env ''DeprovisionAllUsers'' orgID (\<lambda>conn. exec_uuid env ''DeprovisionAllUsers'' orgID (\<lambda>org.
       if \<not> version_room env conn (\<lambda>u. u_OrgID u = org) db then Err (RepoErr ''integer out of range'')
       else Ok (update_users env conn (\<lambda>u. u_OrgID u = org)
         (\<lambda>u. u\<lparr>u_Status := ''deprovisioned'', u_Version := u_Version u + 1, u_UpdatedAt := ie_now env\<rparr>) db)))"

subsection \<open>repository_session.go\<close>

definition CreateSession :: "iam_env \<Rightarrow> iam_db \<Rightarrow> string \<Rightarrow> string \<Rightarrow> string \<Rightarrow> string \<Rightarrow> string \<Rightarrow> time \<Rightarrow>
    (repo_error, iam_db) result" where
  "CreateSession env db orgID userID jti userAgent ipAddress expiresAt =
     withOrgContext env ''CreateSession'' orgID (\<lambda>conn.
       exec_uuid env ''CreateSession'' orgID (\<lambda>org. exec_uuid env ''CreateSession'' userID (\<lambda>uid.
         case ie_inet_in env ipAddress of
           None \<Rightarrow> Err (RepoErr ''invalid inet'')
         | Some addr \<Rightarrow>
             if \<not> sees env conn org \<or> org \<notin> org_id ` set (orgs db) \<or> uid \<notin> u_ID ` set (users db)
                \<or> jti \<in> s_JTI ` set (sessions db)
             then Err (RepoErr ''create session'')
             else Ok (db\<lparr>sessions := sessions db @ [\<lparr>s_OrgID = org, s_UserID = uid, s_JTI = jti,
               s_UserAgent = userAgent, s_IPAddress = addr, s_ExpiresAt = expiresAt, s_CreatedAt = ie_now env\<rparr>]\<rparr>))))"

definition live_sessions :: "iam_env \<Rightarrow> pg_conn \<Rightarrow> iam_db \<Rightarrow> string \<Rightarrow> session_row list" where
  "live_sessions env conn db uid =
     filter (\<lambda>s. sees env conn (s_OrgID s) \<and> s_UserID s = uid \<and> s_ExpiresAt s > ie_now env) (sessions db)"

definition GetActiveJTIs :: "iam_env \<Rightarrow> go_ctx \<Rightarrow> iam_db \<Rightarrow> string \<Rightarrow> (repo_error, string list) result" where
  "GetActiveJTIs env ctx db userID =
     withOrgContext env ''GetActiveJTIs'' (OrgID ctx) (\<lambda>conn. exec_uuid env ''GetActiveJTIs'' userID (\<lambda>uid.
       Ok (map s_JTI (live_sessions env conn db uid))))"

text \<open>The remaining time is measured with the service's clock.\<close>

definition GetSessionTTL :: "iam_env \<Rightarrow> go_ctx \<Rightarrow> time \<Rightarrow> iam_db \<Rightarrow> string \<Rightarrow> time" where
  "GetSessionTTL env ctx clock db jti =
     (case withOrgContext env ''GetSessionTTL'' (OrgID ctx) (\<lambda>conn.
         if ie_flt env ''GetSessionTTL'' = QueryFault then Err (RepoErr ''GetSessionTTL'')
         else (case find (\<lambda>s. sees env conn (s_OrgID s) \<and> s_JTI s = jti) (sessions db) of
                 None \<Rightarrow> Err NotFound | Some s \<Rightarrow> Ok (s_ExpiresAt s))) of
        Inl _ \<Rightarrow> 0
      | Inr e \<Rightarrow> if e - clock < 0 then 0 else e - clock)"

definition RevokeSessions :: "iam_env \<Rightarrow> go_ctx \<Rightarrow> iam_db \<Rightarrow> string \<Rightarrow> (repo_error, iam_db) result" where
  "RevokeSessions env ctx db userID =
     withOrgContext env ''RevokeSessions'' (OrgID ctx) (\<lambda>conn. exec_uuid env ''RevokeSessions'' userID (\<lambda>uid.
       Ok (db\<lparr>sessions := filter (\<lambda>s. \<not> (sees env conn (s_OrgID s) \<and> s_UserID s = uid)) (sessions db)\<rparr>)))"

text \<open>The most recent live session; the stored address goes back through the driver.\<close>

definition GetSessionByUserID :: "iam_env \<Rightarrow> go_ctx \<Rightarrow> iam_db \<Rightarrow> string \<Rightarrow> (repo_error, Session) result" where
  "GetSessionByUserID env ctx db userID =
     withOrgContext env ''GetSessionByUserID'' (OrgID ctx) (\<lambda>conn. exec_uuid env ''GetSessionByUserID'' userID (\<lambda>uid.
       case sort_key (\<lambda>s. - s_CreatedAt s) (live_sessions env conn db uid) of
         [] \<Rightarrow> Err NotFound
       | s # _ \<Rightarrow> (case ie_inet_out env (s_IPAddress s) of
            None \<Rightarrow> Err (RepoErr ''scan ip_address'')
          | Some addr \<Rightarrow> Ok \<lparr>JTI = s_JTI s, UserAgent = s_UserAgent s, IPAddress = addr\<rparr>)))"

subsection \<open>repository_token.go\<close>

definition CreateRefreshToken :: "iam_env \<Rightarrow> iam_db \<Rightarrow> string \<Rightarrow> string \<Rightarrow> string \<Rightarrow> string \<Rightarrow> string \<Rightarrow> time \<Rightarrow>
    (repo_error, iam_db) result" where
  "CreateRefreshToken env db new_id orgID userID tokenHash familyID expiresAt =
     withOrgContext env ''CreateRefreshToken'' orgID (\<lambda>conn.
       exec_uuid env ''CreateRefreshToken'' orgID (\<lambda>org. exec_uuid env ''CreateRefreshToken'' userID (\<lambda>uid.
         if org \<notin> org_id ` set (orgs db) \<or> uid \<notin> u_ID ` set (users db) \<or> tokenHash \<in> rt_TokenHash ` set (refresh_tokens db)
         then Err (RepoErr ''create refresh token'')
         else Ok (db\<lparr>refresh_tokens := refresh_tokens db @ [\<lparr>rt_ID = new_id, rt_OrgID = org, rt_UserID = uid,
           rt_TokenHash = tokenHash, rt_FamilyID = familyID, rt_ExpiresAt = expiresAt, rt_Revoked = False\<rparr>]\<rparr>))))"

definition stmt_plain :: "iam_env \<Rightarrow> string \<Rightarrow> go_ctx \<Rightarrow> (repo_error, 'a) result \<Rightarrow> (repo_error, 'a) result" where
  "stmt_plain env op ctx stmt = withOrgContext env op (OrgID ctx)
     (\<lambda>conn. if ie_flt env op = QueryFault then Err (RepoErr op) else stmt)"

definition GetRefreshToken :: "iam_env \<Rightarrow> go_ctx \<Rightarrow> iam_db \<Rightarrow> string \<Rightarrow> (repo_error, RefreshToken) result" where
  "GetRefreshToken env ctx db tokenHash = stmt_plain env ''GetRefreshToken'' ctx
     (case find (\<lambda>t. rt_TokenHash t = tokenHash) (refresh_tokens db) of None \<Rightarrow> Err NotFound | Some t \<Rightarrow> Ok t)"

definition revoke_family :: "string \<Rightarrow> iam_db \<Rightarrow> iam_db" where
  "revoke_family familyID db = db\<lparr>refresh_tokens :=
     map (\<lambda>t. if rt_FamilyID t = familyID then t\<lparr>rt_Revoked := True\<rparr> else t) (refresh_tokens db)\<rparr>"

definition RevokeRefreshTokenFamily :: "iam_env \<Rightarrow> go_ctx \<Rightarrow> iam_db \<Rightarrow> string \<Rightarrow> (repo_error, iam_db) result" where
  "RevokeRefreshTokenFamily env ctx db familyID = stmt_plain env ''RevokeRefreshTokenFamily'' ctx
     (Ok (revoke_family familyID db))"

text \<open>\<open>UPDATE ... SET revoked = TRUE WHERE token_hash = $1 AND revoked = FALSE AND expires_at > NOW() RETURNING ...\<close>\<close>

definition claimable :: "time \<Rightarrow> string \<Rightarrow> RefreshToken \<Rightarrow> bool" where
  "claimable now tokenHash t \<longleftrightarrow> rt_TokenHash t = tokenHash \<and> \<not> rt_Revoked t \<and> rt_ExpiresAt t > now"

definition ClaimRefreshToken :: "iam_env \<Rightarrow> go_ctx \<Rightarrow> iam_db \<Rightarrow> string \<Rightarrow> (repo_error, RefreshToken \<times> iam_db) result" where
  "ClaimRefreshToken env ctx db tokenHash = stmt_plain env ''ClaimRefreshToken'' ctx
     (case find (claimable (ie_now env) tokenHash) (refresh_tokens db) of
        None \<Rightarrow> Err NotFound
      | Some t \<Rightarrow> Ok (t\<lparr>rt_Revoked := True\<rparr>, db\<lparr>refresh_tokens :=
          map (\<lambda>t. if claimable (ie_now env) tokenHash t then t\<lparr>rt_Revoked := True\<rparr> else t) (refresh_tokens db)\<rparr>))"

definition RevokeRefreshTokenFamilyByHash :: "iam_env \<Rightarrow> go_ctx \<Rightarrow> iam_db \<Rightarrow> string \<Rightarrow> (repo_error, iam_db) result" where
  "RevokeRefreshTokenFamilyByHash env ctx db tokenHash = stmt_plain env ''RevokeRefreshTokenFamilyByHash'' ctx
     (case find (\<lambda>t. rt_TokenHash t = tokenHash) (refresh_tokens db) of
        None \<Rightarrow> Ok db | Some t \<Rightarrow> Ok (revoke_family (rt_FamilyID t) db))"

definition DeleteRefreshToken :: "iam_env \<Rightarrow> go_ctx \<Rightarrow> iam_db \<Rightarrow> string \<Rightarrow> (repo_error, iam_db) result" where
  "DeleteRefreshToken env ctx db tokenHash = stmt_plain env ''DeleteRefreshToken'' ctx
     (Ok (db\<lparr>refresh_tokens := filter (\<lambda>t. rt_TokenHash t \<noteq> tokenHash) (refresh_tokens db)\<rparr>))"

subsection \<open>repository_mfa.go\<close>

definition user_mfa :: "iam_env \<Rightarrow> pg_conn \<Rightarrow> iam_db \<Rightarrow> string \<Rightarrow> mfa_row list" where
  "user_mfa env conn db uid = filter (\<lambda>m. sees env conn (m_OrgID m) \<and> m_UserID m = uid) (mfa_configs db)"

definition mfa_columns :: "mfa_row \<Rightarrow> MFAConfig" where
  "mfa_columns m = \<lparr>MFAType = m_MFAType m, SecretEncrypted = m_SecretEncrypted m\<rparr>"

definition GetMFAConfig :: "iam_env \<Rightarrow> go_ctx \<Rightarrow> iam_db \<Rightarrow> string \<Rightarrow> string \<Rightarrow> (repo_error, MFAConfig) result" where
  "GetMFAConfig env ctx db userID mfaType =
     withOrgContext env ''GetMFAConfig'' (OrgID ctx) (\<lambda>conn. exec_uuid env ''GetMFAConfig'' userID (\<lambda>uid.
       case find (\<lambda>m. m_MFAType m = mfaType) (user_mfa env conn db uid) of
         None \<Rightarrow> Err NotFound | Some m \<Rightarrow> Ok (mfa_columns m)))"

definition ListMFAConfigs :: "iam_env \<Rightarrow> go_ctx \<Rightarrow> iam_db \<Rightarrow> string \<Rightarrow> (repo_error, MFAConfig list) result" where
  "ListMFAConfigs env ctx db userID =
     withOrgContext env ''ListMFAConfigs'' (OrgID ctx) (\<lambda>conn. exec_uuid env ''ListMFAConfigs'' userID (\<lambda>uid.
       Ok (map mfa_columns (user_mfa env conn db uid))))"

text \<open>The upsert: a conflicting row that the setting hides makes the statement fail.\<close>

definition UpsertMFAConfig :: "iam_env \<Rightarrow> iam_db \<Rightarrow> string \<Rightarrow> string \<Rightarrow> string \<Rightarrow> string \<Rightarrow> (repo_error, iam_db) result" where
  "UpsertMFAConfig env db orgID userID mfaType secretEncrypted =
     withOrgContext env ''UpsertMFAConfig'' orgID (\<lambda>conn.
       exec_uuid env ''UpsertMFAConfig'' orgID (\<lambda>org. exec_uuid env ''UpsertMFAConfig'' userID (\<lambda>uid.
         let clash = (\<lambda>m. m_UserID m = uid \<and> m_MFAType m = mfaType) in
         if \<not> sees env conn org \<or> (\<exists>m\<in>set (mfa_configs db). clash m \<and> \<not> sees env conn (m_OrgID m))
            \<or> org \<notin> org_id ` set (orgs db) \<or> uid \<notin> u_ID ` set (users db)
         then Err (RepoErr ''upsert mfa config'')
         else if \<exists>m\<in>set (mfa_configs db). clash m
         then Ok (db\<lparr>mfa_configs := map (\<lambda>m. if clash m then m\<lparr>m_SecretEncrypted := secretEncrypted\<rparr> else m) (mfa_configs db)\<rparr>)
         else Ok (db\<lparr>mfa_configs := mfa_configs db @ [\<lparr>m_OrgID = org, m_UserID = uid, m_MFAType = mfaType,
           m_SecretEncrypted = secretEncrypted, m_BackupCodeHashes = []\<rparr>]\<rparr>))))"

definition totp_of :: "iam_env \<Rightarrow> pg_conn \<Rightarrow> string \<Rightarrow> mfa_row \<Rightarrow> bool" where
  "totp_of env conn uid m \<longleftrightarrow> sees env conn (m_OrgID m) \<and> m_UserID m = uid \<and> m_MFAType m = ''totp''"

definition StoreBackupCodes :: "iam_env \<Rightarrow> go_ctx \<Rightarrow> iam_db \<Rightarrow> string \<Rightarrow> string list \<Rightarrow> (repo_error, iam_db) result" where
  "StoreBackupCodes env ctx db userID hashes =
     withOrgContext env ''StoreBackupCodes'' (OrgID ctx) (\<lambda>conn. exec_uuid env ''StoreBackupCodes'' userID (\<lambda>uid.
       Ok (db\<lparr>mfa_configs := map (\<lambda>m. if totp_of env conn uid m then m\<lparr>m_BackupCodeHashes := hashes\<rparr> else m)
         (mfa_configs db)\<rparr>)))"

text \<open>\<open>array_remove\<close> removes every occurrence; the result says whether a row had the code.\<close>

definition ConsumeBackupCode :: "iam_env \<Rightarrow> go_ctx \<Rightarrow> iam_db \<Rightarrow> string \<Rightarrow> string \<Rightarrow> (repo_error, bool \<times> iam_db) result" where
  "ConsumeBackupCode env ctx db userID codeHash =
     withOrgContext env ''ConsumeBackupCode'' (OrgID ctx) (\<lambda>conn. exec_uuid env ''ConsumeBackupCode'' userID (\<lambda>uid.
       let hit = (\<lambda>m. totp_of env conn uid m \<and> codeHash \<in> set (m_BackupCodeHashes m)) in
       Ok (\<exists>m\<in>set (mfa_configs db). hit m, db\<lparr>mfa_configs :=
         map (\<lambda>m. if hit m then m\<lparr>m_BackupCodeHashes := filter (\<lambda>h. h \<noteq> codeHash) (m_BackupCodeHashes m)\<rparr> else m)
           (mfa_configs db)\<rparr>)))"

subsection \<open>repository_org.go, repository_connector.go, repository_outbox.go\<close>

text \<open>\<open>strings.ReplaceAll(name, " ", "-")\<close>, lower case, and a suffix.\<close>

definition slug_of :: "string \<Rightarrow> string \<Rightarrow> string" where
  "slug_of name sfx = ToLower (map (\<lambda>c. if c = CHR '' '' then CHR ''-'' else c) name) @ ''-'' @ sfx"

text \<open>The INSERT into orgs, on a connection; the row must satisfy the policy of its own id.\<close>

definition insert_org :: "iam_env \<Rightarrow> pg_conn \<Rightarrow> string \<Rightarrow> string \<Rightarrow> string \<Rightarrow> iam_db \<Rightarrow> (repo_error, iam_db) result" where
  "insert_org env conn new_id name slug db =
     (if \<not> sees env conn new_id \<or> new_id \<in> org_id ` set (orgs db) \<or> slug \<in> org_slug ` set (orgs db)
      then Err (RepoErr ''insert org'')
      else Ok (db\<lparr>orgs := orgs db @ [\<lparr>org_id = new_id, org_name = name, org_slug = slug\<rparr>]\<rparr>))"

definition CreateOrg :: "iam_env \<Rightarrow> iam_db \<Rightarrow> string \<Rightarrow> string \<Rightarrow> string \<Rightarrow> (repo_error, string \<times> iam_db) result" where
  "CreateOrg env db new_id uuid8 name =
     (if ie_flt env ''CreateOrg'' \<noteq> NoFault then Err (RepoErr ''CreateOrg'')
      else (case insert_org env idle_conn new_id name (slug_of name (take 8 uuid8)) db of
              Inl e \<Rightarrow> Err e | Inr db' \<Rightarrow> Ok (new_id, db')))"

definition GetConnectorByID :: "iam_env \<Rightarrow> go_ctx \<Rightarrow> iam_db \<Rightarrow> string \<Rightarrow> (repo_error, Connector) result" where
  "GetConnectorByID env ctx db i =
     withOrgContext env ''GetConnectorByID'' (OrgID ctx) (\<lambda>conn.
       if ie_flt env ''GetConnectorByID'' = QueryFault then Err (RepoErr ''GetConnectorByID'')
       else (case find (\<lambda>c. con_ID c = i \<and> sees env conn (con_OrgID c)) (connectors db) of
               None \<Rightarrow> Err NotFound | Some c \<Rightarrow> Ok c))"

definition ListConnectors :: "iam_env \<Rightarrow> go_ctx \<Rightarrow> iam_db \<Rightarrow> (repo_error, Connector list) result" where
  "ListConnectors env ctx db =
     (if OrgID ctx = system_org then as_login env ''ListConnectors'' ''connectors'' (Ok (connectors db))
      else withOrgContext env ''ListConnectors'' (OrgID ctx) (\<lambda>conn.
        if ie_flt env ''ListConnectors'' = QueryFault then Err (RepoErr ''ListConnectors'')
        else Ok (filter (\<lambda>c. sees env conn (con_OrgID c)) (connectors db))))"

text \<open>CreateConnector: a new tenant and its connector in one transaction; a failure leaves the database as it was.\<close>

definition CreateConnector :: "iam_env \<Rightarrow> iam_db \<Rightarrow> string \<Rightarrow> string \<Rightarrow> string \<Rightarrow> string \<Rightarrow> string list option \<Rightarrow> bool \<Rightarrow>
    (repo_error, string) result \<times> iam_db" where
  "CreateConnector env db new_org i name secret uris commit_ok =
     (if ie_flt env ''CreateConnector'' = AcquireFault then (Err (RepoErr ''begin''), db)
      else (case insert_org env (begin_tx idle_conn) new_org name (slug_of name i) db of
        Inl e \<Rightarrow> (Err e, db)
      | Inr db1 \<Rightarrow>
          if ie_flt env ''CreateConnector'' = SetVarFault then (Err (RepoErr ''set session var''), db)
          else if ie_flt env ''CreateConnector'' = QueryFault \<or> uris = None \<or> i \<in> con_ID ` set (connectors db)
               \<or> \<not> sees env (TxSetSessionVar (begin_tx idle_conn) new_org) new_org
          then (Err (RepoErr ''insert connector''), db)
          else if \<not> commit_ok then (Err (RepoErr ''commit''), db)
          else (Ok new_org, db1\<lparr>connectors := connectors db @ [\<lparr>con_ID = i, con_OrgID = new_org, con_Name = name,
            con_ClientSecret = secret, con_RedirectURIs = (case uris of None \<Rightarrow> [] | Some us \<Rightarrow> us)\<rparr>]\<rparr>)))"

definition UpdateConnector :: "iam_env \<Rightarrow> go_ctx \<Rightarrow> iam_db \<Rightarrow> string \<Rightarrow> string \<Rightarrow> string list option \<Rightarrow> (repo_error, iam_db) result" where
  "UpdateConnector env ctx db i name uris =
     withOrgContext env ''UpdateConnector'' (OrgID ctx) (\<lambda>conn.
       let hit = (\<lambda>c. con_ID c = i \<and> sees env conn (con_OrgID c)) in
       if ie_flt env ''UpdateConnector'' = QueryFault then Err (RepoErr ''UpdateConnector'')
       else (case uris of
          None \<Rightarrow> if \<exists>c\<in>set (connectors db). hit c then Err (RepoErr ''null redirect_uris'') else Ok db
        | Some us \<Rightarrow> Ok (db\<lparr>connectors :=
            map (\<lambda>c. if hit c then c\<lparr>con_Name := name, con_RedirectURIs := us\<rparr> else c) (connectors db)\<rparr>)))"

definition DeleteConnector :: "iam_env \<Rightarrow> go_ctx \<Rightarrow> iam_db \<Rightarrow> string \<Rightarrow> (repo_error, iam_db) result" where
  "DeleteConnector env ctx db i =
     withOrgContext env ''DeleteConnector'' (OrgID ctx) (\<lambda>conn.
       if ie_flt env ''DeleteConnector'' = QueryFault then Err (RepoErr ''DeleteConnector'')
       else Ok (db\<lparr>connectors := filter (\<lambda>c. \<not> (con_ID c = i \<and> sees env conn (con_OrgID c))) (connectors db)\<rparr>))"

text \<open>
  CreateOutboxEvent runs in the caller's transaction, on which no tenant has
  been set: the WITH CHECK of outbox_records decides.
\<close>

definition CreateOutboxEvent :: "iam_env \<Rightarrow> iam_db \<Rightarrow> string \<Rightarrow> string \<Rightarrow> string \<Rightarrow> string \<Rightarrow> json \<Rightarrow> (repo_error, iam_db) result" where
  "CreateOutboxEvent env db new_id orgID topic key payload =
     (if ie_flt env ''CreateOutboxEvent'' \<noteq> NoFault then Err (RepoErr ''CreateOutboxEvent'')
      else (case WriteTx (pg_uuid (ie_pg env)) new_id (ie_now env) (iam_outbox db) orgID topic key payload of
        Inl e \<Rightarrow> Err (RepoErr e)
      | Inr rows \<Rightarrow> (case pg_uuid (ie_pg env) orgID of
           Some org \<Rightarrow> if sees env (begin_tx idle_conn) org then Ok (db\<lparr>iam_outbox := rows\<rparr>)
             else Err (RepoErr ''row-level security'')
         | None \<Rightarrow> Err (RepoErr ''invalid uuid''))))"

subsection \<open>Facts\<close>

named_theorems iam_repo \<open>definitions of the repository operations\<close>

lemmas [iam_repo] = withOrgContext_def exec_uuid_def stmt_plain_def sees_def

lemma enforced_hides:
  "rls_enforced (ie_pg env) \<Longrightarrow> \<not> sees env (SetSessionVar idle_conn o') org"
  by (simp add: sees_def invisible_without_tx)

lemma bypass_sees [simp]: "\<not> rls_enforced (ie_pg env) \<Longrightarrow> sees env conn org"
  by (simp add: sees_def)

text \<open>Under enforced row-level security no session can be created.\<close>

lemma CreateSession_enforced:
  "rls_enforced (ie_pg env) \<Longrightarrow> \<exists>e. CreateSession env db o' u j ua addr t = Err e"
  by (auto simp: CreateSession_def withOrgContext_def exec_uuid_def enforced_hides split: option.splits)

end
