(* ===== verification/Crypto.thy ===== *)
theory Crypto
  imports Prelude
begin

text \<open>
  shared/crypto/aes.go and keys.go, and the verifier of shared/middleware/apikey.go:
  authenticated encryption under a multi-key keyring, and password hashes of
  the form \<open>pbkdf2$sha512$iterations$salt$hash\<close>.  Base64 and hexadecimal are the
  standard library's and are spelled out; AES-GCM and PBKDF2 are arguments.
\<close>

subsection \<open>Base64\<close>

definition b64_alphabet :: string where
  "b64_alphabet = ''ABCDEFGHIJKLMNOPQRSTUVWXYZabcdefghijklmnopqrstuvwxyz0123456789+/''"

definition b64_char :: "nat \<Rightarrow> char" where
  "b64_char n = b64_alphabet ! n"

fun alpha_index :: "char \<Rightarrow> string \<Rightarrow> nat option" where
  "alpha_index c [] = None"
| "alpha_index c (x # xs) = (if c = x then Some 0 else map_option Suc (alpha_index c xs))"

definition b64_val :: "char \<Rightarrow> nat option" where
  "b64_val c = alpha_index c b64_alphabet"

text \<open>\<open>base64.StdEncoding.EncodeToString\<close> on bytes given as numbers.\<close>

fun b64_enc :: "nat list \<Rightarrow> string" where
  "b64_enc [] = []"
| "b64_enc [a] = [b64_char (a div 4), b64_char (a mod 4 * 16), CHR ''='', CHR ''='']"
| "b64_enc [a, b] = [b64_char (a div 4), b64_char (a mod 4 * 16 + b div 16), b64_char (b mod 16 * 4), CHR ''='']"
| "b64_enc (a # b # c # r) = b64_char (a div 4) # b64_char (a mod 4 * 16 + b div 16) #
     b64_char (b mod 16 * 4 + c div 64) # b64_char (c mod 64) # b64_enc r"

text \<open>The decoder: groups of four, padding only at the end; carriage returns and line feeds are skipped.\<close>

fun b64_dec :: "string \<Rightarrow> nat list option" where
  "b64_dec [] = Some []"
| "b64_dec (p # q # r # s # rest) =
     (case (b64_val p, b64_val q) of
        (Some v1, Some v2) \<Rightarrow>
          (if r = CHR ''='' then (if s = CHR ''='' \<and> rest = [] then Some [v1 * 4 + v2 div 16] else None)
           else (case b64_val r of None \<Rightarrow> None | Some v3 \<Rightarrow>
             (if s = CHR ''='' then (if rest = [] then Some [v1 * 4 + v2 div 16, v2 mod 16 * 16 + v3 div 4] else None)
              else (case b64_val s of None \<Rightarrow> None | Some v4 \<Rightarrow>
                map_option (\<lambda>bs. (v1 * 4 + v2 div 16) # (v2 mod 16 * 16 + v3 div 4) # (v3 mod 4 * 64 + v4) # bs) (b64_dec rest)))))
      | _ \<Rightarrow> None)"
| "b64_dec _ = None"

definition bytes_of :: "string \<Rightarrow> nat list" where "bytes_of = map of_char"

definition EncodeToString :: "string \<Rightarrow> string" where
  "EncodeToString s = b64_enc (bytes_of s)"

definition DecodeString :: "string \<Rightarrow> string option" where
  "DecodeString s = map_option (map char_of) (b64_dec (filter (\<lambda>c. c \<noteq> CHR 0x0A \<and> c \<noteq> CHR 0x0D) s))"

lemma length_alphabet [simp]: "length b64_alphabet = 64"
  by (simp add: b64_alphabet_def)

lemma distinct_alphabet: "distinct b64_alphabet"
  by (simp add: b64_alphabet_def)

lemma alpha_index_nth: "distinct xs \<Longrightarrow> n < length xs \<Longrightarrow> alpha_index (xs ! n) xs = Some n"
proof (induction xs arbitrary: n)
  case (Cons x xs)
  then show ?case by (cases n) auto
qed simp

lemma b64_val_char [simp]: "n < 64 \<Longrightarrow> b64_val (b64_char n) = Some n"
  by (simp add: b64_val_def b64_char_def alpha_index_nth distinct_alphabet)

lemma b64_char_in: "n < 64 \<Longrightarrow> b64_char n \<in> set b64_alphabet"
  unfolding b64_char_def by (rule nth_mem) simp

lemma special_not_in:
  "CHR ''='' \<notin> set b64_alphabet" "CHR '':'' \<notin> set b64_alphabet" "CHR 0x0A \<notin> set b64_alphabet" "CHR 0x0D \<notin> set b64_alphabet"
  by (simp_all add: b64_alphabet_def)

lemma b64_char_not_pad [simp]: "n < 64 \<Longrightarrow> b64_char n \<noteq> CHR ''=''"
  using b64_char_in special_not_in(1) by metis

lemma sextets:
  assumes "a < 256" "b < 256" "c < (256 :: nat)"
  shows "a div 4 < 64" "a mod 4 * 16 + b div 16 < 64" "b mod 16 * 4 + c div 64 < 64" "c mod 64 < 64"
    "a mod 4 * 16 < 64" "b mod 16 * 4 < 64"
proof -
  have q: "a div 4 < 64" "b div 16 < 16" "c div 64 < 4"
    using assms by (auto simp: less_mult_imp_div_less)
  have r: "a mod 4 \<le> 3" "b mod 16 \<le> 15" "c mod 64 < 64"
    using mod_less_divisor [of 4 a] mod_less_divisor [of 16 b] mod_less_divisor [of 64 c] by auto
  show "a div 4 < 64" "a mod 4 * 16 + b div 16 < 64" "b mod 16 * 4 + c div 64 < 64" "c mod 64 < 64"
    "a mod 4 * 16 < 64" "b mod 16 * 4 < 64"
    using q r by linarith+
qed

lemma b64_dec_enc: "list_all (\<lambda>a. a < 256) bs \<Longrightarrow> b64_dec (b64_enc bs) = Some bs"
proof (induction bs rule: b64_enc.induct)
  case (2 a)
  then show ?case using sextets [of a 0 0] by simp
next
  case (3 a b)
  then have "b div 16 < 16" by (auto simp: less_mult_imp_div_less)
  with 3 show ?case using sextets [of a b 0] by simp
next
  case (4 a b c r)
  then have "b div 16 < 16" "c div 64 < 4" by (auto simp: less_mult_imp_div_less)
  with 4 show ?case using sextets [of a b c] by simp
qed simp

lemma b64_enc_chars: "list_all (\<lambda>a. a < 256) bs \<Longrightarrow> set (b64_enc bs) \<subseteq> insert (CHR ''='') (set b64_alphabet)"
proof (induction bs rule: b64_enc.induct)
  case (2 a)
  then show ?case using sextets [of a 0 0] by (simp add: b64_char_in)
next
  case (3 a b)
  then show ?case using sextets [of a b 0] by (simp add: b64_char_in)
next
  case (4 a b c r)
  then show ?case using sextets [of a b c] by (simp add: b64_char_in)
qed simp

lemma bytes_of_bound: "list_all (\<lambda>a. a < 256) (bytes_of s)"
  by (simp add: bytes_of_def list_all_iff)

lemma EncodeToString_chars: "c \<in> set (EncodeToString s) \<Longrightarrow> c = CHR ''='' \<or> c \<in> set b64_alphabet"
  using b64_enc_chars [OF bytes_of_bound, of s] by (auto simp: EncodeToString_def)

lemma Decode_Encode [simp]: "DecodeString (EncodeToString s) = Some s"
proof -
  have "filter (\<lambda>c. c \<noteq> CHR 0x0A \<and> c \<noteq> CHR 0x0D) (EncodeToString s) = EncodeToString s"
    using EncodeToString_chars special_not_in by (intro filter_True) fastforce
  then show ?thesis
    by (simp add: DecodeString_def EncodeToString_def b64_dec_enc bytes_of_bound)
      (simp add: bytes_of_def comp_def)
qed

lemma colon_notin_Encode [simp]: "CHR '':'' \<notin> set (EncodeToString s)"
  using EncodeToString_chars special_not_in by fastforce

subsection \<open>AES-GCM under a keyring\<close>

record EncryptionKey =
  ek_Kid :: string
  ek_Key :: string
  ek_Status :: string

datatype aes_error = InvalidCiphertext | KeyNotFound | DecodeKey | DecodeCiphertext | CipherErr

text \<open>\<open>cipher.NewGCM\<close>'s Seal and Open; \<open>aes.NewCipher\<close> accepts keys of 16, 24 and 32 bytes.\<close>

record gcm =
  gcm_Seal :: "string \<Rightarrow> string \<Rightarrow> string \<Rightarrow> string"
  gcm_Open :: "string \<Rightarrow> string \<Rightarrow> string \<Rightarrow> string option"

definition key_size_ok :: "string \<Rightarrow> bool" where
  "key_size_ok key \<longleftrightarrow> length key = 16 \<or> length key = 24 \<or> length key = 32"

definition nonceSize :: nat where "nonceSize = 12"

text \<open>The nonce is drawn from \<open>rand.Reader\<close>; \<open>None\<close> when reading it fails.\<close>

definition Encrypt :: "gcm \<Rightarrow> string option \<Rightarrow> string \<Rightarrow> EncryptionKey list \<Rightarrow> (aes_error, string) result" where
  "Encrypt g nonce plaintext keyring =
     (case find (\<lambda>k. ek_Status k = ''active'') keyring of
        None \<Rightarrow> Err KeyNotFound
      | Some k \<Rightarrow> (case DecodeString (ek_Key k) of
          None \<Rightarrow> Err DecodeKey
        | Some key \<Rightarrow>
            if \<not> key_size_ok key then Err CipherErr
            else (case nonce of
              None \<Rightarrow> Err CipherErr
            | Some n \<Rightarrow> Ok (ek_Kid k @ '':'' @ EncodeToString (n @ gcm_Seal g key n plaintext)))))"

definition Decrypt :: "gcm \<Rightarrow> string \<Rightarrow> EncryptionKey list \<Rightarrow> (aes_error, string) result" where
  "Decrypt g encodedCiphertext keyring =
     (case Split (CHR '':'') encodedCiphertext of
        [kid, enc] \<Rightarrow> (case DecodeString enc of
          None \<Rightarrow> Err DecodeCiphertext
        | Some data \<Rightarrow> (case find (\<lambda>k. ek_Kid k = kid) keyring of
            None \<Rightarrow> Err KeyNotFound
          | Some k \<Rightarrow> (case DecodeString (ek_Key k) of
              None \<Rightarrow> Err DecodeKey
            | Some key \<Rightarrow>
                if \<not> key_size_ok key then Err CipherErr
                else if length data < nonceSize then Err InvalidCiphertext
                else (case gcm_Open g key (take nonceSize data) (drop nonceSize data) of
                  None \<Rightarrow> Err CipherErr | Some p \<Rightarrow> Ok p))))
      | _ \<Rightarrow> Err InvalidCiphertext)"

subsection \<open>PBKDF2 hashes\<close>

definition pbkdf2Iterations :: int where "pbkdf2Iterations = 600000"
definition pbkdf2KeyLen :: nat where "pbkdf2KeyLen = 64"
definition pbkdf2SaltLen :: nat where "pbkdf2SaltLen = 32"

text \<open>\<open>hex.DecodeString\<close>: pairs of digits, either case.\<close>

definition hex_digit :: "char \<Rightarrow> nat option" where
  "hex_digit c = (let n = (of_char c :: nat) in
     if 48 \<le> n \<and> n \<le> 57 then Some (n - 48)
     else if 97 \<le> n \<and> n \<le> 102 then Some (n - 87)
     else if 65 \<le> n \<and> n \<le> 70 then Some (n - 55) else None)"

fun hex_decode :: "string \<Rightarrow> string option" where
  "hex_decode [] = Some []"
| "hex_decode (a # b # r) = (case (hex_digit a, hex_digit b, hex_decode r) of
     (Some x, Some y, Some s) \<Rightarrow> Some (char_of (16 * x + y) # s) | _ \<Rightarrow> None)"
| "hex_decode _ = None"

text \<open>\<open>fmt.Sscanf(s, "%d", &n)\<close>: leading blanks, a sign, at least one digit, within 64 bits; the rest is not read.\<close>

definition is_blank :: "char \<Rightarrow> bool" where
  "is_blank c \<longleftrightarrow> c = CHR '' '' \<or> c = CHR 0x09 \<or> c = CHR 0x0D"

definition Sscanf_d :: "string \<Rightarrow> int option" where
  "Sscanf_d s = (let t = dropWhile is_blank s;
       sign = (if t \<noteq> [] \<and> (hd t = CHR ''-'' \<or> hd t = CHR ''+'') then [hd t] else []);
       ds = takeWhile is_digit (drop (length sign) t)
     in Atoi (sign @ ds))"

definition HashPBKDF2 :: "(string \<Rightarrow> string \<Rightarrow> int \<Rightarrow> nat \<Rightarrow> string) \<Rightarrow> string \<Rightarrow> string \<Rightarrow> string" where
  "HashPBKDF2 pbkdf2 salt password =
     ''pbkdf2$sha512$'' @ itoa pbkdf2Iterations @ ''$'' @ hex_encode salt @ ''$'' @
       hex_encode (pbkdf2 password salt pbkdf2Iterations pbkdf2KeyLen)"

definition scanned :: "string \<Rightarrow> int" where
  "scanned s = (case Sscanf_d s of None \<Rightarrow> 0 | Some n \<Rightarrow> n)"

definition VerifyPBKDF2 :: "(string \<Rightarrow> string \<Rightarrow> int \<Rightarrow> nat \<Rightarrow> string) \<Rightarrow> string \<Rightarrow> string \<Rightarrow> bool" where
  "VerifyPBKDF2 pbkdf2 password encodedHash =
     (case Split (CHR ''$'') encodedHash of
        [p0, p1, p2, p3, p4] \<Rightarrow>
          p0 = ''pbkdf2'' \<and> p1 = ''sha512'' \<and>
          (case (hex_decode p3, hex_decode p4) of
             (Some salt, Some expected) \<Rightarrow> pbkdf2 password salt (scanned p2) (length expected) = expected
           | _ \<Rightarrow> False)
      | _ \<Rightarrow> False)"

text \<open>The verifier of the API-key middleware.\<close>

definition derivePBKDF2 :: "(string \<Rightarrow> string \<Rightarrow> int \<Rightarrow> nat \<Rightarrow> string) \<Rightarrow> string \<Rightarrow> string \<Rightarrow> int \<Rightarrow> string" where
  "derivePBKDF2 pbkdf2 key saltHex iterations =
     (case hex_decode saltHex of None \<Rightarrow> [] | Some salt \<Rightarrow> hex_encode (pbkdf2 key salt iterations 64))"

definition verifyPBKDF2 :: "(string \<Rightarrow> string \<Rightarrow> int \<Rightarrow> nat \<Rightarrow> string) \<Rightarrow> string \<Rightarrow> string \<Rightarrow> bool" where
  "verifyPBKDF2 pbkdf2 rawKey storedHash =
     (case Split (CHR ''$'') storedHash of
        [p0, p1, p2, p3, p4] \<Rightarrow>
          p0 = ''pbkdf2'' \<and> p1 = ''sha512'' \<and> \<not> scanned p2 < 600000 \<and>
          derivePBKDF2 pbkdf2 rawKey p3 (scanned p2) = p4
      | _ \<Rightarrow> False)"

text \<open>\<open>HashSHA256\<close> and \<open>GenerateRandomString\<close>, over the digest and the drawn bytes; \<open>base64.URLEncoding\<close>.\<close>

definition HashSHA256 :: "(string \<Rightarrow> string) \<Rightarrow> string \<Rightarrow> string" where
  "HashSHA256 sha256 s = EncodeToString (sha256 s)"

definition url_char :: "char \<Rightarrow> char" where
  "url_char c = (if c = CHR ''+'' then CHR ''-'' else if c = CHR ''/'' then CHR ''_'' else c)"

definition GenerateRandomString :: "string \<Rightarrow> string" where
  "GenerateRandomString b = take (length b) (map url_char (EncodeToString b))"

subsection \<open>Properties\<close>

lemma hex_digit_digit [simp]: "n < 16 \<Longrightarrow> hex_digit (digit n) = Some n"
  by (auto simp: hex_digit_def Let_def)

lemma hex_decode_encode [simp]: "hex_decode (hex_encode s) = Some s"
proof (induction s)
  case (Cons c s)
  have "(of_char c :: nat) div 16 < 16" "16 * (of_char c div 16) + of_char c mod 16 = (of_char c :: nat)"
    using nat_of_char_less_256 [of c] by (auto simp: less_mult_imp_div_less)
  with Cons show ?case by (simp add: hex_encode_def hex_byte_def)
qed (simp add: hex_encode_def)

lemma digit_not_dollar: "n < 16 \<Longrightarrow> digit n \<noteq> CHR ''$''"
proof
  assume "n < 16" "digit n = CHR ''$''"
  then have "(of_char (digit n) :: nat) = 36" by simp
  then show False using \<open>n < 16\<close> by (simp split: if_splits)
qed

lemma hex_no_dollar [simp]: "CHR ''$'' \<notin> set (hex_encode s)"
proof -
  have "(of_char c :: nat) div 16 < 16" for c :: char
    using nat_of_char_less_256 [of c] by (auto simp: less_mult_imp_div_less)
  then show ?thesis
    using digit_not_dollar [THEN not_sym] by (auto simp: hex_encode_def hex_byte_def)
qed

lemma itoa_iterations: "itoa pbkdf2Iterations = ''600000''"
proof -
  have "digit 6 = CHR ''6''" "digit 0 = CHR ''0''" by code_simp+
  then show ?thesis by (simp add: itoa_def pbkdf2Iterations_def nat_str.simps)
qed

lemma scanned_iterations: "scanned ''600000'' = 600000"
  by (simp add: scanned_def Sscanf_d_def Let_def is_blank_def is_digit_def Atoi_def)

lemma Split_stored:
  "Split (CHR ''$'') (HashPBKDF2 f salt pw) =
     [''pbkdf2'', ''sha512'', ''600000'', hex_encode salt, hex_encode (f pw salt 600000 64)]"
proof -
  have "HashPBKDF2 f salt pw = ''pbkdf2'' @ CHR ''$'' # ''sha512'' @ CHR ''$'' # ''600000'' @ CHR ''$'' #
      hex_encode salt @ CHR ''$'' # hex_encode (f pw salt 600000 64)"
    unfolding HashPBKDF2_def itoa_iterations by (simp add: pbkdf2Iterations_def pbkdf2KeyLen_def)
  then show ?thesis
    by (simp only:) (subst Split_append_sep, simp, subst Split_append_sep, simp, subst Split_append_sep, simp,
      subst Split_append_sep, simp_all)
qed

text \<open>
  C19. Encryption round trip under key rotation: what Encrypt returns, Decrypt
  opens under every keyring whose first key of the same id has the same key
  bytes, whatever its status; the key id must not contain a colon, which
  separates it from the ciphertext.
\<close>

theorem decrypt_after_encrypt:
  assumes gcm: "\<And>key n p. gcm_Open g key n (gcm_Seal g key n p) = Some p"
    and enc: "Encrypt g (Some n) p ring = Ok ct" and n: "length n = nonceSize"
    and active: "find (\<lambda>k. ek_Status k = ''active'') ring = Some k"
    and kept: "find (\<lambda>k'. ek_Kid k' = ek_Kid k) ring' = Some k'" "DecodeString (ek_Key k') = DecodeString (ek_Key k)"
    and kid: "CHR '':'' \<notin> set (ek_Kid k)"
  shows "Decrypt g ct ring' = Ok p"
proof -
  from enc active obtain key where key: "DecodeString (ek_Key k) = Some key" "key_size_ok key"
    and ct: "ct = ek_Kid k @ CHR '':'' # EncodeToString (n @ gcm_Seal g key n p)"
    by (auto simp: Encrypt_def split: option.splits if_splits)
  have "Split (CHR '':'') ct = [ek_Kid k, EncodeToString (n @ gcm_Seal g key n p)]"
    unfolding ct by (simp add: Split_append_sep [OF kid])
  then show ?thesis
    using kept key n by (simp add: Decrypt_def gcm)
qed

definition toy_gcm :: gcm where
  "toy_gcm = \<lparr>gcm_Seal = (\<lambda>key n p. p @ key), gcm_Open = (\<lambda>key n c. Some (take (length c - length key) c))\<rparr>"

definition aes_key :: "string \<Rightarrow> EncryptionKey" where
  "aes_key st = \<lparr>ek_Kid = ''k1'', ek_Key = EncodeToString (replicate 16 (CHR ''K'')), ek_Status = st\<rparr>"

theorem decrypt_after_encrypt_witness:
  "\<exists>ct. Encrypt toy_gcm (Some (replicate 12 (CHR ''N''))) ''otp'' [aes_key ''active''] = Ok ct \<and>
     Decrypt toy_gcm ct [aes_key ''verify_only''] = Ok ''otp''"
proof -
  have opens: "\<And>key n p. gcm_Open toy_gcm key n (gcm_Seal toy_gcm key n p) = Some p" by (simp add: toy_gcm_def)
  have size: "key_size_ok (replicate 16 (CHR ''K''))" by (simp add: key_size_ok_def)
  obtain ct where ct: "Encrypt toy_gcm (Some (replicate 12 (CHR ''N''))) ''otp'' [aes_key ''active''] = Ok ct"
    by (simp add: Encrypt_def aes_key_def size)
  have "Decrypt toy_gcm ct [aes_key ''verify_only''] = Ok ''otp''"
    by (rule decrypt_after_encrypt [OF opens ct, where k = "aes_key ''active''" and k' = "aes_key ''verify_only''"])
      (simp_all add: nonceSize_def aes_key_def)
  with ct show ?thesis by blast
qed

text \<open>
  C20. Both verifiers, that of shared/crypto and that of the API-key middleware,
  accept a stored hash made by HashPBKDF2 exactly for the passwords whose
  derived key equals the stored one; in particular the password it was made
  from.
\<close>

theorem pbkdf2_verifiers_exact:
  assumes len: "\<And>q s i n. length (pbkdf2 q s i n) = n"
  shows "(VerifyPBKDF2 pbkdf2 q (HashPBKDF2 pbkdf2 salt pw) \<longleftrightarrow>
       pbkdf2 q salt pbkdf2Iterations pbkdf2KeyLen = pbkdf2 pw salt pbkdf2Iterations pbkdf2KeyLen) \<and>
     (verifyPBKDF2 pbkdf2 q (HashPBKDF2 pbkdf2 salt pw) \<longleftrightarrow>
       VerifyPBKDF2 pbkdf2 q (HashPBKDF2 pbkdf2 salt pw))"
  by (simp add: VerifyPBKDF2_def verifyPBKDF2_def derivePBKDF2_def Split_stored scanned_iterations len
      pbkdf2Iterations_def pbkdf2KeyLen_def hex_encode_inj)

theorem pbkdf2_verifiers_exact_witness:
  "VerifyPBKDF2 (\<lambda>q s i n. replicate n (if q = [] then CHR ''0'' else hd q)) ''abc''
     (HashPBKDF2 (\<lambda>q s i n. replicate n (if q = [] then CHR ''0'' else hd q)) ''salt'' ''axy'') \<and>
   \<not> VerifyPBKDF2 (\<lambda>q s i n. replicate n (if q = [] then CHR ''0'' else hd q)) ''bc''
     (HashPBKDF2 (\<lambda>q s i n. replicate n (if q = [] then CHR ''0'' else hd q)) ''salt'' ''axy'')"
  by (subst pbkdf2_verifiers_exact [THEN conjunct1], simp, subst pbkdf2_verifiers_exact [THEN conjunct1], simp,
    simp add: pbkdf2KeyLen_def)

end
