(* ===== verification/Jwt.thy ===== *)
theory Jwt
  imports Http Resilience
begin

text \<open>
  Tokens: the multi-key keyring of shared/crypto/jwt.go and the middleware that
  turns a verified token into the request context
  (shared/middleware/context.go, jwt_auth.go).  The encoding and the signature
  of a token are those of golang-jwt, whose functions are the fields of
  \<open>jwt_lib\<close>.  Instants of a claim are whole seconds, as NumericDate keeps them.
\<close>

record JWTKey =
  Kid :: string
  Secret :: string
  Algorithm :: string
  key_Status :: string

record StandardClaims =
  cl_ID :: string
  cl_Issuer :: string
  cl_Subject :: string
  cl_Audience :: "string list"
  cl_ExpiresAt :: "time option"
  cl_IssuedAt :: "time option"
  cl_NotBefore :: "time option"
  cl_OrgID :: string
  cl_UserID :: string

datatype token_error = ErrTokenExpired | ErrTokenInvalid | ErrKeyNotFound

text \<open>
  golang-jwt: signing under an algorithm, a key id and a secret; the key id and
  algorithm of a token's header and its claims, \<open>None\<close> for a text it cannot
  parse; and the signature check.
\<close>

record jwt_lib =
  jl_sign :: "string \<Rightarrow> string \<Rightarrow> string \<Rightarrow> StandardClaims \<Rightarrow> string option"
  jl_header :: "string \<Rightarrow> (string option \<times> string) option"
  jl_claims :: "string \<Rightarrow> StandardClaims option"
  jl_valid :: "string \<Rightarrow> string \<Rightarrow> string \<Rightarrow> bool"

definition Sign :: "jwt_lib \<Rightarrow> StandardClaims \<Rightarrow> JWTKey list \<Rightarrow> (token_error, string) result" where
  "Sign lib claims keyring =
     (case find (\<lambda>k. key_Status k = ''active'') keyring of
        None \<Rightarrow> Err ErrKeyNotFound
      | Some k \<Rightarrow> (case jl_sign lib (Algorithm k) (Kid k) (Secret k) claims of
           None \<Rightarrow> Err ErrTokenInvalid | Some t \<Rightarrow> Ok t))"

text \<open>The key function that Verify passes to the parser.\<close>

definition key_func :: "JWTKey list \<Rightarrow> string option \<Rightarrow> string \<Rightarrow> (token_error, string) result" where
  "key_func keyring kid alg =
     (case kid of
        None \<Rightarrow> Err ErrTokenInvalid
      | Some i \<Rightarrow> (case find (\<lambda>k. Kid k = i) keyring of
           None \<Rightarrow> Err ErrTokenInvalid
         | Some k \<Rightarrow> if Algorithm k \<noteq> alg then Err ErrTokenInvalid else Ok (Secret k)))"

definition expired :: "time \<Rightarrow> StandardClaims \<Rightarrow> bool" where
  "expired now c \<longleftrightarrow> (case cl_ExpiresAt c of None \<Rightarrow> False | Some e \<Rightarrow> \<not> now < e)"

definition not_yet :: "time \<Rightarrow> StandardClaims \<Rightarrow> bool" where
  "not_yet now c \<longleftrightarrow> (case cl_NotBefore c of None \<Rightarrow> False | Some b \<Rightarrow> now < b)"

definition Verify :: "jwt_lib \<Rightarrow> time \<Rightarrow> string \<Rightarrow> JWTKey list \<Rightarrow> (token_error, StandardClaims) result" where
  "Verify lib now tokenString keyring =
     (case (jl_header lib tokenString, jl_claims lib tokenString) of
        (Some (kid, alg), Some c) \<Rightarrow>
          (case key_func keyring kid alg of
             Inl e \<Rightarrow> Err e
           | Inr secret \<Rightarrow>
               if \<not> jl_valid lib alg secret tokenString then Err ErrTokenInvalid
               else if expired now c then Err ErrTokenExpired
               else if not_yet now c then Err ErrTokenInvalid
               else Ok c)
      | _ \<Rightarrow> Err ErrTokenInvalid)"

text \<open>\<open>jwt.NewNumericDate\<close> truncates to seconds.\<close>

definition NewNumericDate :: "time \<Rightarrow> time" where
  "NewNumericDate t = t div Second * Second"

definition NewStandardClaims :: "time \<Rightarrow> string \<Rightarrow> string \<Rightarrow> string \<Rightarrow> time \<Rightarrow> StandardClaims" where
  "NewStandardClaims now orgID userID jti ttl =
     \<lparr>cl_ID = jti, cl_Issuer = ''openguard-iam'', cl_Subject = userID,
      cl_Audience = [''openguard-ui'', ''openguard-sdk''],
      cl_ExpiresAt = Some (NewNumericDate (now + ttl)), cl_IssuedAt = Some (NewNumericDate now),
      cl_NotBefore = Some (NewNumericDate (now - Minute)), cl_OrgID = orgID, cl_UserID = userID\<rparr>"

text \<open>LoadKeyring: the JSON array of keys; \<open>null\<close> is the nil keyring.\<close>

definition dec_key :: "string \<Rightarrow> json \<Rightarrow> JWTKey \<Rightarrow> JWTKey option" where
  "dec_key k j x =
     (if key_is k ''kid'' then map_option (\<lambda>s. x\<lparr>Kid := s\<rparr>) (dec_string j (Kid x))
      else if key_is k ''secret'' then map_option (\<lambda>s. x\<lparr>Secret := s\<rparr>) (dec_string j (Secret x))
      else if key_is k ''algorithm'' then map_option (\<lambda>s. x\<lparr>Algorithm := s\<rparr>) (dec_string j (Algorithm x))
      else if key_is k ''status'' then map_option (\<lambda>s. x\<lparr>key_Status := s\<rparr>) (dec_string j (key_Status x))
      else Some x)"

definition zero_key :: JWTKey where
  "zero_key = \<lparr>Kid = [], Secret = [], Algorithm = [], key_Status = []\<rparr>"

fun dec_keys :: "json list \<Rightarrow> JWTKey list option" where
  "dec_keys [] = Some []"
| "dec_keys (j # js) = (case dec_struct dec_key zero_key (Some j) of
     None \<Rightarrow> None | Some k \<Rightarrow> map_option ((#) k) (dec_keys js))"

fun LoadKeyring :: "raw_json \<Rightarrow> (string, JWTKey list) result" where
  "LoadKeyring (Some JNull) = Ok []"
| "LoadKeyring (Some (JArr js)) = (case dec_keys js of
     None \<Rightarrow> Err ''invalid keyring JSON'' | Some ks \<Rightarrow> Ok ks)"
| "LoadKeyring _ = Err ''invalid keyring JSON''"

subsection \<open>The request context and the JWT middleware\<close>

record req_ctx =
  cx_rls :: go_ctx
  cx_user_id :: "string option"
  cx_org_id :: "string option"
  cx_connector_id :: "string option"
  cx_jti :: "string option"
  cx_expires_at :: "time option"
  cx_scim_org_id :: "string option"

definition empty_ctx :: req_ctx where
  "empty_ctx = \<lparr>cx_rls = \<lparr>rls_org = None\<rparr>, cx_user_id = None, cx_org_id = None, cx_connector_id = None,
     cx_jti = None, cx_expires_at = None, cx_scim_org_id = None\<rparr>"

definition ctx_str :: "string option \<Rightarrow> string" where
  "ctx_str v = (case v of None \<Rightarrow> [] | Some s \<Rightarrow> s)"

definition GetOrgID :: "req_ctx \<Rightarrow> string" where "GetOrgID ctx = ctx_str (cx_org_id ctx)"
definition GetUserID :: "req_ctx \<Rightarrow> string" where "GetUserID ctx = ctx_str (cx_user_id ctx)"
definition GetConnectorID :: "req_ctx \<Rightarrow> string" where "GetConnectorID ctx = ctx_str (cx_connector_id ctx)"
definition GetJTI :: "req_ctx \<Rightarrow> string" where "GetJTI ctx = ctx_str (cx_jti ctx)"

text \<open>The zero time of Go, 1 January of year 1, in nanoseconds before the epoch.\<close>

definition zero_time :: time where "zero_time = - 62135596800 * Second"

definition GetExpiresAt :: "req_ctx \<Rightarrow> time" where
  "GetExpiresAt ctx = (case cx_expires_at ctx of None \<Rightarrow> zero_time | Some t \<Rightarrow> t)"

definition extractToken :: "string option \<Rightarrow> headers \<Rightarrow> string" where
  "extractToken cookie h =
     (case cookie of
        Some v \<Rightarrow> v
      | None \<Rightarrow> (let authHeader = hget h ''Authorization'' in
          if HasPrefix authHeader ''Bearer '' then TrimPrefix authHeader ''Bearer '' else []))"

text \<open>
  A middleware either answers the request or passes it on with a new context;
  a nil dereference is an answer of its own.
\<close>

datatype verdict = Reject int string | Next req_ctx | Panics

text \<open>
  The blocklist lookup: \<open>rdb\<close> and the breaker are configured (\<open>Some\<close>) or not,
  and the call is refused by the breaker, fails, or says whether the key exists.
\<close>

definition AuthJWTWithBlocklist :: "jwt_lib \<Rightarrow> JWTKey list \<Rightarrow> (string \<Rightarrow> cb_refusal option \<times> (string, bool) result) option \<Rightarrow>
    time \<Rightarrow> string option \<Rightarrow> headers \<Rightarrow> req_ctx \<Rightarrow> verdict" where
  "AuthJWTWithBlocklist lib keyring blocklist now cookie h ctx =
     (let tokenStr = extractToken cookie h in
      if tokenStr = [] then Reject 401 ''Unauthorized: missing token''
      else (case Verify lib now tokenStr keyring of
        Inl _ \<Rightarrow> Reject 401 ''Unauthorized: invalid token''
      | Inr claims \<Rightarrow>
          (let jti = cl_ID claims;
               revoked = (case blocklist of
                   None \<Rightarrow> False
                 | Some exists \<Rightarrow>
                     (case exists (''blocklist:'' @ jti) of (refusal, n) \<Rightarrow>
                       (case Call ''blocklist'' refusal n of Inl _ \<Rightarrow> False | Inr b \<Rightarrow> b)))
           in if revoked then Reject 401 ''Unauthorized: token revoked''
              else (case cl_ExpiresAt claims of
                None \<Rightarrow> Panics
              | Some e \<Rightarrow> Next (ctx\<lparr>cx_user_id := Some (cl_UserID claims), cx_org_id := Some (cl_OrgID claims),
                  cx_jti := Some jti, cx_expires_at := Some e,
                  cx_rls := WithOrgID (cx_rls ctx) (cl_OrgID claims)\<rparr>)))))"

lemmas ctx_getters = GetOrgID_def GetUserID_def GetConnectorID_def GetJTI_def GetExpiresAt_def ctx_str_def

subsection \<open>Facts about Verify\<close>

lemma Verify_Ok_iff:
  "Verify lib now t ks = Ok c \<longleftrightarrow>
     (\<exists>kid alg secret. jl_header lib t = Some (kid, alg) \<and> jl_claims lib t = Some c \<and>
        key_func ks kid alg = Ok secret \<and> jl_valid lib alg secret t \<and> \<not> expired now c \<and> \<not> not_yet now c)"
  by (auto simp: Verify_def split: option.splits prod.splits sum.splits if_splits)

lemma key_func_Ok:
  "key_func ks kid alg = Ok s \<Longrightarrow> \<exists>k\<in>set ks. kid = Some (Kid k) \<and> alg = Algorithm k \<and> s = Secret k"
  by (auto simp: key_func_def split: option.splits if_splits dest!: find_Some_iff_set)

lemma NewNumericDate_le: "NewNumericDate t \<le> t" "t - Second < NewNumericDate t"
proof -
  have "t div Second * Second + t mod Second = t" "0 \<le> t mod Second" "t mod Second < Second"
    by (simp_all add: time_units)
  then show "NewNumericDate t \<le> t" "t - Second < NewNumericDate t"
    unfolding NewNumericDate_def by linarith+
qed

text \<open>Fresh claims are accepted from a minute before they are made until a second before they end.\<close>

lemma fresh_claims_valid:
  assumes "t0 - Minute \<le> now" "now \<le> t0 + ttl - Second"
  shows "\<not> expired now (NewStandardClaims t0 o' u j ttl)" "\<not> not_yet now (NewStandardClaims t0 o' u j ttl)"
  using assms NewNumericDate_le [of "t0 + ttl"] NewNumericDate_le [of "t0 - Minute"]
  by (auto simp: expired_def not_yet_def NewStandardClaims_def)

subsection \<open>golang-jwt's contract\<close>

text \<open>
  What the keyring relies on: a token carries the key id, the algorithm and the
  claims it was signed with, and its signature checks under the secret it was
  signed with.
\<close>

definition jwt_contract :: "jwt_lib \<Rightarrow> bool" where
  "jwt_contract lib \<longleftrightarrow> (\<forall>alg kid s c t. jl_sign lib alg kid s c = Some t \<longrightarrow>
     jl_header lib t = Some (Some kid, alg) \<and> jl_claims lib t = Some c \<and> jl_valid lib alg s t)"

lemma sign_verify:
  assumes contract: "jwt_contract lib"
    and "Sign lib c ring = Ok t" and active: "find (\<lambda>k. key_Status k = ''active'') ring = Some k"
    and "find (\<lambda>k'. Kid k' = Kid k) ring' = Some k'" "Algorithm k' = Algorithm k" "Secret k' = Secret k"
    and "\<not> expired now c" "\<not> not_yet now c"
  shows "Verify lib now t ring' = Ok c"
proof -
  from assms(2) active have s: "jl_sign lib (Algorithm k) (Kid k) (Secret k) c = Some t"
    by (simp add: Sign_def split: option.splits)
  have "key_func ring' (Some (Kid k)) (Algorithm k) = Ok (Secret k)"
    using assms(4-6) by (simp add: key_func_def)
  then show ?thesis
    unfolding Verify_Ok_iff using contract s assms(7,8) unfolding jwt_contract_def by blast
qed

text \<open>
  A concrete library that signs one set of claims under one key, to show that
  the contract can hold and to run the middleware on examples.
\<close>

definition toy_claims :: StandardClaims where
  "toy_claims = NewStandardClaims 0 ''o1'' ''u1'' ''j1'' Hour"

definition toy_jwt :: jwt_lib where
  "toy_jwt = \<lparr>jl_sign = (\<lambda>alg kid s c. if c = toy_claims \<and> alg = ''HS256'' \<and> kid = ''k1'' \<and> s = ''secret'' then Some ''tok'' else None),
     jl_header = (\<lambda>t. if t = ''tok'' then Some (Some ''k1'', ''HS256'') else None),
     jl_claims = (\<lambda>t. if t = ''tok'' then Some toy_claims else None),
     jl_valid = (\<lambda>alg s t. t = ''tok'' \<and> alg = ''HS256'' \<and> s = ''secret'')\<rparr>"

lemma toy_jwt_contract: "jwt_contract toy_jwt"
  by (auto simp: jwt_contract_def toy_jwt_def split: if_splits)

definition key_k1 :: "string \<Rightarrow> JWTKey" where
  "key_k1 st = \<lparr>Kid = ''k1'', Secret = ''secret'', Algorithm = ''HS256'', key_Status = st\<rparr>"

definition key_k2 :: JWTKey where
  "key_k2 = \<lparr>Kid = ''k2'', Secret = ''other'', Algorithm = ''HS256'', key_Status = ''active''\<rparr>"

subsection \<open>Properties\<close>

text \<open>
  C18. Key rotation: a token signed with the active key of one keyring verifies
  under every later keyring in which the first key of that id has the same
  algorithm and secret, whatever its status and whichever key signs now,
  from a minute before issuance until a second before expiry; and Verify
  returns the claims of the issued token.
\<close>

theorem token_survives_rotation:
  assumes contract: "jwt_contract lib"
    and signed: "Sign lib (NewStandardClaims t0 orgID userID jti ttl) ring = Ok t"
    and active: "find (\<lambda>k. key_Status k = ''active'') ring = Some k"
    and kept: "find (\<lambda>k'. Kid k' = Kid k) ring' = Some k'" "Algorithm k' = Algorithm k" "Secret k' = Secret k"
    and window: "t0 - Minute \<le> now" "now \<le> t0 + ttl - Second"
  shows "Verify lib now t ring' = Ok (NewStandardClaims t0 orgID userID jti ttl)"
  using sign_verify [OF contract signed active kept] fresh_claims_valid [OF window] by blast

theorem token_survives_rotation_witness:
  "Verify toy_jwt (10 * Minute) ''tok'' [key_k2, key_k1 ''verify_only''] = Ok (NewStandardClaims 0 ''o1'' ''u1'' ''j1'' Hour)"
proof -
  have s: "Sign toy_jwt (NewStandardClaims 0 ''o1'' ''u1'' ''j1'' Hour) [key_k1 ''active''] = Ok ''tok''"
    by (simp add: Sign_def toy_jwt_def key_k1_def toy_claims_def)
  show ?thesis
    by (rule token_survives_rotation [OF toy_jwt_contract s, where k = "key_k1 ''active''"
          and k' = "key_k1 ''verify_only''"])
      (simp_all add: key_k1_def key_k2_def time_units)
qed


end
