(* ===== verification/Net_IP.thy ===== *)
theory Net_IP
  imports Prelude
begin

text \<open>
  The parts of package net the services use: textual IP addresses, CIDR
  networks and host:port pairs; and the outbound SSRF guard built on them
  (shared/middleware/security.go).  As in Go an address is a slice of 16 bytes,
  an IPv4 address being kept in the IPv4-mapped range, and networks are
  compared byte by byte under their mask.
\<close>

unbundle bit_operations_syntax

type_synonym ip = "nat list"

subsection \<open>Parsing addresses\<close>

definition v4_prefix :: ip where "v4_prefix = replicate 10 0 @ [255, 255]"

definition is_v4 :: "ip \<Rightarrow> bool" where
  "is_v4 a \<longleftrightarrow> length a = 16 \<and> take 12 a = v4_prefix"

definition octet :: "string \<Rightarrow> nat option" where
  "octet s = (if s \<noteq> [] \<and> length s \<le> 3 \<and> list_all is_digit s \<and> (hd s \<noteq> CHR ''0'' \<or> s = ''0'') \<and> dec_nat 0 s \<le> 255
     then Some (dec_nat 0 s) else None)"

fun opt_all :: "'a option list \<Rightarrow> 'a list option" where
  "opt_all [] = Some []"
| "opt_all (None # xs) = None"
| "opt_all (Some x # xs) = map_option ((#) x) (opt_all xs)"

definition parseIPv4 :: "string \<Rightarrow> nat list option" where
  "parseIPv4 s = (let fs = Split CHR ''.'' s in if length fs = 4 then opt_all (map octet fs) else None)"

definition hex_val :: "char \<Rightarrow> nat option" where
  "hex_val c = (let n = (of_char c :: nat) in
     if 48 \<le> n \<and> n \<le> 57 then Some (n - 48)
     else if 97 \<le> n \<and> n \<le> 102 then Some (n - 87)
     else if 65 \<le> n \<and> n \<le> 70 then Some (n - 55) else None)"

definition hex_group :: "string \<Rightarrow> nat option" where
  "hex_group s = (if s = [] \<or> length s > 4 then None
     else map_option (foldl (\<lambda>a d. 16 * a + d) 0) (opt_all (map hex_val s)))"

text \<open>Groups of a colon-separated part; the last one may be a dotted quad when the part ends the address.\<close>

fun ip_groups :: "bool \<Rightarrow> string list \<Rightarrow> nat list option" where
  "ip_groups v4 [] = Some []"
| "ip_groups v4 [g] = (case (if v4 then parseIPv4 g else None) of
     Some [a, b, c, d] \<Rightarrow> Some [256 * a + b, 256 * c + d]
   | _ \<Rightarrow> map_option (\<lambda>n. [n]) (hex_group g))"
| "ip_groups v4 (g # h # gs) = (case (hex_group g, ip_groups v4 (h # gs)) of
     (Some n, Some ns) \<Rightarrow> Some (n # ns) | _ \<Rightarrow> None)"

fun split_ellipsis :: "string \<Rightarrow> string \<Rightarrow> (string \<times> string) option" where
  "split_ellipsis acc [] = None"
| "split_ellipsis acc [c] = None"
| "split_ellipsis acc (c # d # s) =
     (if c = CHR '':'' \<and> d = CHR '':'' then Some (rev acc, s) else split_ellipsis (c # acc) (d # s))"

definition part_groups :: "bool \<Rightarrow> string \<Rightarrow> nat list option" where
  "part_groups v4 s = (if s = [] then Some [] else ip_groups v4 (Split CHR '':'' s))"

definition parseIPv6 :: "string \<Rightarrow> nat list option" where
  "parseIPv6 s = (case split_ellipsis [] s of
      None \<Rightarrow> (case part_groups True s of Some gs \<Rightarrow> if length gs = 8 then Some gs else None | None \<Rightarrow> None)
    | Some (l, r) \<Rightarrow> (case (part_groups False l, part_groups True r) of
         (Some ls, Some rs) \<Rightarrow> if length ls + length rs \<le> 7
            then Some (ls @ replicate (8 - length ls - length rs) 0 @ rs) else None
       | _ \<Rightarrow> None))"

definition group_bytes :: "nat list \<Rightarrow> ip" where
  "group_bytes gs = concat (map (\<lambda>g. [g div 256, g mod 256]) gs)"

text \<open>\<open>net.ParseIP\<close>.\<close>

definition ParseIP :: "string \<Rightarrow> ip option" where
  "ParseIP s = (if CHR '':'' \<in> set s then map_option group_bytes (parseIPv6 s)
     else map_option ((@) v4_prefix) (parseIPv4 s))"

text \<open>\<open>ip.To4()\<close>: the four bytes of an IPv4 or IPv4-mapped address.\<close>

definition To4 :: "ip \<Rightarrow> nat list option" where
  "To4 a = (if is_v4 a then Some (drop 12 a) else None)"

subsection \<open>host:port\<close>

fun last_colon :: "string \<Rightarrow> nat option" where
  "last_colon [] = None"
| "last_colon (c # s) = (case last_colon s of Some i \<Rightarrow> Some (Suc i)
     | None \<Rightarrow> if c = CHR '':'' then Some 0 else None)"

fun index_of :: "char \<Rightarrow> string \<Rightarrow> nat option" where
  "index_of c [] = None"
| "index_of c (d # s) = (if c = d then Some 0 else map_option Suc (index_of c s))"

text \<open>\<open>net.SplitHostPort\<close>.\<close>

definition SplitHostPort :: "string \<Rightarrow> (string \<times> string) option" where
  "SplitHostPort s = (case last_colon s of
      None \<Rightarrow> None
    | Some i \<Rightarrow>
        if hd s = CHR ''['' then
          (case index_of CHR '']'' s of
             None \<Rightarrow> None
           | Some e \<Rightarrow>
               if Suc e \<noteq> i then None
               else let host = drop 1 (take e s); port = drop (Suc i) s in
                 if CHR ''['' \<in> set (drop 1 s) \<or> CHR '']'' \<in> set (drop (Suc e) s) then None else Some (host, port))
        else let host = take i s; port = drop (Suc i) s in
          if CHR '':'' \<in> set host \<or> CHR ''['' \<in> set s \<or> CHR '']'' \<in> set s then None else Some (host, port))"

subsection \<open>Networks\<close>

record IPNet =
  net_ip :: ip
  net_mask :: ip

text \<open>\<open>net.CIDRMask(ones, 8 * n)\<close>.\<close>

definition CIDRMask :: "nat \<Rightarrow> nat \<Rightarrow> ip" where
  "CIDRMask ones n = map (\<lambda>i. if ones \<ge> 8 * i + 8 then 255 else if ones \<le> 8 * i then 0
     else 256 - 2 ^ (8 - (ones - 8 * i))) [0..<n]"

definition masked_eq :: "ip \<Rightarrow> ip \<Rightarrow> ip \<Rightarrow> bool" where
  "masked_eq a b m \<longleftrightarrow> length a = length b \<and>
     list_all (\<lambda>(x, y, k). (x AND k) = (y AND k)) (zip a (zip b m))"

text \<open>\<open>IPNet.Contains\<close>: both sides in their shortest form, of equal length, and equal under the mask.\<close>

definition short_form :: "ip \<Rightarrow> ip" where
  "short_form a = (case To4 a of Some x \<Rightarrow> x | None \<Rightarrow> a)"

definition net_Contains :: "IPNet \<Rightarrow> ip \<Rightarrow> bool" where
  "net_Contains n a \<longleftrightarrow> masked_eq (net_ip n) (short_form a) (net_mask n)"

definition v4net :: "nat \<Rightarrow> nat \<Rightarrow> nat \<Rightarrow> nat \<Rightarrow> nat \<Rightarrow> IPNet" where
  "v4net a b c d ones = \<lparr>net_ip = [a, b, c, d], net_mask = CIDRMask ones 4\<rparr>"

definition v6net :: "nat list \<Rightarrow> nat \<Rightarrow> IPNet" where
  "v6net gs ones = \<lparr>net_ip = group_bytes gs, net_mask = CIDRMask ones 16\<rparr>"

definition blockedCIDRs :: "IPNet list" where
  "blockedCIDRs = [v4net 10 0 0 0 8, v4net 172 16 0 0 12, v4net 192 168 0 0 16, v4net 127 0 0 0 8,
     v6net [0, 0, 0, 0, 0, 0, 0, 1] 128,
     v4net 169 254 0 0 16,
     v6net [0xFE80, 0, 0, 0, 0, 0, 0, 0] 10,
     v6net [0xFD00, 0, 0, 0, 0, 0, 0, 0] 8,
     v4net 0 0 0 0 8, v4net 100 64 0 0 10]"

fun isBlockedIP_in :: "IPNet list \<Rightarrow> ip \<Rightarrow> bool" where
  "isBlockedIP_in [] a = False"
| "isBlockedIP_in (n # ns) a = (if net_Contains n a then True else isBlockedIP_in ns a)"

definition isBlockedIP :: "ip \<Rightarrow> bool" where
  "isBlockedIP a = isBlockedIP_in blockedCIDRs a"

subsection \<open>The guarded dialer\<close>

datatype dial_result = DialErr string | Dial string string

text \<open>The loop over the resolved addresses, and the DialContext of NewSafeHTTPClient; the resolver is an argument.\<close>

fun dial_loop :: "string \<Rightarrow> string list \<Rightarrow> dial_result" where
  "dial_loop port [] = DialErr ''SSRF guard: no allowed IP''"
| "dial_loop port (rawIP # ips) = (case ParseIP rawIP of
      None \<Rightarrow> dial_loop port ips
    | Some a \<Rightarrow> if isBlockedIP a then DialErr ''SSRF guard: resolves to blocked IP'' else Dial rawIP port)"

definition DialContext :: "(string \<Rightarrow> string list option) \<Rightarrow> string \<Rightarrow> dial_result" where
  "DialContext LookupHost addr = (case SplitHostPort addr of
      None \<Rightarrow> DialErr ''address''
    | Some (host, port) \<Rightarrow> (case LookupHost host of
        None \<Rightarrow> DialErr ''SSRF guard: cannot resolve''
      | Some ips \<Rightarrow> dial_loop port ips))"

lemma isBlockedIP_in_iff: "isBlockedIP_in ns a \<longleftrightarrow> (\<exists>n\<in>set ns. net_Contains n a)"
  by (induction ns) auto

lemma dial_loop_target: "dial_loop port ips = Dial ip p \<Longrightarrow>
   ip \<in> set ips \<and> p = port \<and> (\<exists>a. ParseIP ip = Some a \<and> \<not> isBlockedIP a)"
  by (induction ips) (auto split: option.splits if_splits)

subsection \<open>What the guard blocks\<close>

lemmas ip_parse_defs = ParseIP_def parseIPv4_def parseIPv6_def octet_def is_digit_def part_groups_def hex_group_def
  hex_val_def v4_prefix_def group_bytes_def Let_def

lemma and_high_bits: "a < 256 \<Longrightarrow> n \<le> 8 \<Longrightarrow> a AND (256 - 2 ^ n) = 2 ^ n * (a div 2 ^ n)" for a n :: nat
proof -
  assume a: "a < 256" "n \<le> 8"
  have "(256 - 2 ^ n :: nat) = 2 ^ n * (2 ^ (8 - n) - 1)"
    using a(2) by (simp add: diff_mult_distrib2 flip: power_add)
  then have m: "(256 - 2 ^ n :: nat) = push_bit n (mask (8 - n))"
    by (simp add: push_bit_eq_mult mask_eq_exp_minus_1 mult.commute)
  have "a AND push_bit n (mask (8 - n)) = push_bit n (drop_bit n a AND mask (8 - n))"
    by (rule bit_eqI) (auto simp: bit_and_iff bit_push_bit_iff bit_drop_bit_eq)
  also have "\<dots> = push_bit n (take_bit (8 - n) (drop_bit n a))" by (simp add: take_bit_eq_mask)
  also have "\<dots> = push_bit n (drop_bit n a)"
  proof -
    have "drop_bit n a < 2 ^ (8 - n)"
      using a by (simp add: drop_bit_eq_div less_mult_imp_div_less flip: power_add)
    then show ?thesis by (simp only: take_bit_nat_eq_self)
  qed
  finally show ?thesis by (simp add: m push_bit_eq_mult drop_bit_eq_div)
qed

lemma and_byte_masks:
  assumes "a < (256 :: nat)"
  shows "a AND 255 = a" "a AND 240 = 16 * (a div 16)" "a AND 192 = 64 * (a div 64)"
  using and_high_bits [OF assms, of 0] and_high_bits [OF assms, of 4] and_high_bits [OF assms, of 6] by simp_all

definition private_v4 :: "nat \<Rightarrow> nat \<Rightarrow> bool" where
  "private_v4 a b \<longleftrightarrow> a = 0 \<or> a = 10 \<or> a = 127 \<or> a = 172 \<and> 16 \<le> b \<and> b < 32 \<or> a = 192 \<and> b = 168
     \<or> a = 169 \<and> b = 254 \<or> a = 100 \<and> 64 \<le> b \<and> b < 128"

lemma short_form_v4 [simp]: "short_form (v4_prefix @ [a, b, c, d]) = [a, b, c, d]"
  by (simp add: short_form_def To4_def is_v4_def v4_prefix_def)

lemma masks_v4: "CIDRMask 8 4 = [255, 0, 0, 0]" "CIDRMask 16 4 = [255, 255, 0, 0]"
  "CIDRMask 12 4 = [255, 240, 0, 0]" "CIDRMask 10 4 = [255, 192, 0, 0]"
  by (simp_all add: CIDRMask_def upt_conv_Cons)

lemma masks_v6: "CIDRMask 128 16 = [255, 255, 255, 255, 255, 255, 255, 255, 255, 255, 255, 255, 255, 255, 255, 255]"
  "CIDRMask 10 16 = [255, 192, 0, 0, 0, 0, 0, 0, 0, 0, 0, 0, 0, 0, 0, 0]"
  "CIDRMask 8 16 = [255, 0, 0, 0, 0, 0, 0, 0, 0, 0, 0, 0, 0, 0, 0, 0]"
  by (simp_all add: CIDRMask_def upt_conv_Cons)

lemma length_group_bytes [simp]: "length (group_bytes gs) = 2 * length gs"
  by (induction gs) (simp_all add: group_bytes_def)

lemma contains_v6 [simp]: "length gs = 8 \<Longrightarrow> \<not> net_Contains (v6net gs ones) (v4_prefix @ [a, b, c, d])"
  by (simp add: net_Contains_def v6net_def masked_eq_def)

lemma contains_v4:
  assumes "p < 256" "q < 256" "a < 256" "b < 256"
  shows "net_Contains (v4net p 0 0 0 8) (v4_prefix @ [a, b, c, d]) \<longleftrightarrow> p = a"
    "net_Contains (v4net p q 0 0 16) (v4_prefix @ [a, b, c, d]) \<longleftrightarrow> p = a \<and> q = b"
    "net_Contains (v4net p q 0 0 12) (v4_prefix @ [a, b, c, d]) \<longleftrightarrow> p = a \<and> q div 16 = b div 16"
    "net_Contains (v4net p q 0 0 10) (v4_prefix @ [a, b, c, d]) \<longleftrightarrow> p = a \<and> q div 64 = b div 64"
  using assms by (simp_all add: net_Contains_def v4net_def masked_eq_def masks_v4 and_byte_masks)

lemma blocked_v4:
  assumes "a < 256" "b < 256"
  shows "isBlockedIP (v4_prefix @ [a, b, c, d]) \<longleftrightarrow> private_v4 a b"
proof -
  have "16 div 16 = b div 16 \<longleftrightarrow> 16 \<le> b \<and> b < 32" "64 div 64 = b div 64 \<longleftrightarrow> 64 \<le> b \<and> b < 128" by auto
  then show ?thesis
    using assms unfolding isBlockedIP_def blockedCIDRs_def private_v4_def
    by (simp only: isBlockedIP_in.simps contains_v4 contains_v6) auto
qed

subsection \<open>Properties\<close>


lemma parse_public: "ParseIP ''8.8.8.8'' = Some (v4_prefix @ [8, 8, 8, 8])"
  by (simp add: ip_parse_defs)


lemma masked_eq_Cons: "masked_eq (x # a) (y # b) (k # m) \<longleftrightarrow> (x AND k) = (y AND k) \<and> masked_eq a b m"
  by (auto simp: masked_eq_def)

definition unspecified6 :: ip where
  "unspecified6 = [0, 0, 0, 0, 0, 0, 0, 0, 0, 0, 0, 0, 0, 0, 0, 0]"

lemma short_unspecified: "short_form unspecified6 = unspecified6"
  by (simp add: unspecified6_def short_form_def To4_def is_v4_def v4_prefix_def)

lemma blocked_groups:
  "group_bytes [0, 0, 0, 0, 0, 0, 0, 1] = [0, 0, 0, 0, 0, 0, 0, 0, 0, 0, 0, 0, 0, 0, 0, 1]"
  "group_bytes [0xFE80, 0, 0, 0, 0, 0, 0, 0] = [254, 128, 0, 0, 0, 0, 0, 0, 0, 0, 0, 0, 0, 0, 0, 0]"
  "group_bytes [0xFD00, 0, 0, 0, 0, 0, 0, 0] = [253, 0, 0, 0, 0, 0, 0, 0, 0, 0, 0, 0, 0, 0, 0, 0]"
  by (simp_all add: group_bytes_def)

lemma unspecified_outside:
  "\<not> net_Contains (v4net a b c d ones) unspecified6"
  "\<not> net_Contains (v6net [0, 0, 0, 0, 0, 0, 0, 1] 128) unspecified6"
  "\<not> net_Contains (v6net [0xFE80, 0, 0, 0, 0, 0, 0, 0] 10) unspecified6"
  "\<not> net_Contains (v6net [0xFD00, 0, 0, 0, 0, 0, 0, 0] 8) unspecified6"
  unfolding net_Contains_def v4net_def v6net_def IPNet.simps short_unspecified blocked_groups masks_v6
  unfolding unspecified6_def masked_eq_Cons by (simp_all add: masked_eq_def)

text \<open>
  The guard does not block the IPv6 unspecified address: a host that
  resolves to :: is dialled, although 0.0.0.0 is blocked as unspecified.
\<close>

theorem ssrf_dials_ipv6_unspecified:
  "DialContext (\<lambda>_. Some [''::'']) ''hooks.example:80'' = Dial ''::'' ''80''"
proof -
  have s: "SplitHostPort ''hooks.example:80'' = Some (''hooks.example'', ''80'')" by code_simp
  have "replicate 8 (0::nat) = [0, 0, 0, 0, 0, 0, 0, 0]" by (simp add: numeral_eq_Suc)
  then have "group_bytes (replicate 8 0) = unspecified6" by (simp add: group_bytes_def unspecified6_def)
  then have "ParseIP ''::'' = Some unspecified6"
    by (simp add: ParseIP_def parseIPv6_def part_groups_def)
  moreover have "\<not> isBlockedIP unspecified6"
    unfolding isBlockedIP_def blockedCIDRs_def by (simp only: isBlockedIP_in.simps unspecified_outside if_False not_False_eq_True)
  ultimately show ?thesis unfolding DialContext_def s by simp
qed

end
