(* ===== verification/IAM_Auth.thy ===== *)
theory IAM_Auth
  imports IAM_Store Crypto Jwt Net_IP "HOL-Library.Signed_Division"
begin

text \<open>
  Authentication in the IAM service: services/iam/pkg/service/auth.go (login,
  token issuance and rotation, logout, authorization codes, risk score,
  lockout), the TOTP and backup-code part of mfa.go, and the outcome of a job
  of auth_pool.go.  A request threads the database and the Redis keyspace; the
  faults, draws and clocks it meets are fields of \<open>auth_io\<close>.
\<close>

subsection \<open>Redis\<close>

datatype redis_val = RText string | RJson json

record iam_redis =
  rk :: "string \<Rightarrow> (redis_val \<times> time) option"
  deadlines :: "(string \<times> int) list"

text \<open>A command is delivered, is not run, or runs and its reply is lost.\<close>

datatype redis_fault = Delivered | NotRun | ReplyLost

definition redis_do :: "redis_fault \<Rightarrow> (iam_redis \<Rightarrow> 'a \<times> iam_redis) \<Rightarrow> iam_redis \<Rightarrow> 'a option \<times> iam_redis" where
  "redis_do f cmd r = (case f of
      Delivered \<Rightarrow> (Some (fst (cmd r)), snd (cmd r))
    | NotRun \<Rightarrow> (None, r)
    | ReplyLost \<Rightarrow> (None, snd (cmd r)))"

text \<open>Expirations are sent in milliseconds, at least one.\<close>

definition redis_ttl :: "time \<Rightarrow> time" where
  "redis_ttl d = (if d < Millisecond then Millisecond else d div Millisecond * Millisecond)"

definition rget :: "time \<Rightarrow> string \<Rightarrow> iam_redis \<Rightarrow> redis_val option" where
  "rget now k r = (case rk r k of None \<Rightarrow> None | Some (v, e) \<Rightarrow> if now < e then Some v else None)"

definition rset :: "time \<Rightarrow> string \<Rightarrow> redis_val \<Rightarrow> time \<Rightarrow> iam_redis \<Rightarrow> iam_redis" where
  "rset now k v d r = r\<lparr>rk := (rk r)(k := Some (v, now + redis_ttl d))\<rparr>"

definition rgetdel :: "time \<Rightarrow> string \<Rightarrow> iam_redis \<Rightarrow> redis_val option \<times> iam_redis" where
  "rgetdel now k r = (rget now k r, r\<lparr>rk := (rk r)(k := None)\<rparr>)"

definition rsetnx :: "time \<Rightarrow> string \<Rightarrow> redis_val \<Rightarrow> time \<Rightarrow> iam_redis \<Rightarrow> bool \<times> iam_redis" where
  "rsetnx now k v d r = (if rget now k r = None then (True, rset now k v d r) else (False, r))"

subsection \<open>State, environment and errors\<close>

record iam_st =
  st_db :: iam_db
  st_rdb :: "iam_redis option"

record auth_io =
  a_env :: iam_env
  a_ctx :: go_ctx
  a_clock :: time
  a_uuid :: "string \<Rightarrow> string"
  a_rand :: "string \<Rightarrow> string"
  a_bcrypt :: "string \<Rightarrow> string \<Rightarrow> bool"
  a_job_queued :: bool
  a_job_done :: bool
  a_sha256 :: "string \<Rightarrow> string"
  a_hmac :: "string \<Rightarrow> string \<Rightarrow> string"
  a_totp :: "string \<Rightarrow> string \<Rightarrow> bool"
  a_gcm :: gcm
  a_aes :: "EncryptionKey list"
  a_jwt :: jwt_lib
  a_keyring :: "JWTKey list"
  a_redis :: "string \<Rightarrow> redis_fault"
  a_getenv :: "string \<Rightarrow> string"

datatype auth_error = ErrSessionRevokedRisk | ErrSessionCompromised | ErrInvalidCredentials | ErrAccountSetup
  | AuthErr string | AuthRepo repo_error | NilRedis

record TokenResponse =
  AccessToken :: string
  tr_RefreshToken :: string
  ExpiresIn :: int
  TokenType :: string

record IssueTokensRequest =
  it_OrgID :: string
  it_UserID :: string
  it_UserAgent :: string
  it_IPAddress :: string
  it_FamilyID :: string

text \<open>AuthWorkerPool.Compare: a cancelled context wins before the job is queued or before it is done.\<close>

definition Compare :: "auth_io \<Rightarrow> string \<Rightarrow> string \<Rightarrow> (string, unit) result" where
  "Compare io password hash =
     (if \<not> a_job_queued io \<or> \<not> a_job_done io then Err ''context canceled''
      else if a_bcrypt io password hash then Ok () else Err ''mismatched hash and password'')"

subsection \<open>Risk score and lockout\<close>

definition riskScoreUAFamilyChange :: int where "riskScoreUAFamilyChange = 60"
definition riskScoreIPSubnetChange :: int where "riskScoreIPSubnetChange = 40"
definition riskScoreIPHostChange :: int where "riskScoreIPHostChange = 15"
definition riskScoreUAVersionChange :: int where "riskScoreUAVersionChange = 20"
definition riskThresholdRevoke :: int where "riskThresholdRevoke = 80"

lemmas risk_consts = riskScoreUAFamilyChange_def riskScoreIPSubnetChange_def riskScoreIPHostChange_def
  riskScoreUAVersionChange_def riskThresholdRevoke_def

definition parseUserAgent :: "string \<Rightarrow> string \<times> string" where
  "parseUserAgent ua = (case Split (CHR ''/'') ua of p0 # p1 # _ \<Rightarrow> (p0, p1) | _ \<Rightarrow> (ua, ''0.0''))"

definition ipToSubnet16 :: "string \<Rightarrow> string" where
  "ipToSubnet16 ipStr =
     (case ParseIP ipStr of
        None \<Rightarrow> ipStr
      | Some a \<Rightarrow> (case To4 a of
          None \<Rightarrow> ipStr
        | Some v4 \<Rightarrow> nat_str (v4 ! 0) @ ''.'' @ nat_str (v4 ! 1)))"

definition calculateRiskScore :: "string \<Rightarrow> string \<Rightarrow> string \<Rightarrow> string \<Rightarrow> int" where
  "calculateRiskScore storedUA currentUA storedIP currentIP =
     (let (storedFamily, storedVersion) = parseUserAgent storedUA;
          (currentFamily, currentVersion) = parseUserAgent currentUA;
          ua = (if storedFamily \<noteq> currentFamily then riskScoreUAFamilyChange
                else if storedVersion \<noteq> currentVersion then riskScoreUAVersionChange else 0);
          addr = (if ipToSubnet16 storedIP \<noteq> ipToSubnet16 currentIP then riskScoreIPSubnetChange
                  else if storedIP \<noteq> currentIP then riskScoreIPHostChange else 0)
      in ua + addr)"

text \<open>lockoutDuration in the 64-bit arithmetic of \<open>time.Duration\<close>.\<close>

definition lockoutDuration :: "int \<Rightarrow> 64 word" where
  "lockoutDuration failCount =
     (let steps0 = (failCount sdiv 10) - 1;
          steps = (if steps0 < 0 then 0 else steps0);
          dur = word_of_int (15 * Minute) * push_bit (nat steps) 1
      in if sint dur > 24 * Hour then word_of_int (24 * Hour) else dur)"

subsection \<open>Token issuance\<close>

definition SignToken :: "auth_io \<Rightarrow> string \<Rightarrow> string \<Rightarrow> string \<Rightarrow> time \<Rightarrow> (token_error, string) result" where
  "SignToken io orgID userID jti ttl =
     Sign (a_jwt io) (NewStandardClaims (a_clock io) orgID userID jti ttl) (a_keyring io)"

definition new_refresh_token :: "auth_io \<Rightarrow> string" where
  "new_refresh_token io = GenerateRandomString (a_rand io ''refresh'')"

definition IssueTokens :: "auth_io \<Rightarrow> IssueTokensRequest \<Rightarrow> iam_st \<Rightarrow> (auth_error, TokenResponse) result \<times> iam_st" where
  "IssueTokens io req st =
     (let addr = (case SplitHostPort (it_IPAddress req) of Some (host, _) \<Rightarrow> host | None \<Rightarrow> it_IPAddress req);
          jti = a_uuid io ''jti'';
          ttl = Hour
      in case SignToken io (it_OrgID req) (it_UserID req) jti ttl of
        Inl _ \<Rightarrow> (Err (AuthErr ''sign token''), st)
      | Inr accessToken \<Rightarrow>
          (case CreateSession (a_env io) (st_db st) (it_OrgID req) (it_UserID req) jti (it_UserAgent req) addr (a_clock io + ttl) of
            Inl _ \<Rightarrow> (Err (AuthErr ''failed to create session''), st)
          | Inr db1 \<Rightarrow>
              (let refreshToken = new_refresh_token io;
                   rtHash = HashSHA256 (a_sha256 io) refreshToken
               in case CreateRefreshToken (a_env io) db1 (a_uuid io ''refresh_token.id'') (it_OrgID req) (it_UserID req)
                         rtHash (it_FamilyID req) (a_clock io + 7 * 24 * Hour) of
                 Inl _ \<Rightarrow> (Err (AuthErr ''failed to create refresh token''), st\<lparr>st_db := db1\<rparr>)
               | Inr db2 \<Rightarrow> (Ok \<lparr>AccessToken = accessToken, tr_RefreshToken = refreshToken, ExpiresIn = 3600,
                   TokenType = ''Bearer''\<rparr>, st\<lparr>st_db := db2\<rparr>))))"

subsection \<open>Login\<close>

definition dummyHash :: string where
  "dummyHash = ''$2a$12$R9h/cIPz0gi.URQHeNH5OuLzBeGPWbS6vS6vS6vS6vS6vS6vS6vS6''"

definition count_failure :: "auth_io \<Rightarrow> string \<Rightarrow> iam_st \<Rightarrow> iam_st" where
  "count_failure io email st =
     (case IncrementFailedLogin (a_env io) (st_db st) email of (res, db1) \<Rightarrow>
       (let count = (case res of Inl _ \<Rightarrow> 0 | Inr n \<Rightarrow> n) in
        if count \<ge> 10
        then (case LockAccount (a_env io) (a_ctx io) db1 email (a_clock io + sint (lockoutDuration count)) of
                Inl _ \<Rightarrow> st\<lparr>st_db := db1\<rparr> | Inr db2 \<Rightarrow> st\<lparr>st_db := db2\<rparr>)
        else st\<lparr>st_db := db1\<rparr>))"

definition locked :: "time \<Rightarrow> User \<Rightarrow> bool" where
  "locked now u \<longleftrightarrow> (case u_LockedUntil u of None \<Rightarrow> False | Some t \<Rightarrow> now < t)"

text \<open>The MFA branch: a challenge token that names the user for five minutes; the outcome of the write is ignored.\<close>

definition issue_challenge :: "auth_io \<Rightarrow> User \<Rightarrow> iam_st \<Rightarrow> (auth_error, User \<times> TokenResponse) result \<times> iam_st" where
  "issue_challenge io user st =
     (case st_rdb st of
        None \<Rightarrow> (Err NilRedis, st)
      | Some r \<Rightarrow>
          (let challengeToken = a_uuid io ''challenge'';
               r' = snd (redis_do (a_redis io ''mfa_challenge'') (\<lambda>r. ((), rset (a_clock io)
                 (''mfa_challenge:'' @ challengeToken) (RText (u_ID user)) (5 * Minute) r)) r)
           in (Ok (zero_user\<lparr>u_ID := u_ID user, u_OrgID := u_OrgID user\<rparr>,
                 \<lparr>AccessToken = challengeToken, tr_RefreshToken = [], ExpiresIn = 0, TokenType = []\<rparr>),
               st\<lparr>st_rdb := Some r'\<rparr>)))"

definition issue_for :: "auth_io \<Rightarrow> User \<Rightarrow> string \<Rightarrow> string \<Rightarrow> iam_st \<Rightarrow> (auth_error, User \<times> TokenResponse) result \<times> iam_st" where
  "issue_for io user userAgent addr st =
     (case IssueTokens io \<lparr>it_OrgID = u_OrgID user, it_UserID = u_ID user, it_UserAgent = userAgent,
         it_IPAddress = addr, it_FamilyID = a_uuid io ''family''\<rparr> st of
        (Inl e, st') \<Rightarrow> (Err e, st')
      | (Inr res, st') \<Rightarrow> (Ok (user, res), st'))"

text \<open>What follows a matching password.\<close>

definition login_accept :: "auth_io \<Rightarrow> User \<Rightarrow> string \<Rightarrow> string \<Rightarrow> string \<Rightarrow> iam_st \<Rightarrow>
    (auth_error, User \<times> TokenResponse) result \<times> iam_st" where
  "login_accept io user email userAgent addr st =
     (let db1 = (case ResetFailedLogin (a_env io) (a_ctx io) (st_db st) email of Inl _ \<Rightarrow> st_db st | Inr d \<Rightarrow> d);
          st1 = st\<lparr>st_db := db1\<rparr>;
          mfaConfigs = (case ListMFAConfigs (a_env io) (a_ctx io) db1 (u_ID user) of Inl _ \<Rightarrow> [] | Inr ms \<Rightarrow> ms)
      in if mfaConfigs \<noteq> [] then issue_challenge io user st1 else issue_for io user userAgent addr st1)"

definition Login :: "auth_io \<Rightarrow> string \<Rightarrow> string \<Rightarrow> string \<Rightarrow> string \<Rightarrow> iam_st \<Rightarrow>
    (auth_error, User \<times> TokenResponse) result \<times> iam_st" where
  "Login io email password userAgent addr st =
     (let userRes = GetUserByEmail (a_env io) (st_db st) email;
          hashToCompare = (case userRes of Inr u \<Rightarrow> u_PasswordHash u | Inl _ \<Rightarrow> dummyHash);
          bcryptErr = Compare io password hashToCompare
      in case userRes of
        Inl _ \<Rightarrow> (Err ErrInvalidCredentials, st)
      | Inr user \<Rightarrow>
          if u_Status user = ''initializing'' then (Err ErrAccountSetup, st)
          else if locked (a_clock io) user then (Err ErrInvalidCredentials, st)
          else if \<not> is_ok bcryptErr then (Err ErrInvalidCredentials, count_failure io email st)
          else login_accept io user email userAgent addr st)"

subsection \<open>Refresh, logout, authorization codes\<close>

definition RefreshTokenS :: "auth_io \<Rightarrow> string \<Rightarrow> string \<Rightarrow> string \<Rightarrow> iam_st \<Rightarrow>
    (auth_error, TokenResponse) result \<times> iam_st" where
  "RefreshTokenS io refreshToken userAgent addr st =
     (let rtHash = HashSHA256 (a_sha256 io) refreshToken in
      case ClaimRefreshToken (a_env io) (a_ctx io) (st_db st) rtHash of
        Inl _ \<Rightarrow> (Err ErrSessionCompromised,
          (case RevokeRefreshTokenFamilyByHash (a_env io) (a_ctx io) (st_db st) rtHash of
             Inl _ \<Rightarrow> st | Inr db \<Rightarrow> st\<lparr>st_db := db\<rparr>))
      | Inr (rt, db1) \<Rightarrow>
          (let st1 = st\<lparr>st_db := db1\<rparr>;
               risky = (case GetSessionByUserID (a_env io) (a_ctx io) db1 (rt_UserID rt) of
                   Inl _ \<Rightarrow> False
                 | Inr session \<Rightarrow> calculateRiskScore (UserAgent session) userAgent (IPAddress session) addr \<ge> riskThresholdRevoke)
           in if risky
              then (Err ErrSessionRevokedRisk,
                (case RevokeRefreshTokenFamily (a_env io) (a_ctx io) db1 (rt_FamilyID rt) of
                   Inl _ \<Rightarrow> st1 | Inr db2 \<Rightarrow> st1\<lparr>st_db := db2\<rparr>))
              else IssueTokens io \<lparr>it_OrgID = rt_OrgID rt, it_UserID = rt_UserID rt, it_UserAgent = userAgent,
                it_IPAddress = addr, it_FamilyID = rt_FamilyID rt\<rparr> st1))"

definition Logout :: "auth_io \<Rightarrow> string \<Rightarrow> time \<Rightarrow> iam_st \<Rightarrow> (auth_error, unit) result \<times> iam_st" where
  "Logout io jti expiresAt st =
     (case st_rdb st of
        None \<Rightarrow> (Ok (), st)
      | Some r \<Rightarrow>
          (let ttl = expiresAt - a_clock io in
           if ttl \<le> 0 then (Ok (), st)
           else (case redis_do (a_redis io ''blocklist'')
                   (\<lambda>r. ((), rset (a_clock io) (''blocklist:'' @ jti) (RText ''revoked'') ttl r)) r of
              (None, r') \<Rightarrow> (Err (AuthErr ''redis''), st\<lparr>st_rdb := Some r'\<rparr>)
            | (Some _, r') \<Rightarrow> (Ok (), st\<lparr>st_rdb := Some r'\<rparr>))))"

definition StoreAuthCode :: "auth_io \<Rightarrow> string \<Rightarrow> string \<Rightarrow> string \<Rightarrow> string \<Rightarrow> iam_st \<Rightarrow> (auth_error, unit) result \<times> iam_st" where
  "StoreAuthCode io code orgID userID codeChallenge st =
     (case st_rdb st of
        None \<Rightarrow> (Err (AuthErr ''redis not configured''), st)
      | Some r \<Rightarrow>
          (let data = JObj [(''code_challenge'', JStr codeChallenge), (''org_id'', JStr orgID), (''user_id'', JStr userID)] in
           case redis_do (a_redis io ''auth_code'')
                  (\<lambda>r. ((), rset (a_clock io) (''auth_code:'' @ code) (RJson data) (10 * Minute) r)) r of
             (None, r') \<Rightarrow> (Err (AuthErr ''redis''), st\<lparr>st_rdb := Some r'\<rparr>)
           | (Some _, r') \<Rightarrow> (Ok (), st\<lparr>st_rdb := Some r'\<rparr>)))"

text \<open>A text that is not a JSON object of strings is split at colons.\<close>

fun dec_string_map :: "(string \<times> json) list \<Rightarrow> bool" where
  "dec_string_map [] = True"
| "dec_string_map ((_, JStr _) # ms) = dec_string_map ms"
| "dec_string_map ((_, JNull) # ms) = dec_string_map ms"
| "dec_string_map _ = False"

definition code_fallback :: "string \<Rightarrow> (auth_error, string \<times> string \<times> string) result" where
  "code_fallback val = (case Split (CHR '':'') val of
      p0 # p1 # _ \<Rightarrow> Ok (p0, p1, []) | _ \<Rightarrow> Err (AuthErr ''invalid auth code data''))"

definition decode_code :: "redis_val \<Rightarrow> (auth_error, string \<times> string \<times> string) result" where
  "decode_code v = (case v of
      RText s \<Rightarrow> code_fallback s
    | RJson JNull \<Rightarrow> Ok ([], [], [])
    | RJson (JObj ms) \<Rightarrow> if dec_string_map ms
        then Ok (json_str ms ''org_id'', json_str ms ''user_id'', json_str ms ''code_challenge'')
        else code_fallback (json_marshal (JObj ms))
    | RJson j \<Rightarrow> code_fallback (json_marshal j))"

definition GetAuthCode :: "auth_io \<Rightarrow> string \<Rightarrow> iam_st \<Rightarrow> (auth_error, string \<times> string \<times> string) result \<times> iam_st" where
  "GetAuthCode io code st =
     (case st_rdb st of
        None \<Rightarrow> (Err (AuthErr ''redis not configured''), st)
      | Some r \<Rightarrow>
          (case redis_do (a_redis io ''auth_code'') (rgetdel (a_clock io) (''auth_code:'' @ code)) r of
             (Some (Some v), r') \<Rightarrow> (decode_code v, st\<lparr>st_rdb := Some r'\<rparr>)
           | (_, r') \<Rightarrow> (Err (AuthErr ''redis''), st\<lparr>st_rdb := Some r'\<rparr>)))"

subsection \<open>TOTP and backup codes\<close>

definition backup_secret :: "auth_io \<Rightarrow> string" where
  "backup_secret io = (let secret = a_getenv io ''IAM_MFA_BACKUP_CODE_HMAC_SECRET'' in
     if secret = [] then ''dev-backup-code-secret-fixed-value-for-dev'' else secret)"

definition backup_hash :: "auth_io \<Rightarrow> string \<Rightarrow> string" where
  "backup_hash io code = hex_encode (a_hmac io (backup_secret io) code)"

definition backup_codes :: "auth_io \<Rightarrow> string list" where
  "backup_codes io = map (\<lambda>i. GenerateRandomString (a_rand io (''backup:'' @ nat_str i))) [0, 1, 2, 3, 4, 5, 6, 7]"

definition GenerateBackupCodes :: "auth_io \<Rightarrow> string \<Rightarrow> string \<Rightarrow> iam_st \<Rightarrow> (auth_error, string list) result \<times> iam_st" where
  "GenerateBackupCodes io orgID userID st =
     (let codes = backup_codes io in
      case StoreBackupCodes (a_env io) (a_ctx io) (st_db st) userID (map (backup_hash io) codes) of
        Inl e \<Rightarrow> (Err (AuthRepo e), st)
      | Inr db \<Rightarrow> (Ok codes, st\<lparr>st_db := db\<rparr>))"

definition VerifyBackupCode :: "auth_io \<Rightarrow> string \<Rightarrow> string \<Rightarrow> iam_st \<Rightarrow> (auth_error, bool) result \<times> iam_st" where
  "VerifyBackupCode io userID code st =
     (case ConsumeBackupCode (a_env io) (a_ctx io) (st_db st) userID (backup_hash io code) of
        Inl e \<Rightarrow> (Err (AuthRepo e), st)
      | Inr (found, db) \<Rightarrow> (Ok found, st\<lparr>st_db := db\<rparr>))"

definition EnableTOTP :: "auth_io \<Rightarrow> string \<Rightarrow> string \<Rightarrow> string \<Rightarrow> string \<Rightarrow> iam_st \<Rightarrow> (auth_error, string list) result \<times> iam_st" where
  "EnableTOTP io orgID userID code secret st =
     (if \<not> a_totp io code secret then (Err (AuthErr ''invalid totp code''), st)
      else (case Encrypt (a_gcm io) (Some (a_rand io ''nonce'')) secret (a_aes io) of
        Inl _ \<Rightarrow> (Err (AuthErr ''encrypt secret''), st)
      | Inr encrypted \<Rightarrow> (case UpsertMFAConfig (a_env io) (st_db st) orgID userID ''totp'' encrypted of
          Inl e \<Rightarrow> (Err (AuthRepo e), st)
        | Inr db1 \<Rightarrow> (case EnableUserMFA (a_env io) (a_ctx io) db1 userID True ''totp'' of
            Inl e \<Rightarrow> (Err (AuthRepo e), st\<lparr>st_db := db1\<rparr>)
          | Inr db2 \<Rightarrow> GenerateBackupCodes io orgID userID (st\<lparr>st_db := db2\<rparr>)))))"

text \<open>VerifyTOTP first claims the pair of user and code for 90 seconds, then checks the code.\<close>

definition VerifyTOTP :: "auth_io \<Rightarrow> string \<Rightarrow> string \<Rightarrow> iam_st \<Rightarrow> (auth_error, bool) result \<times> iam_st" where
  "VerifyTOTP io userID code st =
     (case st_rdb st of
        None \<Rightarrow> (Err NilRedis, st)
      | Some r \<Rightarrow>
          (case redis_do (a_redis io ''totp'') (rsetnx (a_clock io) (''totp:used:'' @ userID @ '':'' @ code) (RText ''1'') (90 * Second)) r of
             (None, r') \<Rightarrow> (Err (AuthErr ''redis''), st\<lparr>st_rdb := Some r'\<rparr>)
           | (Some claimed, r') \<Rightarrow>
               (let st1 = st\<lparr>st_rdb := Some r'\<rparr> in
                if \<not> claimed then (Err (AuthErr ''totp code already used''), st1)
                else (case GetMFAConfig (a_env io) (a_ctx io) (st_db st1) userID ''totp'' of
                  Inl e \<Rightarrow> (Err (AuthRepo e), st1)
                | Inr config \<Rightarrow> (case Decrypt (a_gcm io) (SecretEncrypted config) (a_aes io) of
                    Inl _ \<Rightarrow> (Err (AuthErr ''decrypt secret''), st1)
                  | Inr secret \<Rightarrow> (Ok (a_totp io code secret), st1))))))"

text \<open>The two ways to answer a challenge; the challenge is spent before the code is checked.\<close>

definition answer_challenge :: "auth_io \<Rightarrow> (string \<Rightarrow> iam_st \<Rightarrow> (auth_error, bool) result \<times> iam_st) \<Rightarrow> string \<Rightarrow> string \<Rightarrow> string \<Rightarrow> string \<Rightarrow>
    iam_st \<Rightarrow> (auth_error, User \<times> TokenResponse) result \<times> iam_st" where
  "answer_challenge io check msg' challengeToken userAgent addr st =
     (case st_rdb st of
        None \<Rightarrow> (Err NilRedis, st)
      | Some r \<Rightarrow>
          (case redis_do (a_redis io ''mfa_challenge'') (rgetdel (a_clock io) (''mfa_challenge:'' @ challengeToken)) r of
             (Some (Some (RText userID)), r') \<Rightarrow>
               (case check userID (st\<lparr>st_rdb := Some r'\<rparr>) of
                  (Inr True, st1) \<Rightarrow>
                    (case GetUserByID (a_env io) (a_ctx io) (st_db st1) userID of
                       Inl e \<Rightarrow> (Err (AuthRepo e), st1)
                     | Inr user \<Rightarrow> issue_for io user userAgent addr st1)
                | (_, st1) \<Rightarrow> (Err (AuthErr msg'), st1))
           | (_, r') \<Rightarrow> (Err (AuthErr ''invalid or expired challenge''), st\<lparr>st_rdb := Some r'\<rparr>)))"

definition VerifyMFAAndLogin :: "auth_io \<Rightarrow> string \<Rightarrow> string \<Rightarrow> string \<Rightarrow> string \<Rightarrow> iam_st \<Rightarrow>
    (auth_error, User \<times> TokenResponse) result \<times> iam_st" where
  "VerifyMFAAndLogin io challengeToken code userAgent addr st =
     answer_challenge io (\<lambda>userID. VerifyTOTP io userID code) ''invalid mfa code'' challengeToken userAgent addr st"

definition VerifyBackupCodeAndLogin :: "auth_io \<Rightarrow> string \<Rightarrow> string \<Rightarrow> string \<Rightarrow> string \<Rightarrow> iam_st \<Rightarrow>
    (auth_error, User \<times> TokenResponse) result \<times> iam_st" where
  "VerifyBackupCodeAndLogin io challengeToken code userAgent addr st =
     answer_challenge io (\<lambda>userID. VerifyBackupCode io userID code) ''invalid backup code'' challengeToken userAgent addr st"

end
