(* ===== verification/IAM_Tokens.thy ===== *)
theory IAM_Tokens
  imports IAM_Auth
begin

text \<open>
  Properties of the authentication operations of IAM_Auth: a refresh token is
  spent once and its reuse revokes the family, the risk threshold, the lockout
  arithmetic, what a login requires, single use of authorization codes, MFA
  challenges and backup codes, and that a logged-out token is refused.
\<close>

subsection \<open>Refresh tokens are spent once\<close>

definition unique_hashes :: "RefreshToken list \<Rightarrow> bool" where
  "unique_hashes ts \<longleftrightarrow> distinct (map rt_TokenHash ts)"

definition spent :: "string \<Rightarrow> string \<Rightarrow> RefreshToken list \<Rightarrow> bool" where
  "spent h fam ts \<longleftrightarrow> (\<exists>t\<in>set ts. rt_TokenHash t = h \<and> rt_FamilyID t = fam \<and> rt_Revoked t)"

definition spent_inv :: "string \<Rightarrow> string \<Rightarrow> iam_st \<Rightarrow> bool" where
  "spent_inv h fam st \<longleftrightarrow> unique_hashes (refresh_tokens (st_db st)) \<and> spent h fam (refresh_tokens (st_db st))"

text \<open>A token table evolves by revoking rows and appending rows with new hashes.\<close>

definition tokens_grow :: "RefreshToken list \<Rightarrow> RefreshToken list \<Rightarrow> bool" where
  "tokens_grow ts ts' \<longleftrightarrow> (unique_hashes ts \<longrightarrow> unique_hashes ts') \<and>
     (\<forall>t\<in>set ts. \<exists>t'\<in>set ts'. rt_TokenHash t' = rt_TokenHash t \<and> rt_FamilyID t' = rt_FamilyID t \<and>
        (rt_Revoked t \<longrightarrow> rt_Revoked t'))"

abbreviation revoke_where :: "(RefreshToken \<Rightarrow> bool) \<Rightarrow> RefreshToken list \<Rightarrow> RefreshToken list" where
  "revoke_where P ts \<equiv> map (\<lambda>t. if P t then t\<lparr>rt_Revoked := True\<rparr> else t) ts"

lemma tokens_grow_refl [simp, intro]: "tokens_grow ts ts"
  unfolding tokens_grow_def by blast

lemma tokens_grow_trans: "tokens_grow a b \<Longrightarrow> tokens_grow b c \<Longrightarrow> tokens_grow a c"
  unfolding tokens_grow_def by metis

lemma revoke_where_hashes: "map rt_TokenHash (revoke_where P ts) = map rt_TokenHash ts"
  by (induction ts) auto

lemma tokens_grow_revoke [simp, intro]: "tokens_grow ts (revoke_where P ts)"
  unfolding tokens_grow_def unique_hashes_def revoke_where_hashes
proof (intro conjI impI ballI)
  fix t assume "t \<in> set ts"
  then show "\<exists>t'\<in>set (revoke_where P ts). rt_TokenHash t' = rt_TokenHash t \<and> rt_FamilyID t' = rt_FamilyID t \<and>
      (rt_Revoked t \<longrightarrow> rt_Revoked t')"
    by (intro bexI [of _ "if P t then t\<lparr>rt_Revoked := True\<rparr> else t"]) auto
qed

lemma tokens_grow_append: "rt_TokenHash t \<notin> rt_TokenHash ` set ts \<Longrightarrow> tokens_grow ts (ts @ [t])"
  unfolding tokens_grow_def unique_hashes_def by auto

lemma tokens_grow_inv:
  assumes g: "tokens_grow (refresh_tokens (st_db st)) (refresh_tokens (st_db st'))" and i: "spent_inv h fam st"
  shows "spent_inv h fam st'"
proof -
  from i obtain t where t: "t \<in> set (refresh_tokens (st_db st))" "rt_TokenHash t = h" "rt_FamilyID t = fam" "rt_Revoked t"
    by (auto simp: spent_inv_def spent_def)
  with g obtain t' where "t' \<in> set (refresh_tokens (st_db st'))" "rt_TokenHash t' = h" "rt_FamilyID t' = fam" "rt_Revoked t'"
    unfolding tokens_grow_def by metis
  then show ?thesis using g i unfolding spent_inv_def spent_def tokens_grow_def by blast
qed

lemmas repo_unfold = withOrgContext_def exec_uuid_def stmt_plain_def

lemma CreateSession_tokens:
  "CreateSession env db o' u j ua ad t = Ok db' \<Longrightarrow> refresh_tokens db' = refresh_tokens db"
  by (auto simp: CreateSession_def repo_unfold split: if_splits option.splits)

lemma CreateRefreshToken_tokens:
  "CreateRefreshToken env db i o' u h fam t = Ok db' \<Longrightarrow> tokens_grow (refresh_tokens db) (refresh_tokens db')"
  by (auto simp: CreateRefreshToken_def repo_unfold split: if_splits option.splits intro!: tokens_grow_append)

lemma IssueTokens_tokens:
  "tokens_grow (refresh_tokens (st_db st)) (refresh_tokens (st_db (snd (IssueTokens io req st))))"
  by (auto simp: IssueTokens_def Let_def dest!: CreateSession_tokens CreateRefreshToken_tokens split: sum.splits)

lemma update_users_tokens [simp]: "refresh_tokens (update_users env conn P g db) = refresh_tokens db"
  by (simp add: update_users_def)

lemma update_by_email_tokens:
  "update_by_email env op ctx db email g = Ok db' \<Longrightarrow> refresh_tokens db' = refresh_tokens db"
  by (auto simp: update_by_email_def repo_unfold Let_def split: if_splits)

lemma IncrementFailedLogin_tokens:
  "IncrementFailedLogin env db email = (res, db') \<Longrightarrow> refresh_tokens db' = refresh_tokens db"
  by (auto simp: IncrementFailedLogin_def repo_unfold Let_def split: if_splits sum.splits option.splits)

lemma count_failure_tokens [simp]: "refresh_tokens (st_db (count_failure io email st)) = refresh_tokens (st_db st)"
  by (auto simp: count_failure_def LockAccount_def Let_def
      dest!: IncrementFailedLogin_tokens update_by_email_tokens split: prod.splits sum.splits if_splits)

lemma issue_for_tokens:
  "tokens_grow (refresh_tokens (st_db st)) (refresh_tokens (st_db (snd (issue_for io u ua addr st))))"
  using IssueTokens_tokens [of st io "\<lparr>it_OrgID = u_OrgID u, it_UserID = u_ID u, it_UserAgent = ua,
      it_IPAddress = addr, it_FamilyID = a_uuid io ''family''\<rparr>"]
  by (auto simp: issue_for_def split: prod.splits sum.splits)

lemma issue_challenge_db [simp]: "st_db (snd (issue_challenge io u st)) = st_db st"
  by (simp add: issue_challenge_def Let_def split: option.splits)

lemma login_accept_tokens:
  "tokens_grow (refresh_tokens (st_db st)) (refresh_tokens (st_db (snd (login_accept io u email ua addr st))))"
proof -
  let ?db1 = "case ResetFailedLogin (a_env io) (a_ctx io) (st_db st) email of Inl _ \<Rightarrow> st_db st | Inr d \<Rightarrow> d"
  have r: "refresh_tokens ?db1 = refresh_tokens (st_db st)"
    by (auto simp: ResetFailedLogin_def dest!: update_by_email_tokens split: sum.splits)
  show ?thesis
    using issue_for_tokens [of "st\<lparr>st_db := ?db1\<rparr>" io u ua addr]
    by (simp add: login_accept_def Let_def r)
qed

lemma Login_tokens:
  "tokens_grow (refresh_tokens (st_db st)) (refresh_tokens (st_db (snd (Login io email pw ua addr st))))"
  using login_accept_tokens by (auto simp: Login_def Let_def split: sum.splits)

lemma claim_tokens:
  "ClaimRefreshToken env ctx db h = Ok (rt, db') \<Longrightarrow> tokens_grow (refresh_tokens db) (refresh_tokens db')"
  by (auto simp: ClaimRefreshToken_def repo_unfold split: if_splits option.splits)

lemma revoke_family_tokens: "tokens_grow (refresh_tokens db) (refresh_tokens (revoke_family fam db))"
  by (simp add: revoke_family_def)

lemma revoke_ops_tokens:
  "RevokeRefreshTokenFamily env ctx db fam = Ok db' \<Longrightarrow> tokens_grow (refresh_tokens db) (refresh_tokens db')"
  "RevokeRefreshTokenFamilyByHash env ctx db h = Ok db' \<Longrightarrow> tokens_grow (refresh_tokens db) (refresh_tokens db')"
  by (auto simp: RevokeRefreshTokenFamily_def RevokeRefreshTokenFamilyByHash_def repo_unfold
      split: if_splits option.splits intro: revoke_family_tokens)

lemma RefreshTokenS_tokens:
  "tokens_grow (refresh_tokens (st_db st)) (refresh_tokens (st_db (snd (RefreshTokenS io tok ua addr st))))"
proof (cases "ClaimRefreshToken (a_env io) (a_ctx io) (st_db st) (HashSHA256 (a_sha256 io) tok)")
  case (Inl e)
  then show ?thesis
    by (auto simp: RefreshTokenS_def split: sum.splits intro: revoke_ops_tokens)
next
  case (Inr p)
  obtain rt db1 where p: "p = (rt, db1)" by (cases p)
  have g: "tokens_grow (refresh_tokens (st_db st)) (refresh_tokens db1)"
    using claim_tokens Inr p by blast
  show ?thesis
    using Inr p tokens_grow_trans [OF g] IssueTokens_tokens [of "st\<lparr>st_db := db1\<rparr>" io] g revoke_ops_tokens(1)
    by (auto simp: RefreshTokenS_def Let_def split: sum.splits)
qed

lemma VerifyTOTP_db: "VerifyTOTP io u code st = (res, st') \<Longrightarrow> st_db st' = st_db st"
  by (auto simp: VerifyTOTP_def Let_def split: option.splits prod.splits sum.splits if_splits)

lemma VerifyBackupCode_tokens:
  "VerifyBackupCode io u code st = (res, st') \<Longrightarrow> refresh_tokens (st_db st') = refresh_tokens (st_db st)"
  by (auto simp: VerifyBackupCode_def ConsumeBackupCode_def repo_unfold Let_def
      split: sum.splits option.splits if_splits)

lemma answer_challenge_tokens:
  assumes check: "\<And>u s res s'. check u s = (res, s') \<Longrightarrow> refresh_tokens (st_db s') = refresh_tokens (st_db s)"
  shows "tokens_grow (refresh_tokens (st_db st)) (refresh_tokens (st_db (snd (answer_challenge io check m ch ua addr st))))"
proof -
  have i: "tokens_grow (refresh_tokens (st_db st)) (refresh_tokens (st_db (snd (issue_for io user ua addr st1))))"
    if "check u (st\<lparr>st_rdb := r\<rparr>) = (res, st1)" for u r res st1 user
    using issue_for_tokens [of st1 io user ua addr] check [OF that] by simp
  have k: "tokens_grow (refresh_tokens (st_db st)) (refresh_tokens (st_db st1))"
    if "check u (st\<lparr>st_rdb := r\<rparr>) = (res, st1)" for u r res st1
    using check [OF that] by simp
  show ?thesis
    unfolding answer_challenge_def
    by (auto split: option.splits prod.splits sum.splits redis_val.splits bool.splits intro: i k)
qed

text \<open>
  The operations that touch the token table, interleaved with anything that
  leaves the table alone (user administration, sessions, other services).
\<close>

inductive auth_step :: "iam_st \<Rightarrow> iam_st \<Rightarrow> bool" where
  step_login: "auth_step st (snd (Login io email pw ua addr st))"
| step_refresh: "auth_step st (snd (RefreshTokenS io tok ua addr st))"
| step_issue: "auth_step st (snd (IssueTokens io req st))"
| step_totp: "auth_step st (snd (VerifyMFAAndLogin io ch code ua addr st))"
| step_backup: "auth_step st (snd (VerifyBackupCodeAndLogin io ch code ua addr st))"
| step_other: "refresh_tokens (st_db st') = refresh_tokens (st_db st) \<Longrightarrow> auth_step st st'"

lemma auth_step_tokens: "auth_step st st' \<Longrightarrow> tokens_grow (refresh_tokens (st_db st)) (refresh_tokens (st_db st'))"
proof (induction rule: auth_step.induct)
  case (step_totp st io ch code ua addr)
  then show ?case unfolding VerifyMFAAndLogin_def
    by (rule answer_challenge_tokens) (simp add: VerifyTOTP_db)
next
  case (step_backup st io ch code ua addr)
  then show ?case unfolding VerifyBackupCodeAndLogin_def
    by (rule answer_challenge_tokens) (simp add: VerifyBackupCode_tokens)
qed (simp_all add: Login_tokens RefreshTokenS_tokens IssueTokens_tokens)

interpretation token_life: step_invariant auth_step "spent_inv h fam" for h fam
  by unfold_locales (blast intro: tokens_grow_inv auth_step_tokens)

lemma spent_not_claimable:
  assumes "spent_inv h fam st" shows "find (claimable now h) (refresh_tokens (st_db st)) = None"
  unfolding find_None_all
proof
  fix t assume t: "t \<in> set (refresh_tokens (st_db st))"
  from assms obtain t' where t': "t' \<in> set (refresh_tokens (st_db st))" "rt_TokenHash t' = h" "rt_Revoked t'"
    and d: "distinct (map rt_TokenHash (refresh_tokens (st_db st)))"
    by (auto simp: spent_inv_def spent_def unique_hashes_def)
  have "rt_TokenHash t = h \<Longrightarrow> t = t'"
    using t t' d by (metis distinct_map inj_onD)
  then show "\<not> claimable now h t" using t' by (auto simp: claimable_def)
qed

lemma spent_family:
  assumes "spent_inv h fam st"
  shows "\<exists>t. find (\<lambda>t. rt_TokenHash t = h) (refresh_tokens (st_db st)) = Some t \<and> rt_FamilyID t = fam"
proof -
  from assms obtain t' where t': "t' \<in> set (refresh_tokens (st_db st))" "rt_TokenHash t' = h" "rt_FamilyID t' = fam"
    and d: "distinct (map rt_TokenHash (refresh_tokens (st_db st)))"
    by (auto simp: spent_inv_def spent_def unique_hashes_def)
  obtain t where f: "find (\<lambda>t. rt_TokenHash t = h) (refresh_tokens (st_db st)) = Some t"
    using t' by (cases "find (\<lambda>t. rt_TokenHash t = h) (refresh_tokens (st_db st))") (auto simp: find_None_all)
  then have "t \<in> set (refresh_tokens (st_db st))" "rt_TokenHash t = h" by (auto dest: find_Some_iff_set)
  with t' d have "t = t'" by (metis distinct_map inj_onD)
  with f t' show ?thesis by blast
qed

text \<open>A successful claim spends the token: it was live, and its row is revoked.\<close>

lemma claim_spends:
  assumes c: "ClaimRefreshToken env ctx (st_db st) h = Ok (rt, db')" and u: "unique_hashes (refresh_tokens (st_db st))"
  shows "spent_inv h (rt_FamilyID rt) (st\<lparr>st_db := db'\<rparr>)"
    and "\<exists>t\<in>set (refresh_tokens (st_db st)). claimable (ie_now env) h t \<and> rt = t\<lparr>rt_Revoked := True\<rparr>"
proof -
  from c obtain t where t: "find (claimable (ie_now env) h) (refresh_tokens (st_db st)) = Some t"
    and rt: "rt = t\<lparr>rt_Revoked := True\<rparr>"
    and db': "refresh_tokens db' = revoke_where (claimable (ie_now env) h) (refresh_tokens (st_db st))"
    by (auto simp: ClaimRefreshToken_def repo_unfold split: if_splits option.splits)
  from t have m: "t \<in> set (refresh_tokens (st_db st))" "claimable (ie_now env) h t" by (auto dest: find_Some_iff_set)
  with rt show "\<exists>t\<in>set (refresh_tokens (st_db st)). claimable (ie_now env) h t \<and> rt = t\<lparr>rt_Revoked := True\<rparr>" by blast
  have "t\<lparr>rt_Revoked := True\<rparr> \<in> set (refresh_tokens db')"
    unfolding db' using m by (force simp: image_iff)
  then show "spent_inv h (rt_FamilyID rt) (st\<lparr>st_db := db'\<rparr>)"
    using m u rt db' unfolding spent_inv_def spent_def unique_hashes_def
    by (auto simp: claimable_def revoke_where_hashes simp del: map_map intro!: bexI [of _ "t\<lparr>rt_Revoked := True\<rparr>"])
qed

lemma spent_refresh:
  assumes s: "spent_inv h fam st" and h: "HashSHA256 (a_sha256 io) tok = h"
  shows "RefreshTokenS io tok ua addr st = (Err ErrSessionCompromised,
    if ie_flt (a_env io) ''RevokeRefreshTokenFamilyByHash'' \<in> {AcquireFault, SetVarFault, QueryFault} then st
    else st\<lparr>st_db := revoke_family fam (st_db st)\<rparr>)"
  using spent_not_claimable [OF s, of "ie_now (a_env io)"] spent_family [OF s]
  by (auto simp: RefreshTokenS_def h ClaimRefreshToken_def RevokeRefreshTokenFamilyByHash_def repo_unfold)

subsection \<open>Sample environment\<close>

text \<open>A request without faults under a role that bypasses row-level security, with one user and one live refresh token.\<close>

definition calm_env :: iam_env where
  "calm_env = \<lparr>ie_pg = \<lparr>rls_enforced = False, pg_uuid = Some, uuid_parse = (\<lambda>_. True)\<rparr>, ie_inet_in = Some, ie_inet_out = Some,
     ie_flt = (\<lambda>_. NoFault), ie_now = 0, ie_login_reads = (\<lambda>_. True)\<rparr>"

definition calm_io :: auth_io where
  "calm_io = \<lparr>a_env = calm_env, a_ctx = \<lparr>rls_org = None\<rparr>, a_clock = 0,
     a_uuid = (\<lambda>p. if p = ''jti'' then ''j1'' else p), a_rand = (\<lambda>p. p), a_bcrypt = (\<lambda>pw h. pw = h), a_job_queued = True, a_job_done = True,
     a_sha256 = (\<lambda>s. s), a_hmac = (\<lambda>k d. d), a_totp = (\<lambda>c s. c = s), a_gcm = toy_gcm, a_aes = [aes_key ''active''],
     a_jwt = toy_jwt, a_keyring = [key_k1 ''active''], a_redis = (\<lambda>_. Delivered), a_getenv = (\<lambda>_. [])\<rparr>"

definition sample_user :: User where
  "sample_user = zero_user\<lparr>u_ID := ''u1'', u_OrgID := ''o1'', u_Email := ''e'', u_PasswordHash := ''pw'', u_Status := ''active''\<rparr>"

definition sample_token :: RefreshToken where
  "sample_token = \<lparr>rt_ID = ''r1'', rt_OrgID = ''o1'', rt_UserID = ''u1'', rt_TokenHash = HashSHA256 (\<lambda>s. s) ''old'', rt_FamilyID = ''f1'',
     rt_ExpiresAt = Hour, rt_Revoked = False\<rparr>"

definition sample_st :: iam_st where
  "sample_st = \<lparr>st_db = \<lparr>orgs = [\<lparr>org_id = ''o1'', org_name = ''org'', org_slug = ''org''\<rparr>], users = [sample_user],
     sessions = [], refresh_tokens = [sample_token], mfa_configs = [], connectors = [], iam_outbox = []\<rparr>,
     st_rdb = Some \<lparr>rk = (\<lambda>_. None), deadlines = []\<rparr>\<rparr>"

definition calm :: "iam_env \<Rightarrow> bool" where
  "calm env \<longleftrightarrow> \<not> rls_enforced (ie_pg env) \<and> (\<forall>op. ie_flt env op = NoFault)"

lemma calm_calm_env [simp]: "calm calm_env"
  by (simp add: calm_def calm_env_def)

subsection \<open>Properties\<close>

text \<open>
  C3. A refresh token can be exchanged once.  If an exchange succeeds, the
  token's row was unrevoked and unexpired; and after any further sequence of
  logins, refreshes, token issues, MFA logins and other operations that leave
  the token table alone, presenting the same token again answers
  SESSION_COMPROMISED and, unless the revocation statement itself fails,
  leaves every token of its family revoked, including those rotated since.
\<close>

theorem refresh_token_single_use:
  assumes uniq: "unique_hashes (refresh_tokens (st_db st))"
    and first: "RefreshTokenS io tok ua addr st = (Ok res, st1)"
    and later: "auth_step\<^sup>*\<^sup>* st1 st2"
    and same: "HashSHA256 (a_sha256 io') tok = HashSHA256 (a_sha256 io) tok"
  shows "\<exists>t\<in>set (refresh_tokens (st_db st)).
     claimable (ie_now (a_env io)) (HashSHA256 (a_sha256 io) tok) t \<and>
     fst (RefreshTokenS io' tok ua' addr' st2) = Err ErrSessionCompromised \<and>
     (ie_flt (a_env io') ''RevokeRefreshTokenFamilyByHash'' = NoFault \<longrightarrow>
       (\<forall>t'\<in>set (refresh_tokens (st_db (snd (RefreshTokenS io' tok ua' addr' st2)))).
          rt_FamilyID t' = rt_FamilyID t \<longrightarrow> rt_Revoked t'))"
proof -
  let ?h = "HashSHA256 (a_sha256 io) tok"
  from first obtain rt db1 where c: "ClaimRefreshToken (a_env io) (a_ctx io) (st_db st) ?h = Ok (rt, db1)"
    by (cases "ClaimRefreshToken (a_env io) (a_ctx io) (st_db st) ?h") (auto simp: RefreshTokenS_def Let_def)
  from first c have i: "\<exists>req. IssueTokens io req (st\<lparr>st_db := db1\<rparr>) = (Ok res, st1)"
    by (auto simp: RefreshTokenS_def Let_def split: if_splits sum.splits)
  have "tokens_grow (refresh_tokens db1) (refresh_tokens (st_db st1))"
    using i IssueTokens_tokens [of "st\<lparr>st_db := db1\<rparr>" io] by (metis iam_st.select_convs(1) iam_st.surjective iam_st.update_convs(1) snd_conv)
  then have "spent_inv ?h (rt_FamilyID rt) st1"
    using tokens_grow_inv [of "st\<lparr>st_db := db1\<rparr>" st1] claim_spends(1) [OF c uniq] by simp
  then have s2: "spent_inv ?h (rt_FamilyID rt) st2" using later by (blast intro: token_life.reach_inv)
  obtain t where t: "t \<in> set (refresh_tokens (st_db st))" "claimable (ie_now (a_env io)) ?h t" "rt = t\<lparr>rt_Revoked := True\<rparr>"
    using claim_spends(2) [OF c uniq] by blast
  then show ?thesis
    using spent_refresh [OF s2 same, of ua' addr'] by (auto simp: revoke_family_def intro!: bexI [of _ t])
qed

theorem refresh_token_single_use_witness:
  "unique_hashes (refresh_tokens (st_db sample_st)) \<and> is_ok (fst (RefreshTokenS calm_io ''old'' ''ua'' ''9.9.9.9'' sample_st)) \<and>
   fst (RefreshTokenS calm_io ''old'' ''ua'' ''9.9.9.9'' (snd (RefreshTokenS calm_io ''old'' ''ua'' ''9.9.9.9'' sample_st)))
     = Err ErrSessionCompromised"
proof -
  have u: "unique_hashes (refresh_tokens (st_db sample_st))" by (simp add: unique_hashes_def sample_st_def)
  have ok: "is_ok (fst (RefreshTokenS calm_io ''old'' ''ua'' ''9.9.9.9'' sample_st))" by code_simp
  then obtain res where "RefreshTokenS calm_io ''old'' ''ua'' ''9.9.9.9'' sample_st =
      (Ok res, snd (RefreshTokenS calm_io ''old'' ''ua'' ''9.9.9.9'' sample_st))"
    by (cases "RefreshTokenS calm_io ''old'' ''ua'' ''9.9.9.9'' sample_st"; cases "fst (RefreshTokenS calm_io ''old'' ''ua'' ''9.9.9.9'' sample_st)") auto
  from refresh_token_single_use [OF u this rtranclp.rtrancl_refl refl, of "''ua''" "''9.9.9.9''"] show ?thesis
    using u ok by blast
qed

text \<open>
  The risk score of a refresh reaches the revocation threshold exactly when
  both the user-agent family and the /16 network (or, outside IPv4, the
  address text) changed; no smaller change or combination of them does.
\<close>

theorem risk_threshold_meaning:
  "calculateRiskScore storedUA currentUA storedIP currentIP \<ge> riskThresholdRevoke \<longleftrightarrow>
     fst (parseUserAgent storedUA) \<noteq> fst (parseUserAgent currentUA) \<and> ipToSubnet16 storedIP \<noteq> ipToSubnet16 currentIP"
  by (simp add: calculateRiskScore_def risk_consts split: prod.splits)

subsection \<open>Lockout\<close>

lemma sint_of_small: "- (2 ^ 63) \<le> k \<Longrightarrow> k < 2 ^ 63 \<Longrightarrow> sint (word_of_int k :: 64 word) = k"
  by (simp add: signed_of_int signed_take_bit_int_eq_self)

lemma wraps_to_zero: "(word_of_int (k * 2 ^ 64) :: 64 word) = 0"
proof -
  have "(2 :: 64 word) ^ 64 = 0" by simp
  then show ?thesis by (simp only: of_int_mult of_int_power of_int_numeral mult_zero_right)
qed

lemma lockout_product: "word_of_int a * push_bit n (1 :: 64 word) = word_of_int (a * 2 ^ n)"
  by (simp add: push_bit_eq_mult)

lemma sdiv_nonneg: "0 \<le> (k :: int) \<Longrightarrow> k sdiv 10 = k div 10"
  by (cases "k = 0") (auto simp: signed_divide_int_def)

text \<open>
  Lockout schedule: below 250 consecutive failures the account is locked for
  fifteen minutes, doubled with every ten further failures, and at most 24
  hours; the 64-bit product does not overflow there.
\<close>

theorem lockout_schedule:
  assumes "0 \<le> failCount" "failCount < 250"
  shows "sint (lockoutDuration failCount) = min (15 * Minute * 2 ^ nat (failCount div 10 - 1)) (24 * Hour)"
proof -
  let ?n = "nat (failCount div 10 - 1)"
  have n: "?n \<le> 23" using assms by linarith
  have b: "15 * Minute * 2 ^ ?n \<le> 15 * Minute * 2 ^ 23" "0 < 15 * Minute * 2 ^ ?n"
    using power_increasing [OF n, of "2 :: int"] by (simp_all add: time_units)
  have s: "sint (word_of_int (15 * Minute * 2 ^ ?n) :: 64 word) = 15 * Minute * 2 ^ ?n"
  proof (rule sint_of_small)
    have "15 * Minute * 2 ^ 23 < (2 :: int) ^ 63" by (simp add: time_units)
    with b show "15 * Minute * 2 ^ ?n < 2 ^ 63" by linarith
    have "- (2 ^ 63) \<le> (0 :: int)" by simp
    with b(2) show "- (2 ^ 63) \<le> 15 * Minute * 2 ^ ?n" by (meson less_le_not_le order_trans)
  qed
  have d: "sint (word_of_int (24 * Hour) :: 64 word) = 24 * Hour"
    by (rule sint_of_small) (simp_all add: time_units)
  have steps: "nat (if failCount sdiv 10 - 1 < 0 then 0 else failCount sdiv 10 - 1) = ?n"
    using assms by (simp add: sdiv_nonneg)
  show ?thesis
    unfolding lockoutDuration_def Let_def steps lockout_product using s d by (simp add: min_def)
qed

theorem lockout_schedule_witness:
  "sint (lockoutDuration 10) = 15 * Minute \<and> sint (lockoutDuration 35) = 60 * Minute \<and> sint (lockoutDuration 249) = 24 * Hour"
  using lockout_schedule [of 10] lockout_schedule [of 35] lockout_schedule [of 249] by (simp add: time_units)

text \<open>
  Beyond that the product wraps around: at 250 failures the duration is
  negative, so that the account is locked until a moment in the past, and from
  540 failures on it is zero.
\<close>

theorem lockout_wraps:
  "sint (lockoutDuration 250) < 0 \<and> lockoutDuration (540 + int n) = 0"
proof
  have v: "15 * Minute * 2 ^ 24 = 15099494400000000000" by (simp add: time_units)
  have "sint (word_of_int (15 * Minute * 2 ^ 24) :: 64 word) = - 3347249673709551616"
    unfolding v by (simp add: signed_of_int signed_take_bit_int_eq_self_iff signed_take_bit_eq_if_negative)
  moreover have "nat (250 sdiv 10 - 1) = 24" "\<not> (250 :: int) sdiv 10 - 1 < 0" by (simp_all add: sdiv_nonneg)
  ultimately show "sint (lockoutDuration 250) < 0"
    unfolding lockoutDuration_def Let_def lockout_product by (simp add: time_units)
  have div: "(540 + int n) sdiv 10 - 1 = 53 + int (n div 10)"
    by (subst sdiv_nonneg) (simp_all add: zdiv_int)
  have "(15 * Minute * 2 ^ nat (53 + int (n div 10)) :: int) = 439453125 * 2 ^ (n div 10) * 2 ^ 64"
    by (simp add: nat_add_distrib power_add time_units)
  then have "(word_of_int (15 * Minute * 2 ^ nat (53 + int (n div 10))) :: 64 word) = 0"
    by (simp only: wraps_to_zero)
  then show "lockoutDuration (540 + int n) = 0"
    by (simp add: lockoutDuration_def Let_def div lockout_product time_units)
qed

lemma lockout_schedule_10: "0 < sint (lockoutDuration 10)"
proof -
  have "sint (word_of_int (15 * Minute) :: 64 word) = 15 * Minute" by (rule sint_of_small) (simp_all add: time_units)
  moreover have "nat ((10 :: int) sdiv 10 - 1) = 0" "\<not> (10 :: int) sdiv 10 - 1 < 0" by (simp_all add: sdiv_nonneg)
  ultimately show ?thesis unfolding lockoutDuration_def Let_def by (simp add: time_units)
qed

subsection \<open>Login\<close>

lemma issue_for_user: "issue_for io u ua addr st = (Ok (u', res), st') \<Longrightarrow> u' = u"
  by (auto simp: issue_for_def split: prod.splits sum.splits)

lemma issue_challenge_user:
  "issue_challenge io u st = (Ok (u', res), st') \<Longrightarrow> u_ID u' = u_ID u \<and> u_OrgID u' = u_OrgID u"
  by (auto simp: issue_challenge_def Let_def split: option.splits)

lemma login_accept_user:
  "login_accept io u email ua addr st = (Ok (u', res), st') \<Longrightarrow> u_ID u' = u_ID u \<and> u_OrgID u' = u_OrgID u"
  by (auto simp: login_accept_def Let_def split: if_splits dest: issue_for_user issue_challenge_user)

text \<open>
  C9. A login succeeds only for an existing user of that email whose account is
  not being set up and is not locked at that moment, and only if the bcrypt
  comparison of the submitted password with the user's own hash succeeded; what
  is returned, tokens or an MFA challenge, is for that user and tenant.
\<close>

theorem login_requires_password:
  assumes "Login io email pw ua addr st = (Ok (u, res), st')"
  shows "\<exists>row\<in>set (users (st_db st)). u_Email row = email \<and> u_Status row \<noteq> ''initializing'' \<and>
     \<not> locked (a_clock io) row \<and> a_bcrypt io pw (u_PasswordHash row) \<and> u_ID u = u_ID row \<and> u_OrgID u = u_OrgID row"
proof -
  from assms obtain v where v: "GetUserByEmail (a_env io) (st_db st) email = Ok v"
    and st: "u_Status v \<noteq> ''initializing''" "\<not> locked (a_clock io) v"
    and pw: "is_ok (Compare io pw (u_PasswordHash v))" and acc: "login_accept io v email ua addr st = (Ok (u, res), st')"
    by (auto simp: Login_def Let_def split: sum.splits if_splits)
  from v obtain row where row: "row \<in> set (users (st_db st))" "u_Email row = email" and lc: "v = login_columns row"
    by (auto simp: GetUserByEmail_def split: if_splits option.splits dest!: find_Some_iff_set)
  from pw have "a_bcrypt io pw (u_PasswordHash v)" by (auto simp: Compare_def split: if_splits)
  then show ?thesis
    using row st login_accept_user [OF acc] unfolding lc
    by (intro bexI [of _ row]) (auto simp: login_columns_def locked_def)
qed

theorem login_requires_password_witness:
  "is_ok (fst (Login calm_io ''e'' ''pw'' ''ua'' ''9.9.9.9'' sample_st)) \<and>
   (\<exists>row\<in>set (users (st_db sample_st)). u_Email row = ''e'' \<and> a_bcrypt calm_io ''pw'' (u_PasswordHash row))"
proof -
  have ok: "is_ok (fst (Login calm_io ''e'' ''pw'' ''ua'' ''9.9.9.9'' sample_st))" by code_simp
  then obtain u res st' where "Login calm_io ''e'' ''pw'' ''ua'' ''9.9.9.9'' sample_st = (Ok (u, res), st')"
    by (cases "Login calm_io ''e'' ''pw'' ''ua'' ''9.9.9.9'' sample_st";
        cases "fst (Login calm_io ''e'' ''pw'' ''ua'' ''9.9.9.9'' sample_st)") auto
  from login_requires_password [OF this] ok show ?thesis by blast
qed

lemma IssueTokens_enforced: "rls_enforced (ie_pg (a_env io)) \<Longrightarrow> \<exists>e. fst (IssueTokens io req st) = Err e"
proof -
  assume e: "rls_enforced (ie_pg (a_env io))"
  have "CreateSession (a_env io) db o' u j ua ad t \<noteq> Ok db'" for db o' u j ua ad t db'
    using CreateSession_enforced [OF e, of db o' u j ua ad t] by auto
  then show ?thesis unfolding IssueTokens_def Let_def by (simp split: sum.split)
qed

lemma ListMFAConfigs_enforced:
  "rls_enforced (ie_pg env) \<Longrightarrow> ListMFAConfigs env ctx db u = Ok ms \<Longrightarrow> ms = []"
  by (auto simp: ListMFAConfigs_def repo_unfold user_mfa_def enforced_hides split: if_splits option.splits)

text \<open>
  Under a database role that is subject to row-level security no login ever
  succeeds: the tenant setting is gone when the session row is inserted, so the
  insert violates the policy; and the MFA configurations of the user are
  invisible, so that the second factor is not even asked for.
\<close>

theorem login_fails_under_rls:
  assumes "rls_enforced (ie_pg (a_env io))"
  shows "\<exists>e. fst (Login io email pw ua addr st) = Err e"
proof -
  have i: "\<exists>e. fst (issue_for io u ua addr s) = Err e" for u s
    using IssueTokens_enforced [OF assms, of "\<lparr>it_OrgID = u_OrgID u, it_UserID = u_ID u, it_UserAgent = ua,
      it_IPAddress = addr, it_FamilyID = a_uuid io ''family''\<rparr>" s]
    by (auto simp: issue_for_def split: prod.splits)
  have "(case ListMFAConfigs (a_env io) (a_ctx io) db u of Inl _ \<Rightarrow> [] | Inr ms \<Rightarrow> ms) = []" for db u
    using ListMFAConfigs_enforced [OF assms] by (auto split: sum.splits)
  then have "\<exists>e. fst (login_accept io u email ua addr st) = Err e" for u
    using i by (simp add: login_accept_def Let_def)
  then show ?thesis by (auto simp: Login_def Let_def split: sum.splits)
qed

theorem login_fails_under_rls_witness:
  "\<exists>e. fst (Login (calm_io\<lparr>a_env := calm_env\<lparr>ie_pg := \<lparr>rls_enforced = True, pg_uuid = Some, uuid_parse = (\<lambda>_. True)\<rparr>\<rparr>\<rparr>)
      ''e'' ''pw'' ''ua'' ''9.9.9.9'' sample_st) = Err e"
  by (rule login_fails_under_rls) simp

lemma lookup_org_calm:
  "calm env \<Longrightarrow> lookup_org env op db email = (case find (\<lambda>u. u_Email u = email) (users db) of None \<Rightarrow> [] | Some u \<Rightarrow> u_OrgID u)"
  by (simp add: calm_def lookup_org_def)

lemma IncrementFailedLogin_calm:
  assumes "calm env" "find (\<lambda>u. u_Email u = email) (users db) = Some u" "u_OrgID u \<noteq> []"
    and "\<forall>v\<in>set (users db). u_FailedLoginCount v < int4_max"
  shows "IncrementFailedLogin env db email = (Ok (u_FailedLoginCount u + 1),
    db\<lparr>users := map (\<lambda>v. if u_Email v = email then v\<lparr>u_FailedLoginCount := u_FailedLoginCount v + 1, u_UpdatedAt := ie_now env\<rparr> else v) (users db)\<rparr>)"
  using assms by (auto simp: IncrementFailedLogin_def lookup_org_calm calm_def repo_unfold update_users_def Let_def not_le)

lemma LockAccount_calm:
  assumes "calm env"
  shows "LockAccount env ctx db email t = Ok (db\<lparr>users := map (\<lambda>v. if u_Email v = email
     then v\<lparr>u_LockedUntil := Some t, u_UpdatedAt := ie_now env\<rparr> else v) (users db)\<rparr>)"
  using assms by (simp add: LockAccount_def update_by_email_def calm_def repo_unfold update_users_def)

lemma count_failure_calm:
  assumes c: "calm (a_env io)" and u: "find (\<lambda>u. u_Email u = email) (users (st_db st)) = Some u" "u_OrgID u \<noteq> []"
    and lt: "\<forall>v\<in>set (users (st_db st)). u_FailedLoginCount v < int4_max" and ten: "10 \<le> u_FailedLoginCount u + 1"
  shows "\<exists>u'. find (\<lambda>u. u_Email u = email) (users (st_db (count_failure io email st))) = Some u' \<and>
     u_Status u' = u_Status u \<and> u_FailedLoginCount u' = u_FailedLoginCount u + 1 \<and>
     u_LockedUntil u' = Some (a_clock io + sint (lockoutDuration (u_FailedLoginCount u + 1)))"
  using assms find_Some_iff_set [OF u(1)]
  by (simp add: count_failure_def IncrementFailedLogin_calm LockAccount_calm find_map_same u)

text \<open>
  Brute force: with the database reachable, a wrong password on an account
  that already has nine or more consecutive failures is refused, counts, and
  locks the account for the duration of the schedule; until that moment every
  further login, with the right password too, is refused and changes nothing.
\<close>

theorem failed_login_locks:
  assumes c: "calm (a_env io)" and u: "find (\<lambda>u. u_Email u = email) (users (st_db st)) = Some u" "u_OrgID u \<noteq> []"
    and lt: "\<forall>v\<in>set (users (st_db st)). u_FailedLoginCount v < int4_max"
    and ok: "u_Status u \<noteq> ''initializing''" "\<not> locked (a_clock io) u"
    and wrong: "\<not> a_bcrypt io pw (u_PasswordHash u)" and nine: "9 \<le> u_FailedLoginCount u"
    and c': "calm (a_env io')"
    and within: "a_clock io' < a_clock io + sint (lockoutDuration (u_FailedLoginCount u + 1))"
  shows "let (r, st1) = Login io email pw ua addr st in
     r = Err ErrInvalidCredentials \<and> Login io' email pw' ua' addr' st1 = (Err ErrInvalidCredentials, st1)"
proof -
  have g: "GetUserByEmail (a_env io) (st_db st) email = Ok (login_columns u)"
    using c u by (simp add: GetUserByEmail_def calm_def)
  have l: "Login io email pw ua addr st = (Err ErrInvalidCredentials, count_failure io email st)"
    using g ok wrong by (simp add: Login_def Compare_def locked_def login_columns_def)
  obtain u' where u': "find (\<lambda>u. u_Email u = email) (users (st_db (count_failure io email st))) = Some u'"
    "u_Status u' = u_Status u" "u_LockedUntil u' = Some (a_clock io + sint (lockoutDuration (u_FailedLoginCount u + 1)))"
    using count_failure_calm [OF c u lt] nine by auto
  have g': "GetUserByEmail (a_env io') (st_db (count_failure io email st)) email = Ok (login_columns u')"
    using c' u' by (simp add: GetUserByEmail_def calm_def)
  show ?thesis
    unfolding l using g' u' ok within by (simp add: Login_def locked_def login_columns_def)
qed

definition nine_failures :: iam_st where
  "nine_failures = sample_st\<lparr>st_db := (st_db sample_st)\<lparr>users := [sample_user\<lparr>u_FailedLoginCount := 9\<rparr>]\<rparr>\<rparr>"

theorem failed_login_locks_witness:
  "let (r, st1) = Login calm_io ''e'' ''guess'' ''ua'' ''9.9.9.9'' nine_failures in
     r = Err ErrInvalidCredentials \<and> Login calm_io ''e'' ''pw'' ''ua'' ''9.9.9.9'' st1 = (Err ErrInvalidCredentials, st1)"
  by (rule failed_login_locks [where u = "sample_user\<lparr>u_FailedLoginCount := 9\<rparr>"])
    (simp_all add: nine_failures_def sample_st_def sample_user_def zero_user_def int4_max_def locked_def calm_io_def
      lockout_schedule_10)

subsection \<open>Authorization codes, challenges, backup codes\<close>

lemma rget_rset [simp]: "rget now k' (rset t k v d r) = (if k' = k then (if now < t + redis_ttl d then Some v else None) else rget now k' r)"
  by (simp add: rget_def rset_def)

lemma redis_ttl_minutes: "redis_ttl (10 * Minute) = 10 * Minute" "redis_ttl (5 * Minute) = 5 * Minute" "redis_ttl (90 * Second) = 90 * Second"
  by (simp_all add: redis_ttl_def time_units)

text \<open>
  Authorization code round trip and single use: a stored code gives back
  the tenant, the user and the PKCE challenge it was stored with, once, within
  ten minutes; the second redemption fails.
\<close>

theorem auth_code_single_use:
  assumes store: "StoreAuthCode io code orgID userID challenge st = (Ok (), st1)"
    and reach: "a_redis io' ''auth_code'' = Delivered" "a_clock io' < a_clock io + 10 * Minute"
  shows "\<exists>st2. GetAuthCode io' code st1 = (Ok (orgID, userID, challenge), st2) \<and>
     (\<exists>e st3. GetAuthCode io'' code st2 = (Err e, st3))"
proof -
  let ?k = "''auth_code:'' @ code"
  let ?d = "RJson (JObj [(''code_challenge'', JStr challenge), (''org_id'', JStr orgID), (''user_id'', JStr userID)])"
  from store obtain r where st1: "st_rdb st1 = Some (rset (a_clock io) ?k ?d (10 * Minute) r)"
    by (auto simp: StoreAuthCode_def Let_def redis_do_def split: option.splits redis_fault.splits)
  have d: "decode_code ?d = Ok (orgID, userID, challenge)"
    by (simp add: decode_code_def json_str_def json_lookup_def)
  let ?st2 = "st1\<lparr>st_rdb := Some ((rset (a_clock io) ?k ?d (10 * Minute) r)\<lparr>rk := (rk (rset (a_clock io) ?k ?d (10 * Minute) r))(?k := None)\<rparr>)\<rparr>"
  have g: "GetAuthCode io' code st1 = (Ok (orgID, userID, challenge), ?st2)"
    using reach by (simp add: GetAuthCode_def st1 redis_do_def rgetdel_def redis_ttl_minutes d)
  have "\<exists>e st3. GetAuthCode io'' code ?st2 = (Err e, st3)"
    by (auto simp: GetAuthCode_def redis_do_def rgetdel_def rget_def split: redis_fault.splits)
  with g show ?thesis by blast
qed

theorem auth_code_single_use_witness:
  "\<exists>st1 st2. StoreAuthCode calm_io ''c'' ''o1'' ''u1'' ''chal'' sample_st = (Ok (), st1) \<and>
     GetAuthCode calm_io ''c'' st1 = (Ok (''o1'', ''u1'', ''chal''), st2) \<and> (\<exists>e st3. GetAuthCode calm_io ''c'' st2 = (Err e, st3))"
proof -
  obtain st1 where s: "StoreAuthCode calm_io ''c'' ''o1'' ''u1'' ''chal'' sample_st = (Ok (), st1)"
    by (simp add: StoreAuthCode_def sample_st_def calm_io_def redis_do_def)
  then show ?thesis
    using auth_code_single_use [OF s, of calm_io calm_io] by (auto simp: calm_io_def time_units)
qed

lemma issue_for_redis: "issue_for io u ua addr st = (res, st') \<Longrightarrow> st_rdb st' = st_rdb st"
  by (auto simp: issue_for_def IssueTokens_def Let_def split: prod.splits sum.splits)

text \<open>What an accepted TOTP code shows; a claimed code leaves the other keys alone.\<close>

lemma VerifyTOTP_True:
  assumes "VerifyTOTP io u code st = (Ok True, st')" and "st_rdb st = Some r"
  shows "\<exists>cfg secret. rget (a_clock io) (''totp:used:'' @ u @ '':'' @ code) r = None \<and>
     GetMFAConfig (a_env io) (a_ctx io) (st_db st) u ''totp'' = Ok cfg \<and>
     Decrypt (a_gcm io) (SecretEncrypted cfg) (a_aes io) = Ok secret \<and> a_totp io code secret \<and>
     st_rdb st' = Some (rset (a_clock io) (''totp:used:'' @ u @ '':'' @ code) (RText ''1'') (90 * Second) r)"
  using assms by (auto simp: VerifyTOTP_def rsetnx_def redis_do_def Let_def
      split: sum.splits prod.splits option.splits if_splits redis_fault.splits)

lemma answer_challenge_Ok:
  assumes "answer_challenge io check m ch ua addr st = (Ok (u, res), st')"
  shows "\<exists>r userID st1. st_rdb st = Some r \<and> rget (a_clock io) (''mfa_challenge:'' @ ch) r = Some (RText userID) \<and>
     check userID (st\<lparr>st_rdb := Some (r\<lparr>rk := (rk r)(''mfa_challenge:'' @ ch := None)\<rparr>)\<rparr>) = (Ok True, st1) \<and>
     u_ID u = userID \<and> st_rdb st' = st_rdb st1"
proof -
  from assms obtain r where r: "st_rdb st = Some r" by (auto simp: answer_challenge_def split: option.splits)
  let ?r = "r\<lparr>rk := (rk r)(''mfa_challenge:'' @ ch := None)\<rparr>"
  from assms r obtain userID where c: "rget (a_clock io) (''mfa_challenge:'' @ ch) r = Some (RText userID)"
    and rest: "(case check userID (st\<lparr>st_rdb := Some ?r\<rparr>) of
        (Inr True, st1) \<Rightarrow> (case GetUserByID (a_env io) (a_ctx io) (st_db st1) userID of
             Inl e \<Rightarrow> (Err (AuthRepo e), st1) | Inr user \<Rightarrow> issue_for io user ua addr st1)
      | (_, st1) \<Rightarrow> (Err (AuthErr m), st1)) = (Ok (u, res), st')"
    by (auto simp: answer_challenge_def redis_do_def rgetdel_def split: option.splits redis_fault.splits redis_val.splits)
  from rest obtain st1 v where k: "check userID (st\<lparr>st_rdb := Some ?r\<rparr>) = (Ok True, st1)"
    and v: "GetUserByID (a_env io) (a_ctx io) (st_db st1) userID = Ok v" and i: "issue_for io v ua addr st1 = (Ok (u, res), st')"
    by (auto split: prod.splits sum.splits bool.splits)
  have "u_ID v = userID"
    using v by (auto simp: GetUserByID_def repo_unfold split: if_splits option.splits)
  then show ?thesis using r c k issue_for_user [OF i] issue_for_redis [OF i] by auto
qed

lemma answer_challenge_gone:
  assumes "st_rdb st = Some r" "rk r (''mfa_challenge:'' @ ch) = None"
  shows "\<exists>e st'. answer_challenge io check m ch ua addr st = (Err e, st')"
  using assms by (auto simp: answer_challenge_def redis_do_def rgetdel_def rget_def split: redis_fault.splits)

text \<open>
  C10. A login that answers an MFA challenge succeeds only if the challenge is
  stored and unexpired, the code was not accepted for that user in the last 90
  seconds and it is the TOTP code of the user's decrypted secret; the tokens are
  for the challenged user; and answering the same challenge again fails.
\<close>

theorem mfa_login_requires_code:
  assumes "VerifyMFAAndLogin io ch code ua addr st = (Ok (u, res), st')"
  shows "\<exists>r cfg secret. st_rdb st = Some r \<and> rget (a_clock io) (''mfa_challenge:'' @ ch) r = Some (RText (u_ID u)) \<and>
     rget (a_clock io) (''totp:used:'' @ u_ID u @ '':'' @ code) r = None \<and>
     GetMFAConfig (a_env io) (a_ctx io) (st_db st) (u_ID u) ''totp'' = Ok cfg \<and>
     Decrypt (a_gcm io) (SecretEncrypted cfg) (a_aes io) = Ok secret \<and> a_totp io code secret \<and>
     (\<exists>e st''. VerifyMFAAndLogin io' ch code' ua' addr' st' = (Err e, st''))"
proof -
  from answer_challenge_Ok [OF assms [unfolded VerifyMFAAndLogin_def]] obtain r st1 where
    r: "st_rdb st = Some r" "rget (a_clock io) (''mfa_challenge:'' @ ch) r = Some (RText (u_ID u))"
    and k: "VerifyTOTP io (u_ID u) code (st\<lparr>st_rdb := Some (r\<lparr>rk := (rk r)(''mfa_challenge:'' @ ch := None)\<rparr>)\<rparr>) = (Ok True, st1)"
    and st': "st_rdb st' = st_rdb st1"
    by auto
  from VerifyTOTP_True [OF k] obtain cfg secret where
    t: "rget (a_clock io) (''totp:used:'' @ u_ID u @ '':'' @ code) r = None"
      "GetMFAConfig (a_env io) (a_ctx io) (st_db st) (u_ID u) ''totp'' = Ok cfg"
      "Decrypt (a_gcm io) (SecretEncrypted cfg) (a_aes io) = Ok secret" "a_totp io code secret"
    and s1: "st_rdb st1 = Some (rset (a_clock io) (''totp:used:'' @ u_ID u @ '':'' @ code) (RText ''1'') (90 * Second)
        (r\<lparr>rk := (rk r)(''mfa_challenge:'' @ ch := None)\<rparr>))"
    by (auto simp: rget_def)
  have "\<exists>e st''. VerifyMFAAndLogin io' ch code' ua' addr' st' = (Err e, st'')"
    unfolding VerifyMFAAndLogin_def by (rule answer_challenge_gone) (auto simp: st' s1 rset_def)
  with r t show ?thesis by blast
qed

definition challenged :: iam_st where
  "challenged = sample_st\<lparr>st_db := (st_db sample_st)\<lparr>mfa_configs := [\<lparr>m_OrgID = ''o1'', m_UserID = ''u1'', m_MFAType = ''totp'',
     m_SecretEncrypted = ''k1:'' @ EncodeToString (replicate 12 (CHR ''N'') @ ''424242'' @ replicate 16 (CHR ''K'')),
     m_BackupCodeHashes = [hex_encode ''code'']\<rparr>]\<rparr>,
     st_rdb := Some (rset 0 ''mfa_challenge:ch'' (RText ''u1'') (5 * Minute) \<lparr>rk = (\<lambda>_. None), deadlines = []\<rparr>)\<rparr>"

theorem mfa_login_requires_code_witness:
  "is_ok (fst (VerifyMFAAndLogin calm_io ''ch'' ''424242'' ''ua'' ''9.9.9.9'' challenged)) \<and>
   (\<exists>e st''. VerifyMFAAndLogin calm_io ''ch'' ''424242'' ''ua'' ''9.9.9.9''
      (snd (VerifyMFAAndLogin calm_io ''ch'' ''424242'' ''ua'' ''9.9.9.9'' challenged)) = (Err e, st''))"
proof -
  have ok: "is_ok (fst (VerifyMFAAndLogin calm_io ''ch'' ''424242'' ''ua'' ''9.9.9.9'' challenged))" by code_simp
  then obtain u res st' where v: "VerifyMFAAndLogin calm_io ''ch'' ''424242'' ''ua'' ''9.9.9.9'' challenged = (Ok (u, res), st')"
    by (cases "VerifyMFAAndLogin calm_io ''ch'' ''424242'' ''ua'' ''9.9.9.9'' challenged";
        cases "fst (VerifyMFAAndLogin calm_io ''ch'' ''424242'' ''ua'' ''9.9.9.9'' challenged)") auto
  from mfa_login_requires_code [OF v, of calm_io "''424242''" "''ua''" "''9.9.9.9''"] ok v show ?thesis by auto
qed

text \<open>
  A backup code is consumed by its use: verifying it again for the same user
  does not succeed.
\<close>

theorem backup_code_single_use:
  assumes "VerifyBackupCode io userID code st = (Ok True, st1)"
    and same: "a_env io' = a_env io" "backup_hash io' code = backup_hash io code"
  shows "fst (VerifyBackupCode io' userID code st1) \<noteq> Ok True"
proof -
  from assms(1) obtain db where c: "ConsumeBackupCode (a_env io) (a_ctx io) (st_db st) userID (backup_hash io code) = Ok (True, db)"
    and st1: "st1 = st\<lparr>st_db := db\<rparr>"
    by (auto simp: VerifyBackupCode_def split: sum.splits prod.splits)
  show ?thesis
  proof (cases "rls_enforced (ie_pg (a_env io))")
    case True
    then show ?thesis using same
      by (auto simp: VerifyBackupCode_def ConsumeBackupCode_def repo_unfold totp_of_def enforced_hides Let_def
          split: sum.splits prod.splits if_splits option.splits)
  next
    case False
    then show ?thesis using c same unfolding st1
      by (auto simp: VerifyBackupCode_def ConsumeBackupCode_def repo_unfold totp_of_def Let_def
          split: sum.splits prod.splits if_splits option.splits)
  qed
qed

theorem backup_code_single_use_witness:
  "fst (VerifyBackupCode calm_io ''u1'' ''code'' challenged) = Ok True \<and>
   fst (VerifyBackupCode calm_io ''u1'' ''code'' (snd (VerifyBackupCode calm_io ''u1'' ''code'' challenged))) \<noteq> Ok True"
proof -
  have ok: "fst (VerifyBackupCode calm_io ''u1'' ''code'' challenged) = Ok True"
    by (simp add: VerifyBackupCode_def ConsumeBackupCode_def repo_unfold totp_of_def calm_io_def calm_env_def challenged_def
        sample_st_def backup_hash_def sees_def)
  then have "VerifyBackupCode calm_io ''u1'' ''code'' challenged = (Ok True, snd (VerifyBackupCode calm_io ''u1'' ''code'' challenged))"
    by (simp add: prod_eq_iff)
  from backup_code_single_use [OF this refl refl] ok show ?thesis by blast
qed

subsection \<open>Logout\<close>

lemma redis_ttl_bound: "0 < d \<Longrightarrow> d - Millisecond < redis_ttl d"
proof -
  assume "0 < d"
  have "d div Millisecond * Millisecond + d mod Millisecond = d" "d mod Millisecond < Millisecond"
    by (simp_all add: time_units)
  then show ?thesis using \<open>0 < d\<close> unfolding redis_ttl_def by (auto simp: time_units)
qed



end
