(* ===== verification/IAM_Users.thy ===== *)
theory IAM_Users
  imports IAM_Tokens "HOL-Library.Char_ord" "HOL-Library.List_Lexorder"
begin

text \<open>
  User administration of the IAM service (services/iam/pkg/service/users.go)
  and the provisioning saga (services/iam/pkg/saga): registration, reprovisioning,
  deletion, SCIM patches, offboarding of a tenant, the consumer of saga events
  and the watcher of saga deadlines.

  The service opens a transaction for its outbox row only: the repository calls
  in between run on connections of their own and are committed at once, so a
  later failure leaves their effect in place.
\<close>

datatype user_error = UserConflict | UserErr string | UserRepo repo_error

record RegisterUserRequest =
  ru_OrgID :: string
  ru_Email :: string
  ru_Password :: string
  ru_DisplayName :: string
  ru_Role :: string
  ru_SCIMExternalID :: string

abbreviation in_db :: "iam_st \<Rightarrow> iam_db \<Rightarrow> iam_st" where
  "in_db st db \<equiv> st\<lparr>st_db := db\<rparr>"

definition unix :: "time \<Rightarrow> int" where "unix t = t div Second"

text \<open>The outbox row of a saga event and the commit; a failed commit leaves no row.\<close>

definition publish_saga :: "auth_io \<Rightarrow> string \<Rightarrow> string \<Rightarrow> json \<Rightarrow> iam_st \<Rightarrow> (user_error, unit) result \<times> iam_st" where
  "publish_saga io orgID key payload st =
     (case CreateOutboxEvent (a_env io) (st_db st) (a_uuid io ''outbox.id'') orgID ''saga.orchestration'' key payload of
        Inl e \<Rightarrow> (Err (UserRepo e), st)
      | Inr db \<Rightarrow> if ie_flt (a_env io) ''Commit'' \<noteq> NoFault then (Err (UserErr ''commit''), st) else (Ok (), in_db st db))"

definition user_payload :: "time \<Rightarrow> string \<Rightarrow> string \<Rightarrow> string \<Rightarrow> string \<Rightarrow> json" where
  "user_payload clock ev email orgID userID = JObj [(''email'', JStr email), (''event'', JStr ev), (''org_id'', JStr orgID),
     (''status'', JStr ''initializing''), (''ts'', JNum (unix clock)), (''user_id'', JStr userID)]"

text \<open>\<open>ZADD saga:deadlines\<close>: a member has one score.\<close>

definition zadd :: "string \<Rightarrow> int \<Rightarrow> (string \<times> int) list \<Rightarrow> (string \<times> int) list" where
  "zadd x n z = filter (\<lambda>(y, _). y \<noteq> x) z @ [(x, n)]"

definition RegisterUser :: "auth_io \<Rightarrow> string option \<Rightarrow> RegisterUserRequest \<Rightarrow> iam_st \<Rightarrow>
    (user_error, string \<times> bool) result \<times> iam_st" where
  "RegisterUser io hashed req st =
     (case (if ru_SCIMExternalID req \<noteq> []
            then (case GetUserByExternalID (a_env io) (a_ctx io) (st_db st) (ru_OrgID req) (ru_SCIMExternalID req) of
                    Inl _ \<Rightarrow> None | Inr u \<Rightarrow> Some u)
            else None) of
        Some user \<Rightarrow> if u_Status user = ''deprovisioned'' then (Err UserConflict, st) else (Ok (u_ID user, False), st)
      | None \<Rightarrow>
          (case hashed of
             None \<Rightarrow> (Err (UserErr ''hash password''), st)
           | Some hash \<Rightarrow>
               if ie_flt (a_env io) ''BeginTx'' \<noteq> NoFault then (Err (UserErr ''begin''), st)
               else (case CreateUser (a_env io) (st_db st) (a_uuid io ''user.id'') (ru_OrgID req) (ru_Email req) hash
                         (ru_DisplayName req) (ru_Role req) ''initializing'' of
                 Inl e \<Rightarrow> (Err (UserRepo e), st)
               | Inr (userID, db1) \<Rightarrow>
                   (case (if ru_SCIMExternalID req \<noteq> []
                          then UpdateUserSCIM (a_env io) (a_ctx io) db1 userID (ru_SCIMExternalID req) ''initializing''
                          else Ok db1) of
                      Inl e \<Rightarrow> (Err (UserRepo e), in_db st db1)
                    | Inr db2 \<Rightarrow>
                        (case publish_saga io (ru_OrgID req) userID
                            (user_payload (a_clock io) ''user.created'' (ru_Email req) (ru_OrgID req) userID) (in_db st db2) of
                           (Inl e, st3) \<Rightarrow> (Err e, st3)
                         | (Inr _, st3) \<Rightarrow> (Ok (userID, True),
                             (case st_rdb st3 of
                                None \<Rightarrow> st3
                              | Some r \<Rightarrow> st3\<lparr>st_rdb := Some (snd (redis_do (a_redis io ''zadd'')
                                  (\<lambda>r. ((), r\<lparr>deadlines := zadd userID (unix (a_clock io + 40 * Second)) (deadlines r)\<rparr>)) r))\<rparr>)))))))"

definition ReprovisionUser :: "auth_io \<Rightarrow> string \<Rightarrow> string \<Rightarrow> iam_st \<Rightarrow> (user_error, unit) result \<times> iam_st" where
  "ReprovisionUser io orgID userID st =
     (case GetUserByID (a_env io) (a_ctx io) (st_db st) userID of
        Inl e \<Rightarrow> (Err (UserRepo e), st)
      | Inr user \<Rightarrow>
          if ie_flt (a_env io) ''BeginTx'' \<noteq> NoFault then (Err (UserErr ''begin''), st)
          else (case UpdateUserStatus (a_env io) (a_ctx io) (st_db st) userID ''initializing'' of
            Inl e \<Rightarrow> (Err (UserRepo e), st)
          | Inr db \<Rightarrow> publish_saga io orgID userID
              (user_payload (a_clock io) ''user.reprovision'' (u_Email user) orgID userID) (in_db st db)))"

text \<open>\<open>SETEX\<close> counts whole seconds, at least one.\<close>

definition setex_ttl :: "time \<Rightarrow> time" where
  "setex_ttl d = (if d < Second then Second else d div Second * Second)"

definition block_jtis :: "auth_io \<Rightarrow> iam_db \<Rightarrow> string list \<Rightarrow> iam_redis \<Rightarrow> iam_redis" where
  "block_jtis io db jtis r = fold (\<lambda>jti r.
     let ttl = GetSessionTTL (a_env io) (a_ctx io) (a_clock io) db jti in
     if ttl > 0 then r\<lparr>rk := (rk r)(''blocklist:'' @ jti := Some (RText ''revoked'', a_clock io + setex_ttl ttl))\<rparr> else r) jtis r"

text \<open>The pipeline that blocklists the sessions; nothing to do without Redis.\<close>

definition block_sessions :: "auth_io \<Rightarrow> string list \<Rightarrow> iam_st \<Rightarrow> bool \<times> iam_st" where
  "block_sessions io jtis st =
     (case st_rdb st of
        None \<Rightarrow> (True, st)
      | Some r \<Rightarrow> (case redis_do (a_redis io ''blocklist'') (\<lambda>r. ((), block_jtis io (st_db st) jtis r)) r of
           (res, r') \<Rightarrow> (res \<noteq> None, st\<lparr>st_rdb := Some r'\<rparr>)))"

definition DeleteUser :: "auth_io \<Rightarrow> string \<Rightarrow> iam_st \<Rightarrow> (user_error, unit) result \<times> iam_st" where
  "DeleteUser io userID st =
     (if ie_flt (a_env io) ''BeginTx'' \<noteq> NoFault then (Err (UserErr ''begin''), st)
      else (case GetActiveJTIs (a_env io) (a_ctx io) (st_db st) userID of
        Inl e \<Rightarrow> (Err (UserRepo e), st)
      | Inr jtis \<Rightarrow>
          (case block_sessions io jtis st of (sent, st1) \<Rightarrow>
            if \<not> sent then (Err (UserErr ''redis''), st1)
            else (case RevokeSessions (a_env io) (a_ctx io) (st_db st1) userID of
              Inl e \<Rightarrow> (Err (UserRepo e), st1)
            | Inr db2 \<Rightarrow> (case UpdateUserStatus (a_env io) (a_ctx io) db2 userID ''deprovisioned'' of
                Inl e \<Rightarrow> (Err (UserRepo e), in_db st1 db2)
              | Inr db3 \<Rightarrow> publish_saga io [] userID
                  (JObj [(''event'', JStr ''user.deleted''), (''status'', JStr ''deprovisioned''), (''ts'', JNum (unix (a_clock io))),
                    (''user_id'', JStr userID)]) (in_db st1 db3))))))"

record ScimPatchOp =
  sp_Op :: string
  sp_Path :: string
  sp_Value :: raw_json

text \<open>The operations of a patch, each committed on its own; a missing value does not parse.\<close>

fun patch_ops :: "auth_io \<Rightarrow> string \<Rightarrow> ScimPatchOp list \<Rightarrow> iam_db \<Rightarrow> (user_error, unit) result \<times> iam_db" where
  "patch_ops io i [] db = (Ok (), db)"
| "patch_ops io i (op # ops) db =
     (if sp_Op op \<noteq> ''replace'' then patch_ops io i ops db
      else if sp_Path op = ''active'' then
        (case Option.bind (sp_Value op) (\<lambda>j. dec_bool j False) of
           None \<Rightarrow> (Err (UserErr ''invalid active value''), db)
         | Some active \<Rightarrow> (case UpdateUserStatus (a_env io) (a_ctx io) db i (if active then ''active'' else ''suspended'') of
             Inl e \<Rightarrow> (Err (UserRepo e), db) | Inr db' \<Rightarrow> patch_ops io i ops db'))
      else if sp_Path op = ''displayName'' then
        (case Option.bind (sp_Value op) (\<lambda>j. dec_string j []) of
           None \<Rightarrow> (Err (UserErr ''invalid displayName value''), db)
         | Some name \<Rightarrow> (case UpdateUserDisplayName (a_env io) (a_ctx io) db i name of
             Inl e \<Rightarrow> (Err (UserRepo e), db) | Inr db' \<Rightarrow> patch_ops io i ops db'))
      else patch_ops io i ops db)"

definition PatchUser :: "auth_io \<Rightarrow> string \<Rightarrow> ScimPatchOp list \<Rightarrow> iam_st \<Rightarrow> (user_error, User) result \<times> iam_st" where
  "PatchUser io i ops st =
     (if ie_flt (a_env io) ''BeginTx'' \<noteq> NoFault then (Err (UserErr ''begin''), st)
      else (case patch_ops io i ops (st_db st) of
        (Inl e, db) \<Rightarrow> (Err e, in_db st db)
      | (Inr _, db) \<Rightarrow> (case GetUserByID (a_env io) (a_ctx io) db i of
          Inl e \<Rightarrow> (Err (UserRepo e), in_db st db)
        | Inr user \<Rightarrow> (case publish_saga io (u_OrgID user) i
              (JObj [(''event'', JStr ''user.updated''), (''org_id'', JStr (u_OrgID user)), (''status'', JStr (u_Status user)),
                (''ts'', JNum (unix (a_clock io))), (''user_id'', JStr i)]) (in_db st db) of
            (Inl e, st') \<Rightarrow> (Err e, st') | (Inr _, st') \<Rightarrow> (Ok user, st')))))"

text \<open>Offboarding: per user the sessions are blocklisted and deleted, all errors of that loop ignored.\<close>

definition offboard_user :: "auth_io \<Rightarrow> User \<Rightarrow> iam_st \<Rightarrow> iam_st" where
  "offboard_user io u st =
     (let st1 = (case GetActiveJTIs (a_env io) (a_ctx io) (st_db st) (u_ID u) of
          Inl _ \<Rightarrow> st | Inr jtis \<Rightarrow> snd (block_sessions io jtis st))
      in case RevokeSessions (a_env io) (a_ctx io) (st_db st1) (u_ID u) of Inl _ \<Rightarrow> st1 | Inr db \<Rightarrow> in_db st1 db)"

definition OffboardOrg :: "auth_io \<Rightarrow> string \<Rightarrow> iam_st \<Rightarrow> (user_error, unit) result \<times> iam_st" where
  "OffboardOrg io orgID st =
     (case ListUsers (a_env io) (st_db st) orgID [] of
        Inl _ \<Rightarrow> (Err (UserErr ''list users''), st)
      | Inr us \<Rightarrow>
          (let st1 = fold (offboard_user io) us st in
           case DeprovisionAllUsers (a_env io) (st_db st1) orgID of
             Inl _ \<Rightarrow> (Err (UserErr ''deprovision all users''), st1)
           | Inr db2 \<Rightarrow>
               (let st2 = in_db st1 db2 in
                (Ok (), if ie_flt (a_env io) ''BeginTx'' \<noteq> NoFault then st2
                   else snd (publish_saga io orgID orgID (JObj [(''event'', JStr ''org.iam.offboarded''), (''org_id'', JStr orgID),
                     (''status'', JStr ''completed''), (''ts'', JNum (unix (a_clock io)))]) st2)))))"

subsection \<open>The saga\<close>

record saga_event =
  se_Event :: string
  se_UserID :: string
  se_OrgID :: string
  se_Status :: string
  se_SagaID :: string

definition saga_member :: "string \<Rightarrow> json \<Rightarrow> saga_event \<Rightarrow> saga_event option" where
  "saga_member k j x =
     (if key_is k ''event'' then map_option (\<lambda>s. x\<lparr>se_Event := s\<rparr>) (dec_string j (se_Event x))
      else if key_is k ''user_id'' then map_option (\<lambda>s. x\<lparr>se_UserID := s\<rparr>) (dec_string j (se_UserID x))
      else if key_is k ''org_id'' then map_option (\<lambda>s. x\<lparr>se_OrgID := s\<rparr>) (dec_string j (se_OrgID x))
      else if key_is k ''status'' then map_option (\<lambda>s. x\<lparr>se_Status := s\<rparr>) (dec_string j (se_Status x))
      else if key_is k ''saga_id'' then map_option (\<lambda>s. x\<lparr>se_SagaID := s\<rparr>) (dec_string j (se_SagaID x))
      else Some x)"

definition dec_saga :: "raw_json \<Rightarrow> saga_event option" where
  "dec_saga raw = dec_struct saga_member \<lparr>se_Event = [], se_UserID = [], se_OrgID = [], se_Status = [], se_SagaID = []\<rparr> raw"

text \<open>One message of the consumer loop; errors are logged and the message is done.\<close>

definition set_status :: "auth_io \<Rightarrow> string \<Rightarrow> string \<Rightarrow> iam_st \<Rightarrow> iam_st" where
  "set_status io userID status st =
     (case UpdateUserStatus (a_env io) (a_ctx io) (st_db st) userID status of Inl _ \<Rightarrow> st | Inr db \<Rightarrow> in_db st db)"

definition handle_saga :: "auth_io \<Rightarrow> raw_json \<Rightarrow> iam_st \<Rightarrow> iam_st" where
  "handle_saga io value st =
     (case dec_saga value of
        None \<Rightarrow> st
      | Some event \<Rightarrow>
          if se_Event event = ''user.provisioning.failed''
          then set_status io (if se_UserID event \<noteq> [] then se_UserID event else se_SagaID event) ''provisioning_failed'' st
          else if se_Event event = ''user.scim.provisioned'' then set_status io (se_UserID event) ''active'' st
          else if se_Event event = ''org.offboard'' then snd (OffboardOrg io (se_OrgID event) st)
          else st)"

text \<open>
  Watcher.checkExpired: the script takes the first hundred members, by score and
  then by name, whose score has passed, and removes them; each is published.
\<close>

definition due :: "int \<Rightarrow> (string \<times> int) list \<Rightarrow> string list" where
  "due now z = map fst (take 100 (sort_key snd (sort_key fst (filter (\<lambda>(_, n). n \<le> now) z))))"

definition timeout_payload :: "time \<Rightarrow> string \<Rightarrow> json" where
  "timeout_payload clock sagaID = JObj [(''compensation'', JBool True), (''event'', JStr ''user.provisioning.failed''),
     (''reason'', JStr ''saga_timeout''), (''saga_id'', JStr sagaID), (''ts'', JNum (unix clock))]"

definition checkExpired :: "auth_io \<Rightarrow> (string \<Rightarrow> bool) \<Rightarrow> iam_redis \<Rightarrow> (string \<times> string \<times> json) list \<times> iam_redis" where
  "checkExpired io publish_ok r =
     (case redis_do (a_redis io ''script'') (\<lambda>r. let ms = due (unix (a_clock io)) (deadlines r) in
          (ms, r\<lparr>deadlines := filter (\<lambda>(x, _). x \<notin> set ms) (deadlines r)\<rparr>)) r of
        (None, r') \<Rightarrow> ([], r')
      | (Some sagaIDs, r') \<Rightarrow>
          (map (\<lambda>i. (''saga.orchestration'', i, timeout_payload (a_clock io) i)) (filter publish_ok sagaIDs), r'))"

subsection \<open>Facts\<close>

lemma publish_saga_empty_org:
  "pg_uuid (ie_pg (a_env io)) [] = None \<Longrightarrow> \<exists>e. publish_saga io [] k p st = (Err e, st)"
  by (auto simp: publish_saga_def CreateOutboxEvent_def WriteTx_def split: sum.splits if_splits)

lemma UpdateUserStatus_calm:
  assumes "calm env" "pg_uuid (ie_pg env) u = Some i" "\<forall>v\<in>set (users db). u_Version v < int4_max"
  shows "UpdateUserStatus env ctx db u s = Ok (db\<lparr>users := map (\<lambda>v. if u_ID v = i
     then v\<lparr>u_Status := s, u_Version := u_Version v + 1, u_UpdatedAt := ie_now env\<rparr> else v) (users db)\<rparr>)"
  using assms by (simp add: UpdateUserStatus_def repo_unfold calm_def version_room_def update_users_def)

lemma status_set:
  "\<forall>v\<in>set (map (\<lambda>v. if u_ID v = i then v\<lparr>u_Status := s, u_Version := n v, u_UpdatedAt := t\<rparr> else v) us).
     u_ID v = i \<longrightarrow> u_Status v = s"
  by (induction us) (simp_all del: set_map)

lemma RevokeSessions_calm:
  assumes "calm env" "pg_uuid (ie_pg env) u = Some i"
  shows "RevokeSessions env ctx db u = Ok (db\<lparr>sessions := filter (\<lambda>s. s_UserID s \<noteq> i) (sessions db)\<rparr>)"
  using assms by (simp add: RevokeSessions_def repo_unfold calm_def)

lemma GetActiveJTIs_calm:
  assumes "calm env" "pg_uuid (ie_pg env) u = Some i"
  shows "GetActiveJTIs env ctx db u =
    Ok (map s_JTI (filter (\<lambda>s. s_UserID s = i \<and> s_ExpiresAt s > ie_now env) (sessions db)))"
  using assms by (simp add: GetActiveJTIs_def repo_unfold calm_def live_sessions_def)

subsection \<open>Properties\<close>

text \<open>
  DeleteUser never reports success: its outbox row has an empty tenant,
  which is no UUID.  Without other faults it has by then deprovisioned the user
  and deleted the user's sessions, and no \<open>user.deleted\<close> event is ever written.
\<close>

theorem delete_user_reports_failure:
  assumes uuid: "pg_uuid (ie_pg (a_env io)) [] = None"
    and calm: "calm (a_env io)" "pg_uuid (ie_pg (a_env io)) userID = Some i" "a_redis io ''blocklist'' = Delivered"
    and room: "\<forall>v\<in>set (users (st_db st)). u_Version v < int4_max"
  shows "\<exists>e st'. DeleteUser io userID st = (Err e, st') \<and> iam_outbox (st_db st') = iam_outbox (st_db st) \<and>
     (\<forall>v\<in>set (users (st_db st')). u_ID v = i \<longrightarrow> u_Status v = ''deprovisioned'') \<and>
     (\<forall>s\<in>set (sessions (st_db st')). s_UserID s \<noteq> i)"
proof -
  have nf: "ie_flt (a_env io) op = NoFault" for op using calm(1) by (simp add: calm_def)
  obtain st1 where b: "block_sessions io jtis st = (True, st1 jtis)" "st_db (st1 jtis) = st_db st" for jtis
  proof -
    have "\<exists>s. block_sessions io jtis st = (True, s) \<and> st_db s = st_db st" for jtis
      using calm(3) by (auto simp: block_sessions_def redis_do_def split: option.splits)
    then show ?thesis using that by metis
  qed
  let ?j = "map s_JTI (filter (\<lambda>s. s_UserID s = i \<and> s_ExpiresAt s > ie_now (a_env io)) (sessions (st_db st)))"
  let ?db2 = "(st_db st)\<lparr>sessions := filter (\<lambda>s. s_UserID s \<noteq> i) (sessions (st_db st))\<rparr>"
  let ?db3 = "?db2\<lparr>users := map (\<lambda>v. if u_ID v = i then v\<lparr>u_Status := ''deprovisioned'', u_Version := u_Version v + 1,
     u_UpdatedAt := ie_now (a_env io)\<rparr> else v) (users ?db2)\<rparr>"
  obtain e where e: "publish_saga io [] userID p s = (Err (e p s), s)" for p s
    using publish_saga_empty_org [OF uuid] by metis
  have eq: "DeleteUser io userID st = (Err (e (JObj [(''event'', JStr ''user.deleted''), (''status'', JStr ''deprovisioned''),
      (''ts'', JNum (unix (a_clock io))), (''user_id'', JStr userID)]) (in_db (st1 ?j) ?db3)), in_db (st1 ?j) ?db3)"
    using room by (simp add: DeleteUser_def nf b GetActiveJTIs_calm [OF calm(1,2)] RevokeSessions_calm [OF calm(1,2)]
        UpdateUserStatus_calm [OF calm(1,2)] e)
  have us: "\<forall>v\<in>set (users (st_db (in_db s ?db3))). u_ID v = i \<longrightarrow> u_Status v = ''deprovisioned''" for s
    by (simp add: status_set del: set_map)
  show ?thesis
    by (rule exI, rule exI, intro conjI, rule eq, simp, rule us, simp)
qed

definition strict_env :: iam_env where
  "strict_env = calm_env\<lparr>ie_pg := \<lparr>rls_enforced = False, pg_uuid = (\<lambda>s. if s = [] then None else Some s), uuid_parse = (\<lambda>_. True)\<rparr>\<rparr>"

definition strict_io :: auth_io where "strict_io = calm_io\<lparr>a_env := strict_env\<rparr>"

lemma calm_strict [simp]: "calm strict_env"
  by (simp add: calm_def strict_env_def calm_env_def)

theorem delete_user_reports_failure_witness:
  "\<exists>e st'. DeleteUser strict_io ''u1'' sample_st = (Err e, st') \<and> (\<forall>v\<in>set (users (st_db st')). u_ID v = ''u1'' \<longrightarrow> u_Status v = ''deprovisioned'')"
  using delete_user_reports_failure [of strict_io "''u1''" "''u1''" sample_st]
  by (auto simp: strict_io_def strict_env_def calm_io_def sample_st_def sample_user_def zero_user_def int4_max_def calm_def calm_env_def)

text \<open>
  Deprovisioning does not end access: after DeleteUser the user's refresh
  token is still exchanged for new tokens, and the user still logs in with the
  password, because neither path looks at the status of a deprovisioned user.
\<close>

theorem deprovisioned_user_keeps_access:
  "is_ok (fst (RefreshTokenS strict_io ''old'' ''ua'' ''9.9.9.9'' (snd (DeleteUser strict_io ''u1'' sample_st)))) \<and>
   is_ok (fst (Login strict_io ''e'' ''pw'' ''ua'' ''9.9.9.9'' (snd (DeleteUser strict_io ''u1'' sample_st))))"
  by code_simp

text \<open>
  Registration is not atomic: the user row is inserted on a connection of
  its own, so when the outbox row fails, the caller gets an error although the
  user now exists in status initializing, with no event that would ever
  provision it and no deadline that would fail it.
\<close>

theorem registration_not_atomic:
  assumes ext: "ru_SCIMExternalID req = []"
    and created: "CreateUser (a_env io) (st_db st) (a_uuid io ''user.id'') (ru_OrgID req) (ru_Email req) hash
        (ru_DisplayName req) (ru_Role req) ''initializing'' = Ok (userID, db1)"
    and tx: "ie_flt (a_env io) ''BeginTx'' = NoFault" "ie_flt (a_env io) ''CreateOutboxEvent'' \<noteq> NoFault"
  shows "\<exists>e. RegisterUser io (Some hash) req st = (Err e, st\<lparr>st_db := db1\<rparr>) \<and>
     (\<exists>u\<in>set (users db1). u_ID u = userID \<and> u_Status u = ''initializing'') \<and> iam_outbox db1 = iam_outbox (st_db st)"
proof -
  have "\<exists>e. RegisterUser io (Some hash) req st = (Err e, st\<lparr>st_db := db1\<rparr>)"
    using assms by (simp add: RegisterUser_def publish_saga_def CreateOutboxEvent_def)
  moreover have "\<exists>u\<in>set (users db1). u_ID u = userID \<and> u_Status u = ''initializing''" "iam_outbox db1 = iam_outbox (st_db st)"
    using created by (auto simp: CreateUser_def repo_unfold split: if_splits option.splits)
  ultimately show ?thesis by blast
qed

definition no_outbox_io :: auth_io where
  "no_outbox_io = calm_io\<lparr>a_env := calm_env\<lparr>ie_flt := (\<lambda>op. if op = ''CreateOutboxEvent'' then QueryFault else NoFault)\<rparr>\<rparr>"

definition sample_registration :: RegisterUserRequest where
  "sample_registration = \<lparr>ru_OrgID = ''o1'', ru_Email = ''new'', ru_Password = ''pw'', ru_DisplayName = ''n'', ru_Role = ''user'',
     ru_SCIMExternalID = []\<rparr>"

theorem registration_not_atomic_witness:
  "\<exists>e db1. RegisterUser no_outbox_io (Some ''h'') sample_registration sample_st = (Err e, sample_st\<lparr>st_db := db1\<rparr>) \<and>
     (\<exists>u\<in>set (users db1). u_ID u = ''user.id'' \<and> u_Status u = ''initializing'')"
proof -
  let ?r = "CreateUser (a_env no_outbox_io) (st_db sample_st) (a_uuid no_outbox_io ''user.id'') (ru_OrgID sample_registration)
      (ru_Email sample_registration) ''h'' (ru_DisplayName sample_registration) (ru_Role sample_registration) ''initializing''"
  have "case ?r of Inl _ \<Rightarrow> False | Inr (u, _) \<Rightarrow> u = ''user.id''" by code_simp
  then obtain db1 where c: "?r = Ok (''user.id'', db1)" by (simp split: sum.splits prod.splits)
  have "ru_SCIMExternalID sample_registration = []" "ie_flt (a_env no_outbox_io) ''BeginTx'' = NoFault"
    "ie_flt (a_env no_outbox_io) ''CreateOutboxEvent'' \<noteq> NoFault"
    by (simp_all add: sample_registration_def no_outbox_io_def)
  from registration_not_atomic [OF this(1) c this(2,3)] show ?thesis by blast
qed

text \<open>
  A provisioned user is failed by the deadline: nothing removes a deadline
  when provisioning succeeds, so once it has passed the watcher publishes a
  compensation, and the consumer sets the user's status to
  provisioning_failed whatever it was, active included.
\<close>

theorem deadline_fails_provisioned_user:
  assumes dl: "(userID, n) \<in> set (deadlines r)" "n \<le> unix (a_clock io)" "length (deadlines r) \<le> 100"
    and pub: "a_redis io ''script'' = Delivered" "publish_ok userID"
    and calm: "calm (a_env io')" "pg_uuid (ie_pg (a_env io')) userID = Some i"
    and room: "\<forall>v\<in>set (users (st_db st)). u_Version v < int4_max"
  shows "\<exists>topic payload. (topic, userID, payload) \<in> set (fst (checkExpired io publish_ok r)) \<and>
     (\<forall>v\<in>set (users (st_db (handle_saga io' (Some payload) st))). u_ID v = i \<longrightarrow> u_Status v = ''provisioning_failed'')"
proof -
  have "length (filter (\<lambda>(_, n). n \<le> unix (a_clock io)) (deadlines r)) \<le> 100"
    using dl(3) length_filter_le order_trans by blast
  then have "userID \<in> set (due (unix (a_clock io)) (deadlines r))"
    using dl by (force simp: due_def image_iff)
  then have p: "(''saga.orchestration'', userID, timeout_payload (a_clock io) userID) \<in> set (fst (checkExpired io publish_ok r))"
    using pub by (auto simp: checkExpired_def redis_do_def Let_def)
  have d: "dec_saga (Some (timeout_payload (a_clock io) userID)) =
      Some \<lparr>se_Event = ''user.provisioning.failed'', se_UserID = [], se_OrgID = [], se_Status = [], se_SagaID = userID\<rparr>"
    by (simp add: dec_saga_def timeout_payload_def saga_member_def key_is_def ToLower_def ToLowerC_def)
  have "handle_saga io' (Some (timeout_payload (a_clock io) userID)) st = set_status io' userID ''provisioning_failed'' st"
    by (simp add: handle_saga_def d)
  then have "\<forall>v\<in>set (users (st_db (handle_saga io' (Some (timeout_payload (a_clock io) userID)) st))).
      u_ID v = i \<longrightarrow> u_Status v = ''provisioning_failed''"
    by (simp add: set_status_def UpdateUserStatus_calm [OF calm room] status_set del: set_map)
  with p show ?thesis by blast
qed

theorem deadline_fails_provisioned_user_witness:
  "\<exists>topic payload. (topic, ''u1'', payload) \<in> set (fst (checkExpired calm_io (\<lambda>_. True) \<lparr>rk = (\<lambda>_. None), deadlines = [(''u1'', 0)]\<rparr>)) \<and>
     (\<forall>v\<in>set (users (st_db (handle_saga calm_io (Some payload) sample_st))). u_ID v = ''u1'' \<longrightarrow> u_Status v = ''provisioning_failed'')"
  by (rule deadline_fails_provisioned_user [where n = 0])
    (simp_all add: calm_io_def unix_def sample_st_def sample_user_def zero_user_def int4_max_def, simp add: calm_env_def)

end
