(* ===== verification/Middleware.thy ===== *)
theory Middleware
  imports IAM_Tokens
begin

text \<open>
  The shared HTTP middlewares of shared/middleware besides the JWT one: API keys
  (apikey.go), SCIM bearer tokens (scim.go), idempotent replay (idempotency.go),
  rate limiting (ratelimit.go), the header middlewares of security.go, and the
  second JWT middleware, services/iam/pkg/middleware/auth.go.  A middleware that
  only admits or refuses returns a \<open>verdict\<close>; the others wrap a handler.
\<close>

record http_req =
  rq_method :: string
  rq_headers :: headers
  rq_query :: "(string \<times> string) list"
  rq_form :: "(string \<times> string) list option"
  rq_body :: raw_json
  rq_basic_user :: string
  rq_cookie :: "string option"
  rq_remote :: string
  rq_param :: "string \<Rightarrow> string"
  rq_ctx :: req_ctx

text \<open>\<open>http.Error\<close> writes the text and a line feed.\<close>

definition http_error :: "int \<Rightarrow> string \<Rightarrow> string http_resp" where
  "http_error code text = \<lparr>rs_code = code, rs_headers = hset (hset [] ''X-Content-Type-Options'' ''nosniff'')
     ''Content-Type'' ''text/plain; charset=utf-8'', rs_body = text @ [CHR 0x0A]\<rparr>"

subsection \<open>API keys\<close>

record APIKeyAuthResult =
  ak_ConnectorID :: string
  ak_OrgID :: string
  ak_KeyPrefix :: string

text \<open>The lookup interface: database by prefix, and a cache by key hash.\<close>

record APIKeyLookup =
  FindByPrefix :: "string \<Rightarrow> (string \<times> string \<times> string) option"
  CacheGet :: "string \<Rightarrow> APIKeyAuthResult option"

definition apiKeyPrefix :: string where "apiKeyPrefix = ''ogk_''"
definition apiKeyPrefixLen :: nat where "apiKeyPrefixLen = 8"

definition APIKeyAuth :: "string \<Rightarrow> headers \<Rightarrow> req_ctx \<Rightarrow> verdict" where
  "APIKeyAuth expectedKey h ctx =
     (let key = hget h ''X-Internal-Key'' in
      if key = [] \<or> key \<noteq> expectedKey then Reject 401 ''Unauthorized'' else Next ctx)"

text \<open>The verdict, and what is written to the cache in the background.\<close>

definition APIKeyAuthComplex :: "(string \<Rightarrow> string) \<Rightarrow> (string \<Rightarrow> string \<Rightarrow> int \<Rightarrow> nat \<Rightarrow> string) \<Rightarrow> APIKeyLookup \<Rightarrow> headers \<Rightarrow> req_ctx \<Rightarrow>
    verdict \<times> (string \<times> APIKeyAuthResult) option" where
  "APIKeyAuthComplex sha256 pbkdf2 lookup h ctx =
     (let rawKey = hget h ''X-Openguard-Key'';
          admit = (\<lambda>connectorID orgID. Next (ctx\<lparr>cx_connector_id := Some connectorID, cx_org_id := Some orgID\<rparr>))
      in if rawKey = [] then (Reject 401 ''Unauthorized: missing API key'', None)
         else if \<not> HasPrefix rawKey apiKeyPrefix then (Reject 401 ''Unauthorized: invalid API key format'', None)
         else let keyHash = hex_encode (sha256 rawKey) in
           (case CacheGet lookup keyHash of
              Some cached \<Rightarrow> (admit (ak_ConnectorID cached) (ak_OrgID cached), None)
            | None \<Rightarrow>
                if length rawKey < apiKeyPrefixLen then (Reject 401 ''Unauthorized: API key too short'', None)
                else let prefix = take apiKeyPrefixLen rawKey in
                  (case FindByPrefix lookup prefix of
                     None \<Rightarrow> (Reject 401 ''Unauthorized: invalid API key'', None)
                   | Some (connectorID, orgID, pbkdf2Hash) \<Rightarrow>
                       if \<not> verifyPBKDF2 pbkdf2 rawKey pbkdf2Hash then (Reject 401 ''Unauthorized: invalid API key'', None)
                       else (admit connectorID orgID,
                         Some (keyHash, \<lparr>ak_ConnectorID = connectorID, ak_OrgID = orgID, ak_KeyPrefix = prefix\<rparr>)))))"

subsection \<open>SCIM bearer tokens\<close>

record SCIMToken =
  scim_Token :: string
  scim_OrgID :: string

definition ValidateSCIMToken :: "SCIMToken list \<Rightarrow> string \<Rightarrow> string option" where
  "ValidateSCIMToken tokens token = map_option scim_OrgID (find (\<lambda>t. scim_Token t = token) tokens)"

definition SCIMAuth :: "(string \<Rightarrow> string option) \<Rightarrow> headers \<Rightarrow> req_ctx \<Rightarrow> verdict" where
  "SCIMAuth validate h ctx =
     (let authHeader = hget h ''Authorization'' in
      if \<not> HasPrefix authHeader ''Bearer '' then Reject 401 ''Unauthorized: SCIM bearer token required''
      else let token = TrimPrefix authHeader ''Bearer '' in
        if token = [] then Reject 401 ''Unauthorized: empty bearer token''
        else (case validate token of
          None \<Rightarrow> Reject 401 ''Unauthorized: invalid SCIM token''
        | Some orgID \<Rightarrow>
            if orgID = [] then Reject 401 ''Unauthorized: token has no associated org''
            else Next (ctx\<lparr>cx_scim_org_id := Some orgID\<rparr>)))"

definition GetSCIMOrgID :: "req_ctx \<Rightarrow> string" where "GetSCIMOrgID ctx = ctx_str (cx_scim_org_id ctx)"

text \<open>
  LoadSCIMTokensFromEnv: without the variable no token is valid; a text that does
  not parse ends the process.  \<open>null\<close> is an empty list.
\<close>

definition scim_token_member :: "string \<Rightarrow> json \<Rightarrow> SCIMToken \<Rightarrow> SCIMToken option" where
  "scim_token_member k j t =
     (if key_is k ''token'' then map_option (\<lambda>v. t\<lparr>scim_Token := v\<rparr>) (dec_string j (scim_Token t))
      else if key_is k ''org_id'' then map_option (\<lambda>v. t\<lparr>scim_OrgID := v\<rparr>) (dec_string j (scim_OrgID t))
      else Some t)"

fun dec_scim_tokens :: "json list \<Rightarrow> SCIMToken list option" where
  "dec_scim_tokens [] = Some []"
| "dec_scim_tokens (j # js) =
     (case dec_struct scim_token_member \<lparr>scim_Token = [], scim_OrgID = []\<rparr> (Some j) of
        None \<Rightarrow> None
      | Some t \<Rightarrow> map_option ((#) t) (dec_scim_tokens js))"

datatype scim_start = ScimTokens "SCIMToken list" | ExitProcess

definition LoadSCIMTokensFromEnv :: "bool \<Rightarrow> raw_json \<Rightarrow> scim_start" where
  "LoadSCIMTokensFromEnv unset parsed =
     (if unset then ScimTokens []
      else (case parsed of
        Some (JArr js) \<Rightarrow> (case dec_scim_tokens js of None \<Rightarrow> ExitProcess | Some ts \<Rightarrow> ScimTokens ts)
      | Some JNull \<Rightarrow> ScimTokens []
      | _ \<Rightarrow> ExitProcess))"

subsection \<open>Idempotent replay\<close>

definition idempotencyTTL :: time where "idempotencyTTL = 24 * Hour"

record idempotencyEntry =
  ie_StatusCode :: int
  ie_Body :: string

text \<open>A byte slice is encoded in base64, the nil slice as \<open>null\<close>.\<close>

definition marshal_entry :: "idempotencyEntry \<Rightarrow> json" where
  "marshal_entry x = JObj [(''status_code'', JNum (ie_StatusCode x)),
     (''body'', if ie_Body x = [] then JNull else JStr (EncodeToString (ie_Body x)))]"

fun dec_bytes :: "json \<Rightarrow> string \<Rightarrow> string option" where
  "dec_bytes JNull old = Some []"
| "dec_bytes (JStr s) old = DecodeString s"
| "dec_bytes _ old = None"

definition entry_member :: "string \<Rightarrow> json \<Rightarrow> idempotencyEntry \<Rightarrow> idempotencyEntry option" where
  "entry_member k j x =
     (if key_is k ''status_code'' then map_option (\<lambda>v. x\<lparr>ie_StatusCode := v\<rparr>) (dec_int j (ie_StatusCode x))
      else if key_is k ''body'' then map_option (\<lambda>v. x\<lparr>ie_Body := v\<rparr>) (dec_bytes j (ie_Body x))
      else Some x)"

definition unmarshal_entry :: "redis_val \<Rightarrow> idempotencyEntry option" where
  "unmarshal_entry v = (case v of RText _ \<Rightarrow> None
     | RJson j \<Rightarrow> dec_struct entry_member \<lparr>ie_StatusCode = 0, ie_Body = []\<rparr> (Some j))"

definition hashKey :: "(string \<Rightarrow> string) \<Rightarrow> string \<Rightarrow> string" where
  "hashKey sha256 k = hex_encode (sha256 k)"

definition idem_key :: "(string \<Rightarrow> string) \<Rightarrow> http_req \<Rightarrow> string" where
  "idem_key sha256 rq = ''idem:'' @ GetOrgID (rq_ctx rq) @ '':'' @ hashKey sha256 (hget (rq_headers rq) ''Idempotency-Key'')"

definition is_write :: "http_req \<Rightarrow> bool" where
  "is_write rq \<longleftrightarrow> rq_method rq = ''POST'' \<or> rq_method rq = ''PUT'' \<or> rq_method rq = ''PATCH''"

definition replayed :: "idempotencyEntry \<Rightarrow> string http_resp" where
  "replayed x = \<lparr>rs_code = ie_StatusCode x, rs_headers = hset (hset [] ''Content-Type'' ''application/json'')
     ''X-Idempotency-Replayed'' ''true'', rs_body = ie_Body x\<rparr>"

definition idem_lookup :: "auth_io \<Rightarrow> string \<Rightarrow> iam_redis \<Rightarrow> idempotencyEntry option" where
  "idem_lookup io cacheKey r =
     (case fst (redis_do (a_redis io ''idem.get'') (\<lambda>r. (rget (a_clock io) cacheKey r, r)) r) of
        Some (Some v) \<Rightarrow> unmarshal_entry v | _ \<Rightarrow> None)"

text \<open>
  The middleware around a handler; no answer (\<open>None\<close>) is a panic, on a nil Redis
  client or on a status code that \<open>WriteHeader\<close> does not take.
\<close>

definition IdempotencyMiddleware :: "auth_io \<Rightarrow> (http_req \<Rightarrow> iam_st \<Rightarrow> string http_resp \<times> iam_st) \<Rightarrow> http_req \<Rightarrow> iam_st \<Rightarrow>
    string http_resp option \<times> iam_st" where
  "IdempotencyMiddleware io hdl rq st =
     (if \<not> is_write rq \<or> hget (rq_headers rq) ''Idempotency-Key'' = []
      then (case hdl rq st of (rs, st') \<Rightarrow> (Some rs, st'))
      else (case st_rdb st of
        None \<Rightarrow> (None, st)
      | Some r \<Rightarrow>
          (let cacheKey = idem_key (a_sha256 io) rq in
           case idem_lookup io cacheKey r of
             Some x \<Rightarrow> if ie_StatusCode x < 100 \<or> ie_StatusCode x > 999 then (None, st) else (Some (replayed x), st)
           | None \<Rightarrow>
               (case hdl rq st of (rs, st') \<Rightarrow>
                  (Some rs,
                   if rs_code rs \<ge> 200 \<and> rs_code rs < 300
                   then (case st_rdb st' of
                      None \<Rightarrow> st'
                    | Some r' \<Rightarrow> st'\<lparr>st_rdb := Some (snd (redis_do (a_redis io ''idem.set'') (\<lambda>r. ((), rset (a_clock io) cacheKey
                        (RJson (marshal_entry \<lparr>ie_StatusCode = rs_code rs, ie_Body = rs_body rs\<rparr>)) idempotencyTTL r)) r'))\<rparr>)
                   else st')))))"

subsection \<open>Rate limiting\<close>

text \<open>The token bucket of golang.org/x/time/rate.\<close>

record 'l rate_lib =
  NewLimiter :: 'l
  Allow :: "time \<Rightarrow> 'l \<Rightarrow> bool \<times> 'l"

record 'l RateLimiter =
  ips :: "string \<Rightarrow> ('l \<times> time) option"
  rl_b :: int

text \<open>A sorted set of time stamps, each its own score, and when the key expires.\<close>

type_synonym rl_redis = "string \<Rightarrow> (int list \<times> time) option"

definition rl_cleanup :: "time \<Rightarrow> 'l RateLimiter \<Rightarrow> 'l RateLimiter" where
  "rl_cleanup now l = l\<lparr>ips := (\<lambda>k. case ips l k of
     None \<Rightarrow> None | Some (x, lastAccess) \<Rightarrow> if lastAccess < now - 15 * Minute then None else Some (x, lastAccess))\<rparr>"

text \<open>\<open>strings.TrimSpace\<close> on ASCII text.\<close>

definition is_space :: "char \<Rightarrow> bool" where
  "is_space c \<longleftrightarrow> c \<in> {CHR '' '', CHR 0x09, CHR 0x0A, CHR 0x0B, CHR 0x0C, CHR 0x0D}"

definition TrimSpace :: "string \<Rightarrow> string" where
  "TrimSpace s = rev (dropWhile is_space (rev (dropWhile is_space s)))"

definition extractIP :: "http_req \<Rightarrow> string" where
  "extractIP rq =
     (if hget (rq_headers rq) ''X-Real-Ip'' \<noteq> [] then hget (rq_headers rq) ''X-Real-Ip''
      else if hget (rq_headers rq) ''X-Forwarded-For'' \<noteq> []
      then TrimSpace (hd (Split (CHR '','') (hget (rq_headers rq) ''X-Forwarded-For'')))
      else (case SplitHostPort (rq_remote rq) of None \<Rightarrow> rq_remote rq | Some (host, _) \<Rightarrow> host))"

definition getLimiter :: "'l rate_lib \<Rightarrow> time \<Rightarrow> string \<Rightarrow> 'l RateLimiter \<Rightarrow> 'l \<times> 'l RateLimiter" where
  "getLimiter lib now ip l =
     (let x = (case ips l ip of None \<Rightarrow> NewLimiter lib | Some (x, _) \<Rightarrow> x)
      in (x, l\<lparr>ips := (ips l)(ip \<mapsto> (x, now))\<rparr>))"

definition unix_ms :: "time \<Rightarrow> int" where "unix_ms t = t div Millisecond"

definition live_set :: "time \<Rightarrow> (int list \<times> time) option \<Rightarrow> int list" where
  "live_set now e = (case e of None \<Rightarrow> [] | Some (xs, expiry) \<Rightarrow> if now < expiry then xs else [])"

text \<open>The pipeline: drop what left the window, count, add the present millisecond, renew the expiry.\<close>

definition window_count :: "time \<Rightarrow> string \<Rightarrow> rl_redis \<Rightarrow> int \<times> rl_redis" where
  "window_count now key r =
     (let now_ms = unix_ms now;
          xs = filter (\<lambda>m. m > now_ms - 60000) (live_set now (r key))
      in (int (length xs), r(key \<mapsto> (if now_ms \<in> set xs then xs else xs @ [now_ms], now + Minute))))"

definition isAllowed :: "'l rate_lib \<Rightarrow> time \<Rightarrow> redis_fault \<Rightarrow> string \<Rightarrow> 'l RateLimiter \<Rightarrow> rl_redis option \<Rightarrow>
    bool \<times> 'l RateLimiter \<times> rl_redis option" where
  "isAllowed lib now f ip l rdb =
     (case getLimiter lib now ip l of (x, l1) \<Rightarrow>
       (case Allow lib now x of (ok, x') \<Rightarrow>
         (let l2 = l1\<lparr>ips := (ips l1)(ip \<mapsto> (x', now))\<rparr> in
          if \<not> ok then (False, l2, rdb)
          else (case rdb of
            None \<Rightarrow> (True, l2, None)
          | Some r \<Rightarrow> (case window_count now (''ratelimit:'' @ ip) r of (n, r') \<Rightarrow>
              (case f of
                 Delivered \<Rightarrow> (n \<le> rl_b l, l2, Some r')
               | NotRun \<Rightarrow> (True, l2, Some r)
               | ReplyLost \<Rightarrow> (True, l2, Some r')))))))"

definition Limit :: "'l rate_lib \<Rightarrow> time \<Rightarrow> redis_fault \<Rightarrow> http_req \<Rightarrow> 'l RateLimiter \<Rightarrow> rl_redis option \<Rightarrow>
    verdict \<times> 'l RateLimiter \<times> rl_redis option" where
  "Limit lib now f rq l rdb =
     (case isAllowed lib now f (extractIP rq) l rdb of
        (ok, s) \<Rightarrow> (if ok then Next (rq_ctx rq) else Reject 429 ''Too Many Requests'', s))"

subsection \<open>Header middlewares\<close>

definition SecurityHeaders :: "headers \<Rightarrow> headers" where
  "SecurityHeaders h = hset (hset (hset (hset (hset h ''X-Content-Type-Options'' ''nosniff'') ''X-Frame-Options'' ''DENY'')
     ''X-Xss-Protection'' ''1; mode=block'') ''Referrer-Policy'' ''no-referrer'')
     ''Strict-Transport-Security'' ''max-age=63072000; includeSubDomains; preload''"

definition DeprecationHeaders :: "string \<Rightarrow> headers \<Rightarrow> headers" where
  "DeprecationHeaders sunsetDate h =
     (let h' = hset h ''Deprecation'' ''true'' in if sunsetDate \<noteq> [] then hset h' ''Sunset'' sunsetDate else h')"

subsection \<open>Facts and properties\<close>

lemma entry_roundtrip [simp]: "unmarshal_entry (RJson (marshal_entry x)) = Some x"
  by (cases x) (simp add: unmarshal_entry_def marshal_entry_def entry_member_def key_is_def ToLower_def ToLowerC_def)

lemma redis_ttl_day [simp]: "redis_ttl idempotencyTTL = idempotencyTTL"
  by (simp add: redis_ttl_def idempotencyTTL_def time_units)

lemma replay:
  assumes w: "is_write rq" "hget (rq_headers rq) ''Idempotency-Key'' \<noteq> []"
    and miss: "st_rdb st = Some r" "rget (a_clock io) (idem_key (a_sha256 io) rq) r = None"
    and handler: "hdl rq st = (rs, st')" "st_rdb st' = Some r'" "200 \<le> rs_code rs" "rs_code rs < 300"
    and deliver: "a_redis io ''idem.set'' = Delivered" "a_redis io' ''idem.get'' = Delivered"
    and same: "is_write rq'" "hget (rq_headers rq') ''Idempotency-Key'' = hget (rq_headers rq) ''Idempotency-Key''"
      "GetOrgID (rq_ctx rq') = GetOrgID (rq_ctx rq)" "a_sha256 io' = a_sha256 io"
    and clock: "a_clock io' < a_clock io + idempotencyTTL"
  shows "\<exists>st1 rs'. IdempotencyMiddleware io hdl rq st = (Some rs, st1) \<and> IdempotencyMiddleware io' hdl' rq' st1 = (Some rs', st1) \<and>
     rs_code rs' = rs_code rs \<and> rs_body rs' = rs_body rs"
proof -
  let ?x = "\<lparr>ie_StatusCode = rs_code rs, ie_Body = rs_body rs\<rparr>"
  let ?st1 = "st'\<lparr>st_rdb := Some (rset (a_clock io) (idem_key (a_sha256 io) rq) (RJson (marshal_entry ?x)) idempotencyTTL r')\<rparr>"
  have none: "idem_lookup io (idem_key (a_sha256 io) rq) r = None"
    by (simp add: idem_lookup_def redis_do_def miss split: redis_fault.split)
  have one: "IdempotencyMiddleware io hdl rq st = (Some rs, ?st1)"
    using w miss(1) handler deliver(1) by (simp add: IdempotencyMiddleware_def none redis_do_def)
  have key: "idem_key (a_sha256 io') rq' = idem_key (a_sha256 io) rq"
    by (simp add: idem_key_def same)
  have "IdempotencyMiddleware io' hdl' rq' ?st1 = (Some (replayed ?x), ?st1)"
    using w same(1,2) deliver(2) handler(3,4) clock
    by (simp add: IdempotencyMiddleware_def key idem_lookup_def redis_do_def rget_def rset_def)
  with one show ?thesis by (intro exI conjI) (assumption, assumption, simp_all add: replayed_def)
qed

text \<open>
  Replay: once a keyed write request was answered with success and the answer
  stored, every write request of the same tenant with the same key is answered
  with that status and body for 24 hours, whatever its path and body, without
  running a handler and without changing the state.
\<close>

theorem idempotent_replay:
  assumes w: "is_write rq" "hget (rq_headers rq) ''Idempotency-Key'' \<noteq> []"
    and miss: "st_rdb st = Some r" "rget (a_clock io) (idem_key (a_sha256 io) rq) r = None"
    and handler: "hdl rq st = (rs, st')" "st_rdb st' = Some r'" "200 \<le> rs_code rs" "rs_code rs < 300"
    and deliver: "a_redis io ''idem.set'' = Delivered" "a_redis io' ''idem.get'' = Delivered"
    and same: "is_write rq'" "hget (rq_headers rq') ''Idempotency-Key'' = hget (rq_headers rq) ''Idempotency-Key''"
      "GetOrgID (rq_ctx rq') = GetOrgID (rq_ctx rq)" "a_sha256 io' = a_sha256 io"
    and clock: "a_clock io' < a_clock io + idempotencyTTL"
  shows "\<exists>st1 rs'. IdempotencyMiddleware io hdl rq st = (Some rs, st1) \<and> IdempotencyMiddleware io' hdl' rq' st1 = (Some rs', st1) \<and>
     rs_code rs' = rs_code rs \<and> rs_body rs' = rs_body rs"
  by (rule replay [where hdl = hdl and rq = rq and st = st, OF w miss handler deliver same clock])

subsubsection \<open>The window of the rate limiter\<close>

text \<open>The times at which the requests of one address at the times \<open>ts\<close> are admitted, Redis answering.\<close>

fun admitted :: "'l rate_lib \<Rightarrow> string \<Rightarrow> time list \<Rightarrow> 'l RateLimiter \<Rightarrow> rl_redis \<Rightarrow> time list" where
  "admitted lib addr [] l r = []"
| "admitted lib addr (t # ts) l r =
     (case isAllowed lib t Delivered addr l (Some r) of
        (ok, l', Some r') \<Rightarrow> (if ok then [t] else []) @ admitted lib addr ts l' r'
      | (_, _, None) \<Rightarrow> [])"

definition covers :: "rl_redis \<Rightarrow> string \<Rightarrow> time \<Rightarrow> int set \<Rightarrow> bool" where
  "covers r key T R \<longleftrightarrow> finite R \<and> (\<forall>m\<in>R. m \<le> unix_ms T) \<and>
     (\<forall>now\<ge>T. \<forall>m\<in>R. unix_ms now - 60000 < m \<longrightarrow> m \<in> set (live_set now (r key)))"

lemma unix_ms_mono: "s \<le> t \<Longrightarrow> unix_ms s \<le> unix_ms t"
  by (simp add: unix_ms_def zdiv_mono1 time_units)

lemma unix_ms_minute:
  assumes "unix_ms now - 60000 < m" "m \<le> unix_ms t"
  shows "now < t + Minute"
proof (rule ccontr)
  assume "\<not> now < t + Minute"
  then have "unix_ms (t + Minute) \<le> unix_ms now" by (intro unix_ms_mono) simp
  moreover have "t + Minute = t + 60000 * Millisecond" by (simp add: time_units)
  then have "unix_ms (t + Minute) = unix_ms t + 60000" by (simp add: unix_ms_def time_units)
  ultimately show False using assms by simp
qed

lemma covers_step:
  assumes cov: "covers r key T R" and t: "T \<le> t" and w: "window_count t key r = (n, r')"
  shows "covers r' key t R" "covers r' key t (insert (unix_ms t) R)"
proof -
  let ?xs = "filter (\<lambda>m. m > unix_ms t - 60000) (live_set t (r key))"
  have r': "r' key = Some (if unix_ms t \<in> set ?xs then ?xs else ?xs @ [unix_ms t], t + Minute)"
    using w by (auto simp: window_count_def Let_def)
  have le: "\<forall>m\<in>insert (unix_ms t) R. m \<le> unix_ms t"
    using cov unix_ms_mono [OF t] by (auto simp: covers_def)
  have "m \<in> set (live_set now (r' key))"
    if now: "t \<le> now" and m: "m \<in> insert (unix_ms t) R" "unix_ms now - 60000 < m" for now m
  proof -
    have "now < t + Minute" using unix_ms_minute [OF m(2)] le m(1) by blast
    moreover have "m \<in> set (?xs @ [unix_ms t])"
      using cov t m unix_ms_mono [OF now] by (auto simp: covers_def)
    ultimately show ?thesis by (auto simp: live_set_def r')
  qed
  with le cov show "covers r' key t (insert (unix_ms t) R)" "covers r' key t R" by (auto simp: covers_def)
qed

lemma admitted_count:
  assumes cov: "covers r key T R" and t: "T \<le> t" and n: "window_count t key r = (n, r')" "n \<le> b"
    and m: "s \<le> unix_ms t" "unix_ms t < s + 60000"
  shows "int (card {m\<in>R. s \<le> m \<and> m < s + 60000}) \<le> b"
proof -
  let ?xs = "filter (\<lambda>m. m > unix_ms t - 60000) (live_set t (r key))"
  have "{m\<in>R. s \<le> m \<and> m < s + 60000} \<subseteq> set ?xs"
    using cov t m by (auto simp: covers_def)
  then have "card {m\<in>R. s \<le> m \<and> m < s + 60000} \<le> length ?xs"
    by (meson List.finite_set card_length card_mono order_trans)
  then show ?thesis using n by (auto simp: window_count_def Let_def)
qed

lemma isAllowed_delivered:
  assumes "isAllowed lib t Delivered addr l (Some r) = (ok, l', rdb')"
  obtains (memory) "\<not> ok" "rdb' = Some r" "rl_b l' = rl_b l"
    | (redis) n r' where "window_count t (''ratelimit:'' @ addr) r = (n, r')" "rdb' = Some r'" "ok = (n \<le> rl_b l)" "rl_b l' = rl_b l"
  using assms by (auto simp: isAllowed_def getLimiter_def Let_def split: prod.splits if_splits)

lemma card_insert_window: "finite R \<Longrightarrow> card {m\<in>insert x R. P m} \<le> (if P x then Suc (card {m\<in>R. P m}) else card {m\<in>R. P m})"
proof (cases "P x")
  case True
  assume "finite R"
  then have "{m\<in>insert x R. P m} = insert x {m\<in>R. P m}" "finite {m\<in>R. P m}" using True by auto
  then show ?thesis using True by (simp add: card_insert_if)
next
  case False
  then have "{m\<in>insert x R. P m} = {m\<in>R. P m}" by auto
  with False show ?thesis by simp
qed

lemma admitted_bound:
  assumes "covers r (''ratelimit:'' @ addr) T R" "sorted (T # ts)"
    "int (card {m\<in>R. s \<le> m \<and> m < s + 60000}) \<le> rl_b l + 1"
  shows "int (card {m\<in>R \<union> unix_ms ` set (admitted lib addr ts l r). s \<le> m \<and> m < s + 60000}) \<le> rl_b l + 1"
  using assms
proof (induction lib addr ts l r arbitrary: T R rule: admitted.induct)
  case (2 lib addr t ts l r)
  obtain ok l' rdb' where a: "isAllowed lib t Delivered addr l (Some r) = (ok, l', rdb')" by (metis prod_cases3)
  have T: "T \<le> t" "sorted (t # ts)" using "2.prems"(2) by auto
  from a show ?case
  proof (cases rule: isAllowed_delivered)
    case memory
    have "covers r (''ratelimit:'' @ addr) t R"
      using "2.prems"(1) T(1) unix_ms_mono [OF T(1)] by (fastforce simp: covers_def)
    from "2.IH" [OF a [symmetric] refl memory(2) this T(2)] show ?thesis
      using a memory "2.prems"(3) by simp
  next
    case (redis n r')
    note cov = covers_step [OF "2.prems"(1) T(1) redis(1)]
    have fin: "finite R" using "2.prems"(1) by (simp add: covers_def)
    show ?thesis
    proof (cases ok)
      case False
      from "2.IH" [OF a [symmetric] refl redis(2) cov(1) T(2)] show ?thesis
        using a redis False "2.prems"(3) by simp
    next
      case True
      have "int (card {m\<in>insert (unix_ms t) R. s \<le> m \<and> m < s + 60000}) \<le> rl_b l' + 1"
        using card_insert_window [OF fin, of "unix_ms t" "\<lambda>m. s \<le> m \<and> m < s + 60000"] "2.prems"(3) redis(3,4) True
          admitted_count [OF "2.prems"(1) T(1) redis(1), of "rl_b l" s] by (simp split: if_splits)
      from "2.IH" [OF a [symmetric] refl redis(2) cov(2) T(2) this] show ?thesis
        using a redis True by simp
    qed
  qed
qed simp


definition open_lib :: "unit rate_lib" where
  "open_lib = \<lparr>NewLimiter = (), Allow = (\<lambda>_ x. (True, x))\<rparr>"

definition auth_limiter :: "unit RateLimiter" where
  "auth_limiter = \<lparr>ips = (\<lambda>_. None), rl_b = 5\<rparr>"


text \<open>
  A client that sends one request every \<open>d\<close>: after \<open>k\<close> requests the set covers
  their milliseconds and has at most \<open>k\<close> members.
\<close>

definition ticks :: "time \<Rightarrow> time \<Rightarrow> nat \<Rightarrow> nat \<Rightarrow> time list" where
  "ticks t0 d k n = map (\<lambda>i. t0 + int i * d) [k..<n]"

definition steady :: "rl_redis \<Rightarrow> string \<Rightarrow> time \<Rightarrow> time \<Rightarrow> nat \<Rightarrow> bool" where
  "steady r key t0 d k \<longleftrightarrow> covers r key (t0 + int k * d - d) ((\<lambda>i. unix_ms (t0 + int i * d)) ` {..<k}) \<and>
     (\<forall>now. length (live_set now (r key)) \<le> k)"

lemma steady_step:
  assumes st: "steady r key t0 d k" and d: "0 \<le> d" and w: "window_count (t0 + int k * d) key r = (n, r')"
  shows "steady r' key t0 d (Suc k)" "n \<le> int k"
proof -
  have le: "length (live_set now (r key)) \<le> k" for now using st by (simp add: steady_def)
  have len: "length (filter (\<lambda>m. unix_ms (t0 + int k * d) - 60000 < m) (live_set (t0 + int k * d) (r key))) \<le> k"
    using le length_filter_le order_trans by blast
  then show "n \<le> int k" using w by (auto simp: window_count_def Let_def)
  have "covers r' key (t0 + int k * d) (insert (unix_ms (t0 + int k * d)) ((\<lambda>i. unix_ms (t0 + int i * d)) ` {..<k}))"
    using st d by (intro covers_step(2) [OF _ _ w]) (auto simp: steady_def)
  moreover have "length (live_set now (r' key)) \<le> Suc k" for now
    using w len by (auto simp: window_count_def Let_def live_set_def)
  ultimately show "steady r' key t0 d (Suc k)"
    by (simp add: steady_def lessThan_Suc algebra_simps)
qed

lemma unix_ms_ticks:
  assumes "Millisecond \<le> d" "i < j"
  shows "unix_ms (t0 + int i * d) < unix_ms (t0 + int j * d)"
proof -
  have "(int i + 1) * d \<le> int j * d" using assms by (intro mult_right_mono) (auto simp: time_units)
  then have "t0 + int i * d + Millisecond \<le> t0 + int j * d" using assms(1) by (simp add: algebra_simps)
  then have "unix_ms (t0 + int i * d + Millisecond) \<le> unix_ms (t0 + int j * d)" by (rule unix_ms_mono)
  moreover have "unix_ms (t0 + int i * d + Millisecond) = unix_ms (t0 + int i * d) + 1" by (simp add: unix_ms_def time_units)
  ultimately show ?thesis by simp
qed

lemma steady_full:
  assumes st: "steady r key t0 d k" and d: "Millisecond \<le> d" "int (Suc b) * d + Millisecond \<le> Minute" and k: "b < k"
    and w: "window_count (t0 + int k * d) key r = (n, r')"
  shows "int b < n"
proof -
  let ?t = "t0 + int k * d" and ?ms = "\<lambda>i. unix_ms (t0 + int i * d)"
  let ?xs = "filter (\<lambda>m. m > unix_ms ?t - 60000) (live_set ?t (r key))"
  have d0: "0 \<le> d" using d(1) by (simp add: time_units)
  have "?ms i \<in> set ?xs" if i: "i \<in> {k - Suc b..<k}" for i
  proof -
    have "(int k - int i) * d \<le> int (Suc b) * d" using i k d0 by (intro mult_right_mono) auto
    then have "?t \<le> t0 + int i * d + 59999 * Millisecond" using d(2) by (simp add: algebra_simps time_units)
    then have "unix_ms ?t \<le> unix_ms (t0 + int i * d + 59999 * Millisecond)" by (rule unix_ms_mono)
    also have "\<dots> = ?ms i + 59999" by (simp add: unix_ms_def time_units)
    finally have "unix_ms ?t - 60000 < ?ms i" by simp
    then show ?thesis using st i d0 by (auto simp: steady_def covers_def)
  qed
  then have "?ms ` {k - Suc b..<k} \<subseteq> set ?xs" by blast
  moreover have "inj_on ?ms {k - Suc b..<k}"
    by (intro inj_onI) (metis d(1) less_irrefl linorder_neqE_nat unix_ms_ticks)
  ultimately have "Suc b \<le> length ?xs"
    using k card_mono [of "set ?xs" "?ms ` {k - Suc b..<k}"] card_length [of ?xs] by (simp add: card_image)
  then show ?thesis using w by (auto simp: window_count_def Let_def)
qed

lemma admitted_steady:
  assumes lib: "\<And>t x. fst (Allow lib t x)" and d: "Millisecond \<le> d" "int (Suc b) * d + Millisecond \<le> Minute"
    and b: "rl_b l = int b" and st: "steady r (''ratelimit:'' @ addr) t0 d k"
  shows "admitted lib addr (ticks t0 d k n) l r = ticks t0 d k (min n (Suc b))"
  using b st
proof (induction "n - k" arbitrary: k l r)
  case (Suc m)
  then have k: "k < n" by simp
  let ?t = "t0 + int k * d"
  have d0: "0 \<le> d" using d(1) by (simp add: time_units)
  have t: "ticks t0 d k n = ?t # ticks t0 d (Suc k) n" using k by (simp add: ticks_def upt_conv_Cons)
  obtain ok l' rdb' where a: "isAllowed lib ?t Delivered addr l (Some r) = (ok, l', rdb')" by (metis prod_cases3)
  obtain c r' where w: "window_count ?t (''ratelimit:'' @ addr) r = (c, r')" by (metis surj_pair)
  have a': "rdb' = Some r'" "ok = (c \<le> int b)" "rl_b l' = int b"
    using a w lib [of ?t] Suc.prems(1)
    by (auto simp: isAllowed_def getLimiter_def Let_def case_prod_unfold)
  have IH: "admitted lib addr (ticks t0 d (Suc k) n) l' r' = ticks t0 d (Suc k) (min n (Suc b))"
    using Suc.hyps a'(3) steady_step(1) [OF Suc.prems(2) d0 w] by simp
  show ?case
  proof (cases "b < k")
    case True
    then have "\<not> ok" using steady_full [OF Suc.prems(2) d True w] a'(2) by simp
    then show ?thesis using a a' IH t True by (simp add: ticks_def)
  next
    case False
    then have "ok" using steady_step(2) [OF Suc.prems(2) d0 w] a'(2) by simp
    moreover have "ticks t0 d k (min n (Suc b)) = ?t # ticks t0 d (Suc k) (min n (Suc b))"
      using False k by (simp add: ticks_def upt_conv_Cons)
    ultimately show ?thesis using a a' IH t by simp
  qed
qed (simp add: ticks_def)

text \<open>
  Refused requests count as well, so a client that keeps sending at a rate of
  more than \<open>b\<close> requests a minute is admitted \<open>b + 1\<close> times and then never
  again, however long it goes on.  With the limiter of the login routes (burst
  five) a client at the nominal one request per second is shut out after six.
\<close>

theorem steady_client_shut_out:
  assumes "\<And>t x. fst (Allow lib t x)" "Millisecond \<le> d" "int (Suc b) * d + Millisecond \<le> Minute" "rl_b l = int b"
  shows "admitted lib addr (map (\<lambda>i. t0 + int i * d) [0..<n]) l (\<lambda>_. None) = map (\<lambda>i. t0 + int i * d) [0..<min n (Suc b)]"
  using admitted_steady [OF assms, of "\<lambda>_. None" addr t0 0 n]
  by (simp add: steady_def covers_def live_set_def ticks_def)

theorem steady_client_shut_out_witness:
  "admitted open_lib ''9.9.9.9'' (map (\<lambda>i. 0 + int i * Second) [0..<100]) auth_limiter (\<lambda>_. None) =
   map (\<lambda>i. 0 + int i * Second) [0..<min 100 (Suc 5)]"
  by (rule steady_client_shut_out) (simp_all add: open_lib_def auth_limiter_def time_units)

subsubsection \<open>Admission by API key\<close>

text \<open>The cache over time: a request stores its result, entries expire at any moment.\<close>

inductive key_step :: "(string \<Rightarrow> string) \<Rightarrow> (string \<Rightarrow> string \<Rightarrow> int \<Rightarrow> nat \<Rightarrow> string) \<Rightarrow> (string \<Rightarrow> (string \<times> string \<times> string) option) \<Rightarrow>
    (string \<Rightarrow> APIKeyAuthResult option) \<Rightarrow> (string \<Rightarrow> APIKeyAuthResult option) \<Rightarrow> bool"
  for sha256 pbkdf2 db where
  ks_request: "APIKeyAuthComplex sha256 pbkdf2 \<lparr>FindByPrefix = db, CacheGet = c\<rparr> h ctx = (v, Some (k, res)) \<Longrightarrow>
     key_step sha256 pbkdf2 db c (c(k \<mapsto> res))"
| ks_expire: "key_step sha256 pbkdf2 db c (c(k := None))"

definition valid_key :: "(string \<Rightarrow> string \<Rightarrow> int \<Rightarrow> nat \<Rightarrow> string) \<Rightarrow> (string \<Rightarrow> (string \<times> string \<times> string) option) \<Rightarrow>
    string \<Rightarrow> string \<Rightarrow> string \<Rightarrow> bool" where
  "valid_key pbkdf2 db raw connectorID orgID \<longleftrightarrow> HasPrefix raw apiKeyPrefix \<and> apiKeyPrefixLen \<le> length raw \<and>
     (case db (take apiKeyPrefixLen raw) of None \<Rightarrow> False
      | Some (c, o', stored) \<Rightarrow> c = connectorID \<and> o' = orgID \<and> verifyPBKDF2 pbkdf2 raw stored)"

definition vetted :: "(string \<Rightarrow> string) \<Rightarrow> (string \<Rightarrow> string \<Rightarrow> int \<Rightarrow> nat \<Rightarrow> string) \<Rightarrow> (string \<Rightarrow> (string \<times> string \<times> string) option) \<Rightarrow>
    (string \<Rightarrow> APIKeyAuthResult option) \<Rightarrow> bool" where
  "vetted sha256 pbkdf2 db c \<longleftrightarrow> (\<forall>k res. c k = Some res \<longrightarrow>
     (\<exists>raw. k = hex_encode (sha256 raw) \<and> valid_key pbkdf2 db raw (ak_ConnectorID res) (ak_OrgID res)))"

lemma APIKeyAuthComplex_cases:
  assumes "APIKeyAuthComplex sha256 pbkdf2 \<lparr>FindByPrefix = db, CacheGet = c\<rparr> h ctx = (v, w)"
  obtains (reject) code reason where "v = Reject code reason" "w = None"
  | (cached) res where "c (hex_encode (sha256 (hget h ''X-Openguard-Key''))) = Some res" "w = None"
      "v = Next (ctx\<lparr>cx_connector_id := Some (ak_ConnectorID res), cx_org_id := Some (ak_OrgID res)\<rparr>)"
  | (verified) i o' p where "valid_key pbkdf2 db (hget h ''X-Openguard-Key'') i o'"
      "v = Next (ctx\<lparr>cx_connector_id := Some i, cx_org_id := Some o'\<rparr>)"
      "w = Some (hex_encode (sha256 (hget h ''X-Openguard-Key'')), \<lparr>ak_ConnectorID = i, ak_OrgID = o', ak_KeyPrefix = p\<rparr>)"
  using assms by (auto simp: APIKeyAuthComplex_def valid_key_def Let_def not_less split: if_splits option.splits)

lemma key_step_vetted: "vetted sha256 pbkdf2 db c \<Longrightarrow> key_step sha256 pbkdf2 db c c' \<Longrightarrow> vetted sha256 pbkdf2 db c'"
proof (erule key_step.cases, goal_cases)
  case (1 c0 h ctx v k res)
  from 1(4) show ?case
    by (cases rule: APIKeyAuthComplex_cases) (use 1 in \<open>auto simp: vetted_def\<close>)
qed (auto simp: vetted_def)

interpretation key_cache: step_invariant "key_step sha256 pbkdf2 db" "vetted sha256 pbkdf2 db" for sha256 pbkdf2 db
  by unfold_locales (rule key_step_vetted)


definition toy_pbkdf2 :: "string \<Rightarrow> string \<Rightarrow> int \<Rightarrow> nat \<Rightarrow> string" where
  "toy_pbkdf2 pw salt n len = pw @ salt"

definition key_table :: "string \<Rightarrow> (string \<times> string \<times> string) option" where
  "key_table p = (if p = ''ogk_abcd'' then Some (''c1'', ''o1'', HashPBKDF2 toy_pbkdf2 ''salt'' ''ogk_abcdef'') else None)"


definition token_request :: http_req where
  "token_request = \<lparr>rq_method = ''POST'', rq_headers = [(''Idempotency-Key'', ''k1'')], rq_query = [], rq_form = Some [],
     rq_body = None, rq_basic_user = [], rq_cookie = None, rq_remote = ''9.9.9.9:1'', rq_param = (\<lambda>_. []), rq_ctx = empty_ctx\<rparr>"

theorem idempotent_replay_witness:
  "\<exists>st1 rs'. IdempotencyMiddleware calm_io (\<lambda>_ st. (http_error 201 ''ok'', st)) token_request sample_st =
      (Some (http_error 201 ''ok''), st1) \<and>
     IdempotencyMiddleware calm_io (\<lambda>_ st. (http_error 500 ''no'', st)) token_request st1 = (Some rs', st1) \<and>
     rs_code rs' = rs_code (http_error 201 ''ok'') \<and> rs_body rs' = rs_body (http_error 201 ''ok'')"
proof -
  obtain r where r: "st_rdb sample_st = Some r" "rk r = (\<lambda>_. None)" by (simp add: sample_st_def)
  have facts: "is_write token_request" "hget (rq_headers token_request) ''Idempotency-Key'' \<noteq> []"
    "\<And>now k. rget now k r = None" "a_redis calm_io ''idem.set'' = Delivered" "a_redis calm_io ''idem.get'' = Delivered"
    "a_clock calm_io < a_clock calm_io + idempotencyTTL"
    by (simp_all add: token_request_def is_write_def hget_def rget_def r calm_io_def idempotencyTTL_def time_units)
  show ?thesis
    by (rule idempotent_replay [where hdl = "\<lambda>_ st. (http_error 201 ''ok'', st)", OF facts(1,2) r(1) facts(3) refl r(1)])
      (simp_all add: facts http_error_def idempotencyTTL_def time_units)
qed

end
