(* ===== verification/IAM_Handlers.thy ===== *)
theory IAM_Handlers
  imports IAM_Users Middleware
begin

text \<open>
  The HTTP handlers of the IAM service: services/iam/pkg/handlers/handler.go
  (without WebAuthn), oauth.go and scim.go.  A handler takes the environment of
  the request, the request and the state, and returns the response and the new
  state.  The one-line methods of the service that only call the repository
  (RegisterOrg, GetCurrentUser, ListUsers, the connector methods) are those
  repository calls.
\<close>

record scimUser =
  su_ID :: string
  su_ExternalID :: string
  su_UserName :: string
  su_DisplayName :: string
  su_Active :: bool
  su_Emails :: "(string \<times> bool) list"
  su_Version :: string
  su_Location :: string

text \<open>Response bodies; where the code sends \<open>err.Error()\<close> the body carries the error value.\<close>

datatype iam_body =
    IError string
  | IErrorCode string string
  | IAuthErr auth_error
  | IUserErr user_error
  | IRepoErr repo_error
  | IFields "(string \<times> string) list"
  | ILogin "User option" "TokenResponse option"
  | IChallenge string
  | IMfaRequired string
  | ITokens TokenResponse
  | IUsers "User list"
  | IConnectors "Connector list"
  | ICodes "string list"
  | IKeys "(string \<times> string) list"
  | IRedirect string
  | IScimUser scimUser
  | IScimList int int "scimUser list"
  | IScimError string "iam_body"
  | IEmpty
  | IPanic

type_synonym iam_resp = "iam_body http_resp"

definition writeJSON :: "headers \<Rightarrow> int \<Rightarrow> iam_body \<Rightarrow> iam_resp" where
  "writeJSON h status data = \<lparr>rs_code = status, rs_headers = hset h ''Content-Type'' ''application/json'', rs_body = data\<rparr>"

definition writeError :: "int \<Rightarrow> string \<Rightarrow> iam_resp" where
  "writeError status reason = writeJSON [] status (IError reason)"

text \<open>A nil dereference in a handler: the router's Recoverer answers 500.\<close>

definition panicked :: iam_resp where
  "panicked = \<lparr>rs_code = 500, rs_headers = [], rs_body = IPanic\<rparr>"

definition HealthH :: iam_resp where
  "HealthH = writeJSON [] 200 (IFields [(''status'', ''OK'')])"

subsection \<open>Requests\<close>

text \<open>The environment of the calls a handler makes: the context is that of the request.\<close>

definition req_io :: "auth_io \<Rightarrow> http_req \<Rightarrow> auth_io" where
  "req_io io rq = io\<lparr>a_ctx := cx_rls (rq_ctx rq)\<rparr>"

text \<open>The draws of a second call in the same request.\<close>

definition again :: "auth_io \<Rightarrow> auth_io" where
  "again io = io\<lparr>a_uuid := (\<lambda>p. a_uuid io (''again:'' @ p)), a_rand := (\<lambda>p. a_rand io (''again:'' @ p))\<rparr>"

definition UserAgentOf :: "http_req \<Rightarrow> string" where
  "UserAgentOf rq = hget (rq_headers rq) ''User-Agent''"

definition Query :: "http_req \<Rightarrow> string \<Rightarrow> string" where
  "Query rq k = hget (rq_query rq) k"

text \<open>Decoding into a struct whose fields are strings with the given (lower-case) names.\<close>

definition str_member :: "string list \<Rightarrow> string \<Rightarrow> json \<Rightarrow> (string \<Rightarrow> string) \<Rightarrow> (string \<Rightarrow> string) option" where
  "str_member names k j m =
     (if ToLower k \<in> set names then map_option (\<lambda>v. m(ToLower k := v)) (dec_string j (m (ToLower k))) else Some m)"

definition dec_strs :: "string list \<Rightarrow> raw_json \<Rightarrow> (string \<Rightarrow> string) option" where
  "dec_strs names = dec_struct (str_member names) (\<lambda>_. [])"

definition invalid_body :: iam_resp where
  "invalid_body = writeError 400 ''invalid request body''"

text \<open>The session cookie as \<open>http.SetCookie\<close> prints it.\<close>

definition session_cookie :: "bool \<Rightarrow> string \<Rightarrow> headers" where
  "session_cookie secure token = hset [] ''Set-Cookie'' (''openguard_session='' @ token @ ''; Path=/; Max-Age=3600; HttpOnly'' @
     (if secure then ''; Secure'' else []) @ ''; SameSite=Strict'')"

definition cleared_cookie :: headers where
  "cleared_cookie = hset [] ''Set-Cookie''
     ''openguard_session=; Path=/; Expires=Thu, 01 Jan 1970 00:00:00 GMT; Max-Age=0; HttpOnly; Secure; SameSite=Strict''"

definition login_response :: "bool \<Rightarrow> User \<Rightarrow> TokenResponse \<Rightarrow> iam_resp" where
  "login_response secure user token = writeJSON (session_cookie secure (AccessToken token)) 200 (ILogin (Some user) (Some token))"

text \<open>How the callers of Login recognise a challenge: a user with a tenant and no email.\<close>

definition is_challenge :: "User \<Rightarrow> bool" where
  "is_challenge user \<longleftrightarrow> u_Email user = [] \<and> u_OrgID user \<noteq> []"

subsection \<open>Login, MFA, refresh, logout\<close>

definition LoginH :: "auth_io \<Rightarrow> http_req \<Rightarrow> iam_st \<Rightarrow> iam_resp \<times> iam_st" where
  "LoginH io rq st =
     (case dec_strs [''email'', ''password''] (rq_body rq) of
        None \<Rightarrow> (invalid_body, st)
      | Some body \<Rightarrow>
          (case Login (req_io io rq) (body ''email'') (body ''password'') (UserAgentOf rq) (rq_remote rq) st of
             (Inl e, st') \<Rightarrow>
               (if e = NilRedis then panicked
                else if e = ErrAccountSetup then writeJSON [] 403 (IErrorCode ''Account setup in progress'' ''ACCOUNT_SETUP_PENDING'')
                else writeError 401 ''Invalid credentials'', st')
           | (Inr (user, token), st') \<Rightarrow>
               if is_challenge user then (writeJSON [] 202 (IChallenge (AccessToken token)), st')
               else (let cookieSecure = a_getenv io ''COOKIE_SECURE'';
                         secure = (if cookieSecure \<noteq> [] then cookieSecure = ''true'' else a_getenv io ''ENV'' = ''prod'')
                     in (login_response secure user token, st'))))"

definition mfa_answer :: "(auth_io \<Rightarrow> string \<Rightarrow> string \<Rightarrow> string \<Rightarrow> string \<Rightarrow> iam_st \<Rightarrow> (auth_error, User \<times> TokenResponse) result \<times> iam_st) \<Rightarrow>
    string \<Rightarrow> auth_io \<Rightarrow> http_req \<Rightarrow> iam_st \<Rightarrow> iam_resp \<times> iam_st" where
  "mfa_answer verify reason io rq st =
     (case dec_strs [''mfa_challenge'', ''code''] (rq_body rq) of
        None \<Rightarrow> (invalid_body, st)
      | Some body \<Rightarrow>
          (case verify (req_io io rq) (body ''mfa_challenge'') (body ''code'') (UserAgentOf rq) (rq_remote rq) st of
             (Inl e, st') \<Rightarrow> (if e = NilRedis then panicked else writeError 401 reason, st')
           | (Inr (user, token), st') \<Rightarrow> (login_response True user token, st')))"

definition VerifyMFAH :: "auth_io \<Rightarrow> http_req \<Rightarrow> iam_st \<Rightarrow> iam_resp \<times> iam_st" where
  "VerifyMFAH = mfa_answer VerifyMFAAndLogin ''Invalid MFA code''"

definition VerifyBackupCodeH :: "auth_io \<Rightarrow> http_req \<Rightarrow> iam_st \<Rightarrow> iam_resp \<times> iam_st" where
  "VerifyBackupCodeH = mfa_answer VerifyBackupCodeAndLogin ''Invalid backup code''"

definition RefreshH :: "auth_io \<Rightarrow> http_req \<Rightarrow> iam_st \<Rightarrow> iam_resp \<times> iam_st" where
  "RefreshH io rq st =
     (case dec_strs [''refresh_token''] (rq_body rq) of
        None \<Rightarrow> (invalid_body, st)
      | Some body \<Rightarrow>
          (case RefreshTokenS (req_io io rq) (body ''refresh_token'') (UserAgentOf rq) (rq_remote rq) st of
             (Inl e, st') \<Rightarrow>
               (if e = ErrSessionRevokedRisk
                then writeJSON [] 401 (IErrorCode ''Session revoked due to suspicious activity'' ''SESSION_REVOKED_RISK'')
                else if e = ErrSessionCompromised
                then writeJSON [] 401 (IErrorCode (''Session compromised '' @ [CHR 0xE2, CHR 0x80, CHR 0x94] @ '' refresh token reuse detected'') ''SESSION_COMPROMISED'')
                else writeError 401 ''Invalid or expired refresh token'', st')
           | (Inr res, st') \<Rightarrow> (writeJSON [] 200 (ITokens res), st')))"

definition OAuthLoginH :: "auth_io \<Rightarrow> http_req \<Rightarrow> iam_st \<Rightarrow> iam_resp \<times> iam_st" where
  "OAuthLoginH io rq st =
     (case dec_strs [''email'', ''password'', ''client_id'', ''redirect_uri'', ''state'', ''code_challenge''] (rq_body rq) of
        None \<Rightarrow> (invalid_body, st)
      | Some body \<Rightarrow>
          (case Login (req_io io rq) (body ''email'') (body ''password'') (UserAgentOf rq) (rq_remote rq) st of
             (Inl e, st1) \<Rightarrow> (if e = NilRedis then panicked else writeError 401 ''Invalid credentials'', st1)
           | (Inr (user, _), st1) \<Rightarrow>
               if body ''code_challenge'' = [] then (writeError 400 ''code_challenge is required for OAuth login'', st1)
               else let code = a_uuid io ''auth_code'' in
                 (case StoreAuthCode (req_io io rq) code (u_OrgID user) (u_ID user) (body ''code_challenge'') st1 of
                    (Inl _, st2) \<Rightarrow> (writeError 500 ''failed to store auth code'', st2)
                  | (Inr _, st2) \<Rightarrow> (writeJSON [] 200 (IFields [(''id'', code), (''status'', body ''state'')]), st2))))"

definition MeH :: "auth_io \<Rightarrow> http_req \<Rightarrow> iam_st \<Rightarrow> iam_resp" where
  "MeH io rq st =
     (let userID = GetUserID (rq_ctx rq) in
      if userID = [] then writeError 401 ''Unauthorized''
      else (case GetUserByID (a_env io) (cx_rls (rq_ctx rq)) (st_db st) userID of
        Inl e \<Rightarrow> writeJSON [] 500 (IRepoErr e)
      | Inr user \<Rightarrow> writeJSON [] 200 (ILogin (Some user) None)))"

definition LogoutH :: "auth_io \<Rightarrow> http_req \<Rightarrow> iam_st \<Rightarrow> iam_resp \<times> iam_st" where
  "LogoutH io rq st =
     (let jti = GetJTI (rq_ctx rq); expiresAt = GetExpiresAt (rq_ctx rq) in
      if jti = [] then (writeError 400 ''invalid session: missing jti'', st)
      else (case Logout (req_io io rq) jti expiresAt st of
        (Inl _, st') \<Rightarrow> (writeError 500 ''logout failed'', st')
      | (Inr _, st') \<Rightarrow> (writeJSON cleared_cookie 200 (IFields [(''message'', ''Logged out'')]), st')))"

subsection \<open>Organisations, users, connectors, TOTP\<close>

definition CreateOrgH :: "auth_io \<Rightarrow> http_req \<Rightarrow> iam_st \<Rightarrow> iam_resp \<times> iam_st" where
  "CreateOrgH io rq st =
     (case dec_strs [''name''] (rq_body rq) of
        None \<Rightarrow> (invalid_body, st)
      | Some body \<Rightarrow>
          (case CreateOrg (a_env io) (st_db st) (a_uuid io ''org.id'') (a_uuid io ''slug'') (body ''name'') of
             Inl e \<Rightarrow> (writeJSON [] 500 (IRepoErr e), st)
           | Inr (i, db) \<Rightarrow> (writeJSON [] 201 (IFields [(''id'', i)]), in_db st db)))"

text \<open>Only the system tenant may name another tenant in the body.\<close>

definition target_org :: "string \<Rightarrow> string \<Rightarrow> string" where
  "target_org bodyOrg ctxOrg = (if bodyOrg = [] \<or> ctxOrg \<noteq> system_org then ctxOrg else bodyOrg)"

definition CreateUserH :: "auth_io \<Rightarrow> (string \<Rightarrow> string option) \<Rightarrow> http_req \<Rightarrow> iam_st \<Rightarrow> iam_resp \<times> iam_st" where
  "CreateUserH io bcrypt rq st =
     (case dec_strs [''org_id'', ''email'', ''password'', ''display_name'', ''role''] (rq_body rq) of
        None \<Rightarrow> (invalid_body, st)
      | Some body \<Rightarrow>
          (let ctxOrgID = GetOrgID (rq_ctx rq) in
           if ctxOrgID = [] then (writeError 401 ''Unauthorized: missing org_id'', st)
           else (case RegisterUser (req_io io rq) (bcrypt (body ''password''))
                   \<lparr>ru_OrgID = target_org (body ''org_id'') ctxOrgID, ru_Email = body ''email'', ru_Password = body ''password'',
                     ru_DisplayName = body ''display_name'', ru_Role = body ''role'', ru_SCIMExternalID = []\<rparr> st of
             (Inl e, st') \<Rightarrow> (writeJSON [] 500 (IUserErr e), st')
           | (Inr (i, _), st') \<Rightarrow> (writeJSON [] 201 (IFields [(''id'', i)]), st'))))"

definition ListConnectorsH :: "auth_io \<Rightarrow> http_req \<Rightarrow> iam_st \<Rightarrow> iam_resp" where
  "ListConnectorsH io rq st =
     (case ListConnectors (a_env io) (cx_rls (rq_ctx rq)) (st_db st) of
        Inl e \<Rightarrow> writeJSON [] 500 (IRepoErr e)
      | Inr cs \<Rightarrow> writeJSON [] 200 (IConnectors cs))"

definition ListUsersH :: "auth_io \<Rightarrow> http_req \<Rightarrow> iam_st \<Rightarrow> iam_resp" where
  "ListUsersH io rq st =
     (case ListUsers (a_env io) (st_db st) (GetOrgID (rq_ctx rq)) (Query rq ''filter'') of
        Inl e \<Rightarrow> writeJSON [] 500 (IRepoErr e)
      | Inr us \<Rightarrow> writeJSON [] 200 (IUsers us))"

definition connector_member :: "string \<Rightarrow> json \<Rightarrow> (string \<Rightarrow> string) \<times> string list option \<Rightarrow> ((string \<Rightarrow> string) \<times> string list option) option" where
  "connector_member k j x =
     (if key_is k ''redirect_uris'' then map_option (\<lambda>v. (fst x, v)) (dec_slice j)
      else map_option (\<lambda>m. (m, snd x)) (str_member [''id'', ''name'', ''client_secret''] k j (fst x)))"

definition CreateConnectorH :: "auth_io \<Rightarrow> bool \<Rightarrow> http_req \<Rightarrow> iam_st \<Rightarrow> iam_resp \<times> iam_st" where
  "CreateConnectorH io commit_ok rq st =
     (case dec_struct connector_member ((\<lambda>_. []), None) (rq_body rq) of
        None \<Rightarrow> (invalid_body, st)
      | Some (body, uris) \<Rightarrow>
          (case CreateConnector (a_env io) (st_db st) (a_uuid io ''org.id'') (body ''id'') (body ''name'') (body ''client_secret'') uris commit_ok of
             (Inl e, db) \<Rightarrow> (writeJSON [] 500 (IRepoErr e), in_db st db)
           | (Inr orgID, db) \<Rightarrow> (writeJSON [] 201 (IFields [(''id'', body ''id''), (''org_id'', orgID)]), in_db st db)))"

definition update_connector_member :: "string \<Rightarrow> json \<Rightarrow> (string \<Rightarrow> string) \<times> string list option \<Rightarrow> ((string \<Rightarrow> string) \<times> string list option) option" where
  "update_connector_member k j x =
     (if key_is k ''redirect_uris'' then map_option (\<lambda>v. (fst x, v)) (dec_slice j)
      else map_option (\<lambda>m. (m, snd x)) (str_member [''name''] k j (fst x)))"

definition UpdateConnectorH :: "auth_io \<Rightarrow> http_req \<Rightarrow> iam_st \<Rightarrow> iam_resp \<times> iam_st" where
  "UpdateConnectorH io rq st =
     (case dec_struct update_connector_member ((\<lambda>_. []), None) (rq_body rq) of
        None \<Rightarrow> (invalid_body, st)
      | Some (body, uris) \<Rightarrow>
          (case UpdateConnector (a_env io) (cx_rls (rq_ctx rq)) (st_db st) (rq_param rq ''id'') (body ''name'') uris of
             Inl e \<Rightarrow> (writeJSON [] 500 (IRepoErr e), st)
           | Inr db \<Rightarrow> (writeJSON [] 200 (IFields [(''status'', ''updated'')]), in_db st db)))"

definition DeleteConnectorH :: "auth_io \<Rightarrow> http_req \<Rightarrow> iam_st \<Rightarrow> iam_resp \<times> iam_st" where
  "DeleteConnectorH io rq st =
     (case DeleteConnector (a_env io) (cx_rls (rq_ctx rq)) (st_db st) (rq_param rq ''id'') of
        Inl e \<Rightarrow> (writeJSON [] 500 (IRepoErr e), st)
      | Inr db \<Rightarrow> (writeJSON [] 200 (IFields [(''status'', ''deleted'')]), in_db st db))"

definition ReprovisionUserH :: "auth_io \<Rightarrow> http_req \<Rightarrow> iam_st \<Rightarrow> iam_resp \<times> iam_st" where
  "ReprovisionUserH io rq st =
     (let orgID = GetOrgID (rq_ctx rq) in
      if orgID = [] then (writeError 401 ''Unauthorized: missing org_id'', st)
      else (case ReprovisionUser (req_io io rq) orgID (rq_param rq ''id'') st of
        (Inl e, st') \<Rightarrow> (writeJSON [] 500 (IUserErr e), st')
      | (Inr _, st') \<Rightarrow> (writeJSON [] 200 (IFields [(''status'', ''reprovisioning_started'')]), st')))"

text \<open>TOTPSetup: \<open>generate\<close> is the key generator of the otp library.\<close>

definition TOTPSetupH :: "auth_io \<Rightarrow> (string \<Rightarrow> (string \<times> string) option) \<Rightarrow> http_req \<Rightarrow> iam_st \<Rightarrow> iam_resp" where
  "TOTPSetupH io generate rq st =
     (case GetUserByID (a_env io) (cx_rls (rq_ctx rq)) (st_db st) (GetUserID (rq_ctx rq)) of
        Inl e \<Rightarrow> writeJSON [] 500 (IRepoErr e)
      | Inr user \<Rightarrow> (case generate (u_Email user) of
          None \<Rightarrow> writeJSON [] 500 (IError ''generate'')
        | Some (secret, url) \<Rightarrow> writeJSON [] 200 (IFields [(''secret'', secret), (''url'', url)])))"

definition TOTPEnableH :: "auth_io \<Rightarrow> http_req \<Rightarrow> iam_st \<Rightarrow> iam_resp \<times> iam_st" where
  "TOTPEnableH io rq st =
     (case dec_strs [''code'', ''secret''] (rq_body rq) of
        None \<Rightarrow> (invalid_body, st)
      | Some body \<Rightarrow>
          (case EnableTOTP (req_io io rq) (GetOrgID (rq_ctx rq)) (GetUserID (rq_ctx rq)) (body ''code'') (body ''secret'') st of
             (Inl e, st') \<Rightarrow> (writeJSON [] 400 (IAuthErr e), st')
           | (Inr codes, st') \<Rightarrow> (writeJSON [] 200 (ICodes codes), st')))"

subsection \<open>OAuth\<close>

text \<open>\<open>url.QueryEscape\<close>.\<close>

definition unreserved :: "char \<Rightarrow> bool" where
  "unreserved c \<longleftrightarrow> (let n = of_char c :: nat in 48 \<le> n \<and> n \<le> 57 \<or> 65 \<le> n \<and> n \<le> 90 \<or> 97 \<le> n \<and> n \<le> 122) \<or>
     c \<in> {CHR ''-'', CHR ''_'', CHR ''.'', CHR 0x7E}"

definition upper_hex :: "nat \<Rightarrow> char" where
  "upper_hex n = (if n < 10 then char_of (48 + n) else char_of (55 + n))"

definition QueryEscape :: "string \<Rightarrow> string" where
  "QueryEscape s = concat (map (\<lambda>c. if unreserved c then [c] else if c = CHR '' '' then ''+''
     else [CHR ''%'', upper_hex (of_char c div 16), upper_hex (of_char c mod 16)]) s)"

text \<open>Authorize; the dashboard URL is absolute, so \<open>http.Redirect\<close> sends the location as it is.\<close>

definition AuthorizeH :: "auth_io \<Rightarrow> http_req \<Rightarrow> iam_st \<Rightarrow> iam_resp" where
  "AuthorizeH io rq st =
     (let clientID = Query rq ''client_id''; redirectURI = Query rq ''redirect_uri''; state = Query rq ''state'';
          codeChallenge = Query rq ''code_challenge''; codeChallengeMethod = Query rq ''code_challenge_method''
      in if clientID = [] \<or> redirectURI = [] then writeError 400 ''missing client_id or redirect_uri''
         else if codeChallenge = [] then writeError 400 ''code_challenge required''
         else if codeChallengeMethod \<noteq> ''S256'' then writeError 400 ''only S256 code_challenge_method supported''
         else (case GetConnectorByID (a_env io) (cx_rls (rq_ctx rq)) (st_db st) clientID of
           Inl _ \<Rightarrow> writeError 401 ''invalid client_id''
         | Inr connector \<Rightarrow>
             if redirectURI \<notin> set (con_RedirectURIs connector) then writeError 401 ''invalid redirect_uri''
             else (let dashboardURL = (if a_getenv io ''OPENGUARD_DASHBOARD_URL'' = [] then ''http://localhost:4200''
                       else a_getenv io ''OPENGUARD_DASHBOARD_URL'');
                     loginURL = dashboardURL @ ''/login?client_id='' @ QueryEscape clientID @ ''&redirect_uri='' @ QueryEscape redirectURI @
                       ''&state='' @ QueryEscape state @ ''&code_challenge='' @ QueryEscape codeChallenge @
                       ''&code_challenge_method='' @ QueryEscape codeChallengeMethod
                   in \<lparr>rs_code = 302, rs_headers = hset (hset [] ''Location'' loginURL) ''Content-Type'' ''text/html; charset=utf-8'',
                        rs_body = IRedirect loginURL\<rparr>)))"

definition tokens_request :: "auth_io \<Rightarrow> http_req \<Rightarrow> string \<Rightarrow> string \<Rightarrow> IssueTokensRequest" where
  "tokens_request io rq orgID userID = \<lparr>it_OrgID = orgID, it_UserID = userID, it_UserAgent = UserAgentOf rq, it_IPAddress = rq_remote rq,
     it_FamilyID = a_uuid io ''family''\<rparr>"

definition issue_response :: "(auth_error, TokenResponse) result \<times> iam_st \<Rightarrow> iam_resp \<times> iam_st" where
  "issue_response r = (case r of
      (Inl _, st) \<Rightarrow> (writeError 500 ''failed to issue tokens'', st)
    | (Inr res, st) \<Rightarrow> (writeJSON [] 200 (ITokens res), st))"

text \<open>base64.RawURLEncoding of the SHA-256 of the verifier.\<close>

definition s256 :: "(string \<Rightarrow> string) \<Rightarrow> string \<Rightarrow> string" where
  "s256 sha256 verifier = filter (\<lambda>c. c \<noteq> CHR ''='') (map url_char (EncodeToString (sha256 verifier)))"

definition handleAuthCodeGrant :: "auth_io \<Rightarrow> (string \<times> string) list \<Rightarrow> http_req \<Rightarrow> iam_st \<Rightarrow> iam_resp \<times> iam_st" where
  "handleAuthCodeGrant io form rq st =
     (let clientID = (if hget form ''client_id'' = [] then rq_basic_user rq else hget form ''client_id'');
          code = hget form ''code''; codeVerifier = hget form ''code_verifier''
      in if clientID = [] \<or> code = [] \<or> codeVerifier = [] then (writeError 400 ''missing client_id, code, or code_verifier'', st)
         else (case GetConnectorByID (a_env io) (cx_rls (rq_ctx rq)) (st_db st) clientID of
           Inl _ \<Rightarrow> (writeError 401 ''invalid client_id'', st)
         | Inr _ \<Rightarrow>
             (case GetAuthCode (req_io io rq) code st of
                (Inl _, st1) \<Rightarrow> (writeError 401 ''invalid or expired code'', st1)
              | (Inr (orgID, userID, storedChallenge), st1) \<Rightarrow>
                  if s256 (a_sha256 io) codeVerifier \<noteq> storedChallenge then (writeError 401 ''invalid code_verifier'', st1)
                  else issue_response (IssueTokens (req_io io rq) (tokens_request io rq orgID userID) st1))))"

definition handleRefreshTokenGrant :: "auth_io \<Rightarrow> (string \<times> string) list \<Rightarrow> http_req \<Rightarrow> iam_st \<Rightarrow> iam_resp \<times> iam_st" where
  "handleRefreshTokenGrant io form rq st =
     (let refreshToken = hget form ''refresh_token'' in
      if refreshToken = [] then (writeError 400 ''missing refresh_token'', st)
      else (case RefreshTokenS (req_io io rq) refreshToken (UserAgentOf rq) (rq_remote rq) st of
        (Inl e, st') \<Rightarrow> (writeJSON [] 401 (IAuthErr e), st')
      | (Inr res, st') \<Rightarrow> (writeJSON [] 200 (ITokens res), st')))"

definition handlePasswordGrant :: "auth_io \<Rightarrow> (string \<times> string) list \<Rightarrow> http_req \<Rightarrow> iam_st \<Rightarrow> iam_resp \<times> iam_st" where
  "handlePasswordGrant io form rq st =
     (let email = hget form ''username''; password = hget form ''password'' in
      if email = [] \<or> password = [] then (writeError 400 ''missing username or password'', st)
      else (case Login (req_io io rq) email password (UserAgentOf rq) (rq_remote rq) st of
        (Inl e, st1) \<Rightarrow> (if e = NilRedis then panicked else writeError 401 ''invalid credentials'', st1)
      | (Inr (user, token), st1) \<Rightarrow>
          if is_challenge user then (writeJSON [] 403 (IMfaRequired (AccessToken token)), st1)
          else issue_response (IssueTokens (again (req_io io rq)) (tokens_request (again io) rq (u_OrgID user) (u_ID user)) st1)))"

definition TokenH :: "auth_io \<Rightarrow> http_req \<Rightarrow> iam_st \<Rightarrow> iam_resp \<times> iam_st" where
  "TokenH io rq st =
     (case rq_form rq of
        None \<Rightarrow> (writeError 400 ''invalid form'', st)
      | Some form \<Rightarrow>
          (let grantType = (if hget form ''grant_type'' = [] then ''authorization_code'' else hget form ''grant_type'') in
           if grantType = ''authorization_code'' then handleAuthCodeGrant io form rq st
           else if grantType = ''refresh_token'' then handleRefreshTokenGrant io form rq st
           else if grantType = ''password'' then handlePasswordGrant io form rq st
           else (writeError 400 ''unsupported_grant_type'', st)))"

definition JWKSH :: "auth_io \<Rightarrow> iam_resp" where
  "JWKSH io = writeJSON [] 200 (IKeys (map (\<lambda>k. (Kid k, Algorithm k)) (a_keyring io)))"

subsection \<open>SCIM\<close>

definition mapToScim :: "User \<Rightarrow> scimUser" where
  "mapToScim user = \<lparr>su_ID = u_ID user, su_ExternalID = (case u_SCIMExternalID user of None \<Rightarrow> [] | Some e \<Rightarrow> e),
     su_UserName = u_Email user, su_DisplayName = u_DisplayName user, su_Active = (u_Status user = ''active''),
     su_Emails = [(u_Email user, True)], su_Version = CHR ''v'' # itoa (u_Version user), su_Location = ''/scim/v2/Users/'' @ u_ID user\<rparr>"

definition writeScimError :: "int \<Rightarrow> string \<Rightarrow> iam_body \<Rightarrow> iam_resp" where
  "writeScimError status scimType detail = \<lparr>rs_code = status, rs_headers = hset [] ''Content-Type'' ''application/scim+json'',
     rs_body = IScimError scimType detail\<rparr>"

definition parseIntParam :: "string \<Rightarrow> int \<Rightarrow> int" where
  "parseIntParam s def = (if s = [] then def else (case Sscanf_d s of None \<Rightarrow> def | Some n \<Rightarrow> n))"

definition ListScimUsersH :: "auth_io \<Rightarrow> http_req \<Rightarrow> iam_st \<Rightarrow> iam_resp" where
  "ListScimUsersH io rq st =
     (let orgID = GetSCIMOrgID (rq_ctx rq) in
      if orgID = [] then writeScimError 401 ''unauthorized'' (IError ''Missing SCIM context'')
      else (let startIndex = max (parseIntParam (Query rq ''startIndex'') 1) 1;
                n = min (parseIntParam (Query rq ''count'') 100) 1000
            in case ListUsersPaginated (a_env io) (st_db st) orgID (Query rq ''filter'') (startIndex - 1) n of
                 Inl e \<Rightarrow> writeScimError 500 ''internal'' (IRepoErr e)
               | Inr (us, all) \<Rightarrow> writeJSON [] 200 (IScimList all startIndex (map mapToScim us))))"

text \<open>The body of POST /Users; fields the handler does not read are still type-checked.\<close>

record scim_payload =
  pl_ExternalID :: string
  pl_DisplayName :: string
  pl_Emails :: "(string \<times> bool) list"

definition email_member :: "string \<Rightarrow> json \<Rightarrow> string \<times> bool \<Rightarrow> (string \<times> bool) option" where
  "email_member k j x =
     (if key_is k ''value'' then map_option (\<lambda>v. (v, snd x)) (dec_string j (fst x))
      else if key_is k ''primary'' then map_option (\<lambda>v. (fst x, v)) (dec_bool j (snd x))
      else Some x)"

fun dec_emails :: "json list \<Rightarrow> (string \<times> bool) list option" where
  "dec_emails [] = Some []"
| "dec_emails (j # js) = (case dec_struct email_member ([], False) (Some j) of
      None \<Rightarrow> None | Some e \<Rightarrow> map_option ((#) e) (dec_emails js))"

fun dec_email_field :: "json \<Rightarrow> (string \<times> bool) list option" where
  "dec_email_field JNull = Some []"
| "dec_email_field (JArr js) = dec_emails js"
| "dec_email_field _ = None"

definition scim_member :: "string \<Rightarrow> json \<Rightarrow> scim_payload \<Rightarrow> scim_payload option" where
  "scim_member k j x =
     (if key_is k ''schemas'' then map_option (\<lambda>_. x) (dec_slice j)
      else if key_is k ''id'' \<or> key_is k ''username'' then map_option (\<lambda>_. x) (dec_string j [])
      else if key_is k ''externalid'' then map_option (\<lambda>v. x\<lparr>pl_ExternalID := v\<rparr>) (dec_string j (pl_ExternalID x))
      else if key_is k ''displayname'' then map_option (\<lambda>v. x\<lparr>pl_DisplayName := v\<rparr>) (dec_string j (pl_DisplayName x))
      else if key_is k ''active'' then map_option (\<lambda>_. x) (dec_bool j False)
      else if key_is k ''emails'' then map_option (\<lambda>v. x\<lparr>pl_Emails := v\<rparr>) (dec_email_field j)
      else if key_is k ''meta'' then map_option (\<lambda>_. x)
        (dec_strs [''resourcetype'', ''created'', ''lastmodified'', ''version'', ''location''] (Some j))
      else Some x)"

definition scim_email :: "(string \<times> bool) list \<Rightarrow> string" where
  "scim_email es =
     (let email = (case find snd es of None \<Rightarrow> [] | Some (v, _) \<Rightarrow> v) in
      if email = [] \<and> es \<noteq> [] then fst (hd es) else email)"

definition scim_ctx :: "http_req \<Rightarrow> string \<Rightarrow> go_ctx" where
  "scim_ctx rq orgID = WithOrgID (cx_rls (rq_ctx rq)) orgID"

definition PostScimUserH :: "auth_io \<Rightarrow> (string \<Rightarrow> string option) \<Rightarrow> http_req \<Rightarrow> iam_st \<Rightarrow> iam_resp \<times> iam_st" where
  "PostScimUserH io bcrypt rq st =
     (let orgID = GetSCIMOrgID (rq_ctx rq); io' = io\<lparr>a_ctx := scim_ctx rq orgID\<rparr> in
      if orgID = [] then (writeScimError 401 ''unauthorized'' (IError ''Missing SCIM context''), st)
      else (case dec_struct scim_member \<lparr>pl_ExternalID = [], pl_DisplayName = [], pl_Emails = []\<rparr> (rq_body rq) of
        None \<Rightarrow> (writeScimError 400 ''invalidSyntax'' (IError ''json''), st)
      | Some payload \<Rightarrow>
          (let password = GenerateRandomString (a_rand io ''scim.password'') in
           case RegisterUser io' (bcrypt password) \<lparr>ru_OrgID = orgID, ru_Email = scim_email (pl_Emails payload), ru_Password = password,
               ru_DisplayName = pl_DisplayName payload, ru_Role = ''user'', ru_SCIMExternalID = pl_ExternalID payload\<rparr> st of
             (Inl UserConflict, st') \<Rightarrow> (writeScimError 409 ''conflict''
                 (IError ''user was deprovisioned; create a new SCIM user or reprovision''), st')
           | (Inl e, st') \<Rightarrow> (writeScimError 500 ''internal'' (IUserErr e), st')
           | (Inr (i, created), st') \<Rightarrow>
               (case GetUserByID (a_env io) (a_ctx io') (st_db st') i of
                  Inl _ \<Rightarrow> (panicked, st')
                | Inr user \<Rightarrow> (writeJSON [] (if created then 201 else 200) (IScimUser (mapToScim user)), st')))))"

definition GetScimUserH :: "auth_io \<Rightarrow> http_req \<Rightarrow> iam_st \<Rightarrow> iam_resp" where
  "GetScimUserH io rq st =
     (case GetUserByID (a_env io) (scim_ctx rq (GetSCIMOrgID (rq_ctx rq))) (st_db st) (rq_param rq ''id'') of
        Inl _ \<Rightarrow> writeScimError 404 ''notFound'' (IError ''User not found'')
      | Inr user \<Rightarrow> if u_Status user = ''deprovisioned'' then writeScimError 404 ''notFound'' (IError ''User not found'')
          else writeJSON [] 200 (IScimUser (mapToScim user)))"

definition DeleteScimUserH :: "auth_io \<Rightarrow> http_req \<Rightarrow> iam_st \<Rightarrow> iam_resp \<times> iam_st" where
  "DeleteScimUserH io rq st =
     (case DeleteUser (io\<lparr>a_ctx := scim_ctx rq (GetSCIMOrgID (rq_ctx rq))\<rparr>) (rq_param rq ''id'') st of
        (Inl e, st') \<Rightarrow> (writeScimError 500 ''internal'' (IUserErr e), st')
      | (Inr _, st') \<Rightarrow> (\<lparr>rs_code = 204, rs_headers = [], rs_body = IEmpty\<rparr>, st'))"

definition op_member :: "string \<Rightarrow> json \<Rightarrow> ScimPatchOp \<Rightarrow> ScimPatchOp option" where
  "op_member k j x =
     (if key_is k ''op'' then map_option (\<lambda>v. x\<lparr>sp_Op := v\<rparr>) (dec_string j (sp_Op x))
      else if key_is k ''path'' then map_option (\<lambda>v. x\<lparr>sp_Path := v\<rparr>) (dec_string j (sp_Path x))
      else if key_is k ''value'' then Some (x\<lparr>sp_Value := Some j\<rparr>)
      else Some x)"

fun dec_ops :: "json list \<Rightarrow> ScimPatchOp list option" where
  "dec_ops [] = Some []"
| "dec_ops (j # js) = (case dec_struct op_member \<lparr>sp_Op = [], sp_Path = [], sp_Value = None\<rparr> (Some j) of
      None \<Rightarrow> None | Some x \<Rightarrow> map_option ((#) x) (dec_ops js))"

fun dec_ops_field :: "json \<Rightarrow> ScimPatchOp list option" where
  "dec_ops_field JNull = Some []"
| "dec_ops_field (JArr js) = dec_ops js"
| "dec_ops_field _ = None"

definition patch_member :: "string \<Rightarrow> json \<Rightarrow> ScimPatchOp list \<Rightarrow> ScimPatchOp list option" where
  "patch_member k j x =
     (if key_is k ''schemas'' then map_option (\<lambda>_. x) (dec_slice j)
      else if key_is k ''operations'' then dec_ops_field j else Some x)"

definition PatchScimUserH :: "auth_io \<Rightarrow> http_req \<Rightarrow> iam_st \<Rightarrow> iam_resp \<times> iam_st" where
  "PatchScimUserH io rq st =
     (case dec_struct patch_member [] (rq_body rq) of
        None \<Rightarrow> (writeScimError 400 ''invalidSyntax'' (IError ''json''), st)
      | Some ops \<Rightarrow>
          (case PatchUser (io\<lparr>a_ctx := scim_ctx rq (GetSCIMOrgID (rq_ctx rq))\<rparr>) (rq_param rq ''id'') ops st of
             (Inl e, st') \<Rightarrow> (writeScimError 500 ''internal'' (IUserErr e), st')
           | (Inr user, st') \<Rightarrow> (writeJSON [] 200 (IScimUser (mapToScim user)), st')))"

subsection \<open>Properties\<close>

subsubsection \<open>The MFA challenge and the OAuth login\<close>

definition mfa_st :: iam_st where
  "mfa_st = challenged\<lparr>st_db := (st_db challenged)\<lparr>connectors := [\<lparr>con_ID = ''c1'', con_OrgID = ''o1'', con_Name = ''app'',
     con_ClientSecret = [], con_RedirectURIs = [''https://app'']\<rparr>]\<rparr>\<rparr>"

definition json_request :: "(string \<times> json) list \<Rightarrow> http_req" where
  "json_request ms = token_request\<lparr>rq_headers := [], rq_body := Some (JObj ms)\<rparr>"

definition form_request :: "(string \<times> string) list \<Rightarrow> http_req" where
  "form_request ms = token_request\<lparr>rq_headers := [], rq_form := Some ms\<rparr>"

definition is_tokens :: "iam_resp \<Rightarrow> bool" where
  "is_tokens rs = (case rs_body rs of ITokens _ \<Rightarrow> rs_code rs = 200 | _ \<Rightarrow> False)"

text \<open>
  The OAuth login bypasses MFA: for a user with a TOTP secret the login
  endpoint answers 202 with a challenge, but the OAuth login endpoint stores an
  authorization code for the same password, and the token endpoint exchanges it
  for tokens; no TOTP code is asked for.
\<close>

theorem oauth_login_skips_mfa:
  "(let login = [(''email'', JStr ''e''), (''password'', JStr ''pw''), (''code_challenge'', JStr (s256 (\<lambda>s. s) ''v''))];
       st1 = snd (OAuthLoginH calm_io (json_request login) mfa_st)
   in rs_code (fst (LoginH calm_io (json_request login) mfa_st)) = 202 \<and>
      rs_code (fst (OAuthLoginH calm_io (json_request login) mfa_st)) = 200 \<and>
      is_tokens (fst (TokenH calm_io (form_request [(''client_id'', ''c1''), (''code'', ''auth_code''), (''code_verifier'', ''v'')]) st1)))"
  by code_simp

text \<open>
  C11. The authorization-code grant: a 200 answer means that the client is
  registered, that the code was stored with the challenge of exactly the given
  verifier, and that the tokens are issued for the tenant and user stored with
  the code.  The client is not compared with the one the code was issued to.
\<close>

theorem code_grant_requires_verifier:
  assumes "handleAuthCodeGrant io form rq st = (rs, st')" "rs_code rs = 200"
  shows "\<exists>orgID userID st1 c. GetAuthCode (req_io io rq) (hget form ''code'') st =
       (Ok (orgID, userID, s256 (a_sha256 io) (hget form ''code_verifier'')), st1) \<and>
     GetConnectorByID (a_env io) (cx_rls (rq_ctx rq)) (st_db st)
       (if hget form ''client_id'' = [] then rq_basic_user rq else hget form ''client_id'') = Ok c \<and>
     (\<exists>res. IssueTokens (req_io io rq) (tokens_request io rq orgID userID) st1 = (Ok res, st') \<and> rs_body rs = ITokens res)"
  using assms
  by (auto simp: handleAuthCodeGrant_def Let_def writeError_def writeJSON_def issue_response_def
      split: if_splits sum.splits prod.splits)

lemma CreateUser_row:
  "CreateUser env db i o' em pw n r s = Ok (i', db') \<Longrightarrow>
   \<exists>u. users db' = users db @ [u] \<and> pg_uuid (ie_pg env) o' = Some (u_OrgID u)"
  by (auto simp: CreateUser_def repo_unfold split: if_splits option.splits)

lemma publish_saga_users: "publish_saga io o' k p st = (res, st') \<Longrightarrow> users (st_db st') = users (st_db st)"
  by (auto simp: publish_saga_def CreateOutboxEvent_def split: sum.splits if_splits option.splits)

lemma RegisterUser_row:
  assumes "RegisterUser io hashed req st = (res, st')" "ru_SCIMExternalID req = []"
  shows "users (st_db st') = users (st_db st) \<or>
     (\<exists>u. users (st_db st') = users (st_db st) @ [u] \<and> pg_uuid (ie_pg (a_env io)) (ru_OrgID req) = Some (u_OrgID u))"
  using assms
  by (auto simp: RegisterUser_def dest!: CreateUser_row publish_saga_users split: option.splits if_splits sum.splits prod.splits)

text \<open>
  Whoever is not the system tenant creates users in the own tenant only: the
  user table is unchanged or gains one row, and that row has the tenant of the
  caller's token, whatever tenant the body names.
\<close>

theorem create_user_in_callers_tenant:
  assumes "CreateUserH io bcrypt rq st = (rs, st')" "GetOrgID (rq_ctx rq) \<noteq> system_org"
  shows "users (st_db st') = users (st_db st) \<or>
     (\<exists>u. users (st_db st') = users (st_db st) @ [u] \<and> pg_uuid (ie_pg (a_env io)) (GetOrgID (rq_ctx rq)) = Some (u_OrgID u))"
  using assms
  by (auto simp: CreateUserH_def Let_def target_org_def req_io_def dest!: RegisterUser_row split: option.splits if_splits sum.splits prod.splits)

text \<open>
  The tenant of the SCIM token plays no role in a lookup by id: with a role
  that bypasses row-level security the user of any tenant is returned, and under
  row-level security, whose setting is gone when the query runs, none is.
\<close>

theorem scim_lookup_ignores_tenant:
  assumes "\<forall>op. ie_flt (a_env io) op = NoFault" "pg_uuid (ie_pg (a_env io)) (rq_param rq ''id'') = Some i"
    "find (\<lambda>u. u_ID u = i) (users (st_db st)) = Some user" "u_Status user \<noteq> ''deprovisioned''"
  shows "rs_code (GetScimUserH io rq st) = (if rls_enforced (ie_pg (a_env io)) then 404 else 200)"
proof (cases "rls_enforced (ie_pg (a_env io))")
  case True
  have "find (\<lambda>u. False) xs = None" for xs :: "User list" by (induction xs) auto
  with True show ?thesis
    using assms by (simp add: GetScimUserH_def GetUserByID_def repo_unfold enforced_hides writeScimError_def)
next
  case False
  then show ?thesis
    using assms by (simp add: GetScimUserH_def GetUserByID_def repo_unfold writeJSON_def profile_columns_def)
qed

subsubsection \<open>The token endpoint behind the idempotency middleware\<close>

text \<open>A handler whose body is encoded; \<open>enc\<close> is the JSON encoder.\<close>

definition sent :: "(iam_body \<Rightarrow> string) \<Rightarrow> (http_req \<Rightarrow> iam_st \<Rightarrow> iam_resp \<times> iam_st) \<Rightarrow> http_req \<Rightarrow> iam_st \<Rightarrow> string http_resp \<times> iam_st" where
  "sent enc handler rq st = (case handler rq st of (rs, st') \<Rightarrow>
     (\<lparr>rs_code = rs_code rs, rs_headers = rs_headers rs, rs_body = enc (rs_body rs)\<rparr>, st'))"

text \<open>
  The token endpoint is not authenticated, so the idempotency middleware
  files all its answers under the empty tenant: after a successful grant, every
  caller who sends the same idempotency key within 24 hours receives the tokens
  of that grant, with any form, the wrong password or none.
\<close>

theorem token_endpoint_replays_tokens:
  assumes first: "is_write rq" "hget (rq_headers rq) ''Idempotency-Key'' \<noteq> []" "GetOrgID (rq_ctx rq) = []"
    and miss: "st_rdb st = Some r" "rget (a_clock io) (idem_key (a_sha256 io) rq) r = None"
    and granted: "TokenH io rq st = (rs, st')" "rs_code rs = 200" "st_rdb st' = Some r'"
    and other: "is_write rq'" "hget (rq_headers rq') ''Idempotency-Key'' = hget (rq_headers rq) ''Idempotency-Key''" "GetOrgID (rq_ctx rq') = []"
    and redis: "a_redis io ''idem.set'' = Delivered" "a_redis io' ''idem.get'' = Delivered" "a_sha256 io' = a_sha256 io"
    and clock: "a_clock io' < a_clock io + idempotencyTTL"
  shows "\<exists>st1 rs'. snd (IdempotencyMiddleware io (sent enc (TokenH io)) rq st) = st1 \<and>
     IdempotencyMiddleware io' (sent enc (TokenH io')) rq' st1 = (Some rs', st1) \<and> rs_code rs' = 200 \<and> rs_body rs' = enc (rs_body rs)"
proof -
  let ?rs = "\<lparr>rs_code = rs_code rs, rs_headers = rs_headers rs, rs_body = enc (rs_body rs)\<rparr>"
  have h: "sent enc (TokenH io) rq st = (?rs, st')" by (simp add: sent_def granted(1))
  have "\<exists>st1 rs'. IdempotencyMiddleware io (sent enc (TokenH io)) rq st = (Some ?rs, st1) \<and>
      IdempotencyMiddleware io' (sent enc (TokenH io')) rq' st1 = (Some rs', st1) \<and> rs_code rs' = rs_code ?rs \<and> rs_body rs' = rs_body ?rs"
    by (rule replay [where hdl = "sent enc (TokenH io)", OF first(1,2) miss h granted(3)]) (use assms in simp_all)
  then show ?thesis using granted(2) by auto
qed

subsubsection \<open>Witnesses\<close>

definition code_form :: "(string \<times> string) list" where
  "code_form = [(''client_id'', ''c1''), (''code'', ''k''), (''code_verifier'', ''v'')]"

definition code_st :: iam_st where
  "code_st = snd (StoreAuthCode calm_io ''k'' ''o1'' ''u1'' (s256 (\<lambda>s. s) ''v'') mfa_st)"

theorem code_grant_requires_verifier_witness:
  "\<exists>orgID userID st1. GetAuthCode (req_io calm_io token_request) (hget code_form ''code'') code_st =
     (Ok (orgID, userID, s256 (a_sha256 calm_io) (hget code_form ''code_verifier'')), st1)"
proof -
  have "rs_code (fst (handleAuthCodeGrant calm_io code_form token_request code_st)) = 200" by code_simp
  with code_grant_requires_verifier [of calm_io code_form token_request code_st] show ?thesis
    by (metis prod.collapse)
qed

definition user_request :: http_req where
  "user_request = (json_request [(''org_id'', JStr ''o2''), (''email'', JStr ''new'')])\<lparr>rq_ctx := empty_ctx\<lparr>cx_org_id := Some ''o1''\<rparr>\<rparr>"

theorem create_user_in_callers_tenant_witness:
  "\<exists>u. users (st_db (snd (CreateUserH calm_io Some user_request sample_st))) = users (st_db sample_st) @ [u] \<and>
     pg_uuid (ie_pg (a_env calm_io)) (GetOrgID (rq_ctx user_request)) = Some (u_OrgID u)"
proof -
  have "length (users (st_db (snd (CreateUserH calm_io Some user_request sample_st)))) \<noteq> length (users (st_db sample_st))"
    "GetOrgID (rq_ctx user_request) \<noteq> system_org" by code_simp+
  with create_user_in_callers_tenant [of calm_io Some user_request sample_st] show ?thesis
    by (metis prod.collapse)
qed

theorem scim_lookup_ignores_tenant_witness:
  "rs_code (GetScimUserH calm_io (token_request\<lparr>rq_param := (\<lambda>_. ''u1''), rq_ctx := empty_ctx\<lparr>cx_scim_org_id := Some ''o2''\<rparr>\<rparr>) sample_st) = 200"
  by (subst scim_lookup_ignores_tenant [where i = "''u1''" and user = sample_user])
    (simp_all add: calm_io_def calm_env_def sample_st_def sample_user_def)

definition code_request :: http_req where "code_request = token_request\<lparr>rq_form := Some code_form\<rparr>"

theorem token_endpoint_replays_tokens_witness:
  "\<exists>st1 rs'. snd (IdempotencyMiddleware calm_io (sent (\<lambda>_. ''b'') (TokenH calm_io)) code_request code_st) = st1 \<and>
     IdempotencyMiddleware calm_io (sent (\<lambda>_. ''b'') (TokenH calm_io)) token_request st1 = (Some rs', st1) \<and> rs_code rs' = 200 \<and>
     rs_body rs' = ''b''"
proof -
  have "case st_rdb code_st of None \<Rightarrow> False | Some r \<Rightarrow> rget (a_clock calm_io) (idem_key (a_sha256 calm_io) code_request) r = None" by code_simp
  then obtain r where r: "st_rdb code_st = Some r" "rget (a_clock calm_io) (idem_key (a_sha256 calm_io) code_request) r = None"
    by (auto split: option.splits)
  have g: "rs_code (fst (TokenH calm_io code_request code_st)) = 200" by code_simp
  have "st_rdb (snd (TokenH calm_io code_request code_st)) \<noteq> None" by code_simp
  then obtain r' where r': "st_rdb (snd (TokenH calm_io code_request code_st)) = Some r'" by blast
  show ?thesis
    by (rule token_endpoint_replays_tokens [OF _ _ _ r prod.collapse [symmetric] g r'])
      (simp_all add: code_request_def token_request_def is_write_def hget_def GetOrgID_def ctx_str_def empty_ctx_def
        calm_io_def idempotencyTTL_def time_units)
qed

end
