(* ===== verification/IAM_Schema.thy ===== *)
theory IAM_Schema
  imports IAM_Store
begin

text \<open>
  The schema of services/iam/migrations as a well-formedness predicate on the
  tables of the IAM service, and that every statement of the repository keeps
  it: primary keys and unique constraints, foreign keys, and the 32-bit range of the
  counters.
\<close>

definition user_ok :: "iam_db \<Rightarrow> User \<Rightarrow> bool" where
  "user_ok db u \<longleftrightarrow> u_OrgID u \<in> org_id ` set (orgs db) \<and> 0 \<le> u_FailedLoginCount u \<and> u_FailedLoginCount u \<le> int4_max
     \<and> 1 \<le> u_Version u \<and> u_Version u \<le> int4_max"

definition owned :: "iam_db \<Rightarrow> string \<Rightarrow> string \<Rightarrow> bool" where
  "owned db org uid \<longleftrightarrow> org \<in> org_id ` set (orgs db) \<and> uid \<in> u_ID ` set (users db)"

definition orgs_ok :: "iam_db \<Rightarrow> bool" where
  "orgs_ok db \<longleftrightarrow> distinct (map org_id (orgs db)) \<and> distinct (map org_slug (orgs db))"

definition users_ok :: "iam_db \<Rightarrow> bool" where
  "users_ok db \<longleftrightarrow> distinct (map u_ID (users db)) \<and> distinct (map (\<lambda>u. (u_OrgID u, u_Email u)) (users db)) \<and> list_all (user_ok db) (users db)"

definition sessions_ok :: "iam_db \<Rightarrow> bool" where
  "sessions_ok db \<longleftrightarrow> distinct (map s_JTI (sessions db)) \<and> list_all (\<lambda>s. owned db (s_OrgID s) (s_UserID s)) (sessions db)"

definition tokens_ok :: "iam_db \<Rightarrow> bool" where
  "tokens_ok db \<longleftrightarrow> distinct (map rt_TokenHash (refresh_tokens db)) \<and> list_all (\<lambda>t. owned db (rt_OrgID t) (rt_UserID t)) (refresh_tokens db)"

definition mfa_ok :: "iam_db \<Rightarrow> bool" where
  "mfa_ok db \<longleftrightarrow> distinct (map (\<lambda>m. (m_UserID m, m_MFAType m)) (mfa_configs db)) \<and> list_all (\<lambda>m. owned db (m_OrgID m) (m_UserID m)) (mfa_configs db)"

definition connectors_ok :: "iam_db \<Rightarrow> bool" where
  "connectors_ok db \<longleftrightarrow> distinct (map con_ID (connectors db)) \<and> list_all (\<lambda>c. con_OrgID c \<in> org_id ` set (orgs db)) (connectors db)"

definition iam_ok :: "iam_db \<Rightarrow> bool" where
  "iam_ok db \<longleftrightarrow> orgs_ok db \<and> users_ok db \<and> sessions_ok db \<and> tokens_ok db \<and> mfa_ok db \<and> connectors_ok db"

lemmas schema_defs = iam_ok_def orgs_ok_def users_ok_def sessions_ok_def tokens_ok_def mfa_ok_def connectors_ok_def owned_def user_ok_def

subsection \<open>The statements that write\<close>

inductive iam_step :: "iam_db \<Rightarrow> iam_db \<Rightarrow> bool" where
  "CreateUser env db i orgID email pw name role status = Ok (i', db') \<Longrightarrow> iam_step db db'"
| "UpdateUserStatus env ctx db uid status = Ok db' \<Longrightarrow> iam_step db db'"
| "UpdateUserDisplayName env ctx db uid name = Ok db' \<Longrightarrow> iam_step db db'"
| "IncrementFailedLogin env db email = (r, db') \<Longrightarrow> iam_step db db'"
| "ResetFailedLogin env ctx db email = Ok db' \<Longrightarrow> iam_step db db'"
| "LockAccount env ctx db email t = Ok db' \<Longrightarrow> iam_step db db'"
| "UpdateUserSCIM env ctx db uid ext status = Ok db' \<Longrightarrow> iam_step db db'"
| "EnableUserMFA env ctx db uid b m = Ok db' \<Longrightarrow> iam_step db db'"
| "DeprovisionAllUsers env db orgID = Ok db' \<Longrightarrow> iam_step db db'"
| "CreateSession env db orgID uid jti ua addr t = Ok db' \<Longrightarrow> iam_step db db'"
| "RevokeSessions env ctx db uid = Ok db' \<Longrightarrow> iam_step db db'"
| "CreateRefreshToken env db i orgID uid h fam t = Ok db' \<Longrightarrow> iam_step db db'"
| "RevokeRefreshTokenFamily env ctx db fam = Ok db' \<Longrightarrow> iam_step db db'"
| "ClaimRefreshToken env ctx db h = Ok (tok, db') \<Longrightarrow> iam_step db db'"
| "RevokeRefreshTokenFamilyByHash env ctx db h = Ok db' \<Longrightarrow> iam_step db db'"
| "DeleteRefreshToken env ctx db h = Ok db' \<Longrightarrow> iam_step db db'"
| "UpsertMFAConfig env db orgID uid m sec = Ok db' \<Longrightarrow> iam_step db db'"
| "StoreBackupCodes env ctx db uid hs = Ok db' \<Longrightarrow> iam_step db db'"
| "ConsumeBackupCode env ctx db uid h = Ok (used, db') \<Longrightarrow> iam_step db db'"
| "CreateOrg env db i u8 name = Ok (i', db') \<Longrightarrow> iam_step db db'"
| "CreateConnector env db norg i name sec uris c = (r, db') \<Longrightarrow> iam_step db db'"
| "UpdateConnector env ctx db i name uris = Ok db' \<Longrightarrow> iam_step db db'"
| "DeleteConnector env ctx db i = Ok db' \<Longrightarrow> iam_step db db'"
| "CreateOutboxEvent env db i orgID topic key p = Ok db' \<Longrightarrow> iam_step db db'"

subsection \<open>Tables updated in place\<close>

lemma map_upd: "(\<And>x. f (g x) = f x) \<Longrightarrow> map f (map (\<lambda>x. if P x then g x else x) xs) = map f xs"
  by (induction xs) simp_all

lemma list_all_upd: "(\<And>x. P x \<Longrightarrow> Q x \<Longrightarrow> Q (g x)) \<Longrightarrow> list_all Q xs \<Longrightarrow> list_all Q (map (\<lambda>x. if P x then g x else x) xs)"
  by (induction xs) auto

lemma keys_upd: "(\<And>x. f (g x) = f x) \<Longrightarrow> f ` set (map (\<lambda>x. if P x then g x else x) xs) = f ` set xs"
  using map_upd [of f g P xs] by (metis set_map)

lemma distinct_filter_map: "distinct (map f xs) \<Longrightarrow> distinct (map f (filter P xs))"
  by (rule distinct_map_filter)

lemma list_all_filter: "list_all Q xs \<Longrightarrow> list_all Q (filter P xs)"
  by (auto simp: list_all_iff)

text \<open>Changing users in place keeps the schema when keys stay and counters stay in range.\<close>

lemma iam_ok_users:
  assumes ok: "iam_ok db" and keep: "\<And>u. u_ID (g u) = u_ID u" "\<And>u. u_OrgID (g u) = u_OrgID u" "\<And>u. u_Email (g u) = u_Email u"
    and fit: "\<And>u. u \<in> set (users db) \<Longrightarrow> P u \<Longrightarrow> user_ok db u \<Longrightarrow> user_ok db (g u)"
  shows "iam_ok (db\<lparr>users := map (\<lambda>u. if P u then g u else u) (users db)\<rparr>)"
proof -
  let ?us = "map (\<lambda>u. if P u then g u else u) (users db)"
  have ids: "map u_ID ?us = map u_ID (users db)" using keep(1) by (rule map_upd)
  have emails: "map (\<lambda>u. (u_OrgID u, u_Email u)) ?us = map (\<lambda>u. (u_OrgID u, u_Email u)) (users db)"
    by (rule map_upd) (simp add: keep)
  have "u_ID ` set ?us = u_ID ` set (users db)" using keep(1) by (rule keys_upd)
  then have own: "owned (db\<lparr>users := ?us\<rparr>) = owned db" by (auto simp: owned_def fun_eq_iff simp del: set_map)
  have "user_ok (db\<lparr>users := ?us\<rparr>) = user_ok db" by (simp add: user_ok_def fun_eq_iff)
  moreover have "list_all (user_ok db) ?us"
    using ok fit by (auto simp: iam_ok_def users_ok_def list_all_iff)
  ultimately show ?thesis
    using ok ids emails own by (simp add: iam_ok_def orgs_ok_def users_ok_def sessions_ok_def tokens_ok_def mfa_ok_def connectors_ok_def del: map_map)
qed

lemma iam_ok_sessions: "iam_ok db \<Longrightarrow> iam_ok (db\<lparr>sessions := filter P (sessions db)\<rparr>)"
  by (auto simp: schema_defs list_all_iff intro: distinct_filter_map)

lemma iam_ok_tokens_filter: "iam_ok db \<Longrightarrow> iam_ok (db\<lparr>refresh_tokens := filter P (refresh_tokens db)\<rparr>)"
  by (auto simp: schema_defs list_all_iff intro: distinct_filter_map)

lemma iam_ok_tokens:
  assumes "iam_ok db"
  shows "iam_ok (db\<lparr>refresh_tokens := map (\<lambda>t. if P t then t\<lparr>rt_Revoked := True\<rparr> else t) (refresh_tokens db)\<rparr>)"
proof -
  have "map rt_TokenHash (map (\<lambda>t. if P t then t\<lparr>rt_Revoked := True\<rparr> else t) (refresh_tokens db)) = map rt_TokenHash (refresh_tokens db)"
    by (rule map_upd) simp
  then show ?thesis using assms
    by (auto simp: schema_defs list_all_iff simp del: map_map)
qed

lemma iam_ok_mfa:
  assumes "iam_ok db" and g: "\<And>m. m_UserID (g m) = m_UserID m" "\<And>m. m_MFAType (g m) = m_MFAType m" "\<And>m. m_OrgID (g m) = m_OrgID m"
  shows "iam_ok (db\<lparr>mfa_configs := map (\<lambda>m. if P m then g m else m) (mfa_configs db)\<rparr>)"
proof -
  have "map (\<lambda>m. (m_UserID m, m_MFAType m)) (map (\<lambda>m. if P m then g m else m) (mfa_configs db)) = map (\<lambda>m. (m_UserID m, m_MFAType m)) (mfa_configs db)"
    by (rule map_upd) (simp add: g)
  then show ?thesis using assms
    by (auto simp: schema_defs list_all_iff simp del: map_map)
qed

lemma iam_ok_connectors:
  assumes "iam_ok db" and g: "\<And>c. con_ID (g c) = con_ID c" "\<And>c. con_OrgID (g c) = con_OrgID c"
  shows "iam_ok (db\<lparr>connectors := map (\<lambda>c. if P c then g c else c) (connectors db)\<rparr>)"
proof -
  have "map con_ID (map (\<lambda>c. if P c then g c else c) (connectors db)) = map con_ID (connectors db)"
    by (rule map_upd) (simp add: g)
  then show ?thesis using assms
    by (auto simp: schema_defs list_all_iff simp del: map_map)
qed

lemma iam_ok_connectors_filter: "iam_ok db \<Longrightarrow> iam_ok (db\<lparr>connectors := filter P (connectors db)\<rparr>)"
  by (auto simp: schema_defs list_all_iff intro: distinct_filter_map)

lemma iam_ok_outbox [simp]: "iam_ok (db\<lparr>iam_outbox := rows\<rparr>) = iam_ok db"
  by (simp add: schema_defs list_all_iff)

lemma iam_ok_insert_org: "iam_ok db \<Longrightarrow> insert_org env conn i name slug db = Ok db' \<Longrightarrow> iam_ok db'"
  by (auto simp: insert_org_def schema_defs list_all_iff split: if_splits)

subsection \<open>Every statement keeps the schema\<close>

text \<open>Case analysis of a successful statement down to its guards.\<close>

lemmas stmt_defs = withOrgContext_def exec_uuid_def stmt_plain_def update_users_def

lemma version_fits: "u \<in> set (users db) \<Longrightarrow> version_room env conn P db \<Longrightarrow> sees env conn (u_OrgID u) \<and> P u \<Longrightarrow> u_Version u < int4_max"
  by (auto simp: version_room_def)

lemma iam_ok_CreateUser: "iam_ok db \<Longrightarrow> CreateUser env db i o' email pw name role status = Ok (i', db') \<Longrightarrow> iam_ok db'"
  by (auto simp: CreateUser_def stmt_defs schema_defs list_all_iff int4_max_def split: if_splits option.splits) blast+

lemma iam_ok_versioned:
  assumes "iam_ok db" "version_room env conn P db"
    and "\<And>u. u_ID (g u) = u_ID u" "\<And>u. u_OrgID (g u) = u_OrgID u" "\<And>u. u_Email (g u) = u_Email u"
      "\<And>u. u_FailedLoginCount (g u) = u_FailedLoginCount u" "\<And>u. u_Version (g u) = u_Version u + 1"
  shows "iam_ok (update_users env conn P g db)"
  unfolding update_users_def using assms
  by (intro iam_ok_users) (auto simp: user_ok_def dest: version_fits)

lemma iam_ok_UpdateUserStatus: "iam_ok db \<Longrightarrow> UpdateUserStatus env ctx db uid status = Ok db' \<Longrightarrow> iam_ok db'"
  by (auto simp: UpdateUserStatus_def withOrgContext_def exec_uuid_def intro!: iam_ok_versioned split: if_splits option.splits)

lemma iam_ok_UpdateUserDisplayName: "iam_ok db \<Longrightarrow> UpdateUserDisplayName env ctx db uid name = Ok db' \<Longrightarrow> iam_ok db'"
  by (auto simp: UpdateUserDisplayName_def withOrgContext_def exec_uuid_def intro!: iam_ok_versioned split: if_splits option.splits)

lemma iam_ok_UpdateUserSCIM: "iam_ok db \<Longrightarrow> UpdateUserSCIM env ctx db uid ext status = Ok db' \<Longrightarrow> iam_ok db'"
  by (auto simp: UpdateUserSCIM_def withOrgContext_def exec_uuid_def intro!: iam_ok_versioned split: if_splits option.splits)

lemma iam_ok_DeprovisionAllUsers: "iam_ok db \<Longrightarrow> DeprovisionAllUsers env db o' = Ok db' \<Longrightarrow> iam_ok db'"
  by (auto simp: DeprovisionAllUsers_def withOrgContext_def exec_uuid_def intro!: iam_ok_versioned split: if_splits option.splits)

lemma iam_ok_IncrementFailedLogin: "iam_ok db \<Longrightarrow> IncrementFailedLogin env db email = (r, db') \<Longrightarrow> iam_ok db'"
  by (auto simp: IncrementFailedLogin_def stmt_defs Let_def user_ok_def not_le intro!: iam_ok_users split: if_splits option.splits sum.splits)

lemma iam_ok_ResetFailedLogin: "iam_ok db \<Longrightarrow> ResetFailedLogin env ctx db email = Ok db' \<Longrightarrow> iam_ok db'"
  by (auto simp: ResetFailedLogin_def update_by_email_def stmt_defs Let_def user_ok_def int4_max_def intro!: iam_ok_users split: if_splits)

lemma iam_ok_LockAccount: "iam_ok db \<Longrightarrow> LockAccount env ctx db email t = Ok db' \<Longrightarrow> iam_ok db'"
  by (auto simp: LockAccount_def update_by_email_def stmt_defs Let_def user_ok_def intro!: iam_ok_users split: if_splits)

lemma iam_ok_EnableUserMFA: "iam_ok db \<Longrightarrow> EnableUserMFA env ctx db uid b m = Ok db' \<Longrightarrow> iam_ok db'"
  by (auto simp: EnableUserMFA_def stmt_defs user_ok_def intro!: iam_ok_users split: if_splits option.splits)

lemma iam_ok_CreateSession: "iam_ok db \<Longrightarrow> CreateSession env db o' uid jti ua addr t = Ok db' \<Longrightarrow> iam_ok db'"
  by (auto simp: CreateSession_def stmt_defs schema_defs list_all_iff split: if_splits option.splits)

lemma iam_ok_RevokeSessions: "iam_ok db \<Longrightarrow> RevokeSessions env ctx db uid = Ok db' \<Longrightarrow> iam_ok db'"
  by (auto simp: RevokeSessions_def stmt_defs intro!: iam_ok_sessions split: if_splits option.splits)

lemma iam_ok_CreateRefreshToken: "iam_ok db \<Longrightarrow> CreateRefreshToken env db i o' uid h fam t = Ok db' \<Longrightarrow> iam_ok db'"
  by (auto simp: CreateRefreshToken_def stmt_defs schema_defs list_all_iff split: if_splits option.splits)

lemma iam_ok_token_ops:
  "iam_ok db \<Longrightarrow> RevokeRefreshTokenFamily env ctx db fam = Ok db' \<Longrightarrow> iam_ok db'"
  "iam_ok db \<Longrightarrow> ClaimRefreshToken env ctx db h = Ok (tok, db') \<Longrightarrow> iam_ok db'"
  "iam_ok db \<Longrightarrow> RevokeRefreshTokenFamilyByHash env ctx db h = Ok db' \<Longrightarrow> iam_ok db'"
  "iam_ok db \<Longrightarrow> DeleteRefreshToken env ctx db h = Ok db' \<Longrightarrow> iam_ok db'"
  by (auto simp: RevokeRefreshTokenFamily_def ClaimRefreshToken_def RevokeRefreshTokenFamilyByHash_def DeleteRefreshToken_def stmt_defs
      revoke_family_def intro!: iam_ok_tokens iam_ok_tokens_filter split: if_splits option.splits)

lemma iam_ok_UpsertMFAConfig: "iam_ok db \<Longrightarrow> UpsertMFAConfig env db o' uid m sec = Ok db' \<Longrightarrow> iam_ok db'"
  by (auto simp: UpsertMFAConfig_def stmt_defs Let_def intro!: iam_ok_mfa split: if_splits option.splits)
    (auto simp: schema_defs list_all_iff)

lemma iam_ok_backup_ops:
  "iam_ok db \<Longrightarrow> StoreBackupCodes env ctx db uid hs = Ok db' \<Longrightarrow> iam_ok db'"
  "iam_ok db \<Longrightarrow> ConsumeBackupCode env ctx db uid h = Ok (used, db') \<Longrightarrow> iam_ok db'"
  by (auto simp: StoreBackupCodes_def ConsumeBackupCode_def stmt_defs Let_def intro!: iam_ok_mfa split: if_splits option.splits)

lemma iam_ok_CreateOrg: "iam_ok db \<Longrightarrow> CreateOrg env db i u8 name = Ok (i', db') \<Longrightarrow> iam_ok db'"
  by (auto simp: CreateOrg_def intro: iam_ok_insert_org split: if_splits sum.splits)

lemma iam_ok_CreateConnector: "iam_ok db \<Longrightarrow> CreateConnector env db norg i name sec uris c = (r, db') \<Longrightarrow> iam_ok db'"
  by (auto simp: CreateConnector_def insert_org_def schema_defs list_all_iff split: if_splits sum.splits)

lemma iam_ok_connector_ops:
  "iam_ok db \<Longrightarrow> UpdateConnector env ctx db i name uris = Ok db' \<Longrightarrow> iam_ok db'"
  "iam_ok db \<Longrightarrow> DeleteConnector env ctx db i = Ok db' \<Longrightarrow> iam_ok db'"
  by (auto simp: UpdateConnector_def DeleteConnector_def stmt_defs Let_def intro!: iam_ok_connectors iam_ok_connectors_filter
      split: if_splits option.splits)

lemma iam_ok_CreateOutboxEvent: "iam_ok db \<Longrightarrow> CreateOutboxEvent env db i o' topic key p = Ok db' \<Longrightarrow> iam_ok db'"
  by (auto simp: CreateOutboxEvent_def split: if_splits option.splits sum.splits)

lemmas iam_ok_stmts = iam_ok_CreateUser iam_ok_UpdateUserStatus iam_ok_UpdateUserDisplayName iam_ok_UpdateUserSCIM iam_ok_DeprovisionAllUsers
  iam_ok_IncrementFailedLogin iam_ok_ResetFailedLogin iam_ok_LockAccount iam_ok_EnableUserMFA iam_ok_CreateSession iam_ok_RevokeSessions
  iam_ok_CreateRefreshToken iam_ok_token_ops iam_ok_UpsertMFAConfig iam_ok_backup_ops iam_ok_CreateOrg iam_ok_CreateConnector
  iam_ok_connector_ops iam_ok_CreateOutboxEvent

lemma iam_step_ok: "iam_ok db \<Longrightarrow> iam_step db db' \<Longrightarrow> iam_ok db'"
  by (erule iam_step.cases) (metis iam_ok_stmts)+

interpretation iam_schema: step_invariant iam_step iam_ok
  by unfold_locales (rule iam_step_ok)

definition empty_iam :: iam_db where
  "empty_iam = \<lparr>orgs = [], users = [], sessions = [], refresh_tokens = [], mfa_configs = [], connectors = [], iam_outbox = []\<rparr>"


definition open_env :: iam_env where
  "open_env = \<lparr>ie_pg = \<lparr>rls_enforced = False, pg_uuid = Some, uuid_parse = (\<lambda>_. True)\<rparr>, ie_inet_in = Some, ie_inet_out = Some,
     ie_flt = (\<lambda>_. NoFault), ie_now = 0, ie_login_reads = (\<lambda>_. True)\<rparr>"


end
