(* ===== verification/Outbox_Spec.thy ===== *)
theory Outbox_Spec
  imports Outbox "HOL-Library.Multiset"
begin

text \<open>
  What the outbox promises to the services that write to it: an abstract
  mailbox, in which a message waits until it is sent or given up, may be sent
  again while it waits, and is never lost or made up.  Every transition of the table
  and the relay is a sequence of mailbox moves.
\<close>

type_synonym message = "string \<times> string \<times> string \<times> json"

record mailbox =
  waiting :: "message multiset"
  sent :: "message list"
  gone :: "message multiset"
  dropped :: "message multiset"

inductive mailbox_move :: "mailbox \<Rightarrow> mailbox \<Rightarrow> bool" where
  post: "mailbox_move b (b\<lparr>waiting := add_mset m (waiting b)\<rparr>)"
| send: "m \<in># waiting b \<Longrightarrow>
     mailbox_move b (b\<lparr>waiting := waiting b - {#m#}, sent := sent b @ [m], gone := add_mset m (gone b)\<rparr>)"
| duplicate: "m \<in># waiting b \<Longrightarrow> mailbox_move b (b\<lparr>sent := sent b @ [m]\<rparr>)"
| give_up: "m \<in># waiting b \<Longrightarrow>
     mailbox_move b (b\<lparr>waiting := waiting b - {#m#}, dropped := add_mset m (dropped b)\<rparr>)"

text \<open>The mailbox that a table and a Kafka log stand for.\<close>

definition with_status :: "(string \<Rightarrow> bool) \<Rightarrow> outbox_record list \<Rightarrow> message multiset" where
  "with_status P rows = image_mset msg (mset (filter (\<lambda>r. P (ob_status r)) rows))"

definition abs_box :: "outbox_record list \<times> outbox_record list \<Rightarrow> mailbox" where
  "abs_box st = \<lparr>waiting = with_status (\<lambda>s. s = ''pending'' \<or> s = ''failed'') (fst st), sent = map msg (snd st),
     gone = with_status (\<lambda>s. s = ''published'') (fst st), dropped = with_status (\<lambda>s. s = ''dead'') (fst st)\<rparr>"

subsection \<open>A batch that settles its rows one after the other\<close>

text \<open>The rows and the log after the first part of a batch.\<close>

definition after_batch :: "drain_env \<Rightarrow> outbox_record list \<Rightarrow> outbox_record list \<times> outbox_record list \<Rightarrow> outbox_record list \<times> outbox_record list" where
  "after_batch e recs st = (map (\<lambda>r. if r \<in> set recs then settled (d_now e) (d_publish e r) r else r) (fst st),
     snd st @ filter (\<lambda>r. d_publish e r = None) recs)"

lemma with_status_append: "with_status P (xs @ y # ys) = with_status P (xs @ ys) + (if P (ob_status y) then {#msg y#} else {#})"
  by (simp add: with_status_def)

lemma settle_move:
  assumes "eligible r"
  shows "mailbox_move\<^sup>*\<^sup>* (abs_box (xs @ r # ys, klog))
     (abs_box (xs @ settled now reply r # ys, klog @ (if reply = None then [r] else [])))"
proof -
  have w: "ob_status r = ''pending'' \<or> ob_status r = ''failed''" using assms by (auto simp: eligible_def)
  let ?b = "abs_box (xs @ r # ys, klog)"
  have m: "msg r \<in># waiting ?b" using w by (simp add: abs_box_def with_status_append)
  consider "reply = None" | "reply \<noteq> None" "ob_attempts r + 1 \<ge> maxAttempts" | "reply \<noteq> None" "ob_attempts r + 1 < maxAttempts" by linarith
  then show ?thesis
  proof cases
    case 1
    then have "abs_box (xs @ settled now reply r # ys, klog @ [r]) =
        ?b\<lparr>waiting := waiting ?b - {#msg r#}, sent := sent ?b @ [msg r], gone := add_mset (msg r) (gone ?b)\<rparr>"
      using w by (auto simp: abs_box_def with_status_append settled_def msg_def)
    with send [OF m] 1 show ?thesis by auto
  next
    case 2
    then have "abs_box (xs @ settled now reply r # ys, klog) =
        ?b\<lparr>waiting := waiting ?b - {#msg r#}, dropped := add_mset (msg r) (dropped ?b)\<rparr>"
      using w by (auto simp: abs_box_def with_status_append settled_def msg_def)
    with give_up [OF m] 2 show ?thesis by auto
  next
    case 3
    then have "abs_box (xs @ settled now reply r # ys, klog) = ?b"
      using w by (auto simp: abs_box_def with_status_append settled_def msg_def)
    with 3 show ?thesis by auto
  qed
qed

lemma batch_moves:
  assumes "distinct (map ob_id rows)" "distinct (map ob_id recs)" "set recs \<subseteq> set rows" "\<forall>r\<in>set recs. eligible r"
  shows "mailbox_move\<^sup>*\<^sup>* (abs_box (rows, klog)) (abs_box (after_batch e recs (rows, klog)))"
  using assms(2-)
proof (induction recs rule: rev_induct)
  case Nil
  then show ?case by (simp add: after_batch_def)
next
  case (snoc r recs)
  let ?f = "\<lambda>x. if x \<in> set recs then settled (d_now e) (d_publish e x) x else x"
  let ?g = "\<lambda>x. if x \<in> set (recs @ [r]) then settled (d_now e) (d_publish e x) x else x"
  have r: "r \<in> set rows" "r \<notin> set recs" "eligible r" using snoc.prems by auto
  then obtain xs ys where split: "rows = xs @ r # ys" by (metis split_list)
  have out: "r \<notin> set xs" "r \<notin> set ys" using assms(1) split by auto
  then have "map ?g xs = map ?f xs" "map ?g ys = map ?f ys" by (auto simp: map_eq_conv)
  then have new: "after_batch e (recs @ [r]) (rows, klog) = (map ?f xs @ settled (d_now e) (d_publish e r) r # map ?f ys,
      (klog @ filter (\<lambda>r. d_publish e r = None) recs) @ (if d_publish e r = None then [r] else []))"
    by (simp add: after_batch_def split)
  have old: "after_batch e recs (rows, klog) = (map ?f xs @ r # map ?f ys, klog @ filter (\<lambda>r. d_publish e r = None) recs)"
    using r(2) by (simp add: after_batch_def split)
  have "mailbox_move\<^sup>*\<^sup>* (abs_box (rows, klog)) (abs_box (after_batch e recs (rows, klog)))"
    using snoc by auto
  moreover have "mailbox_move\<^sup>*\<^sup>* (abs_box (after_batch e recs (rows, klog))) (abs_box (after_batch e (recs @ [r]) (rows, klog)))"
    unfolding old new by (rule settle_move [OF r(3)])
  ultimately show ?case by (rule rtranclp_trans)
qed

text \<open>A batch whose transaction is lost: its messages were sent and still wait.\<close>

lemma lost_batch_moves:
  assumes "set recs \<subseteq> set rows" "\<forall>r\<in>set recs. eligible r"
  shows "mailbox_move\<^sup>*\<^sup>* (abs_box (rows, klog)) (abs_box (rows, klog @ recs))"
  using assms
proof (induction recs rule: rev_induct)
  case (snoc r recs)
  have "msg r \<in># waiting (abs_box (rows, klog @ recs))"
    using snoc.prems by (auto simp: abs_box_def with_status_def eligible_def)
  from duplicate [OF this] have "mailbox_move (abs_box (rows, klog @ recs)) (abs_box (rows, klog @ recs @ [r]))"
    by (simp add: abs_box_def)
  moreover have "mailbox_move\<^sup>*\<^sup>* (abs_box (rows, klog)) (abs_box (rows, klog @ recs))" using snoc by auto
  ultimately show ?case by (rule rtranclp.rtrancl_into_rtrancl [rotated])
qed simp

lemma drain_moves:
  assumes "table_ok rows"
  shows "mailbox_move\<^sup>*\<^sup>* (abs_box (rows, klog)) (abs_box (drain e (rows, klog)))"
proof -
  have d: "distinct (map ob_id rows)" using assms by (simp add: table_ok_def)
  note h = handled_props [OF d, of e]
  show ?thesis
  proof (cases "d_commit_ok e \<and> (\<forall>r\<in>set (handled e rows). d_exec_ok e r)")
    case True
    then have "drain e (rows, klog) = after_batch e (handled e rows) (rows, klog)" by (simp add: drain_eq [OF d] after_batch_def)
    then show ?thesis using batch_moves [OF d h] by simp
  next
    case False
    have "set (filter (\<lambda>r. d_publish e r = None) (handled e rows)) \<subseteq> set rows" "\<forall>r\<in>set (filter (\<lambda>r. d_publish e r = None) (handled e rows)). eligible r"
      using h(2,3) by auto
    from lost_batch_moves [OF this] False show ?thesis by (auto simp: drain_eq [OF d])
  qed
qed

lemma step_moves: "outbox_step st st' \<Longrightarrow> outbox_inv st \<Longrightarrow> mailbox_move\<^sup>*\<^sup>* (abs_box st) (abs_box st')"
proof (induction rule: outbox_step.induct)
  case (insert_step cast new_id now rows orgID topic key payload rows' klog)
  then obtain r where r: "rows' = rows @ [r]" "ob_status r = ''pending''" by (auto dest: WriteTx_Ok)
  then have "abs_box (rows', klog) = (abs_box (rows, klog))\<lparr>waiting := add_mset (msg r) (waiting (abs_box (rows, klog)))\<rparr>"
    by (simp add: abs_box_def with_status_def)
  with post [of "abs_box (rows, klog)" "msg r"] show ?case by auto
next
  case (drain_step st e)
  then show ?case using drain_moves [of "fst st" "snd st" e] by (simp add: outbox_inv_def)
qed

subsection \<open>The refinement\<close>

text \<open>What a mailbox marks as gone it has sent, and it sends only what was posted.\<close>

definition box_ok :: "mailbox \<Rightarrow> bool" where
  "box_ok b \<longleftrightarrow> gone b \<subseteq># mset (sent b) \<and> set (sent b) \<subseteq> set_mset (waiting b + gone b + dropped b)"

lemma set_mset_take: "m \<in># A \<Longrightarrow> set_mset A = insert m (set_mset (A - {#m#}))"
  by (metis insert_DiffM set_mset_add_mset_insert)

lemma mailbox_move_ok: "box_ok b \<Longrightarrow> mailbox_move b b' \<Longrightarrow> box_ok b'"
proof (erule mailbox_move.cases, goal_cases)
  case (2 m b)
  then show ?case using set_mset_take [of m "waiting b"] by (auto simp: box_ok_def)
next
  case (4 m b)
  then show ?case using set_mset_take [of m "waiting b"] by (auto simp: box_ok_def)
qed (auto simp: box_ok_def intro: subset_mset.order_trans)

interpretation mail: step_invariant mailbox_move box_ok
  by unfold_locales (rule mailbox_move_ok)

text \<open>
  C5. The outbox refines the mailbox: from empty tables, every state that the
  writers and the relay can reach stands for a mailbox reachable by posting,
  sending, sending again while waiting, and giving up; what counts as published
  was sent, and nothing is sent that was not posted.
\<close>

theorem outbox_refines_mailbox:
  assumes "outbox_step\<^sup>*\<^sup>* ([], []) st"
  shows "mailbox_move\<^sup>*\<^sup>* \<lparr>waiting = {#}, sent = [], gone = {#}, dropped = {#}\<rparr> (abs_box st) \<and> box_ok (abs_box st)"
proof -
  have "mailbox_move\<^sup>*\<^sup>* (abs_box ([], [])) (abs_box st) \<and> outbox_inv st"
    using assms
  proof (induction rule: rtranclp_induct)
    case base
    then show ?case by (simp add: outbox_inv_def table_ok_def)
  next
    case (step st st')
    then show ?case using step_moves outbox_step_inv by (meson rtranclp_trans)
  qed
  then have "mailbox_move\<^sup>*\<^sup>* \<lparr>waiting = {#}, sent = [], gone = {#}, dropped = {#}\<rparr> (abs_box st)" by (simp add: abs_box_def with_status_def)
  moreover from mail.reach_inv [OF this] have "box_ok (abs_box st)" by (simp add: box_ok_def)
  ultimately show ?thesis by blast
qed

theorem outbox_refines_mailbox_witness:
  "mailbox_move\<^sup>*\<^sup>* \<lparr>waiting = {#}, sent = [], gone = {#}, dropped = {#}\<rparr> (abs_box ([settled 7 None sample_row], [sample_row]))
   \<and> box_ok (abs_box ([settled 7 None sample_row], [sample_row]))"
proof -
  have "outbox_step ([], []) ([sample_row], [])" using sample_insert by (rule insert_step) simp
  moreover have "outbox_step ([sample_row], []) ([settled 7 None sample_row], [sample_row])"
    using drain_step [of "([sample_row], [])" all_ok] sample_drain by simp
  ultimately have "outbox_step\<^sup>*\<^sup>* ([], []) ([settled 7 None sample_row], [sample_row])" by (meson rtranclp.rtrancl_refl rtranclp.rtrancl_into_rtrancl)
  then show ?thesis by (rule outbox_refines_mailbox)
qed

end
