(* ===== verification/Connector_Registry.thy ===== *)
theory Connector_Registry
  imports Middleware
begin

text \<open>
  The connector registry: services/connector-registry/pkg/repository,
  pkg/service and pkg/handlers.  A connector row lives in the table \<open>connectors\<close>
  of the IAM migrations; whether that table has the column \<open>status\<close> that the
  statements name, and with which default, is the field \<open>re_status\<close> of the
  environment (migration 008 creates the table without it).
\<close>

record reg_row =
  rr_id :: string
  rr_org :: string
  rr_name :: string
  rr_secret :: string
  rr_uris :: "string list"
  rr_prefix :: string
  rr_hash :: string
  rr_status :: string

record reg_env =
  re_pg :: pg_env
  re_flt :: "string \<Rightarrow> fault"
  re_status :: "string option"
  re_orgs :: "string list"

datatype reg_error = RegNotFound | RegErr string

definition withConn :: "reg_env \<Rightarrow> string \<Rightarrow> go_ctx \<Rightarrow> (pg_conn \<Rightarrow> (reg_error, 'a) result) \<Rightarrow> (reg_error, 'a) result" where
  "withConn env op ctx fn =
     (let orgID = Rls.OrgID ctx in
      if orgID = [] then Err (RegErr ''missing org_id in context'')
      else if re_flt env op = AcquireFault then Err (RegErr ''acquire connection'')
      else if re_flt env op = SetVarFault then Err (RegErr ''set session var'')
      else fn (SetSessionVar idle_conn orgID))"

definition reg_sees :: "reg_env \<Rightarrow> pg_conn \<Rightarrow> reg_row \<Rightarrow> bool" where
  "reg_sees env conn c \<longleftrightarrow> rls_visible (re_pg env) conn (rr_org c)"

definition CreateConnector :: "reg_env \<Rightarrow> go_ctx \<Rightarrow> reg_row list \<Rightarrow> string \<Rightarrow> string \<Rightarrow> string \<Rightarrow> string \<Rightarrow> string list option \<Rightarrow>
    string \<Rightarrow> string \<Rightarrow> (reg_error, reg_row list) result" where
  "CreateConnector env ctx db i orgID name secret uris pfx hash =
     withConn env ''CreateConnector'' ctx (\<lambda>conn.
       case (pg_uuid (re_pg env) orgID, uris) of
         (Some org, Some us) \<Rightarrow>
           if re_flt env ''CreateConnector'' = QueryFault \<or> org \<notin> set (re_orgs env) \<or> \<not> rls_visible (re_pg env) conn org
             \<or> i \<in> rr_id ` set db \<or> pfx \<in> rr_prefix ` set db \<or> hash \<in> rr_hash ` set db
           then Err (RegErr ''insert'')
           else Ok (db @ [\<lparr>rr_id = i, rr_org = org, rr_name = name, rr_secret = secret, rr_uris = us, rr_prefix = pfx, rr_hash = hash,
             rr_status = (case re_status env of None \<Rightarrow> [] | Some s \<Rightarrow> s)\<rparr>])
       | _ \<Rightarrow> Err (RegErr ''insert''))"

text \<open>The two SELECTs; both name the column \<open>status\<close>.\<close>

definition select_one :: "reg_env \<Rightarrow> string \<Rightarrow> go_ctx \<Rightarrow> reg_row list \<Rightarrow> (reg_row \<Rightarrow> bool) \<Rightarrow> (reg_error, reg_row) result" where
  "select_one env op ctx db P =
     withConn env op ctx (\<lambda>conn.
       if re_status env = None then Err (RegErr ''column status does not exist'')
       else if re_flt env op = QueryFault then Err (RegErr op)
       else (case find (\<lambda>c. P c \<and> reg_sees env conn c) db of None \<Rightarrow> Err RegNotFound | Some c \<Rightarrow> Ok c))"

definition GetConnectorByID :: "reg_env \<Rightarrow> go_ctx \<Rightarrow> reg_row list \<Rightarrow> string \<Rightarrow> (reg_error, reg_row) result" where
  "GetConnectorByID env ctx db i = select_one env ''GetConnectorByID'' ctx db (\<lambda>c. rr_id c = i)"

definition FindByPrefix :: "reg_env \<Rightarrow> go_ctx \<Rightarrow> reg_row list \<Rightarrow> string \<Rightarrow> (reg_error, reg_row) result" where
  "FindByPrefix env ctx db pfx = select_one env ''FindByPrefix'' ctx db (\<lambda>c. rr_prefix c = pfx)"

definition DeleteConnector :: "reg_env \<Rightarrow> go_ctx \<Rightarrow> reg_row list \<Rightarrow> string \<Rightarrow> (reg_error, reg_row list) result" where
  "DeleteConnector env ctx db i =
     withConn env ''DeleteConnector'' ctx (\<lambda>conn.
       if re_flt env ''DeleteConnector'' = QueryFault then Err (RegErr ''DeleteConnector'')
       else Ok (filter (\<lambda>c. \<not> (rr_id c = i \<and> reg_sees env conn c)) db))"

definition UpdateStatus :: "reg_env \<Rightarrow> go_ctx \<Rightarrow> reg_row list \<Rightarrow> string \<Rightarrow> string \<Rightarrow> (reg_error, reg_row list) result" where
  "UpdateStatus env ctx db i status =
     withConn env ''UpdateStatus'' ctx (\<lambda>conn.
       if re_status env = None then Err (RegErr ''column status does not exist'')
       else if re_flt env ''UpdateStatus'' = QueryFault then Err (RegErr ''UpdateStatus'')
       else Ok (map (\<lambda>c. if rr_id c = i \<and> reg_sees env conn c then c\<lparr>rr_status := status\<rparr> else c) db))"

subsection \<open>The service\<close>

text \<open>The cache: hash and connector by key prefix, each with its expiry.\<close>

record reg_redis =
  rd_hash :: "string \<Rightarrow> (string \<times> time) option"
  rd_data :: "string \<Rightarrow> (reg_row \<times> time) option"

record reg_st =
  rg_db :: "reg_row list"
  rg_rdb :: "reg_redis option"

record reg_io =
  g_env :: reg_env
  g_ctx :: go_ctx
  g_clock :: time
  g_rand :: "string \<Rightarrow> string option"
  g_pbkdf2 :: "string \<Rightarrow> string \<Rightarrow> int \<Rightarrow> nat \<Rightarrow> string"
  g_redis :: "string \<Rightarrow> redis_fault"

definition live :: "time \<Rightarrow> ('a \<times> time) option \<Rightarrow> 'a option" where
  "live now e = (case e of None \<Rightarrow> None | Some (v, t) \<Rightarrow> if now < t then Some v else None)"

text \<open>A read whose reply is lost is an error for the caller.\<close>

definition cache_get :: "redis_fault \<Rightarrow> time \<Rightarrow> ('a \<times> time) option \<Rightarrow> 'a option" where
  "cache_get f now e = (if f = Delivered then live now e else None)"

text \<open>generateAPIKey: \<open>ogk_\<close> and 24 random bytes in URL base64, or a fallback when the source fails.\<close>

definition generateAPIKey :: "reg_io \<Rightarrow> string" where
  "generateAPIKey io = (case g_rand io ''apikey'' of
      Some b \<Rightarrow> ''ogk_'' @ map url_char (EncodeToString b)
    | None \<Rightarrow> ''ogk_err_'' @ GenerateRandomString (case g_rand io ''fallback'' of None \<Rightarrow> [] | Some b \<Rightarrow> b))"

definition RegisterConnector :: "reg_io \<Rightarrow> string \<Rightarrow> string \<Rightarrow> string \<Rightarrow> string list option \<Rightarrow> reg_st \<Rightarrow> (reg_error, string) result \<times> reg_st" where
  "RegisterConnector io i orgID name uris st =
     (let apiKeyRaw = generateAPIKey io;
          pfx = take 12 apiKeyRaw;
          hash = HashPBKDF2 (g_pbkdf2 io) (case g_rand io ''salt'' of None \<Rightarrow> [] | Some b \<Rightarrow> b) apiKeyRaw;
          clientSecret = GenerateRandomString (case g_rand io ''secret'' of None \<Rightarrow> [] | Some b \<Rightarrow> b)
      in case CreateConnector (g_env io) (g_ctx io) (rg_db st) i orgID name clientSecret uris pfx hash of
        Inl e \<Rightarrow> (Err e, st)
      | Inr db \<Rightarrow> (Ok apiKeyRaw, st\<lparr>rg_db := db\<rparr>))"

text \<open>The answer from the cache: \<open>None\<close> when the database has to be asked.\<close>

definition cached_answer :: "reg_io \<Rightarrow> string \<Rightarrow> string \<Rightarrow> reg_redis option \<Rightarrow> (reg_error, reg_row) result option" where
  "cached_answer io apiKey pfx rdb =
     (case rdb of
        None \<Rightarrow> None
      | Some r \<Rightarrow>
          (case cache_get (g_redis io ''get.hash'') (g_clock io) (rd_hash r pfx) of
             None \<Rightarrow> None
           | Some cachedHash \<Rightarrow>
               if \<not> VerifyPBKDF2 (g_pbkdf2 io) apiKey cachedHash then Some (Err (RegErr ''invalid api key''))
               else (case cache_get (g_redis io ''get.data'') (g_clock io) (rd_data r pfx) of
                  None \<Rightarrow> None
                | Some connector \<Rightarrow>
                    if rr_status connector = ''suspended'' then Some (Err (RegErr ''connector is suspended''))
                    else Some (Ok connector))))"

definition store_key :: "reg_io \<Rightarrow> string \<Rightarrow> reg_row \<Rightarrow> reg_redis \<Rightarrow> reg_redis" where
  "store_key io pfx c r = (if g_redis io ''set'' = NotRun then r else
     r\<lparr>rd_hash := (rd_hash r)(pfx \<mapsto> (rr_hash c, g_clock io + 5 * Minute)), rd_data := (rd_data r)(pfx \<mapsto> (c, g_clock io + 5 * Minute))\<rparr>)"

definition drop_key :: "reg_io \<Rightarrow> string \<Rightarrow> reg_redis \<Rightarrow> reg_redis" where
  "drop_key io pfx r = (if g_redis io ''del'' = NotRun then r else
     r\<lparr>rd_hash := (rd_hash r)(pfx := None), rd_data := (rd_data r)(pfx := None)\<rparr>)"

text \<open>The part of ValidateAPIKey that asks the database, and its write to the cache.\<close>

definition validate_row :: "reg_io \<Rightarrow> string \<Rightarrow> reg_row list \<Rightarrow> (reg_error, reg_row) result" where
  "validate_row io apiKey db =
     (case FindByPrefix (g_env io) (g_ctx io) db (take 12 apiKey) of
        Inl e \<Rightarrow> Err e
      | Inr connector \<Rightarrow>
          if \<not> VerifyPBKDF2 (g_pbkdf2 io) apiKey (rr_hash connector) then Err (RegErr ''invalid api key'')
          else if rr_status connector = ''suspended'' then Err (RegErr ''connector is suspended'')
          else Ok connector)"

definition remember :: "reg_io \<Rightarrow> string \<Rightarrow> reg_row \<Rightarrow> reg_st \<Rightarrow> reg_st" where
  "remember io apiKey connector st = st\<lparr>rg_rdb := map_option (store_key io (take 12 apiKey) connector) (rg_rdb st)\<rparr>"

definition ValidateAPIKey :: "reg_io \<Rightarrow> string \<Rightarrow> reg_st \<Rightarrow> (reg_error, reg_row) result \<times> reg_st" where
  "ValidateAPIKey io apiKey st =
     (if length apiKey < 12 then (Err (RegErr ''invalid api key format''), st)
      else (case cached_answer io apiKey (take 12 apiKey) (rg_rdb st) of
        Some res \<Rightarrow> (res, st)
      | None \<Rightarrow>
          (case validate_row io apiKey (rg_db st) of
             Inl e \<Rightarrow> (Err e, st)
           | Inr connector \<Rightarrow> (Ok connector, remember io apiKey connector st))))"

text \<open>The cache entries of the connector, when it is found.\<close>

definition invalidate :: "reg_io \<Rightarrow> string \<Rightarrow> reg_st \<Rightarrow> reg_st" where
  "invalidate io i st =
     (case GetConnectorByID (g_env io) (g_ctx io) (rg_db st) i of
        Inl _ \<Rightarrow> st
      | Inr connector \<Rightarrow> st\<lparr>rg_rdb := map_option (drop_key io (rr_prefix connector)) (rg_rdb st)\<rparr>)"

definition SvcDeleteConnector :: "reg_io \<Rightarrow> string \<Rightarrow> reg_st \<Rightarrow> (reg_error, unit) result \<times> reg_st" where
  "SvcDeleteConnector io i st =
     (let st1 = invalidate io i st in
      case DeleteConnector (g_env io) (g_ctx io) (rg_db st1) i of
        Inl e \<Rightarrow> (Err e, st1) | Inr db \<Rightarrow> (Ok (), st1\<lparr>rg_db := db\<rparr>))"

definition SuspendConnector :: "reg_io \<Rightarrow> string \<Rightarrow> reg_st \<Rightarrow> (reg_error, unit) result \<times> reg_st" where
  "SuspendConnector io i st =
     (let st1 = invalidate io i st in
      case UpdateStatus (g_env io) (g_ctx io) (rg_db st1) i ''suspended'' of
        Inl e \<Rightarrow> (Err e, st1) | Inr db \<Rightarrow> (Ok (), st1\<lparr>rg_db := db\<rparr>))"

subsection \<open>Handlers\<close>

datatype reg_body = RegText reg_error | RegMissing | RegInvalid | RegKey string string | RegConnector reg_row

definition register_member :: "string \<Rightarrow> json \<Rightarrow> (string \<Rightarrow> string) \<times> string list option \<Rightarrow> ((string \<Rightarrow> string) \<times> string list option) option" where
  "register_member k j x =
     (if key_is k ''redirect_uris'' then map_option (\<lambda>v. (fst x, v)) (dec_slice j)
      else if ToLower k \<in> {''id'', ''org_id'', ''name''}
      then map_option (\<lambda>v. ((fst x)(ToLower k := v), snd x)) (dec_string j (fst x (ToLower k)))
      else Some x)"

definition RegisterH :: "reg_io \<Rightarrow> raw_json \<Rightarrow> reg_st \<Rightarrow> (int \<times> reg_body) \<times> reg_st" where
  "RegisterH io body st =
     (case dec_struct register_member ((\<lambda>_. []), None) body of
        None \<Rightarrow> ((400, RegInvalid), st)
      | Some (b, uris) \<Rightarrow>
          (case RegisterConnector io (b ''id'') (b ''org_id'') (b ''name'') uris st of
             (Inl e, st') \<Rightarrow> ((500, RegText e), st')
           | (Inr apiKey, st') \<Rightarrow> ((201, RegKey (b ''id'') apiKey), st')))"

definition ValidateH :: "reg_io \<Rightarrow> headers \<Rightarrow> reg_st \<Rightarrow> (int \<times> reg_body) \<times> reg_st" where
  "ValidateH io h st =
     (let apiKey = hget h ''X-Api-Key'' in
      if apiKey = [] then ((401, RegMissing), st)
      else (case ValidateAPIKey io apiKey st of
        (Inl e, st') \<Rightarrow> ((401, RegText e), st')
      | (Inr connector, st') \<Rightarrow> ((200, RegConnector connector), st')))"

subsection \<open>Properties\<close>

lemma VerifyPBKDF2_own:
  assumes "\<And>q s i n. length (f q s i n) = n"
  shows "VerifyPBKDF2 f pw (HashPBKDF2 f salt pw)"
  by (simp add: VerifyPBKDF2_def Split_stored scanned_iterations assms)

lemma CreateConnector_row:
  assumes "CreateConnector env ctx db i orgID name secret uris pfx hash = Ok db'" "re_status env = Some s"
  obtains org us where "pg_uuid (re_pg env) orgID = Some org" "pfx \<notin> rr_prefix ` set db"
    "db' = db @ [\<lparr>rr_id = i, rr_org = org, rr_name = name, rr_secret = secret, rr_uris = us, rr_prefix = pfx, rr_hash = hash, rr_status = s\<rparr>]"
  using assms by (auto simp: CreateConnector_def withConn_def Let_def split: if_splits option.splits)

lemma RegisterConnector_row:
  assumes "RegisterConnector io i orgID name uris st = (Ok key, st')" "re_status (g_env io) = Some s"
  shows "\<exists>org us secret salt. pg_uuid (re_pg (g_env io)) orgID = Some org \<and> take 12 key \<notin> rr_prefix ` set (rg_db st) \<and>
     rg_db st' = rg_db st @ [\<lparr>rr_id = i, rr_org = org, rr_name = name, rr_secret = secret, rr_uris = us, rr_prefix = take 12 key,
       rr_hash = HashPBKDF2 (g_pbkdf2 io) salt key, rr_status = s\<rparr>]"
proof -
  let ?k = "generateAPIKey io" and ?salt = "case g_rand io ''salt'' of None \<Rightarrow> [] | Some b \<Rightarrow> b"
    and ?secret = "GenerateRandomString (case g_rand io ''secret'' of None \<Rightarrow> [] | Some b \<Rightarrow> b)"
  from assms(1) obtain db where db: "CreateConnector (g_env io) (g_ctx io) (rg_db st) i orgID name ?secret uris (take 12 ?k)
      (HashPBKDF2 (g_pbkdf2 io) ?salt ?k) = Ok db" "key = ?k" "rg_db st' = db"
    by (auto simp: RegisterConnector_def Let_def split: sum.splits)
  from CreateConnector_row [OF db(1) assms(2)] show ?thesis unfolding db by metis
qed

lemma UpdateStatus_rows:
  "UpdateStatus env ctx db i s = Ok db' \<Longrightarrow>
   db' = map (\<lambda>c. if rr_id c = i \<and> reg_sees env (SetSessionVar idle_conn (Rls.OrgID ctx)) c then c\<lparr>rr_status := s\<rparr> else c) db"
  by (auto simp: UpdateStatus_def withConn_def Let_def split: if_splits)


lemma UpdateStatus_marks:
  assumes "UpdateStatus env ctx db i s = Ok db'" "\<not> rls_enforced (re_pg env)"
  shows "\<forall>c\<in>set db'. rr_id c = i \<longrightarrow> rr_status c = s"
  unfolding UpdateStatus_rows [OF assms(1)] using assms(2)
  by (induction db) (simp_all add: reg_sees_def del: set_map)

text \<open>
  A suspended connector's key is refused: once SuspendConnector has
  succeeded, its cache entries deleted, no validation of a key with the
  connector's prefix succeeds, from whichever state the suspension started.
\<close>

theorem suspended_key_refused:
  assumes sus: "SuspendConnector io i st = (Ok (), st')" "g_redis io ''del'' \<noteq> NotRun" "\<not> rls_enforced (re_pg (g_env io))"
    and row: "GetConnectorByID (g_env io) (g_ctx io) (rg_db st) i = Ok c" "rr_prefix c = take 12 key"
    and unique: "\<forall>d\<in>set (rg_db st). rr_prefix d = take 12 key \<longrightarrow> rr_id d = i"
  shows "\<not> is_ok (fst (ValidateAPIKey io' key st'))"
proof -
  have rdb: "rg_rdb st' = map_option (drop_key io (take 12 key)) (rg_rdb st)"
    and upd: "UpdateStatus (g_env io) (g_ctx io) (rg_db st) i ''suspended'' = Ok (rg_db st')"
    using sus(1) row by (auto simp: SuspendConnector_def invalidate_def Let_def split: sum.splits)
  have miss: "cached_answer io' key (take 12 key) (rg_rdb st') = None"
    using sus(2) by (cases "rg_rdb st") (simp_all add: rdb cached_answer_def drop_key_def cache_get_def live_def)
  have "\<forall>d\<in>set (rg_db st'). rr_prefix d = take 12 key \<longrightarrow> rr_id d = i"
    unfolding UpdateStatus_rows [OF upd] using unique by (induction "rg_db st") auto
  then have "rr_status d = ''suspended''" if "FindByPrefix (g_env io') (g_ctx io') (rg_db st') (take 12 key) = Ok d" for d
    using that UpdateStatus_marks [OF upd sus(3)]
    by (auto simp: FindByPrefix_def select_one_def withConn_def Let_def split: if_splits option.splits dest!: find_Some_iff_set)
  then have "\<not> is_ok (validate_row io' key (rg_db st'))"
    by (auto simp: validate_row_def split: sum.splits)
  then show ?thesis
    using miss by (cases "validate_row io' key (rg_db st')") (auto simp: ValidateAPIKey_def)
qed

text \<open>
  With the table as the migrations create it, without a status column, the
  registry cannot work: no key is ever validated and no connector suspended; both
  fail and leave the state as it was.
\<close>

theorem registry_needs_status_column:
  assumes "re_status (g_env io) = None" "rg_rdb st = None \<or> rg_rdb st = Some \<lparr>rd_hash = (\<lambda>_. None), rd_data = (\<lambda>_. None)\<rparr>"
  shows "(\<exists>e. ValidateAPIKey io key st = (Err e, st)) \<and> (\<exists>e. SuspendConnector io i st = (Err e, st))"
proof -
  have "\<exists>e. select_one (g_env io) op (g_ctx io) db P = Err e" "\<exists>e. UpdateStatus (g_env io) (g_ctx io) db i s = Err e" for op db P s
    using assms(1) by (simp_all add: select_one_def UpdateStatus_def withConn_def Let_def)
  then obtain e f where e: "select_one (g_env io) op (g_ctx io) db P = Err (e op db P)"
    "UpdateStatus (g_env io) (g_ctx io) db i s = Err (f db s)" for op db P s by metis
  have "cached_answer io key (take 12 key) (rg_rdb st) = None"
    using assms(2) by (auto simp: cached_answer_def cache_get_def live_def)
  then show ?thesis
    by (simp add: ValidateAPIKey_def validate_row_def FindByPrefix_def SuspendConnector_def invalidate_def GetConnectorByID_def e)
qed

text \<open>
  Validation and suspension are not ordered: a validation that read the row
  before the suspension writes its result to the cache after it, and the key of
  the suspended connector then validates until the entry expires, for up to five
  minutes.
\<close>

theorem suspension_race_keeps_key:
  assumes read: "validate_row io key (rg_db st) = Ok c" "12 \<le> length key"
    and suspended: "SuspendConnector io' i st = (Ok (), st1)" "rg_rdb st1 = Some r"
    and redis: "g_redis io ''set'' \<noteq> NotRun" "g_redis io2 ''get.hash'' = Delivered" "g_redis io2 ''get.data'' = Delivered"
    and later: "g_pbkdf2 io2 = g_pbkdf2 io" "g_clock io2 < g_clock io + 5 * Minute"
  shows "ValidateAPIKey io2 key (remember io key c st1) = (Ok c, remember io key c st1)"
proof -
  have c: "VerifyPBKDF2 (g_pbkdf2 io) key (rr_hash c)" "rr_status c \<noteq> ''suspended''"
    using read(1) by (auto simp: validate_row_def split: sum.splits if_splits)
  have "cached_answer io2 key (take 12 key) (Some (store_key io (take 12 key) c r)) = Some (Ok c)"
    using redis later c by (simp add: cached_answer_def cache_get_def live_def store_key_def)
  then show ?thesis using read(2) suspended(2) by (simp add: ValidateAPIKey_def remember_def)
qed

subsubsection \<open>Witnesses\<close>

definition reg_sample_env :: reg_env where
  "reg_sample_env = \<lparr>re_pg = \<lparr>rls_enforced = False, pg_uuid = Some, uuid_parse = (\<lambda>_. True)\<rparr>, re_flt = (\<lambda>_. NoFault),
     re_status = Some ''active'', re_orgs = [''o1'']\<rparr>"

definition reg_sample_io :: reg_io where
  "reg_sample_io = \<lparr>g_env = reg_sample_env, g_ctx = \<lparr>rls_org = Some ''o1''\<rparr>, g_clock = 0, g_rand = Some,
     g_pbkdf2 = (\<lambda>q s i n. replicate n (CHR ''h'')), g_redis = (\<lambda>_. Delivered)\<rparr>"

definition empty_reg :: reg_st where
  "empty_reg = \<lparr>rg_db = [], rg_rdb = Some \<lparr>rd_hash = (\<lambda>_. None), rd_data = (\<lambda>_. None)\<rparr>\<rparr>"

definition sample_key :: string where "sample_key = ''ogk_0123456789''"

definition sample_row :: reg_row where
  "sample_row = \<lparr>rr_id = ''c1'', rr_org = ''o1'', rr_name = ''app'', rr_secret = [], rr_uris = [], rr_prefix = ''ogk_01234567'',
     rr_hash = HashPBKDF2 (\<lambda>q s i n. replicate n (CHR ''h'')) ''salt'' sample_key, rr_status = ''active''\<rparr>"

definition one_reg :: reg_st where "one_reg = empty_reg\<lparr>rg_db := [sample_row]\<rparr>"

lemmas reg_sample = reg_sample_env_def reg_sample_io_def empty_reg_def sample_row_def one_reg_def sample_key_def

lemma sample_suspend:
  "SuspendConnector reg_sample_io ''c1'' one_reg =
     (Ok (), one_reg\<lparr>rg_db := [sample_row\<lparr>rr_status := ''suspended''\<rparr>]\<rparr>)"
  by (simp add: SuspendConnector_def invalidate_def GetConnectorByID_def select_one_def UpdateStatus_def withConn_def reg_sees_def
      drop_key_def reg_sample Rls.OrgID_def)


theorem suspended_key_refused_witness:
  "\<not> is_ok (fst (ValidateAPIKey reg_sample_io sample_key (one_reg\<lparr>rg_db := [sample_row\<lparr>rr_status := ''suspended''\<rparr>]\<rparr>)))"
  by (rule suspended_key_refused [OF sample_suspend, where c = sample_row])
    (simp_all add: GetConnectorByID_def select_one_def withConn_def reg_sees_def reg_sample Rls.OrgID_def)

theorem registry_needs_status_column_witness:
  "\<exists>e. ValidateAPIKey (reg_sample_io\<lparr>g_env := reg_sample_env\<lparr>re_status := None\<rparr>\<rparr>) sample_key empty_reg = (Err e, empty_reg)"
  using registry_needs_status_column [of "reg_sample_io\<lparr>g_env := reg_sample_env\<lparr>re_status := None\<rparr>\<rparr>" empty_reg sample_key]
  by (simp add: empty_reg_def)

theorem suspension_race_keeps_key_witness:
  "ValidateAPIKey reg_sample_io sample_key (remember reg_sample_io sample_key sample_row (one_reg\<lparr>rg_db := [sample_row\<lparr>rr_status := ''suspended''\<rparr>]\<rparr>)) =
     (Ok sample_row, remember reg_sample_io sample_key sample_row (one_reg\<lparr>rg_db := [sample_row\<lparr>rr_status := ''suspended''\<rparr>]\<rparr>))"
proof (rule suspension_race_keeps_key [OF _ _ sample_suspend])
  have "VerifyPBKDF2 (g_pbkdf2 reg_sample_io) sample_key (rr_hash sample_row)"
    using VerifyPBKDF2_own [of "\<lambda>q s i n. replicate n (CHR ''h'')"] by (simp add: reg_sample_io_def sample_row_def)
  moreover have "FindByPrefix (g_env reg_sample_io) (g_ctx reg_sample_io) (rg_db one_reg) (take 12 sample_key) = Ok sample_row"
    by (simp add: FindByPrefix_def select_one_def withConn_def reg_sees_def reg_sample Rls.OrgID_def)
  ultimately show "validate_row reg_sample_io sample_key (rg_db one_reg) = Ok sample_row"
    by (simp add: validate_row_def) (simp add: sample_row_def)
qed (simp_all add: reg_sample time_units)

end
