(* ===== verification/Alerting.thy ===== *)
theory Alerting
  imports Jwt "HOL-Library.Char_ord" "HOL-Library.List_Lexorder"
begin

text \<open>
  The alerting service: services/alerting/pkg/repository (the MongoDB collection
  of alerts), pkg/saga (what happens to an alert from Kafka), pkg/webhook (the
  signed delivery to a SIEM) and pkg/handlers.  A collection is the list of its
  documents in insertion order with unique \<open>_id\<close>; a nil slice is stored as null,
  which \<open>$push\<close> refuses.  The floating-point score and the raw event are kept
  as the JSON values they are; the time to resolve is the duration behind
  \<open>Seconds()\<close>.
\<close>

record SagaStep =
  ss_Step :: string
  ss_Status :: string
  ss_Error :: string
  ss_At :: time
  ss_Retries :: nat

record Alert =
  al_ID :: string
  al_OrgID :: string
  al_Type :: string
  al_Severity :: string
  al_Status :: string
  al_RiskScore :: json
  al_DetectorID :: string
  al_RawEvent :: json
  al_SagaSteps :: "SagaStep list option"
  al_CreatedAt :: time
  al_AckAt :: "time option"
  al_ResolvedAt :: "time option"
  al_MTTR :: time

definition StatusOpen :: string where "StatusOpen = ''open''"
definition StatusAcknowledged :: string where "StatusAcknowledged = ''acknowledged''"
definition StatusResolved :: string where "StatusResolved = ''resolved''"

lemmas status_defs = StatusOpen_def StatusAcknowledged_def StatusResolved_def

subsection \<open>The repository\<close>

text \<open>Each statement fails, or runs; \<open>up\<close> says which.\<close>

definition Create :: "bool \<Rightarrow> Alert \<Rightarrow> Alert list \<Rightarrow> (string, unit) result \<times> Alert list" where
  "Create up alert db =
     (if \<not> up then (Err ''mongo'', db)
      else if al_ID alert \<in> al_ID ` set db then (Err ''duplicate key'', db)
      else (Ok (), db @ [alert]))"

definition alert_filter :: "string \<Rightarrow> string \<Rightarrow> string \<Rightarrow> string \<Rightarrow> Alert \<Rightarrow> bool" where
  "alert_filter orgID status severity cursor a \<longleftrightarrow> al_OrgID a = orgID \<and> (status \<noteq> [] \<longrightarrow> al_Status a = status) \<and>
     (severity \<noteq> [] \<longrightarrow> al_Severity a = severity) \<and> (cursor \<noteq> [] \<longrightarrow> cursor < al_ID a)"

text \<open>A limit of zero is no limit; a negative one counts as its absolute value.\<close>

definition mongo_limit :: "int \<Rightarrow> 'a list \<Rightarrow> 'a list" where
  "mongo_limit n xs = (if n = 0 then xs else take (nat \<bar>n\<bar>) xs)"

definition ListA :: "bool \<Rightarrow> string \<Rightarrow> string \<Rightarrow> string \<Rightarrow> string \<Rightarrow> int \<Rightarrow> Alert list \<Rightarrow> (string, Alert list \<times> string) result" where
  "ListA up orgID status severity cursor limit db =
     (if \<not> up then Err ''mongo''
      else let alerts = mongo_limit limit (sort_key al_ID (filter (alert_filter orgID status severity cursor) db))
           in Ok (alerts, if alerts = [] then [] else al_ID (last alerts)))"

definition GetByID :: "bool \<Rightarrow> string \<Rightarrow> string \<Rightarrow> Alert list \<Rightarrow> (string, Alert) result" where
  "GetByID up orgID i db =
     (if \<not> up then Err ''mongo''
      else (case find (\<lambda>a. al_ID a = i \<and> al_OrgID a = orgID) db of None \<Rightarrow> Err ''no documents'' | Some a \<Rightarrow> Ok a))"

text \<open>\<open>UpdateOne\<close>: the first matching document is changed.\<close>

fun update_one :: "('a \<Rightarrow> bool) \<Rightarrow> ('a \<Rightarrow> 'a) \<Rightarrow> 'a list \<Rightarrow> 'a list" where
  "update_one P f [] = []"
| "update_one P f (x # xs) = (if P x then f x # xs else x # update_one P f xs)"

definition Acknowledge :: "bool \<Rightarrow> time \<Rightarrow> string \<Rightarrow> string \<Rightarrow> Alert list \<Rightarrow> (string, unit) result \<times> Alert list" where
  "Acknowledge up now orgID i db =
     (if \<not> up then (Err ''mongo'', db)
      else (Ok (), update_one (\<lambda>a. al_ID a = i \<and> al_OrgID a = orgID \<and> al_Status a = StatusOpen)
        (\<lambda>a. a\<lparr>al_Status := StatusAcknowledged, al_AckAt := Some now\<rparr>) db))"

definition Resolve :: "bool \<Rightarrow> time \<Rightarrow> string \<Rightarrow> string \<Rightarrow> Alert list \<Rightarrow> (string, unit) result \<times> Alert list" where
  "Resolve up now orgID i db =
     (case GetByID up orgID i db of
        Inl e \<Rightarrow> (Err e, db)
      | Inr alert \<Rightarrow>
          (Ok (), update_one (\<lambda>a. al_ID a = i \<and> al_OrgID a = orgID)
             (\<lambda>a. a\<lparr>al_Status := StatusResolved, al_ResolvedAt := Some now, al_MTTR := now - al_CreatedAt alert\<rparr>) db))"

text \<open>\<open>$push\<close> on null is an error; the callers ignore it.\<close>

definition UpdateSagaStep :: "bool \<Rightarrow> string \<Rightarrow> SagaStep \<Rightarrow> Alert list \<Rightarrow> (string, unit) result \<times> Alert list" where
  "UpdateSagaStep up alertID step db =
     (if \<not> up then (Err ''mongo'', db)
      else (case find (\<lambda>a. al_ID a = alertID) db of
        None \<Rightarrow> (Ok (), db)
      | Some a \<Rightarrow> (case al_SagaSteps a of
          None \<Rightarrow> (Err ''saga_steps must be an array'', db)
        | Some steps \<Rightarrow> (Ok (), update_one (\<lambda>a. al_ID a = alertID) (\<lambda>a. a\<lparr>al_SagaSteps := Some (steps @ [step])\<rparr>) db))))"

subsection \<open>The saga\<close>

record alert_st =
  as_db :: "Alert list"
  as_log :: "(string \<times> string \<times> Alert) list"

text \<open>
  The environment of one message: for step and attempt, whether the database or
  broker works, whether the saga step can be recorded, the clock, and whether the
  context is still alive after the backoff.
\<close>

record saga_io =
  so_up :: "string \<Rightarrow> nat \<Rightarrow> bool"
  so_rec :: "string \<Rightarrow> bool"
  so_now :: "string \<Rightarrow> time"
  so_alive :: "string \<Rightarrow> nat \<Rightarrow> bool"

datatype step_end = Completed nat | Cancelled | Exhausted string

text \<open>The retry loop of executeStep, at attempt \<open>i\<close> of five.\<close>

function attempts :: "(nat \<Rightarrow> 's \<Rightarrow> (string, unit) result \<times> 's) \<Rightarrow> (nat \<Rightarrow> bool) \<Rightarrow> nat \<Rightarrow> string \<Rightarrow> 's \<Rightarrow> step_end \<times> 's" where
  "attempts fn alive i lastErr s =
     (if i \<ge> 5 then (Exhausted lastErr, s)
      else (case fn i s of
        (Inr _, s') \<Rightarrow> (Completed i, s')
      | (Inl e, s') \<Rightarrow> if alive i then attempts fn alive (Suc i) e s' else (Cancelled, s')))"
  by pat_completeness auto
termination by (relation "measure (\<lambda>(_, _, i, _, _). 5 - i)") auto

declare attempts.simps [simp del]

definition record_step :: "saga_io \<Rightarrow> string \<Rightarrow> string \<Rightarrow> string \<Rightarrow> string \<Rightarrow> nat \<Rightarrow> alert_st \<Rightarrow> alert_st" where
  "record_step io alertID stepName status err retries s =
     s\<lparr>as_db := snd (UpdateSagaStep (so_rec io stepName) alertID
       \<lparr>ss_Step = stepName, ss_Status = status, ss_Error = err, ss_At = so_now io stepName, ss_Retries = retries\<rparr> (as_db s))\<rparr>"

definition executeStep :: "saga_io \<Rightarrow> string \<Rightarrow> string \<Rightarrow> (nat \<Rightarrow> alert_st \<Rightarrow> (string, unit) result \<times> alert_st) \<Rightarrow> alert_st \<Rightarrow>
    (string, unit) result \<times> alert_st" where
  "executeStep io alertID stepName fn s =
     (case attempts fn (so_alive io stepName) 0 [] s of
        (Completed i, s') \<Rightarrow> (Ok (), record_step io alertID stepName ''completed'' [] i s')
      | (Cancelled, s') \<Rightarrow> (Err ''context canceled'', s')
      | (Exhausted e, s') \<Rightarrow> (Err e, record_step io alertID stepName ''failed'' e 5 s'))"

definition Publish :: "saga_io \<Rightarrow> string \<Rightarrow> string \<Rightarrow> Alert \<Rightarrow> nat \<Rightarrow> alert_st \<Rightarrow> (string, unit) result \<times> alert_st" where
  "Publish io step topic alert i s =
     (if so_up io step i then (Ok (), s\<lparr>as_log := as_log s @ [(topic, al_ID alert, alert)]\<rparr>) else (Err ''kafka'', s))"

text \<open>processMessage; the SIEM step is never reached, its URL is the empty constant.\<close>

definition processMessage :: "saga_io \<Rightarrow> Alert option \<Rightarrow> alert_st \<Rightarrow> alert_st" where
  "processMessage io value s =
     (case value of
        None \<Rightarrow> s
      | Some alert \<Rightarrow>
          (case executeStep io (al_ID alert) ''persist''
             (\<lambda>i s. case Create (so_up io ''persist'' i) alert (as_db s) of (r, db) \<Rightarrow> (r, s\<lparr>as_db := db\<rparr>)) s of
             (Inl _, s1) \<Rightarrow> s1
           | (Inr _, s1) \<Rightarrow>
               (let s2 = snd (executeStep io (al_ID alert) ''notify'' (Publish io ''notify'' ''notifications.outbound'' alert) s1)
                in snd (executeStep io (al_ID alert) ''audit'' (Publish io ''audit'' ''audit.trail'' alert) s2))))"

subsection \<open>Signed delivery\<close>

datatype SIEMType = SIEMGeneric | SIEMSplunk | SIEMDatadog | SIEMSentinel

definition SignHook :: "(string \<Rightarrow> string \<Rightarrow> string) \<Rightarrow> time \<Rightarrow> string \<Rightarrow> string \<Rightarrow> string \<Rightarrow> string \<times> string \<times> string" where
  "SignHook hmac now uuid payload secret =
     (let ts = itoa (now div Second)
      in (''sha256='' @ hex_encode (hmac secret (ts @ ''.'' @ payload)), uuid, ts))"

definition VerifyHook :: "(string \<Rightarrow> string \<Rightarrow> string) \<Rightarrow> time \<Rightarrow> string \<Rightarrow> string \<Rightarrow> string \<Rightarrow> string \<Rightarrow> int \<Rightarrow> (string, unit) result" where
  "VerifyHook hmac now payload secret sig ts tolerance =
     (case Atoi ts of
        None \<Rightarrow> Err ''invalid timestamp''
      | Some tsInt \<Rightarrow>
          if now div Second - tsInt > tolerance then Err ''request too old (replay protection)''
          else if sig \<noteq> ''sha256='' @ hex_encode (hmac secret (ts @ ''.'' @ payload)) then Err ''invalid signature''
          else Ok ())"

definition formatForSIEM :: "(string \<Rightarrow> string \<Rightarrow> string) \<Rightarrow> time \<Rightarrow> string \<Rightarrow> SIEMType \<Rightarrow> string \<Rightarrow> string \<Rightarrow> string \<times> headers" where
  "formatForSIEM hmac now uuid siemType payload secret =
     (let h = hset [] ''Content-Type'' ''application/json'';
          (sig, delivery, ts) = SignHook hmac now uuid payload secret;
          signed = hset (hset (hset h ''X-Openguard-Signature'' sig) ''X-Openguard-Delivery'' delivery) ''X-Openguard-Timestamp'' ts;
          q = [CHR 0x22]
      in case siemType of
           SIEMSplunk \<Rightarrow> (''{'' @ q @ ''event'' @ q @ '':'' @ payload @ '','' @ q @ ''sourcetype'' @ q @ '':'' @ q @ ''openguard_alert'' @ q @ ''}'',
             hset h ''Authorization'' (''Splunk '' @ secret))
         | SIEMDatadog \<Rightarrow> (payload, hset h ''Dd-Api-Key'' secret)
         | SIEMSentinel \<Rightarrow> (payload, hset signed ''Log-Type'' ''OpenGuardAlert'')
         | SIEMGeneric \<Rightarrow> (payload, signed))"

text \<open>\<open>post\<close> is what the HTTP client returns for URL, body and headers: an error or a status.\<close>

definition DeliverSIEM :: "(string \<Rightarrow> string \<Rightarrow> string) \<Rightarrow> time \<Rightarrow> string \<Rightarrow> (string \<Rightarrow> string \<Rightarrow> headers \<Rightarrow> (string, int) result) \<Rightarrow>
    SIEMType \<Rightarrow> string \<Rightarrow> string \<Rightarrow> string \<Rightarrow> (string, unit) result" where
  "DeliverSIEM hmac now uuid post siemType webhookURL secret payload =
     (case formatForSIEM hmac now uuid siemType payload secret of (finalPayload, h) \<Rightarrow>
       (case post webhookURL finalPayload h of
          Inl e \<Rightarrow> Err e
        | Inr status \<Rightarrow> if status \<ge> 400 then Err (''SIEM delivery failed with status: '' @ itoa status) else Ok ()))"

subsection \<open>Handlers\<close>

datatype alert_body = AText string | AAlerts "Alert list" | AAlert Alert | ANone

text \<open>The value \<open>strconv.ParseInt\<close> returns, error or not: zero for a bad text, the nearest bound out of range.\<close>

definition ParseInt :: "string \<Rightarrow> int" where
  "ParseInt s = (let neg = (s \<noteq> [] \<and> hd s = CHR ''-'');
       ds = (if s \<noteq> [] \<and> (hd s = CHR ''-'' \<or> hd s = CHR ''+'') then tl s else s);
       n = int (dec_nat 0 ds)
     in if ds = [] \<or> \<not> list_all is_digit ds then 0
        else if neg then max (- n) (- (2 ^ 63)) else min n (2 ^ 63 - 1))"

definition ListAlertsH :: "bool \<Rightarrow> req_ctx \<Rightarrow> (string \<Rightarrow> string) \<Rightarrow> Alert list \<Rightarrow> alert_body http_resp" where
  "ListAlertsH up ctx query db =
     (let orgID = GetOrgID ctx in
      if orgID = [] then \<lparr>rs_code = 401, rs_headers = [], rs_body = AText ''Unauthorized''\<rparr>
      else let limit = (if ParseInt (query ''limit'') = 0 then 50 else ParseInt (query ''limit'')) in
        (case ListA up orgID (query ''status'') (query ''severity'') (query ''cursor'') limit db of
           Inl e \<Rightarrow> \<lparr>rs_code = 500, rs_headers = [], rs_body = AText e\<rparr>
         | Inr (alerts, nextCursor) \<Rightarrow> \<lparr>rs_code = 200, rs_headers = hset (hset [] ''X-Next-Cursor'' nextCursor)
             ''Content-Type'' ''application/json'', rs_body = AAlerts alerts\<rparr>))"

definition GetAlertH :: "bool \<Rightarrow> req_ctx \<Rightarrow> string \<Rightarrow> Alert list \<Rightarrow> alert_body http_resp" where
  "GetAlertH up ctx i db =
     (case GetByID up (GetOrgID ctx) i db of
        Inl _ \<Rightarrow> \<lparr>rs_code = 404, rs_headers = [], rs_body = AText ''Alert not found''\<rparr>
      | Inr a \<Rightarrow> \<lparr>rs_code = 200, rs_headers = hset [] ''Content-Type'' ''application/json'', rs_body = AAlert a\<rparr>)"

definition no_content :: "(string, unit) result \<times> Alert list \<Rightarrow> alert_body http_resp \<times> Alert list" where
  "no_content r = (case r of
      (Inl e, db) \<Rightarrow> (\<lparr>rs_code = 500, rs_headers = [], rs_body = AText e\<rparr>, db)
    | (Inr _, db) \<Rightarrow> (\<lparr>rs_code = 204, rs_headers = [], rs_body = ANone\<rparr>, db))"

definition AcknowledgeAlertH :: "bool \<Rightarrow> time \<Rightarrow> req_ctx \<Rightarrow> string \<Rightarrow> Alert list \<Rightarrow> alert_body http_resp \<times> Alert list" where
  "AcknowledgeAlertH up now ctx i db = no_content (Acknowledge up now (GetOrgID ctx) i db)"

definition ResolveAlertH :: "bool \<Rightarrow> time \<Rightarrow> req_ctx \<Rightarrow> string \<Rightarrow> Alert list \<Rightarrow> alert_body http_resp \<times> Alert list" where
  "ResolveAlertH up now ctx i db = no_content (Resolve up now (GetOrgID ctx) i db)"

subsection \<open>Facts\<close>

lemma attempts_ok:
  assumes fn: "\<And>j. i \<le> j \<Longrightarrow> fn j s = (if up j then (Ok (), s') else (Err (er j), s))"
    and k: "i \<le> k" "k < 5" "up k" "\<forall>j\<in>{i..<k}. alive j"
  shows "\<exists>m. attempts fn alive i e s = (Completed m, s')"
  using assms
proof (induction "k - i" arbitrary: i e)
  case 0
  then show ?case by (subst attempts.simps) auto
next
  case (Suc n)
  then have i: "i < k" "alive i" by auto
  show ?case
  proof (cases "up i")
    case True
    then show ?thesis using Suc i by (subst attempts.simps) auto
  next
    case False
    have "\<exists>m. attempts fn alive (Suc i) (er i) s = (Completed m, s')"
      using Suc i by (intro Suc.hyps(1)) auto
    then show ?thesis using False Suc.prems(1) [of i] Suc.prems(3) i by (subst attempts.simps) auto
  qed
qed

lemma attempts_fail:
  assumes "\<And>j. fn j s = (Err (er j), s)"
  shows "\<exists>x. attempts fn alive i e s = (x, s) \<and> (\<forall>m. x \<noteq> Completed m)"
proof (induction "5 - i" arbitrary: i e)
  case 0
  then show ?case by (subst attempts.simps) auto
next
  case (Suc n)
  then show ?case using assms Suc.hyps(1) [of "Suc i"] by (subst attempts.simps) auto
qed

subsection \<open>Properties\<close>

text \<open>
  Signatures: what Sign signs, Verify accepts exactly while the time stamp is
  within the tolerance and the MAC of the checked payload under the checked
  secret is that of the signed one.  Only the age is bounded, so a stamp from the
  future is accepted.
\<close>

theorem siem_signature_roundtrip:
  assumes "\<bar>now div Second\<bar> < 2 ^ 63" "SignHook hmac now uuid payload secret = (sig, delivery, ts)"
  shows "VerifyHook hmac now' payload' secret' sig ts tolerance = Ok () \<longleftrightarrow>
     now' div Second - now div Second \<le> tolerance \<and> hmac secret' (ts @ ''.'' @ payload') = hmac secret (ts @ ''.'' @ payload)"
proof -
  have ts: "ts = itoa (now div Second)" "sig = ''sha256='' @ hex_encode (hmac secret (ts @ ''.'' @ payload))"
    using assms(2) by (auto simp: SignHook_def Let_def)
  have "Atoi ts = Some (now div Second)" unfolding ts(1) using assms(1) by (rule Atoi_itoa)
  then show ?thesis
    unfolding VerifyHook_def ts(2) same_append_eq hex_encode_inj by (simp add: not_le)
qed

theorem siem_signature_roundtrip_witness:
  "VerifyHook (\<lambda>k d. k @ d) (299 * Second) ''p'' ''k'' (''sha256='' @ hex_encode (''k'' @ ''0.p'')) ''0'' 300 = Ok ()"
proof -
  have "itoa 0 = ''0''" by code_simp
  then have "SignHook (\<lambda>k d. k @ d) 0 ''id'' ''p'' ''k'' = (''sha256='' @ hex_encode (''k'' @ ''0.p''), ''id'', ''0'')"
    by (simp add: SignHook_def)
  from siem_signature_roundtrip [OF _ this, of "299 * Second" "''p''" "''k''" 300] show ?thesis by (simp add: time_units)
qed

lemma process_known:
  assumes "al_ID alert \<in> al_ID ` set (as_db s)"
  shows "as_log (processMessage io (Some alert) s) = as_log s"
proof -
  let ?fn = "\<lambda>i s. case Create (so_up io ''persist'' i) alert (as_db s) of (r, db) \<Rightarrow> (r, s\<lparr>as_db := db\<rparr>)"
  have "\<exists>x. attempts ?fn (so_alive io ''persist'') 0 [] s = (x, s) \<and> (\<forall>m. x \<noteq> Completed m)"
    using assms by (intro attempts_fail [where er = "\<lambda>i. if so_up io ''persist'' i then ''duplicate key'' else ''mongo''"])
      (simp add: Create_def)
  then obtain x where x: "attempts ?fn (so_alive io ''persist'') 0 [] s = (x, s)" "\<forall>m. x \<noteq> Completed m" by blast
  then show ?thesis
    by (cases x) (simp_all add: processMessage_def executeStep_def record_step_def)
qed

lemma process_new:
  assumes new: "al_ID alert \<notin> al_ID ` set (as_db s)" "al_SagaSteps alert = None"
    and up: "\<forall>step\<in>{''persist'', ''notify'', ''audit''}. \<exists>k<5. so_up io step k \<and> (\<forall>j<k. so_alive io step j)"
  shows "processMessage io (Some alert) s = s\<lparr>as_db := as_db s @ [alert], as_log := as_log s @
     [(''notifications.outbound'', al_ID alert, alert), (''audit.trail'', al_ID alert, alert)]\<rparr>"
proof -
  have rec: "record_step io (al_ID alert) st a b n t = t" if "as_db t = as_db s @ [alert]" for st a b n and t :: alert_st
  proof -
    have "find (\<lambda>a. al_ID a = al_ID alert) (as_db s @ [alert]) = Some alert"
      using new(1) by (intro find_snoc_unique) (simp_all add: find_None_all image_iff, metis)
    then show ?thesis using that new(2) by (simp add: record_step_def UpdateSagaStep_def)
  qed
  have pub: "executeStep io (al_ID alert) st (Publish io st topic alert) t =
      (Ok (), t\<lparr>as_log := as_log t @ [(topic, al_ID alert, alert)]\<rparr>)"
    if t: "as_db t = as_db s @ [alert]" and st: "st \<in> {''persist'', ''notify'', ''audit''}" for st topic and t :: alert_st
  proof -
    let ?t' = "t\<lparr>as_log := as_log t @ [(topic, al_ID alert, alert)]\<rparr>"
    obtain k where k: "k < 5" "so_up io st k" "\<forall>j<k. so_alive io st j" using up st by blast
    obtain m where "attempts (Publish io st topic alert) (so_alive io st) 0 [] t = (Completed m, ?t')"
      using attempts_ok [of 0 "Publish io st topic alert" t "so_up io st" ?t' "\<lambda>_. ''kafka''" k "so_alive io st" "[]"] k
      by (auto simp: Publish_def)
    then show ?thesis using t by (simp add: executeStep_def rec)
  qed
  let ?fn = "\<lambda>i s. case Create (so_up io ''persist'' i) alert (as_db s) of (r, db) \<Rightarrow> (r, s\<lparr>as_db := db\<rparr>)"
  obtain k where k: "k < 5" "so_up io ''persist'' k" "\<forall>j<k. so_alive io ''persist'' j" using up by blast
  have "?fn j s = (if so_up io ''persist'' j then (Ok (), s\<lparr>as_db := as_db s @ [alert]\<rparr>) else (Err ''mongo'', s))" for j
    using new(1) by (simp add: Create_def)
  from attempts_ok [of 0 ?fn s "so_up io ''persist''" _ "\<lambda>_. ''mongo''" k "so_alive io ''persist''", OF this _ k(1,2)] k(3)
  obtain m where "attempts ?fn (so_alive io ''persist'') 0 [] s = (Completed m, s\<lparr>as_db := as_db s @ [alert]\<rparr>)" by fastforce
  then have "executeStep io (al_ID alert) ''persist'' ?fn s = (Ok (), s\<lparr>as_db := as_db s @ [alert]\<rparr>)"
    by (simp add: executeStep_def rec)
  then show ?thesis by (simp add: processMessage_def pub)
qed

text \<open>
  The saga swallows redelivered alerts: when the alert's id is already in the
  collection, as after a crash between the insert and the commit, processing
  publishes neither the notification nor the audit event, whatever the database
  does, and the message is then committed.
\<close>

theorem redelivered_alert_is_lost:
  assumes "al_ID alert \<in> al_ID ` set (as_db s)"
  shows "as_log (processMessage io (Some alert) s) = as_log s"
  using assms by (rule process_known)

text \<open>
  A new alert is processed completely: when every step has an attempt among
  its first five that works, and the context is alive until then, the alert is
  stored and one notification and one audit event are published, in that order.
\<close>

theorem new_alert_is_processed:
  assumes new: "al_ID alert \<notin> al_ID ` set (as_db s)" "al_SagaSteps alert = None"
    and up: "\<forall>step\<in>{''persist'', ''notify'', ''audit''}. \<exists>k<5. so_up io step k \<and> (\<forall>j<k. so_alive io step j)"
  shows "processMessage io (Some alert) s = s\<lparr>as_db := as_db s @ [alert], as_log := as_log s @
     [(''notifications.outbound'', al_ID alert, alert), (''audit.trail'', al_ID alert, alert)]\<rparr>"
  using assms by (rule process_new)

subsubsection \<open>The life of an alert\<close>

lemma update_one_mem: "x \<in> set xs \<Longrightarrow> x \<in> set (update_one P f xs) \<or> (P x \<and> f x \<in> set (update_one P f xs))"
  by (induction xs) auto

lemma filter_update_one: "(\<And>x. P x \<Longrightarrow> \<not> Q x \<and> \<not> Q (f x)) \<Longrightarrow> filter Q (update_one P f xs) = filter Q xs"
  by (induction xs) auto

text \<open>Everything that changes the collection.\<close>

inductive alert_step :: "Alert list \<Rightarrow> Alert list \<Rightarrow> bool" where
  st_create: "alert_step db (snd (Create up alert db))"
| st_ack: "alert_step db (snd (Acknowledge up now orgID i db))"
| st_resolve: "alert_step db (snd (Resolve up now orgID i db))"
| st_saga: "alert_step db (snd (UpdateSagaStep up i step db))"

definition succeeded_by :: "Alert \<Rightarrow> Alert \<Rightarrow> bool" where
  "succeeded_by a a' \<longleftrightarrow> al_ID a' = al_ID a \<and> al_OrgID a' = al_OrgID a \<and> al_CreatedAt a' = al_CreatedAt a \<and>
     (al_Status a = StatusResolved \<longrightarrow> al_Status a' = StatusResolved) \<and>
     (al_Status a = StatusAcknowledged \<longrightarrow> al_Status a' \<in> {StatusAcknowledged, StatusResolved})"

definition lives_on :: "Alert \<Rightarrow> Alert list \<Rightarrow> bool" where
  "lives_on a db \<longleftrightarrow> (\<exists>a'\<in>set db. succeeded_by a a')"

lemma lives_on_update:
  assumes "lives_on a db" "\<And>b. P b \<Longrightarrow> succeeded_by a b \<Longrightarrow> succeeded_by a (f b)"
  shows "lives_on a (update_one P f db)"
  using assms update_one_mem [of _ db P f] unfolding lives_on_def by blast

lemma alert_step_lives_on: "lives_on a db \<Longrightarrow> alert_step db db' \<Longrightarrow> lives_on a db'"
proof (erule alert_step.cases, goal_cases)
  case (1 d up alert)
  then show ?case by (auto simp: Create_def lives_on_def)
next
  case (2 d up now o' i)
  then show ?case
    by (auto simp: Acknowledge_def succeeded_by_def status_defs intro!: lives_on_update)
next
  case (3 d up now o' i)
  then show ?case
    by (auto simp: Resolve_def succeeded_by_def status_defs split: sum.splits intro!: lives_on_update)
next
  case (4 d up i step)
  then show ?case
    by (auto simp: UpdateSagaStep_def succeeded_by_def split: option.splits intro!: lives_on_update)
qed

interpretation alert_life: step_invariant alert_step "lives_on a" for a
  by unfold_locales (rule alert_step_lives_on)

text \<open>
  The life of an alert: whatever inserts, acknowledgements, resolutions and
  saga updates follow, an alert stays in the collection with its id, tenant and
  creation time; once acknowledged it is never open again, and once resolved it
  stays resolved.
\<close>

theorem alert_life_cycle:
  assumes "alert_step\<^sup>*\<^sup>* db db'" "a \<in> set db"
  shows "\<exists>a'\<in>set db'. al_ID a' = al_ID a \<and> al_OrgID a' = al_OrgID a \<and> al_CreatedAt a' = al_CreatedAt a \<and>
     (al_Status a = StatusResolved \<longrightarrow> al_Status a' = StatusResolved) \<and>
     (al_Status a = StatusAcknowledged \<longrightarrow> al_Status a' \<in> {StatusAcknowledged, StatusResolved})"
proof -
  have "lives_on a db" using assms(2) by (auto simp: lives_on_def succeeded_by_def)
  from alert_life.reach_inv [OF assms(1) this] show ?thesis by (simp add: lives_on_def succeeded_by_def)
qed

datatype alert_op = OpAck bool time string string | OpResolve bool time string string

fun run_alert :: "alert_op \<Rightarrow> Alert list \<Rightarrow> Alert list" where
  "run_alert (OpAck up now orgID i) db = snd (Acknowledge up now orgID i db)"
| "run_alert (OpResolve up now orgID i) db = snd (Resolve up now orgID i db)"

fun alert_owner :: "alert_op \<Rightarrow> string option" where
  "alert_owner (OpAck _ _ orgID _) = Some orgID"
| "alert_owner (OpResolve _ _ orgID _) = Some orgID"

definition tenant_alerts :: "string \<Rightarrow> Alert list \<Rightarrow> Alert list" where
  "tenant_alerts t db = filter (\<lambda>a. al_OrgID a = t) db"

lemma run_alert_other: "alert_owner op \<noteq> Some t \<Longrightarrow> tenant_alerts t (run_alert op db) = tenant_alerts t db"
  by (cases op) (auto simp: Acknowledge_def Resolve_def tenant_alerts_def split: sum.splits intro!: filter_update_one)

interpretation alert_tenants: tenant_ops run_alert alert_owner tenant_alerts
  by unfold_locales (rule run_alert_other)

text \<open>
  Tenants: no sequence of acknowledgements and resolutions of other tenants
  changes a tenant's alerts.
\<close>

theorem alerts_tenant_isolated:
  assumes "\<forall>op\<in>set ops. alert_owner op \<noteq> Some t"
  shows "filter (\<lambda>a. al_OrgID a = t) (fold run_alert ops db) = filter (\<lambda>a. al_OrgID a = t) db"
  using alert_tenants.fold_other [of ops t db] assms by (simp add: tenant_alerts_def)

subsubsection \<open>Paging\<close>

text \<open>A client that follows the cursors until a page is empty.\<close>

fun pages :: "nat \<Rightarrow> string \<Rightarrow> string \<Rightarrow> string \<Rightarrow> string \<Rightarrow> int \<Rightarrow> Alert list \<Rightarrow> Alert list" where
  "pages 0 orgID status severity cursor limit db = []"
| "pages (Suc n) orgID status severity cursor limit db =
     (case ListA True orgID status severity cursor limit db of
        Inl _ \<Rightarrow> []
      | Inr (alerts, nextCursor) \<Rightarrow>
          if alerts = [] then [] else alerts @ pages n orgID status severity nextCursor limit db)"

lemma strictly_sorted_above:
  assumes "sorted_wrt (\<lambda>a b. key a < (key b :: 'k :: linorder)) xs" "0 < k" "xs \<noteq> []"
  shows "filter (\<lambda>a. key (last (take k xs)) < key a) xs = drop k xs"
proof -
  have s: "sorted_wrt (\<lambda>a b. key a < key b) (take k xs @ drop k xs)" using assms(1) by simp
  have l: "last (take k xs) \<in> set (take k xs)" using assms(2,3) by (intro last_in_set) simp
  have "key a \<le> key (last (take k xs))" if "a \<in> set (take k xs)" for a
  proof -
    from that l have "sorted_wrt (\<lambda>a b. key a < key b) (butlast (take k xs) @ [last (take k xs)])"
      using s by (metis append_butlast_last_id empty_iff empty_set sorted_wrt_append)
    then have "\<forall>b\<in>set (butlast (take k xs)). key b < key (last (take k xs))" by (simp add: sorted_wrt_append)
    with that l show ?thesis
      by (metis append_butlast_last_id empty_iff empty_set less_imp_le order_refl set_ConsD set_append Un_iff)
  qed
  then have "filter (\<lambda>a. key (last (take k xs)) < key a) (take k xs) = []" by (force simp: filter_empty_conv)
  moreover have "filter (\<lambda>a. key (last (take k xs)) < key a) (drop k xs) = drop k xs"
    using s l unfolding sorted_wrt_append by (simp add: filter_id_conv)
  ultimately show ?thesis by (metis append_Nil append_take_drop_id filter_append)
qed

definition all_alerts :: "string \<Rightarrow> string \<Rightarrow> string \<Rightarrow> Alert list \<Rightarrow> Alert list" where
  "all_alerts orgID status severity db = sort_key al_ID (filter (alert_filter orgID status severity []) db)"

lemma all_alerts_sorted:
  assumes "distinct (map al_ID db)"
  shows "sorted_wrt (\<lambda>a b. al_ID a < al_ID b) (all_alerts o' st sev db)"
proof -
  have "distinct (map al_ID (filter P db))" for P using assms by (rule distinct_map_filter)
  then have "distinct (map al_ID (all_alerts o' st sev db))" unfolding all_alerts_def by (simp add: distinct_map)
  moreover have "sorted (map al_ID (all_alerts o' st sev db))" by (simp add: all_alerts_def)
  ultimately have "sorted_wrt (<) (map al_ID (all_alerts o' st sev db))" by (simp only: strict_sorted_iff)
  then show ?thesis by (simp only: sorted_wrt_map)
qed

lemma ListA_page:
  "ListA True o' st sev cursor limit db =
     (let rest = filter (\<lambda>a. cursor \<noteq> [] \<longrightarrow> cursor < al_ID a) (all_alerts o' st sev db); alerts = mongo_limit limit rest
      in Ok (alerts, if alerts = [] then [] else al_ID (last alerts)))"
proof -
  have "filter (alert_filter o' st sev cursor) db = filter (\<lambda>a. cursor \<noteq> [] \<longrightarrow> cursor < al_ID a) (filter (alert_filter o' st sev []) db)"
    by (auto simp: alert_filter_def intro: filter_cong)
  then show ?thesis by (simp add: ListA_def all_alerts_def filter_sort Let_def)
qed

lemma pages_rest:
  assumes db: "distinct (map al_ID db)" "\<forall>a\<in>set db. al_ID a \<noteq> []" and k: "0 < limit"
    and n: "length (filter (\<lambda>a. cursor \<noteq> [] \<longrightarrow> cursor < al_ID a) (all_alerts o' st sev db)) < n"
  shows "pages n o' st sev cursor limit db = filter (\<lambda>a. cursor \<noteq> [] \<longrightarrow> cursor < al_ID a) (all_alerts o' st sev db)"
  using n
proof (induction n arbitrary: cursor)
  case (Suc n)
  let ?rest = "\<lambda>c. filter (\<lambda>a. c \<noteq> [] \<longrightarrow> c < al_ID a) (all_alerts o' st sev db)"
  let ?as = "take (nat limit) (?rest cursor)"
  show ?case
  proof (cases "?rest cursor = []")
    case False
    then have ne: "?as \<noteq> []" using k by simp
    define c' where "c' = al_ID (last ?as)"
    have last_in: "last ?as \<in> set (?rest cursor)" by (rule in_set_takeD, rule last_in_set, rule ne)
    then have "last ?as \<in> set db" by (auto simp: all_alerts_def)
    then have c: "c' \<noteq> []" using db(2) by (auto simp: c'_def)
    have sorted: "sorted_wrt (\<lambda>a b. al_ID a < al_ID b) (?rest cursor)"
      using all_alerts_sorted [OF db(1)] by (rule sorted_wrt_filter)
    have "cursor \<noteq> [] \<longrightarrow> cursor < c'" using last_in unfolding set_filter mem_Collect_eq c'_def by (rule conjunct2)
    then have "(c' \<noteq> [] \<longrightarrow> c' < al_ID a) \<longleftrightarrow> (cursor \<noteq> [] \<longrightarrow> cursor < al_ID a) \<and> c' < al_ID a" for a
      using c by (auto dest: order.strict_trans)
    then have "?rest c' = filter (\<lambda>a. c' < al_ID a) (?rest cursor)"
      unfolding filter_filter by (intro filter_cong refl)
    also have "\<dots> = drop (nat limit) (?rest cursor)"
      using strictly_sorted_above [OF sorted, of "nat limit"] k False by (simp add: c'_def)
    finally have rest: "?rest c' = drop (nat limit) (?rest cursor)" .
    then have "length (?rest c') < n" using Suc.prems k False by (cases "?rest cursor") auto
    from Suc.IH [OF this] have "pages n o' st sev c' limit db = drop (nat limit) (?rest cursor)" using rest by simp
    then show ?thesis using k ne by (simp add: ListA_page mongo_limit_def Let_def c'_def)
  qed (simp add: ListA_page mongo_limit_def Let_def)
qed simp

text \<open>
  Paging is complete: a client that starts without a cursor and follows the
  cursor of each page until a page is empty gets every matching alert of the
  tenant exactly once, in the order of ids, for every positive limit and however
  many pages that takes; it stops after at most one request more than there are
  alerts.  Ids must be unique, which MongoDB enforces, and not empty.
\<close>

theorem alert_paging_complete:
  assumes "distinct (map al_ID db)" "\<forall>a\<in>set db. al_ID a \<noteq> []" "0 < limit" "length db < n"
  shows "pages n orgID status severity [] limit db = sort_key al_ID (filter (alert_filter orgID status severity []) db)"
proof -
  have "length (filter (alert_filter orgID status severity []) db) < n"
    using assms(4) length_filter_le le_less_trans by blast
  then show ?thesis
    using pages_rest [OF assms(1-3), of "[]" orgID status severity n] by (simp add: all_alerts_def)
qed

subsubsection \<open>Witnesses\<close>

definition sample_alert :: "string \<Rightarrow> string \<Rightarrow> Alert" where
  "sample_alert i o' = \<lparr>al_ID = i, al_OrgID = o', al_Type = [], al_Severity = ''HIGH'', al_Status = StatusOpen, al_RiskScore = JNull,
     al_DetectorID = [], al_RawEvent = JNull, al_SagaSteps = None, al_CreatedAt = 0, al_AckAt = None, al_ResolvedAt = None, al_MTTR = 0\<rparr>"

definition sample_alerts :: "Alert list" where
  "sample_alerts = [sample_alert ''b'' ''o1'', sample_alert ''a'' ''o1'', sample_alert ''c'' ''o2'']"

definition working :: saga_io where
  "working = \<lparr>so_up = (\<lambda>_ _. True), so_rec = (\<lambda>_. True), so_now = (\<lambda>_. 0), so_alive = (\<lambda>_ _. True)\<rparr>"

theorem redelivered_alert_is_lost_witness:
  "as_log (processMessage working (Some (sample_alert ''a'' ''o1'')) \<lparr>as_db = sample_alerts, as_log = []\<rparr>) = []"
  using redelivered_alert_is_lost [of "sample_alert ''a'' ''o1''" "\<lparr>as_db = sample_alerts, as_log = []\<rparr>" working]
  by (simp add: sample_alerts_def)

theorem new_alert_is_processed_witness:
  "length (as_log (processMessage working (Some (sample_alert ''d'' ''o1'')) \<lparr>as_db = sample_alerts, as_log = []\<rparr>)) = 2"
  by (subst new_alert_is_processed) (auto simp: sample_alerts_def sample_alert_def working_def intro: exI [of _ 0])

theorem alert_life_cycle_witness:
  "\<exists>a'\<in>set (snd (Acknowledge True 5 ''o1'' ''a'' sample_alerts)). al_ID a' = ''a''"
proof -
  have "alert_step\<^sup>*\<^sup>* sample_alerts (snd (Acknowledge True 5 ''o1'' ''a'' sample_alerts))"
    by (rule r_into_rtranclp) (rule st_ack)
  from alert_life_cycle [OF this, of "sample_alert ''a'' ''o1''"] show ?thesis
    by (auto simp: sample_alerts_def sample_alert_def)
qed

theorem alerts_tenant_isolated_witness:
  "filter (\<lambda>a. al_OrgID a = ''o2'') (fold run_alert [OpResolve True 5 ''o1'' ''a''] sample_alerts) = [sample_alert ''c'' ''o2'']"
  by (subst alerts_tenant_isolated) (simp_all add: sample_alerts_def sample_alert_def)

theorem alert_paging_complete_witness:
  "map al_ID (pages 4 ''o1'' [] [] [] 1 sample_alerts) = [''a'', ''b'']"
  by (subst alert_paging_complete) (simp_all add: sample_alerts_def sample_alert_def alert_filter_def)

end
