(* ===== verification/Webhooks.thy ===== *)
theory Webhooks
  imports Alerting
begin

text \<open>
  Webhook delivery: services/webhook-delivery/pkg/deliverer, pkg/repository and
  pkg/consumer.  A message of the topic is a request to POST a signed payload; it
  is tried five times with growing pauses, its row in \<open>webhook_deliveries\<close> is
  updated after every attempt, and what fails five times goes to the dead-letter
  topic.
\<close>

record WebhookDeliveryRequest =
  wr_Target :: string
  wr_Payload :: string
  wr_Secret :: string
  wr_OrgID :: string
  wr_EventID :: string
  wr_ConnectorID :: string

record WebhookDelivery =
  wd_ID :: string
  wd_OrgID :: string
  wd_ConnectorID :: string
  wd_EventID :: string
  wd_TargetURL :: string
  wd_Payload :: string
  wd_Attempts :: nat
  wd_Status :: string
  wd_LastError :: string
  wd_NextRetryAt :: "time option"

text \<open>A POST as it leaves the service.\<close>

record post =
  po_target :: string
  po_body :: string
  po_headers :: headers

record wh_st =
  wh_rows :: "WebhookDelivery list"
  wh_posts :: "post list"
  wh_dlq :: "(string \<times> WebhookDeliveryRequest \<times> string) list"

text \<open>
  The environment of one message: the UUID cast and the JSONB check of the
  database, whether its statements run, the id the INSERT returns, per attempt
  the clock, the HTTP outcome and whether the context survives the pause, and
  whether the dead-letter topic takes the message.
\<close>

record wh_io =
  w_uuid :: "string \<Rightarrow> string option"
  w_jsonb :: "string \<Rightarrow> bool"
  w_create :: bool
  w_update :: "nat \<Rightarrow> bool"
  w_new_id :: string
  w_now :: "nat \<Rightarrow> time"
  w_url_ok :: "string \<Rightarrow> bool"
  w_http :: "nat \<Rightarrow> (string, int) result"
  w_alive :: "nat \<Rightarrow> bool"
  w_dlq_up :: bool
  w_hmac :: "string \<Rightarrow> string \<Rightarrow> string"
  w_random :: "nat \<Rightarrow> string"

subsection \<open>Repository\<close>

definition Create :: "wh_io \<Rightarrow> WebhookDelivery \<Rightarrow> WebhookDelivery list \<Rightarrow> (string, string \<times> WebhookDelivery list) result" where
  "Create io d rows =
     (case (w_uuid io (wd_OrgID d), w_uuid io (wd_ConnectorID d), w_uuid io (wd_EventID d)) of
        (Some o', Some c, Some e) \<Rightarrow>
          if \<not> w_create io \<or> \<not> w_jsonb io (wd_Payload d) \<or> w_new_id io \<in> wd_ID ` set rows then Err ''failed to create webhook delivery record''
          else Ok (w_new_id io, rows @ [d\<lparr>wd_ID := w_new_id io, wd_OrgID := o', wd_ConnectorID := c, wd_EventID := e\<rparr>])
      | _ \<Rightarrow> Err ''failed to create webhook delivery record'')"

definition Update :: "bool \<Rightarrow> string \<Rightarrow> nat \<Rightarrow> string \<Rightarrow> string \<Rightarrow> time option \<Rightarrow> WebhookDelivery list \<Rightarrow> WebhookDelivery list" where
  "Update up i attempts' status lastError nextRetryAt rows =
     (if up then map (\<lambda>d. if wd_ID d = i then d\<lparr>wd_Attempts := attempts', wd_Status := status, wd_LastError := lastError,
        wd_NextRetryAt := nextRetryAt\<rparr> else d) rows else rows)"

subsection \<open>Deliverer\<close>

definition signed_post :: "(string \<Rightarrow> string \<Rightarrow> string) \<Rightarrow> time \<Rightarrow> string \<Rightarrow> string \<Rightarrow> string \<Rightarrow> string \<Rightarrow> string \<Rightarrow> post" where
  "signed_post hmac now uuid messageKey target payload secret =
     (let ts = itoa (now div Second);
          sig = ''sha256='' @ hex_encode (hmac secret (ts @ ''.'' @ payload));
          deliveryID = (if messageKey = [] then uuid else messageKey)
      in \<lparr>po_target = target, po_body = payload, po_headers = hset (hset (hset (hset [] ''Content-Type'' ''application/json'')
           ''X-Openguard-Signature'' sig) ''X-Openguard-Timestamp'' ts) ''X-Openguard-Delivery'' deliveryID\<rparr>)"

definition Deliver :: "wh_io \<Rightarrow> nat \<Rightarrow> string \<Rightarrow> WebhookDeliveryRequest \<Rightarrow> wh_st \<Rightarrow> (string, unit) result \<times> wh_st" where
  "Deliver io i messageKey req s =
     (if \<not> w_url_ok io (wr_Target req) then (Err ''invalid url'', s)
      else let s' = s\<lparr>wh_posts := wh_posts s @ [signed_post (w_hmac io) (w_now io i) (w_random io i) messageKey (wr_Target req)
             (wr_Payload req) (wr_Secret req)]\<rparr>
           in case w_http io i of
                Inl e \<Rightarrow> (Err e, s')
              | Inr status \<Rightarrow> if status \<ge> 500 then (Err (''target server error: '' @ itoa status), s')
                  else if status \<ge> 400 then (Err (''target client error: '' @ itoa status), s')
                  else (Ok (), s'))"

subsection \<open>Consumer\<close>

definition DefaultBackoff :: "nat \<Rightarrow> time" where
  "DefaultBackoff i = 2 ^ i * Second"

definition request_member :: "string \<Rightarrow> json \<Rightarrow> WebhookDeliveryRequest \<Rightarrow> WebhookDeliveryRequest option" where
  "request_member k j r =
     (if key_is k ''target'' then map_option (\<lambda>v. r\<lparr>wr_Target := v\<rparr>) (dec_string j (wr_Target r))
      else if key_is k ''payload'' then map_option (\<lambda>v. r\<lparr>wr_Payload := v\<rparr>) (dec_string j (wr_Payload r))
      else if key_is k ''secret'' then map_option (\<lambda>v. r\<lparr>wr_Secret := v\<rparr>) (dec_string j (wr_Secret r))
      else if key_is k ''org_id'' then map_option (\<lambda>v. r\<lparr>wr_OrgID := v\<rparr>) (dec_string j (wr_OrgID r))
      else if key_is k ''event_id'' then map_option (\<lambda>v. r\<lparr>wr_EventID := v\<rparr>) (dec_string j (wr_EventID r))
      else if key_is k ''connector_id'' then map_option (\<lambda>v. r\<lparr>wr_ConnectorID := v\<rparr>) (dec_string j (wr_ConnectorID r))
      else Some r)"

definition dec_request :: "raw_json \<Rightarrow> WebhookDeliveryRequest option" where
  "dec_request = dec_struct request_member
     \<lparr>wr_Target = [], wr_Payload = [], wr_Secret = [], wr_OrgID = [], wr_EventID = [], wr_ConnectorID = []\<rparr>"

text \<open>The row is only updated when the INSERT returned an id.\<close>

definition note_row :: "wh_io \<Rightarrow> string \<Rightarrow> nat \<Rightarrow> nat \<Rightarrow> string \<Rightarrow> string \<Rightarrow> time option \<Rightarrow> wh_st \<Rightarrow> wh_st" where
  "note_row io deliveryID call attempts' status lastError nextRetryAt s =
     (if deliveryID = [] then s
      else s\<lparr>wh_rows := Update (w_update io call) deliveryID attempts' status lastError nextRetryAt (wh_rows s)\<rparr>)"

datatype wh_end = Done | Stopped | Failed string

function deliver_loop :: "wh_io \<Rightarrow> string \<Rightarrow> WebhookDeliveryRequest \<Rightarrow> string \<Rightarrow> nat \<Rightarrow> string \<Rightarrow> wh_st \<Rightarrow> wh_end \<times> wh_st" where
  "deliver_loop io key req deliveryID i lastErr s =
     (if i \<ge> 5 then (Failed lastErr, s)
      else (case Deliver io i key req s of
        (Inr _, s1) \<Rightarrow> (Done, note_row io deliveryID i (Suc i) ''delivered'' [] None s1)
      | (Inl e, s1) \<Rightarrow>
          (let s2 = note_row io deliveryID i (Suc i) ''failed'' e (Some (w_now io i + DefaultBackoff i)) s1
           in if w_alive io i then deliver_loop io key req deliveryID (Suc i) e s2 else (Stopped, s2))))"
  by pat_completeness auto
termination by (relation "measure (\<lambda>(_, _, _, _, i, _, _). 5 - i)") auto

declare deliver_loop.simps [simp del]

definition processMessage :: "wh_io \<Rightarrow> string \<Rightarrow> raw_json \<Rightarrow> wh_st \<Rightarrow> (string, unit) result \<times> wh_st" where
  "processMessage io key value s =
     (case dec_request value of
        None \<Rightarrow> (Ok (), s)
      | Some req \<Rightarrow>
          (let d = \<lparr>wd_ID = [], wd_OrgID = wr_OrgID req, wd_ConnectorID = wr_ConnectorID req, wd_EventID = wr_EventID req,
                 wd_TargetURL = wr_Target req, wd_Payload = wr_Payload req, wd_Attempts = 0, wd_Status = ''pending'',
                 wd_LastError = [], wd_NextRetryAt = None\<rparr>;
               (deliveryID, s1) = (case Create io d (wh_rows s) of Inl _ \<Rightarrow> ([], s) | Inr (i, rows) \<Rightarrow> (i, s\<lparr>wh_rows := rows\<rparr>))
           in case deliver_loop io key req deliveryID 0 [] s1 of
                (Done, s2) \<Rightarrow> (Ok (), s2)
              | (Stopped, s2) \<Rightarrow> (Err ''context canceled'', s2)
              | (Failed e, s2) \<Rightarrow>
                  (let s3 = note_row io deliveryID 5 5 ''dlq'' e None s2
                   in if w_dlq_up io then (Ok (), s3\<lparr>wh_dlq := wh_dlq s3 @ [(key, req, e)]\<rparr>)
                      else (Err ''DLQ publish failed'', s3))))"

text \<open>One message of Start: the offset is committed whatever processMessage returns.\<close>

definition consume :: "wh_io \<Rightarrow> nat \<times> string \<times> raw_json \<Rightarrow> nat list \<times> wh_st \<Rightarrow> nat list \<times> wh_st" where
  "consume io m c = (case m of (offset, key, value) \<Rightarrow> (fst c @ [offset], snd (processMessage io key value (snd c))))"

subsection \<open>Properties\<close>

definition accepted :: "wh_io \<Rightarrow> nat \<Rightarrow> bool" where
  "accepted io i = (case w_http io i of Inl _ \<Rightarrow> False | Inr status \<Rightarrow> status < 400)"

abbreviation attempt_post :: "wh_io \<Rightarrow> string \<Rightarrow> WebhookDeliveryRequest \<Rightarrow> nat \<Rightarrow> post" where
  "attempt_post io key req i \<equiv> signed_post (w_hmac io) (w_now io i) (w_random io i) key (wr_Target req) (wr_Payload req) (wr_Secret req)"

lemma Deliver_outcome:
  assumes "w_url_ok io (wr_Target req)"
  shows "\<exists>e. Deliver io i key req s = (if accepted io i then Ok () else Err e, s\<lparr>wh_posts := wh_posts s @ [attempt_post io key req i]\<rparr>)"
  using assms by (auto simp: Deliver_def accepted_def Let_def split: sum.split)

definition row_is :: "string \<Rightarrow> nat \<Rightarrow> string \<Rightarrow> wh_st \<Rightarrow> bool" where
  "row_is i n status s \<longleftrightarrow> i \<in> wd_ID ` set (wh_rows s) \<and>
     (\<forall>d\<in>set (wh_rows s). wd_ID d = i \<longrightarrow> wd_Attempts d = n \<and> wd_Status d = status)"

lemma Update_ids: "map wd_ID (Update up i n status e t rows) = map wd_ID rows"
  by (induction rows) (simp_all add: Update_def)

lemma note_row_is:
  assumes "i \<noteq> []" "w_update io c" "i \<in> wd_ID ` set (wh_rows s)"
  shows "row_is i n status (note_row io i c n status e t s)" "i \<in> wd_ID ` set (wh_rows (note_row io i c n status e t s))"
    "wh_posts (note_row io i c n status e t s) = wh_posts s" "wh_dlq (note_row io i c n status e t s) = wh_dlq s"
proof -
  have ids: "wd_ID ` set (wh_rows (note_row io i c n status e t s)) = wd_ID ` set (wh_rows s)"
    using Update_ids [of "w_update io c" i n status e t "wh_rows s"]
    by (simp add: note_row_def flip: set_map)
  then show "i \<in> wd_ID ` set (wh_rows (note_row io i c n status e t s))" using assms(3) by simp
  have m: "\<forall>d\<in>set (map (\<lambda>d. if wd_ID d = i then d\<lparr>wd_Attempts := n, wd_Status := status, wd_LastError := e, wd_NextRetryAt := t\<rparr> else d) rs).
      wd_ID d = i \<longrightarrow> wd_Attempts d = n \<and> wd_Status d = status" for rs
    by (induction rs) (simp_all del: set_map)
  have rows: "wh_rows (note_row io i c n status e t s) = map (\<lambda>d. if wd_ID d = i then d\<lparr>wd_Attempts := n, wd_Status := status,
      wd_LastError := e, wd_NextRetryAt := t\<rparr> else d) (wh_rows s)"
    using assms(1,2) by (simp add: note_row_def Update_def)
  show "row_is i n status (note_row io i c n status e t s)"
    unfolding row_is_def
  proof
    show "i \<in> wd_ID ` set (wh_rows (note_row io i c n status e t s))" using assms(3) ids by simp
    show "\<forall>d\<in>set (wh_rows (note_row io i c n status e t s)). wd_ID d = i \<longrightarrow> wd_Attempts d = n \<and> wd_Status d = status"
      unfolding rows by (rule m)
  qed
qed (simp_all add: note_row_def)

lemma deliver_loop_spec:
  assumes io: "w_url_ok io (wr_Target req)" "\<forall>j. w_alive io j" "\<forall>j. w_update io j"
    and i: "i < 5" "d \<noteq> []" "d \<in> wd_ID ` set (wh_rows s)"
  shows "\<exists>n s' e. i < n \<and> n \<le> 5 \<and> (\<forall>j. i \<le> j \<and> j < n - 1 \<longrightarrow> \<not> accepted io j) \<and> (accepted io (n - 1) \<or> n = 5) \<and>
     deliver_loop io key req d i e0 s = (if accepted io (n - 1) then Done else Failed e, s') \<and>
     wh_posts s' = wh_posts s @ map (attempt_post io key req) [i..<n] \<and> wh_dlq s' = wh_dlq s \<and>
     row_is d n (if accepted io (n - 1) then ''delivered'' else ''failed'') s'"
  using i
proof (induction "5 - i" arbitrary: i e0 s)
  case (Suc m)
  obtain e where e: "Deliver io i key req s = (if accepted io i then Ok () else Err e, s\<lparr>wh_posts := wh_posts s @ [attempt_post io key req i]\<rparr>)"
    using Deliver_outcome [OF io(1)] by blast
  let ?s1 = "s\<lparr>wh_posts := wh_posts s @ [attempt_post io key req i]\<rparr>"
  have in1: "d \<in> wd_ID ` set (wh_rows ?s1)" using Suc.prems by simp
  show ?case
  proof (cases "accepted io i")
    case True
    let ?s' = "note_row io d i (Suc i) ''delivered'' [] None ?s1"
    have "deliver_loop io key req d i e0 s = (Done, ?s')" using e True Suc.prems by (subst deliver_loop.simps) simp
    with True Suc.prems io(3) show ?thesis
      using note_row_is [OF Suc.prems(2) _ in1, of io i]
      by (intro exI [of _ "Suc i"] exI [of _ ?s']) auto
  next
    case False
    let ?s2 = "note_row io d i (Suc i) ''failed'' e (Some (w_now io i + DefaultBackoff i)) ?s1"
    note n2 = note_row_is [OF Suc.prems(2) spec [OF io(3), of i] in1, of "Suc i" "''failed''" e "Some (w_now io i + DefaultBackoff i)"]
    have step: "deliver_loop io key req d i e0 s = deliver_loop io key req d (Suc i) e ?s2"
      using e False Suc.prems io(2) by (subst deliver_loop.simps) (simp add: Let_def)
    show ?thesis
    proof (cases "Suc i < 5")
      case True
      have "m = 5 - Suc i" using Suc.hyps(2) by simp
      from Suc.hyps(1) [OF this True Suc.prems(2) n2(2), of e] obtain n s' e' where
        ih: "Suc i < n" "n \<le> 5" "\<forall>j. Suc i \<le> j \<and> j < n - 1 \<longrightarrow> \<not> accepted io j" "accepted io (n - 1) \<or> n = 5"
        "deliver_loop io key req d (Suc i) e ?s2 = (if accepted io (n - 1) then Done else Failed e', s')"
        "wh_posts s' = wh_posts ?s2 @ map (attempt_post io key req) [Suc i..<n]" "wh_dlq s' = wh_dlq ?s2"
        "row_is d n (if accepted io (n - 1) then ''delivered'' else ''failed'') s'" by blast
      have "[i..<n] = i # [Suc i..<n]" using ih(1) by (simp add: upt_conv_Cons)
      then have posts: "wh_posts s' = wh_posts s @ map (attempt_post io key req) [i..<n]" using ih(6) n2(3) by simp
      have "\<not> accepted io j" if "i \<le> j \<and> j < n - 1" for j
        using that False ih(3) by (cases "j = i") auto
      with ih step posts n2(4) show ?thesis
        by (intro exI [of _ n] exI [of _ s'] exI [of _ e']) simp
    next
      case last: False
      then have i: "i = 4" using Suc.prems by simp
      have "deliver_loop io key req d (Suc i) e ?s2 = (Failed e, ?s2)" using last by (subst deliver_loop.simps) simp
      with step n2 False i show ?thesis by (intro exI [of _ 5] exI [of _ ?s2] exI [of _ e]) auto
    qed
  qed
qed simp

lemma Create_row:
  "Create io d rows = Ok (i, rows') \<Longrightarrow> i = w_new_id io \<and> i \<in> wd_ID ` set rows'"
  by (auto simp: Create_def split: option.splits if_splits)

lemma processMessage_spec:
  assumes req: "dec_request value = Some req" "w_url_ok io (wr_Target req)"
    and io: "\<forall>j. w_alive io j" "\<forall>j. w_update io j" "w_new_id io \<noteq> []"
    and row: "w_uuid io (wr_OrgID req) \<noteq> None" "w_uuid io (wr_ConnectorID req) \<noteq> None" "w_uuid io (wr_EventID req) \<noteq> None"
      "w_create io" "w_jsonb io (wr_Payload req)" "w_new_id io \<notin> wd_ID ` set (wh_rows s)"
  shows "\<exists>n e. 0 < n \<and> n \<le> 5 \<and> (\<forall>j<n - 1. \<not> accepted io j) \<and> (accepted io (n - 1) \<or> n = 5) \<and>
     (case processMessage io key value s of (r, s') \<Rightarrow>
        wh_posts s' = wh_posts s @ map (attempt_post io key req) [0..<n] \<and>
        row_is (w_new_id io) n (if accepted io (n - 1) then ''delivered'' else ''dlq'') s' \<and>
        wh_dlq s' = wh_dlq s @ (if accepted io (n - 1) \<or> \<not> w_dlq_up io then [] else [(key, req, e)]))"
proof -
  let ?d = "\<lparr>wd_ID = [], wd_OrgID = wr_OrgID req, wd_ConnectorID = wr_ConnectorID req, wd_EventID = wr_EventID req,
    wd_TargetURL = wr_Target req, wd_Payload = wr_Payload req, wd_Attempts = 0, wd_Status = ''pending'', wd_LastError = [], wd_NextRetryAt = None\<rparr>"
  obtain rows where c: "Create io ?d (wh_rows s) = Ok (w_new_id io, rows)" using row by (auto simp: Create_def)
  have "w_new_id io \<in> wd_ID ` set (wh_rows (s\<lparr>wh_rows := rows\<rparr>))" using Create_row [OF c] by simp
  from deliver_loop_spec [OF req(2) io(1,2) _ io(3) this, of 0 key "[]"] obtain n s' e where
    n: "0 < n" "n \<le> 5" "\<forall>j. 0 \<le> j \<and> j < n - 1 \<longrightarrow> \<not> accepted io j" "accepted io (n - 1) \<or> n = 5"
    and loop: "deliver_loop io key req (w_new_id io) 0 [] (s\<lparr>wh_rows := rows\<rparr>) = (if accepted io (n - 1) then Done else Failed e, s')"
    and s': "wh_posts s' = wh_posts s @ map (attempt_post io key req) [0..<n]" "wh_dlq s' = wh_dlq s"
      "row_is (w_new_id io) n (if accepted io (n - 1) then ''delivered'' else ''failed'') s'" by auto
  show ?thesis
  proof (cases "accepted io (n - 1)")
    case True
    then have "processMessage io key value s = (Ok (), s')" using c loop by (simp add: processMessage_def req(1))
    with n s' True show ?thesis by (intro exI [of _ n] exI [of _ e]) simp
  next
    case False
    have i: "w_new_id io \<in> wd_ID ` set (wh_rows s')" using s'(3) by (simp add: row_is_def)
    note dlq = note_row_is [OF io(3) spec [OF io(2), of 5] i, of 5 "''dlq''" e None]
    have "snd (processMessage io key value s) = (let s3 = note_row io (w_new_id io) 5 5 ''dlq'' e None s'
        in if w_dlq_up io then s3\<lparr>wh_dlq := wh_dlq s3 @ [(key, req, e)]\<rparr> else s3)"
      using c loop False by (simp add: processMessage_def req(1) Let_def)
    with n s' False dlq show ?thesis
      by (intro exI [of _ n] exI [of _ e]) (auto simp: split_beta Let_def row_is_def)
  qed
qed


lemma Deliver_dlq: "Deliver io i key req t = (r, t') \<Longrightarrow> wh_dlq t' = wh_dlq t"
  by (auto simp: Deliver_def Let_def split: sum.splits if_splits)

lemma note_row_dlq [simp]: "wh_dlq (note_row io d c n st e r t) = wh_dlq t"
  by (simp add: note_row_def)

lemma deliver_loop_dlq: "wh_dlq (snd (deliver_loop io key req d i e t)) = wh_dlq t"
proof (induction io key req d i e t rule: deliver_loop.induct)
  case (1 io key req d i e t)
  show ?case
    by (subst deliver_loop.simps) (use 1 in \<open>auto simp: Let_def dest: Deliver_dlq split: sum.split prod.split\<close>)
qed

text \<open>
  A message can be lost: when five attempts fail and the dead-letter topic
  does not take the message either, its offset is committed all the same, and
  nothing of it is left on any topic.
\<close>

theorem webhook_lost_when_dlq_down:
  assumes "\<not> w_dlq_up io"
  shows "fst (consume io (offset, key, value) (done, s)) = done @ [offset] \<and>
     wh_dlq (snd (consume io (offset, key, value) (done, s))) = wh_dlq s"
proof -
  have "wh_dlq t = wh_dlq s" if "deliver_loop io key req d i e s1 = (x, t)" "wh_dlq s1 = wh_dlq s" for req d i e s1 x t
    using deliver_loop_dlq [of io key req d i e s1] that by simp
  then show ?thesis
    using assms by (auto simp: consume_def processMessage_def Let_def split: option.split sum.split prod.split wh_end.split)
qed

text \<open>
  The webhook signature is the one the alerting service verifies: every POST
  of a delivery carries a signature and a time stamp that Verify accepts for the
  same secret while the stamp is within the tolerance.
\<close>

theorem webhook_signature_verifies:
  assumes "\<bar>now div Second\<bar> < 2 ^ 63" "now' div Second - now div Second \<le> tolerance"
  shows "(let p = signed_post hmac now uuid key target payload secret in
     VerifyHook hmac now' (po_body p) secret (hget (po_headers p) ''X-Openguard-Signature'') (hget (po_headers p) ''X-Openguard-Timestamp'')
       tolerance = Ok ())"
  using assms by (simp add: signed_post_def VerifyHook_def Let_def Atoi_itoa)

subsubsection \<open>Witnesses\<close>

definition sample_wh :: wh_io where
  "sample_wh = \<lparr>w_uuid = Some, w_jsonb = (\<lambda>_. True), w_create = True, w_update = (\<lambda>_. True), w_new_id = ''d1'', w_now = (\<lambda>_. 0),
     w_url_ok = (\<lambda>_. True), w_http = (\<lambda>i. if i < 2 then Ok 503 else Ok 200), w_alive = (\<lambda>_. True), w_dlq_up = False,
     w_hmac = (\<lambda>k d. d), w_random = (\<lambda>_. [])\<rparr>"

definition sample_value :: raw_json where
  "sample_value = Some (JObj [(''target'', JStr ''https://t''), (''payload'', JStr ''p'')])"

definition empty_wh :: wh_st where "empty_wh = \<lparr>wh_rows = [], wh_posts = [], wh_dlq = []\<rparr>"


theorem webhook_lost_when_dlq_down_witness:
  "fst (consume sample_wh (7, ''k'', sample_value) ([], empty_wh)) = [7]"
  using webhook_lost_when_dlq_down [of sample_wh 7 "''k''" sample_value "[]" empty_wh] by (simp add: sample_wh_def)

theorem webhook_signature_verifies_witness:
  "let p = signed_post (\<lambda>k d. d) 0 [] ''k'' ''t'' ''p'' ''s'' in
     VerifyHook (\<lambda>k d. d) (5 * Second) (po_body p) ''s'' (hget (po_headers p) ''X-Openguard-Signature'')
       (hget (po_headers p) ''X-Openguard-Timestamp'') 300 = Ok ()"
  by (rule webhook_signature_verifies) (simp_all add: time_units)

end
