(* ===== verification/Threat.thy ===== *)
theory Threat
  imports Policy_Service Alerting
begin

text \<open>
  The threat detectors whose decisions are discrete: brute force, off-hours
  access, account takeover and privilege escalation
  (services/threat/pkg/detector), and the alert store they write to
  (services/threat/pkg/alert).  The two detectors that decide on floating-point
  values, impossible travel and data exfiltration, are in Threat_Travel.

  An event is the JSON value of a Kafka message, decoded into a map.
\<close>

subsection \<open>Alert store\<close>

text \<open>The score in tenths; the zero ObjectID is 24 zeros.\<close>

record TAlert =
  ta_ID :: string
  ta_OrgID :: string
  ta_UserID :: string
  ta_Detector :: string
  ta_Score :: int
  ta_Severity :: string
  ta_Status :: string
  ta_CreatedAt :: "time option"
  ta_ResolvedAt :: "time option"
  ta_MTTR :: "int option"
  ta_Metadata :: "(string \<times> json) list"

definition zero_oid :: string where "zero_oid = replicate 24 (CHR ''0'')"

definition new_alert :: "string \<Rightarrow> string \<Rightarrow> string \<Rightarrow> int \<Rightarrow> string \<Rightarrow> (string \<times> json) list \<Rightarrow> TAlert" where
  "new_alert orgID userID detector score severity metadata =
     \<lparr>ta_ID = zero_oid, ta_OrgID = orgID, ta_UserID = userID, ta_Detector = detector, ta_Score = score, ta_Severity = severity,
      ta_Status = [], ta_CreatedAt = None, ta_ResolvedAt = None, ta_MTTR = None, ta_Metadata = metadata\<rparr>"

text \<open>CreateAlert fills in time and status before the insert; a failed insert leaves the id zero.\<close>

definition CreateAlert :: "bool \<Rightarrow> string \<Rightarrow> time \<Rightarrow> TAlert \<Rightarrow> TAlert list \<Rightarrow> TAlert \<times> TAlert list" where
  "CreateAlert up oid now a db =
     (let a' = a\<lparr>ta_CreatedAt := (case ta_CreatedAt a of None \<Rightarrow> Some now | Some t \<Rightarrow> Some t),
            ta_Status := (if ta_Status a = [] then ''open'' else ta_Status a)\<rparr>
      in if up then (a'\<lparr>ta_ID := oid\<rparr>, db @ [a'\<lparr>ta_ID := oid\<rparr>]) else (a', db))"

text \<open>\<open>oidFromHex\<close> is the driver's ObjectIDFromHex, an id being its lower-case hex text.\<close>

definition GetAlert :: "bool \<Rightarrow> (string \<Rightarrow> string option) \<Rightarrow> string \<Rightarrow> TAlert list \<Rightarrow> (string, TAlert) result" where
  "GetAlert up oidFromHex i db =
     (case oidFromHex i of
        None \<Rightarrow> Err ''invalid id''
      | Some oid \<Rightarrow>
          if \<not> up then Err ''mongo''
          else (case find (\<lambda>a. ta_ID a = oid) db of None \<Rightarrow> Err ''no documents'' | Some a \<Rightarrow> Ok a))"

text \<open>A cursor that is no id is ignored; newest ids first.\<close>

definition ListAlerts :: "bool \<Rightarrow> (string \<Rightarrow> string option) \<Rightarrow> string \<Rightarrow> string \<Rightarrow> string \<Rightarrow> int \<Rightarrow> string \<Rightarrow> TAlert list \<Rightarrow>
    (string, TAlert list \<times> string) result" where
  "ListAlerts up oidFromHex orgID status severity limit cursor db =
     (let below = (if cursor = [] then None else oidFromHex cursor);
          hit = (\<lambda>a. ta_OrgID a = orgID \<and> (status \<noteq> [] \<longrightarrow> ta_Status a = status) \<and> (severity \<noteq> [] \<longrightarrow> ta_Severity a = severity)
            \<and> (case below of None \<Rightarrow> True | Some oid \<Rightarrow> ta_ID a < oid));
          alerts = mongo_limit limit (rev (sort_key ta_ID (filter hit db)))
      in if \<not> up then Err ''mongo'' else Ok (alerts, if alerts = [] then [] else ta_ID (last alerts)))"

definition AcknowledgeAlert :: "bool \<Rightarrow> (string \<Rightarrow> string option) \<Rightarrow> string \<Rightarrow> TAlert list \<Rightarrow> (string, unit) result \<times> TAlert list" where
  "AcknowledgeAlert up oidFromHex i db =
     (case oidFromHex i of
        None \<Rightarrow> (Err ''invalid id'', db)
      | Some oid \<Rightarrow>
          if \<not> up then (Err ''mongo'', db)
          else (Ok (), update_one (\<lambda>a. ta_ID a = oid) (\<lambda>a. a\<lparr>ta_Status := ''acknowledged''\<rparr>) db))"

text \<open>The time to resolve in whole seconds, truncated towards zero.\<close>

definition whole_seconds :: "time \<Rightarrow> int" where
  "whole_seconds d = (if d < 0 then - ((- d) div Second) else d div Second)"

definition zero_time :: time where "zero_time = - 62135596800 * Second"

definition ResolveAlert :: "bool \<Rightarrow> bool \<Rightarrow> (string \<Rightarrow> string option) \<Rightarrow> time \<Rightarrow> string \<Rightarrow> TAlert list \<Rightarrow>
    (string, unit) result \<times> TAlert list" where
  "ResolveAlert find_up update_up oidFromHex now i db =
     (case GetAlert find_up oidFromHex i db of
        Inl e \<Rightarrow> (Err e, db)
      | Inr alert \<Rightarrow>
          (let mttr = whole_seconds (now - (case ta_CreatedAt alert of None \<Rightarrow> zero_time | Some t \<Rightarrow> t))
           in if \<not> update_up then (Err ''mongo'', db)
              else (Ok (), update_one (\<lambda>a. ta_ID a = ta_ID alert)
                (\<lambda>a. a\<lparr>ta_Status := ''resolved'', ta_ResolvedAt := Some now, ta_MTTR := Some mttr\<rparr>) db)))"

subsection \<open>Redis and the environment of one event\<close>

record threat_redis =
  tz :: "string \<Rightarrow> (int list \<times> time) option"
  tk :: "string \<Rightarrow> (string \<times> time) option"
  ts_sets :: "string \<Rightarrow> (string list \<times> time) option"
  tt :: "string \<Rightarrow> (TAlert \<times> time) option"

record threat_st =
  th_redis :: threat_redis
  th_alerts :: "TAlert list"
  th_out :: "(string \<times> TAlert) list"

text \<open>
  Whether Redis, the alert store and the broker answer; a pipeline or command that
  fails has no effect here.  The detectors do not look at the outcome of the
  insert and the publication.
\<close>

record threat_io =
  t_now :: time
  t_redis :: "string \<Rightarrow> bool"
  t_store :: bool
  t_kafka :: bool
  t_oid :: string
  t_sha256 :: "string \<Rightarrow> string"

definition exists_key :: "time \<Rightarrow> string \<Rightarrow> threat_redis \<Rightarrow> string option" where
  "exists_key now k r = (case tk r k of None \<Rightarrow> None | Some (v, t) \<Rightarrow> if now < t then Some v else None)"

definition set_key :: "time \<Rightarrow> string \<Rightarrow> string \<Rightarrow> time \<Rightarrow> threat_redis \<Rightarrow> threat_redis" where
  "set_key now k v d r = r\<lparr>tk := (tk r)(k \<mapsto> (v, now + d))\<rparr>"

text \<open>The common end of every publishThreatEvent: store, topic, and the key \<open>threat:\<dots>\<close> for 24 hours.\<close>

definition fire :: "threat_io \<Rightarrow> string \<Rightarrow> TAlert \<Rightarrow> threat_st \<Rightarrow> threat_st" where
  "fire io ck a s =
     (case CreateAlert (t_store io) (t_oid io) (t_now io) a (th_alerts s) of (a', db) \<Rightarrow>
        \<lparr>th_redis = (if t_redis io ''threat'' then (th_redis s)\<lparr>tt := (tt (th_redis s))(''threat:'' @ ck \<mapsto> (a', t_now io + 24 * Hour))\<rparr>
           else th_redis s),
         th_alerts = db,
         th_out = (if t_kafka io then th_out s @ [(ta_ID a', a')] else th_out s)\<rparr>)"

text \<open>The fields of an event; a message that is not a JSON object or null is skipped.\<close>

fun event_map :: "raw_json \<Rightarrow> (string \<times> json) list option" where
  "event_map (Some (JObj ms)) = Some ms"
| "event_map (Some JNull) = Some []"
| "event_map _ = None"

subsection \<open>Brute force\<close>

definition WindowSize :: time where "WindowSize = 5 * Minute"

definition live_scores :: "time \<Rightarrow> (int list \<times> time) option \<Rightarrow> int list" where
  "live_scores now e = (case e of None \<Rightarrow> [] | Some (xs, t) \<Rightarrow> if now < t then xs else [])"

text \<open>The pipeline on a window of length \<open>w\<close>: every entry is a member of its own, named by a fresh UUID.\<close>

definition window_add :: "time \<Rightarrow> time \<Rightarrow> string \<Rightarrow> threat_redis \<Rightarrow> int \<times> threat_redis" where
  "window_add w now key r =
     (let ms = now div Millisecond;
          xs = filter (\<lambda>m. m > ms - w div Millisecond) (live_scores now (tz r key) @ [ms])
      in (int (length xs), r\<lparr>tz := (tz r)(key \<mapsto> (xs, now + w))\<rparr>))"

definition bf_alert :: "string \<Rightarrow> int \<Rightarrow> TAlert" where
  "bf_alert key n =
     (let parts = Split (CHR '':'') key; userID = (if length parts \<ge> 3 then parts ! 2 else [])
      in new_alert [] userID ''brute_force'' 9 ''HIGH'' [(''attempts'', JNum n), (''key'', JStr key)])"

definition trackFailedAttempt :: "threat_io \<Rightarrow> int \<Rightarrow> string \<Rightarrow> threat_st \<Rightarrow> bool \<times> threat_st" where
  "trackFailedAttempt io maxAttempts' key s =
     (if \<not> t_redis io ''window'' then (False, s)
      else (case window_add WindowSize (t_now io) key (th_redis s) of (n, r) \<Rightarrow>
        (let s1 = s\<lparr>th_redis := r\<rparr>; alertKey = ''alert_fired:'' @ key in
         if n \<ge> maxAttempts' \<and> t_redis io ''dedup'' \<and> exists_key (t_now io) alertKey r = None
         then (True, fire io key (bf_alert key n) (s1\<lparr>th_redis := set_key (t_now io) alertKey ''1'' WindowSize r\<rparr>))
         else (True, s1))))"

text \<open>The result is whether the offset is committed.\<close>

definition processBruteForce :: "threat_io \<Rightarrow> int \<Rightarrow> raw_json \<Rightarrow> threat_st \<Rightarrow> bool \<times> threat_st" where
  "processBruteForce io maxAttempts' value s =
     (case event_map value of
        None \<Rightarrow> (True, s)
      | Some event \<Rightarrow>
          (let eventType = json_str event ''event_type''; addr = json_str event ''ip''; email = json_str event ''email'' in
           if eventType \<noteq> ''login.failed'' \<and> eventType \<noteq> ''auth.failed'' then (True, s)
           else (case (if addr \<noteq> [] then trackFailedAttempt io maxAttempts' (''bruteforce:ip:'' @ addr) s else (True, s)) of
             (False, s1) \<Rightarrow> (False, s1)
           | (True, s1) \<Rightarrow> if email \<noteq> [] then trackFailedAttempt io maxAttempts' (''bruteforce:user:'' @ email) s1 else (True, s1))))"

subsection \<open>Off-hours access\<close>

text \<open>The UTC date of a day counted from the epoch, as \<open>2006-01-02\<close>.\<close>

definition civil :: "int \<Rightarrow> int \<times> int \<times> int" where
  "civil day =
     (let z = day + 719468; era = z div 146097; doe = z mod 146097;
          yoe = (doe - doe div 1460 + doe div 36524 - doe div 146096) div 365;
          doy = doe - (365 * yoe + yoe div 4 - yoe div 100);
          mp = (5 * doy + 2) div 153; d = doy - (153 * mp + 2) div 5 + 1; m = (if mp < 10 then mp + 3 else mp - 9);
          y = yoe + era * 400 + (if m \<le> 2 then 1 else 0)
      in (y, m, d))"

definition pad :: "nat \<Rightarrow> int \<Rightarrow> string" where
  "pad n v = (let s = itoa v in replicate (n - length s) (CHR ''0'') @ s)"

definition format_date :: "time \<Rightarrow> string" where
  "format_date t = (case civil (t div (24 * Hour)) of (y, m, d) \<Rightarrow> pad 4 y @ ''-'' @ pad 2 m @ ''-'' @ pad 2 d)"

definition is_off_hours :: "int \<Rightarrow> int \<Rightarrow> int \<Rightarrow> bool" where
  "is_off_hours offStart offEnd hour =
     (if offStart > offEnd then hour \<ge> offStart \<or> hour < offEnd else hour \<ge> offStart \<and> hour < offEnd)"

definition off_key :: "string \<Rightarrow> string \<Rightarrow> time \<Rightarrow> string" where
  "off_key orgID userID t = ''offhours:'' @ orgID @ '':'' @ userID @ '':'' @ format_date t"

text \<open>
  The three days before, a missing key counting as in hours; \<open>None\<close> is a Redis
  error, which ends the loop.
\<close>

fun all_in_hours :: "threat_io \<Rightarrow> string \<Rightarrow> string \<Rightarrow> threat_redis \<Rightarrow> int list \<Rightarrow> bool option" where
  "all_in_hours io orgID userID r [] = Some True"
| "all_in_hours io orgID userID r (i # is) =
     (if \<not> t_redis io (''exists'' @ itoa i) then None
      else (case exists_key (t_now io) (off_key orgID userID (t_now io - i * (24 * Hour))) r of
        None \<Rightarrow> all_in_hours io orgID userID r is
      | Some v \<Rightarrow>
          if \<not> t_redis io (''get'' @ itoa i) then None
          else if v \<noteq> ''1'' then Some False
          else all_in_hours io orgID userID r is))"

definition processOffHours :: "threat_io \<Rightarrow> int \<Rightarrow> int \<Rightarrow> raw_json \<Rightarrow> threat_st \<Rightarrow> bool \<times> threat_st" where
  "processOffHours io offStart offEnd value s =
     (case event_map value of
        None \<Rightarrow> (True, s)
      | Some event \<Rightarrow>
          (let userID = json_str event ''user_id''; orgID = json_str event ''org_id''; hour = (t_now io div Hour) mod 24 in
           if json_str event ''event_type'' \<noteq> ''auth.login.success'' \<or> userID = [] \<or> orgID = [] then (True, s)
           else if is_off_hours offStart offEnd hour then
             (case all_in_hours io orgID userID (th_redis s) [1, 2, 3] of
                None \<Rightarrow> (False, s)
              | Some False \<Rightarrow> (True, s)
              | Some True \<Rightarrow> (True, fire io (''offhours:'' @ orgID @ '':'' @ userID)
                  (new_alert orgID userID ''off_hours_access'' 5 ''MEDIUM'' [(''hour'', JNum hour)]) s))
           else if t_redis io ''record''
           then (True, s\<lparr>th_redis := set_key (t_now io) (off_key orgID userID (t_now io)) ''1'' (7 * 24 * Hour) (th_redis s)\<rparr>)
           else (False, s)))"

subsection \<open>Account takeover\<close>

definition computeFingerprint :: "(string \<Rightarrow> string) \<Rightarrow> string \<Rightarrow> string \<Rightarrow> string \<Rightarrow> string" where
  "computeFingerprint sha256 ua al pl = hex_encode (sha256 (ua @ ''|'' @ al @ ''|'' @ pl))"

definition known_devices :: "time \<Rightarrow> string \<Rightarrow> threat_redis \<Rightarrow> string list" where
  "known_devices now k r = (case ts_sets r k of None \<Rightarrow> [] | Some (xs, t) \<Rightarrow> if now < t then xs else [])"

text \<open>The pipeline at the end of a login: SADD and EXPIRE.\<close>

definition remember_device :: "threat_io \<Rightarrow> string \<Rightarrow> string \<Rightarrow> threat_st \<Rightarrow> bool \<times> threat_st" where
  "remember_device io deviceKey fingerprint s =
     (if \<not> t_redis io ''devices'' then (False, s)
      else let known = known_devices (t_now io) deviceKey (th_redis s)
           in (True, s\<lparr>th_redis := (th_redis s)\<lparr>ts_sets := (ts_sets (th_redis s))(deviceKey \<mapsto>
                (if fingerprint \<in> set known then known else known @ [fingerprint], t_now io + 30 * 24 * Hour))\<rparr>\<rparr>))"

definition processTakeover :: "threat_io \<Rightarrow> raw_json \<Rightarrow> threat_st \<Rightarrow> bool \<times> threat_st" where
  "processTakeover io value s =
     (case event_map value of
        None \<Rightarrow> (True, s)
      | Some event \<Rightarrow>
          (let eventType = json_str event ''event_type''; userID = json_str event ''user_id'' in
           if userID = [] then (True, s)
           else if eventType = ''password.changed'' then
             (if t_redis io ''pwchange'' then (True, s\<lparr>th_redis := set_key (t_now io) (''ato:pwchange:'' @ userID) ''1'' (24 * Hour) (th_redis s)\<rparr>)
              else (False, s))
           else if eventType = ''auth.login.success'' then
             (let fingerprint = computeFingerprint (t_sha256 io) (json_str event ''user_agent'') (json_str event ''accept_language'')
                  (json_str event ''platform'');
                  deviceKey = ''ato:devices:'' @ userID
              in if \<not> t_redis io ''exists'' \<or> \<not> t_redis io ''member'' then (False, s)
                 else remember_device io deviceKey fingerprint
                   (if exists_key (t_now io) (''ato:pwchange:'' @ userID) (th_redis s) \<noteq> None
                       \<and> fingerprint \<notin> set (known_devices (t_now io) deviceKey (th_redis s))
                    then fire io (''ato:'' @ userID) (new_alert [] userID ''account_takeover'' 7 ''HIGH'' [(''fingerprint'', JStr fingerprint)]) s
                    else s))
           else (True, s)))"

subsection \<open>Privilege escalation\<close>

definition processAuthEvent :: "threat_io \<Rightarrow> raw_json \<Rightarrow> threat_st \<Rightarrow> bool \<times> threat_st" where
  "processAuthEvent io value s =
     (case event_map value of
        None \<Rightarrow> (True, s)
      | Some event \<Rightarrow>
          (let userID = json_str event ''user_id'' in
           if json_str event ''event_type'' = ''auth.login.success'' \<and> userID \<noteq> []
           then (if t_redis io ''login'' then (True, s\<lparr>th_redis := set_key (t_now io) (''privsec:login:'' @ userID) ''1'' Hour (th_redis s)\<rparr>)
                 else (False, s))
           else (True, s)))"

definition processPolicyEvent :: "threat_io \<Rightarrow> raw_json \<Rightarrow> threat_st \<Rightarrow> bool \<times> threat_st" where
  "processPolicyEvent io value s =
     (case event_map value of
        None \<Rightarrow> (True, s)
      | Some event \<Rightarrow>
          (let action = json_str event ''action''; actorID = json_str event ''actor_id''; targetID = json_str event ''target_id'' in
           if (action = ''role.grant'' \<or> Contains action ''policy.changed'') \<and> actorID \<noteq> []
           then (if \<not> t_redis io ''exists'' then (False, s)
                 else if exists_key (t_now io) (''privsec:login:'' @ actorID) (th_redis s) \<noteq> None
                 then (True, fire io (''privesc:'' @ actorID) (new_alert [] actorID ''privilege_escalation'' 9 ''HIGH''
                   [(''target_id'', JStr targetID), (''action'', JStr action)]) s)
                 else (True, s))
           else (True, s)))"

subsection \<open>Handlers\<close>

datatype threat_body = TText string | TAlerts "TAlert list" string | TOne TAlert | TNone

text \<open>The tenant is a query parameter, and a limit that is no number counts as 20.\<close>

definition ListAlertsT :: "bool \<Rightarrow> (string \<Rightarrow> string option) \<Rightarrow> (string \<Rightarrow> string) \<Rightarrow> TAlert list \<Rightarrow> threat_body http_resp" where
  "ListAlertsT up oidFromHex query db =
     (let limit = (case Atoi (query ''limit'') of None \<Rightarrow> 20 | Some l \<Rightarrow> l) in
      case ListAlerts up oidFromHex (query ''org_id'') (query ''status'') (query ''severity'') limit (query ''cursor'') db of
        Inl e \<Rightarrow> \<lparr>rs_code = 500, rs_headers = [], rs_body = TText e\<rparr>
      | Inr (alerts, nextCursor) \<Rightarrow> \<lparr>rs_code = 200, rs_headers = hset [] ''Content-Type'' ''application/json'', rs_body = TAlerts alerts nextCursor\<rparr>)"

definition GetAlertT :: "bool \<Rightarrow> (string \<Rightarrow> string option) \<Rightarrow> string \<Rightarrow> TAlert list \<Rightarrow> threat_body http_resp" where
  "GetAlertT up oidFromHex i db =
     (case GetAlert up oidFromHex i db of
        Inl _ \<Rightarrow> \<lparr>rs_code = 404, rs_headers = [], rs_body = TText ''Alert not found''\<rparr>
      | Inr a \<Rightarrow> \<lparr>rs_code = 200, rs_headers = hset [] ''Content-Type'' ''application/json'', rs_body = TOne a\<rparr>)"

definition no_content_threat :: "(string, unit) result \<times> TAlert list \<Rightarrow> threat_body http_resp \<times> TAlert list" where
  "no_content_threat r = (case r of
      (Inl e, db) \<Rightarrow> (\<lparr>rs_code = 500, rs_headers = [], rs_body = TText e\<rparr>, db)
    | (Inr _, db) \<Rightarrow> (\<lparr>rs_code = 204, rs_headers = [], rs_body = TNone\<rparr>, db))"

definition AcknowledgeAlertT :: "bool \<Rightarrow> (string \<Rightarrow> string option) \<Rightarrow> string \<Rightarrow> TAlert list \<Rightarrow> threat_body http_resp \<times> TAlert list" where
  "AcknowledgeAlertT up oidFromHex i db = no_content_threat (AcknowledgeAlert up oidFromHex i db)"

definition ResolveAlertT :: "bool \<Rightarrow> bool \<Rightarrow> (string \<Rightarrow> string option) \<Rightarrow> time \<Rightarrow> string \<Rightarrow> TAlert list \<Rightarrow> threat_body http_resp \<times> TAlert list" where
  "ResolveAlertT find_up update_up oidFromHex now i db = no_content_threat (ResolveAlert find_up update_up oidFromHex now i db)"

subsection \<open>Brute force: one alert per window\<close>

lemma fire_simps [simp]:
  "tz (th_redis (fire io ck a s)) = tz (th_redis s)"
  "tk (th_redis (fire io ck a s)) = tk (th_redis s)"
  "ts_sets (th_redis (fire io ck a s)) = ts_sets (th_redis s)"
  "th_alerts (fire io ck a s) = snd (CreateAlert (t_store io) (t_oid io) (t_now io) a (th_alerts s))"
  by (auto simp: fire_def split: prod.splits)

lemma set_key_simps [simp]:
  "tz (set_key now k v d r) = tz r"
  "tk (set_key now k v d r) = (tk r)(k \<mapsto> (v, now + d))"
  "ts_sets (set_key now k v d r) = ts_sets r"
  by (simp_all add: set_key_def)

text \<open>Failures at the given times, every store answering.\<close>

definition failed_at :: "threat_io \<Rightarrow> int \<Rightarrow> string \<Rightarrow> time list \<Rightarrow> threat_st \<Rightarrow> threat_st" where
  "failed_at io maxAttempts' key = fold (\<lambda>t s. snd (trackFailedAttempt (io\<lparr>t_now := t\<rparr>) maxAttempts' key s))"

definition threat_up :: "threat_io \<Rightarrow> bool" where
  "threat_up io \<longleftrightarrow> t_redis io = (\<lambda>_. True) \<and> t_store io \<and> t_kafka io"

text \<open>What is in Redis and in the store after the failures \<open>ts\<close> of one window, from a state without the keys.\<close>

definition window_state :: "int \<Rightarrow> string \<Rightarrow> threat_io \<Rightarrow> time list \<Rightarrow> threat_st \<Rightarrow> threat_st \<Rightarrow> bool" where
  "window_state m key io ts s s' \<longleftrightarrow>
     tz (th_redis s') key = Some (map (\<lambda>t. t div Millisecond) ts, last ts + WindowSize) \<and>
     (if int (length ts) < m
      then tk (th_redis s') (''alert_fired:'' @ key) = None \<and> th_alerts s' = th_alerts s
      else tk (th_redis s') (''alert_fired:'' @ key) = Some (''1'', ts ! nat (m - 1) + WindowSize) \<and>
           th_alerts s' = snd (CreateAlert True (t_oid io) (ts ! nat (m - 1)) (bf_alert key m) (th_alerts s)))"

lemma window_add_within:
  assumes "live_scores t (tz r key) = map (\<lambda>t. t div Millisecond) ts" "\<forall>u\<in>set ts. t \<le> u + (w - Millisecond)"
    and w: "w mod Millisecond = 0" "0 < w"
  shows "window_add w t key r = (int (length ts) + 1,
     r\<lparr>tz := (tz r)(key \<mapsto> (map (\<lambda>t. t div Millisecond) (ts @ [t]), t + w))\<rparr>)"
proof -
  define n where "n = w div Millisecond"
  have n: "w = n * Millisecond" using div_mult_mod_eq [of w Millisecond] w(1) by (simp add: n_def)
  have "t div Millisecond - w div Millisecond < u div Millisecond" if "u \<in> set (ts @ [t])" for u
    using assms(2) that n w(2) by (auto simp: time_units)
  then have "filter (\<lambda>m. t div Millisecond - w div Millisecond < m) (map (\<lambda>t. t div Millisecond) (ts @ [t]))
      = map (\<lambda>t. t div Millisecond) (ts @ [t])"
    by (intro filter_True) auto
  then show ?thesis using assms(1) by (simp add: window_add_def Let_def del: filter.simps filter_append)
qed

lemma window_state_step:
  assumes st: "if ts = [] then tz (th_redis s') key = None \<and> tk (th_redis s') (''alert_fired:'' @ key) = None \<and> th_alerts s' = th_alerts s
      else window_state m key io ts s s'"
    and t: "\<forall>u\<in>set ts. u \<le> t \<and> t \<le> u + (WindowSize - Millisecond)" and up: "threat_up io" and m: "1 \<le> m"
  shows "window_state m key io (ts @ [t]) s (snd (trackFailedAttempt (io\<lparr>t_now := t\<rparr>) m key s'))"
proof -
  have "live_scores t (tz (th_redis s') key) = map (\<lambda>t. t div Millisecond) ts"
    using st t by (cases ts rule: rev_cases) (auto simp: live_scores_def window_state_def WindowSize_def time_units)
  from window_add_within [OF this, of WindowSize] t
  have add: "window_add WindowSize t key (th_redis s') = (int (length ts) + 1,
      (th_redis s')\<lparr>tz := (tz (th_redis s'))(key \<mapsto> (map (\<lambda>t. t div Millisecond) (ts @ [t]), t + WindowSize))\<rparr>)"
    by (auto simp: WindowSize_def time_units)
  consider "int (length ts) + 1 < m" | "int (length ts) + 1 = m" | "m \<le> int (length ts)" by linarith
  then show ?thesis
  proof cases
    case 1
    then show ?thesis using st up add m
      by (auto simp: trackFailedAttempt_def window_state_def threat_up_def Let_def split: if_splits)
  next
    case 2
    then have "nat (m - 1) = length ts" by simp
    then show ?thesis using st up add 2 m
      by (auto simp: trackFailedAttempt_def window_state_def threat_up_def Let_def exists_key_def split: if_splits)
  next
    case 3
    then have ne: "ts \<noteq> []" "nat (m - 1) < length ts" using m by auto
    then have "ts ! nat (m - 1) \<in> set ts" by simp
    with t have "t < ts ! nat (m - 1) + WindowSize" by (auto simp: WindowSize_def time_units)
    then show ?thesis using st up add 3 ne
      by (simp add: trackFailedAttempt_def window_state_def threat_up_def Let_def exists_key_def nth_append)
  qed
qed

lemma failed_at_window:
  assumes "ts \<noteq> []" "sorted ts" "last ts \<le> hd ts + (WindowSize - Millisecond)" "threat_up io" "1 \<le> m"
    and "tz (th_redis s) key = None" "tk (th_redis s) (''alert_fired:'' @ key) = None"
  shows "window_state m key io ts s (failed_at io m key ts s)"
  using assms(1-3)
proof (induction ts rule: rev_induct)
  case (snoc t ts)
  have le: "\<forall>u\<in>set ts. u \<le> t \<and> t \<le> u + (WindowSize - Millisecond)"
  proof
    fix u assume u: "u \<in> set ts"
    then have "hd ts \<le> u" using snoc.prems(2) by (cases ts) (auto simp: sorted_append)
    then show "u \<le> t \<and> t \<le> u + (WindowSize - Millisecond)" using snoc.prems u by (cases ts) (auto simp: sorted_append)
  qed
  have "if ts = [] then tz (th_redis (failed_at io m key ts s)) key = None \<and> tk (th_redis (failed_at io m key ts s)) (''alert_fired:'' @ key) = None
        \<and> th_alerts (failed_at io m key ts s) = th_alerts s
      else window_state m key io ts s (failed_at io m key ts s)"
  proof (cases "ts = []")
    case False
    then have "last ts \<le> t" "t \<le> hd ts + (WindowSize - Millisecond)" using le by simp_all
    then have "last ts \<le> hd ts + (WindowSize - Millisecond)" by linarith
    then show ?thesis using False snoc by (simp add: sorted_append)
  qed (use assms(6,7) in \<open>simp add: failed_at_def\<close>)
  from window_state_step [OF this le assms(4,5)] show ?case by (simp add: failed_at_def)
qed simp

text \<open>
  C26. Brute force, threshold and deduplication: failures of one address or account
  that lie within five minutes (less a millisecond), with Redis and the store up
  and no earlier failure on record, raise no alert below the threshold, and exactly one from
  the threshold on, made at the failure that reached it.
\<close>

theorem brute_force_alerts_once:
  assumes "ts \<noteq> []" "sorted ts" "last ts \<le> hd ts + (WindowSize - Millisecond)" "threat_up io" "1 \<le> m"
    and "tz (th_redis s) key = None" "tk (th_redis s) (''alert_fired:'' @ key) = None"
  shows "th_alerts (fold (\<lambda>t s. snd (trackFailedAttempt (io\<lparr>t_now := t\<rparr>) m key s)) ts s) =
     (if int (length ts) < m then th_alerts s
      else th_alerts s @ [(bf_alert key m)\<lparr>ta_ID := t_oid io, ta_CreatedAt := Some (ts ! nat (m - 1)), ta_Status := ''open''\<rparr>])"
  using failed_at_window [OF assms]
  by (auto simp: window_state_def failed_at_def CreateAlert_def bf_alert_def new_alert_def Let_def split: if_splits)

subsection \<open>Off hours: the history never matters\<close>

text \<open>One message handled by one of the detectors.\<close>

inductive threat_step :: "threat_st \<Rightarrow> threat_st \<Rightarrow> bool" where
  by_failure: "threat_step s (snd (processBruteForce io m v s))"
| by_hours: "threat_step s (snd (processOffHours io offStart offEnd v s))"
| by_device: "threat_step s (snd (processTakeover io v s))"
| by_login: "threat_step s (snd (processAuthEvent io v s))"
| by_policy: "threat_step s (snd (processPolicyEvent io v s))"

definition all_ones :: "threat_st \<Rightarrow> bool" where
  "all_ones s \<longleftrightarrow> (\<forall>k v t. tk (th_redis s) k = Some (v, t) \<longrightarrow> v = ''1'')"

lemma all_ones_fire [simp]: "all_ones (fire io ck a s) = all_ones s"
  by (simp add: all_ones_def)

lemma all_ones_set: "all_ones s \<Longrightarrow> all_ones (s\<lparr>th_redis := set_key now k ''1'' d (th_redis s)\<rparr>)"
  by (simp add: all_ones_def)

lemma all_ones_remember [simp]: "all_ones (snd (remember_device io k fp s)) = all_ones s"
  by (simp add: all_ones_def remember_device_def Let_def)

lemma all_ones_track: "all_ones s \<Longrightarrow> all_ones (snd (trackFailedAttempt io m key s))"
  by (auto simp: trackFailedAttempt_def window_add_def Let_def all_ones_def)

lemma all_ones_failure: "all_ones s \<Longrightarrow> all_ones (snd (processBruteForce io m v s))"
proof -
  assume s: "all_ones s"
  have one: "all_ones (snd (if b then trackFailedAttempt io m k t else (True, t)))" if "all_ones t" for b k t
    using that all_ones_track by simp
  have "all_ones (snd (case r of (False, s1) \<Rightarrow> (False, s1) | (True, s1) \<Rightarrow> if b then trackFailedAttempt io m k s1 else (True, s1)))"
    if "all_ones (snd r)" for r b k
    using that by (cases r; cases "fst r") (auto intro: all_ones_track)
  with s one show ?thesis
    by (cases "event_map v") (simp_all add: processBruteForce_def Let_def)
qed

lemma all_ones_hours: "all_ones s \<Longrightarrow> all_ones (snd (processOffHours io a b v s))"
  by (cases "event_map v") (simp_all add: processOffHours_def Let_def all_ones_set del: all_in_hours.simps split: option.split bool.split)

lemma all_ones_device: "all_ones s \<Longrightarrow> all_ones (snd (processTakeover io v s))"
  by (cases "event_map v") (simp_all add: processTakeover_def Let_def all_ones_set)

lemma all_ones_login: "all_ones s \<Longrightarrow> all_ones (snd (processAuthEvent io v s))"
  by (cases "event_map v") (simp_all add: processAuthEvent_def Let_def all_ones_set)

lemma all_ones_policy: "all_ones s \<Longrightarrow> all_ones (snd (processPolicyEvent io v s))"
  by (cases "event_map v") (simp_all add: processPolicyEvent_def Let_def)

lemma threat_step_ones: "all_ones s \<Longrightarrow> threat_step s t \<Longrightarrow> all_ones t"
  by (erule threat_step.cases) (simp_all only: all_ones_failure all_ones_hours all_ones_device all_ones_login all_ones_policy)

interpretation threat_history: step_invariant threat_step all_ones
  by unfold_locales (rule threat_step_ones)

lemma all_in_hours_ones:
  "all_ones s \<Longrightarrow> t_redis io = (\<lambda>_. True) \<Longrightarrow> all_in_hours io o' u (th_redis s) is = Some True"
  by (induction "is") (auto simp: exists_key_def all_ones_def split: option.splits if_splits)

text \<open>
  Off-hours access is never suppressed: whatever the detectors processed
  before, starting from an empty Redis, a login outside the hours with Redis and the store up
  raises an alert, although the code looks at the three days before.
\<close>

theorem off_hours_always_alerts:
  assumes "threat_step\<^sup>*\<^sup>* s0 s" "tk (th_redis s0) = Map.empty" "threat_up io"
    and "json_str ev ''event_type'' = ''auth.login.success''" "json_str ev ''user_id'' \<noteq> []" "json_str ev ''org_id'' \<noteq> []"
    and "is_off_hours offStart offEnd ((t_now io div Hour) mod 24)"
  shows "\<exists>a. th_alerts (snd (processOffHours io offStart offEnd (Some (JObj ev)) s)) = th_alerts s @ [a]
     \<and> ta_Detector a = ''off_hours_access'' \<and> ta_OrgID a = json_str ev ''org_id''"
proof -
  have "all_ones s" using threat_history.reach_inv [OF assms(1)] assms(2) by (simp add: all_ones_def)
  with assms(3) have "all_in_hours io o' u (th_redis s) is = Some True" for o' u "is"
    by (intro all_in_hours_ones) (auto simp: threat_up_def)
  then show ?thesis using assms(3-)
    by (simp add: processOffHours_def Let_def threat_up_def CreateAlert_def new_alert_def del: all_in_hours.simps)
qed

subsection \<open>Account takeover\<close>

definition login_print :: "threat_io \<Rightarrow> (string \<times> json) list \<Rightarrow> string" where
  "login_print io ev = computeFingerprint (t_sha256 io) (json_str ev ''user_agent'') (json_str ev ''accept_language'') (json_str ev ''platform'')"

lemma takeover_login:
  assumes "threat_up io" "json_str ev ''event_type'' = ''auth.login.success''" "json_str ev ''user_id'' = u" "u \<noteq> []"
    and "s' = snd (processTakeover io (Some (JObj ev)) s)"
  shows "th_alerts s' = (if exists_key (t_now io) (''ato:pwchange:'' @ u) (th_redis s) \<noteq> None
       \<and> login_print io ev \<notin> set (known_devices (t_now io) (''ato:devices:'' @ u) (th_redis s))
     then th_alerts s @ [(new_alert [] u ''account_takeover'' 7 ''HIGH'' [(''fingerprint'', JStr (login_print io ev))])
       \<lparr>ta_ID := t_oid io, ta_CreatedAt := Some (t_now io), ta_Status := ''open''\<rparr>] else th_alerts s)"
    and "\<exists>known. ts_sets (th_redis s') (''ato:devices:'' @ u) = Some (known, t_now io + 30 * 24 * Hour) \<and> login_print io ev \<in> set known"
    and "tk (th_redis s') = tk (th_redis s)"
  using assms
  by (auto simp: processTakeover_def Let_def threat_up_def login_print_def CreateAlert_def new_alert_def remember_device_def)

text \<open>
  Account takeover: after a password change at \<open>t0\<close>, the next login raises an
  alert exactly when it is within 24 hours and its device is not among the
  known ones, and a further login from that device within thirty days never
  does.
\<close>

theorem takeover_alert_once_per_device:
  assumes "threat_up io0" "threat_up io1" "threat_up io2" "t_sha256 io1 = t_sha256 io2" "u \<noteq> []"
    and "json_str ch ''event_type'' = ''password.changed''" "json_str ch ''user_id'' = u"
    and "json_str ev ''event_type'' = ''auth.login.success''" "json_str ev ''user_id'' = u"
    and "t_now io1 \<le> t_now io2" "t_now io2 < t_now io1 + 30 * 24 * Hour"
    and s1: "s1 = snd (processTakeover io0 (Some (JObj ch)) s)"
    and s2: "s2 = snd (processTakeover io1 (Some (JObj ev)) s1)"
    and s3: "s3 = snd (processTakeover io2 (Some (JObj ev)) s2)"
  shows "(th_alerts s2 \<noteq> th_alerts s \<longleftrightarrow> t_now io1 < t_now io0 + 24 * Hour \<and>
      computeFingerprint (t_sha256 io1) (json_str ev ''user_agent'') (json_str ev ''accept_language'') (json_str ev ''platform'')
        \<notin> set (known_devices (t_now io1) (''ato:devices:'' @ u) (th_redis s))) \<and> th_alerts s3 = th_alerts s2"
proof -
  have s1': "th_alerts s1 = th_alerts s" "ts_sets (th_redis s1) = ts_sets (th_redis s)"
    "tk (th_redis s1) (''ato:pwchange:'' @ u) = Some (''1'', t_now io0 + 24 * Hour)"
    using assms(1,5-7) s1 by (simp_all add: processTakeover_def threat_up_def Let_def)
  note login1 = takeover_login [OF assms(2,8,9,5) s2]
  note login2 = takeover_login [OF assms(3,8,9,5) s3]
  have same: "login_print io2 ev = login_print io1 ev" using assms(4) by (simp add: login_print_def)
  obtain known where "ts_sets (th_redis s2) (''ato:devices:'' @ u) = Some (known, t_now io1 + 30 * 24 * Hour)" "login_print io1 ev \<in> set known"
    using login1(2) by blast
  then have "login_print io2 ev \<in> set (known_devices (t_now io2) (''ato:devices:'' @ u) (th_redis s2))"
    using assms(11) same by (simp add: known_devices_def)
  then have "th_alerts s3 = th_alerts s2" using login2(1) by simp
  moreover have "known_devices t k (th_redis s1) = known_devices t k (th_redis s)" for t k using s1'(2) by (simp add: known_devices_def)
  ultimately show ?thesis using login1(1) s1' by (auto simp: exists_key_def login_print_def split: if_splits)
qed

subsection \<open>Composition\<close>

text \<open>
  Privilege escalation cannot see policy changes: the message that the policy
  service writes for a change has no \<open>action\<close> member, so the detector that reads
  the topic raises nothing, whoever made the change and however recently they
  logged in.
\<close>

theorem policy_changes_never_escalate:
  assumes "PublishPolicyChange env ob now db orgID policyID eventType = Ok db'"
  shows "\<exists>r. outbox_records db' = outbox_records db @ [r] \<and> ob_topic r = ''policy.changes''
     \<and> processPolicyEvent io (Some (ob_payload r)) s = (True, s)"
proof -
  obtain r where r: "outbox_records db' = outbox_records db @ [r]" "ob_topic r = ''policy.changes''"
    "ob_payload r = JObj [(''event_type'', JStr eventType), (''org_id'', JStr orgID), (''policy_id'', JStr policyID)]"
    using PublishPolicyChange_Ok [OF assms] by blast
  then have "processPolicyEvent io (Some (ob_payload r)) s = (True, s)"
    by (simp add: processPolicyEvent_def Let_def json_str_def json_lookup_def)
  then show ?thesis using r by blast
qed

text \<open>The message on \<open>threat.alerts\<close> as the alerting service decodes it: the members both structs name.\<close>

definition to_alert :: "TAlert \<Rightarrow> Alert" where
  "to_alert a = \<lparr>al_ID = ta_ID a, al_OrgID = ta_OrgID a, al_Type = ta_Detector a, al_Severity = ta_Severity a, al_Status = ta_Status a,
     al_RiskScore = JNum (ta_Score a), al_DetectorID = [], al_RawEvent = JNull, al_SagaSteps = None,
     al_CreatedAt = (case ta_CreatedAt a of None \<Rightarrow> zero_time | Some t \<Rightarrow> t), al_AckAt = None, al_ResolvedAt = ta_ResolvedAt a,
     al_MTTR = (case ta_MTTR a of None \<Rightarrow> 0 | Some n \<Rightarrow> n * Second)\<rparr>"

lemma fire_unsaved:
  assumes "\<not> t_store io" "t_kafka io" "ta_ID a = zero_oid"
  shows "\<exists>a'. th_out (fire io ck a s) = th_out s @ [(zero_oid, a')] \<and> ta_ID a' = zero_oid \<and> ta_Detector a' = ta_Detector a"
  using assms by (simp add: fire_def CreateAlert_def Let_def)

text \<open>
  Threats collapse when their store is down: the detectors still publish, but
  every alert then carries the zero id, and the alerting service, which keys by
  that id, notifies and audits only the first of two such alerts even when all
  of its own stores work.
\<close>

theorem unsaved_threats_collapse:
  assumes "\<not> t_store io" "t_kafka io" "th_out s = []"
    and "s2 = fire io ck2 (new_alert o2 u2 d2 sc2 sev2 md2) (fire io ck1 (new_alert o1 u1 d1 sc1 sev1 md1) s)"
    and "zero_oid \<notin> al_ID ` set (as_db q)"
    and "\<forall>step\<in>{''persist'', ''notify'', ''audit''}. \<exists>k<5. so_up so step k \<and> (\<forall>j<k. so_alive so step j)"
  shows "\<exists>a b. map snd (th_out s2) = [a, b] \<and> ta_Detector a = d1 \<and> ta_Detector b = d2 \<and>
     as_log (fold (\<lambda>x. processMessage so (Some (to_alert x))) [a, b] q) =
     as_log q @ [(''notifications.outbound'', zero_oid, to_alert a), (''audit.trail'', zero_oid, to_alert a)]"
proof -
  have id0: "ta_ID (new_alert o' u d sc sev md) = zero_oid" "ta_Detector (new_alert o' u d sc sev md) = d" for o' u d sc sev md
    by (simp_all add: new_alert_def)
  obtain a where a: "th_out (fire io ck1 (new_alert o1 u1 d1 sc1 sev1 md1) s) = [(zero_oid, a)]" "ta_ID a = zero_oid" "ta_Detector a = d1"
    using fire_unsaved [OF assms(1,2) id0(1), of ck1 o1 u1 d1 sc1 sev1 md1 s] unfolding assms(3) id0 by auto
  obtain b where b: "th_out s2 = [(zero_oid, a), (zero_oid, b)]" "ta_ID b = zero_oid" "ta_Detector b = d2"
    using fire_unsaved [OF assms(1,2) id0(1), of ck2 o2 u2 d2 sc2 sev2 md2 "fire io ck1 (new_alert o1 u1 d1 sc1 sev1 md1) s"]
    unfolding assms(4) [symmetric] a(1) id0 by auto
  have ids: "al_ID (to_alert x) = ta_ID x" "al_SagaSteps (to_alert x) = None" for x by (simp_all add: to_alert_def)
  define q1 where "q1 = processMessage so (Some (to_alert a)) q"
  have first: "q1 = q\<lparr>as_db := as_db q @ [to_alert a], as_log := as_log q @
      [(''notifications.outbound'', zero_oid, to_alert a), (''audit.trail'', zero_oid, to_alert a)]\<rparr>"
    using process_new [of "to_alert a" q so, unfolded ids a(2), OF assms(5) refl assms(6)] unfolding q1_def .
  have "as_log (processMessage so (Some (to_alert b)) q1) = as_log q1"
    using a(2) b(2) ids by (intro process_known) (simp add: first)
  then have "as_log (fold (\<lambda>x. processMessage so (Some (to_alert x))) [a, b] q) = as_log q1" unfolding q1_def by simp
  then have "as_log (fold (\<lambda>x. processMessage so (Some (to_alert x))) [a, b] q) =
      as_log q @ [(''notifications.outbound'', zero_oid, to_alert a), (''audit.trail'', zero_oid, to_alert a)]"
    unfolding first by simp
  moreover have "map snd (th_out s2) = [a, b]" using b(1) by simp
  ultimately show ?thesis using a(3) b(3) by (intro exI [of _ a] exI [of _ b]) simp
qed

subsection \<open>Instances\<close>

definition all_up :: "time \<Rightarrow> threat_io" where
  "all_up now = \<lparr>t_now = now, t_redis = (\<lambda>_. True), t_store = True, t_kafka = True, t_oid = ''oid'', t_sha256 = (\<lambda>s. s)\<rparr>"

definition fresh :: threat_st where
  "fresh = \<lparr>th_redis = \<lparr>tz = Map.empty, tk = Map.empty, ts_sets = Map.empty, tt = Map.empty\<rparr>, th_alerts = [], th_out = []\<rparr>"

lemma threat_up_all [simp]: "threat_up (all_up now)"
  by (simp add: threat_up_def all_up_def)

theorem brute_force_alerts_once_witness:
  "length (th_alerts (fold (\<lambda>t s. snd (trackFailedAttempt ((all_up 0)\<lparr>t_now := t\<rparr>) 2 ''bruteforce:ip:1.2.3.4'' s))
     [0, Second, 2 * Second, Minute] fresh)) = 1"
  by (subst brute_force_alerts_once) (simp_all add: fresh_def time_units WindowSize_def)

theorem off_hours_always_alerts_witness:
  "length (th_alerts (snd (processOffHours (all_up (23 * Hour)) 22 6
     (Some (JObj [(''event_type'', JStr ''auth.login.success''), (''user_id'', JStr ''u''), (''org_id'', JStr ''o'')])) fresh))) = 1"
proof -
  let ?ev = "[(''event_type'', JStr ''auth.login.success''), (''user_id'', JStr ''u''), (''org_id'', JStr ''o'')]"
  have "\<exists>a. th_alerts (snd (processOffHours (all_up (23 * Hour)) 22 6 (Some (JObj ?ev)) fresh)) = th_alerts fresh @ [a]
     \<and> ta_Detector a = ''off_hours_access'' \<and> ta_OrgID a = json_str ?ev ''org_id''"
    by (rule off_hours_always_alerts [OF rtranclp.rtrancl_refl])
      (simp_all add: fresh_def json_str_def json_lookup_def is_off_hours_def all_up_def threat_up_def time_units)
  then show ?thesis by (auto simp: fresh_def)
qed

theorem takeover_alert_once_per_device_witness:
  "\<exists>s2 s3. s2 = snd (processTakeover (all_up Hour) (Some (JObj [(''event_type'', JStr ''auth.login.success''), (''user_id'', JStr ''u'')]))
       (snd (processTakeover (all_up 0) (Some (JObj [(''event_type'', JStr ''password.changed''), (''user_id'', JStr ''u'')])) fresh)))
   \<and> s3 = snd (processTakeover (all_up (2 * Hour)) (Some (JObj [(''event_type'', JStr ''auth.login.success''), (''user_id'', JStr ''u'')])) s2)
   \<and> th_alerts s2 \<noteq> [] \<and> th_alerts s3 = th_alerts s2"
proof -
  let ?ch = "[(''event_type'', JStr ''password.changed''), (''user_id'', JStr ''u'')]"
  let ?ev = "[(''event_type'', JStr ''auth.login.success''), (''user_id'', JStr ''u'')]"
  have t: "t_now (all_up t) = t" "t_sha256 (all_up t) = (\<lambda>s. s)" for t by (simp_all add: all_up_def)
  have f: "th_alerts fresh = []" "known_devices t k (th_redis fresh) = []" for t k by (simp_all add: fresh_def known_devices_def)
  show ?thesis
    using takeover_alert_once_per_device [OF threat_up_all [of 0] threat_up_all [of Hour] threat_up_all [of "2 * Hour"],
        of "''u''" ?ch ?ev _ fresh, OF _ _ _ _ _ _ _ _ refl refl refl]
    by (simp add: json_str_def json_lookup_def time_units t f)
qed

theorem policy_changes_never_escalate_witness:
  "\<exists>r :: outbox_record. ob_topic r = ''policy.changes'' \<and>
     processPolicyEvent (all_up 0) (Some (ob_payload r)) (fresh\<lparr>th_redis := set_key 0 ''privsec:login:u'' ''1'' Hour (th_redis fresh)\<rparr>)
       = (True, fresh\<lparr>th_redis := set_key 0 ''privsec:login:u'' ''1'' Hour (th_redis fresh)\<rparr>)"
proof -
  have "\<exists>db'. PublishPolicyChange \<lparr>rls_enforced = True, pg_uuid = Some, uuid_parse = (\<lambda>_. True)\<rparr> ''ob'' 0 sample_db ''o'' ''p'' ''policy.updated'' = Ok db'"
    by (simp add: PublishPolicyChange_def WriteTx_def)
  then obtain db' where "PublishPolicyChange \<lparr>rls_enforced = True, pg_uuid = Some, uuid_parse = (\<lambda>_. True)\<rparr>
      ''ob'' 0 sample_db ''o'' ''p'' ''policy.updated'' = Ok db'" by blast
  from policy_changes_never_escalate [OF this, of "all_up 0" "fresh\<lparr>th_redis := set_key 0 ''privsec:login:u'' ''1'' Hour (th_redis fresh)\<rparr>"]
  show ?thesis by blast
qed

theorem unsaved_threats_collapse_witness:
  "\<exists>a b. ta_Detector a = ''brute_force'' \<and> ta_Detector b = ''account_takeover'' \<and>
     length (as_log (fold (\<lambda>x. processMessage working (Some (to_alert x))) [a, b] \<lparr>as_db = [], as_log = []\<rparr>)) = 2"
proof -
  have "\<forall>step\<in>{''persist'', ''notify'', ''audit''}. \<exists>k<5. so_up working step k \<and> (\<forall>j<k. so_alive working step j)"
    by (auto simp: working_def intro: exI [of _ 0])
  from unsaved_threats_collapse [of "(all_up 0)\<lparr>t_store := False\<rparr>" fresh _ "''k2''" "[]" "''u''" "''account_takeover''" 7 "''HIGH''" "[]"
      "''k1''" "[]" "''u''" "''brute_force''" 9 "''HIGH''" "[]" "\<lparr>as_db = [], as_log = []\<rparr>" working, OF _ _ _ refl _ this]
  obtain a b where "ta_Detector a = ''brute_force''" "ta_Detector b = ''account_takeover''"
    "length (as_log (fold (\<lambda>x. processMessage working (Some (to_alert x))) [a, b] \<lparr>as_db = [], as_log = []\<rparr>)) = 2"
    by (auto simp: all_up_def fresh_def)
  then show ?thesis by blast
qed

end
