(* ===== verification/Threat_Travel.thy ===== *)
theory Threat_Travel
  imports Complex_Main Threat Net_IP
begin

text \<open>
  The detectors that compute with \<open>float64\<close>: impossible travel and data
  exfiltration (services/threat/pkg/detector), and the composite score
  (services/threat/pkg/scorer).

  The arithmetic is an argument of the definitions: a record of the floating
  point operations the code calls, in the order it calls them (no fused
  multiply-add).  Properties hold for every such record, except where they
  speak of \<open>exact\<close>, the record of the real operations, to say what the
  formulas compute up to rounding.  \<open>f_dec m k\<close> is the literal
  \<open>m / 10^k\<close>; \<open>f_json\<close> is the number \<open>encoding/json\<close> prints.
\<close>

record 'f f64 =
  f_int :: "int \<Rightarrow> 'f"
  f_dec :: "int \<Rightarrow> nat \<Rightarrow> 'f"
  f_pi :: 'f
  f_add :: "'f \<Rightarrow> 'f \<Rightarrow> 'f"
  f_sub :: "'f \<Rightarrow> 'f \<Rightarrow> 'f"
  f_mul :: "'f \<Rightarrow> 'f \<Rightarrow> 'f"
  f_div :: "'f \<Rightarrow> 'f \<Rightarrow> 'f"
  f_neg :: "'f \<Rightarrow> 'f"
  f_sqrt :: "'f \<Rightarrow> 'f"
  f_sin :: "'f \<Rightarrow> 'f"
  f_cos :: "'f \<Rightarrow> 'f"
  f_exp :: "'f \<Rightarrow> 'f"
  f_atan2 :: "'f \<Rightarrow> 'f \<Rightarrow> 'f"
  f_less :: "'f \<Rightarrow> 'f \<Rightarrow> bool"
  f_le :: "'f \<Rightarrow> 'f \<Rightarrow> bool"
  f_eq :: "'f \<Rightarrow> 'f \<Rightarrow> bool"
  f_json :: "'f \<Rightarrow> json"

text \<open>\<open>Duration.Seconds\<close> and \<open>Duration.Minutes\<close>: whole units and the rest, each converted on its own.\<close>

definition dur_div :: "time \<Rightarrow> time \<Rightarrow> int" where
  "dur_div d u = (if d < 0 then - ((- d) div u) else d div u)"

definition Seconds :: "'f f64 \<Rightarrow> time \<Rightarrow> 'f" where
  "Seconds F d = f_add F (f_int F (dur_div d Second)) (f_div F (f_int F (d - dur_div d Second * Second)) (f_int F Second))"

definition Minutes :: "'f f64 \<Rightarrow> time \<Rightarrow> 'f" where
  "Minutes F d = f_add F (f_int F (dur_div d Minute)) (f_div F (f_int F (d - dur_div d Minute * Minute)) (f_int F Minute))"

subsection \<open>Impossible travel\<close>

record 'f LastLogin =
  ll_IP :: string
  ll_Lat :: 'f
  ll_Lon :: 'f
  ll_Timestamp :: time

text \<open>The state of the detectors and the Redis keys \<open>travel:\<dots>\<close>, each holding the JSON of a login.\<close>

record 'f travel_st =
  tv_base :: threat_st
  tv_last :: "string \<Rightarrow> ('f LastLogin \<times> time) option"

definition haversine :: "'f f64 \<Rightarrow> 'f \<Rightarrow> 'f \<Rightarrow> 'f \<Rightarrow> 'f \<Rightarrow> 'f" where
  "haversine F lat1 lon1 lat2 lon2 =
     (let rad = (\<lambda>x. f_div F (f_mul F x (f_pi F)) (f_dec F 180 0));
          dLat = rad (f_sub F lat2 lat1); dLon = rad (f_sub F lon2 lon1);
          hLat = f_sin F (f_div F dLat (f_int F 2)); hLon = f_sin F (f_div F dLon (f_int F 2));
          a = f_add F (f_mul F hLat hLat)
            (f_mul F (f_mul F (f_mul F (f_cos F (rad lat1)) (f_cos F (rad lat2))) hLon) hLon);
          c = f_mul F (f_int F 2) (f_atan2 F (f_sqrt F a) (f_sqrt F (f_sub F (f_int F 1) a)))
      in f_mul F (f_dec F 6371 0) c)"

definition travel_alert :: "'f f64 \<Rightarrow> string \<Rightarrow> 'f \<Rightarrow> 'f \<Rightarrow> TAlert" where
  "travel_alert F userID distance timeDelta =
     new_alert [] userID ''impossible_travel'' 9 ''HIGH'' [(''distance_km'', f_json F distance), (''time_delta_sec'', f_json F timeDelta)]"

definition windowSecs :: int where "windowSecs = 3600"

definition detect_travel :: "'f f64 \<Rightarrow> 'f \<Rightarrow> threat_io \<Rightarrow> string \<Rightarrow> 'f LastLogin \<Rightarrow> 'f LastLogin \<Rightarrow> threat_st \<Rightarrow> threat_st" where
  "detect_travel F threshold io userID prev current s =
     (if ll_IP prev = ll_IP current then s
      else let distance = haversine F (ll_Lat prev) (ll_Lon prev) (ll_Lat current) (ll_Lon current);
               timeDelta = Seconds F (ll_Timestamp current - ll_Timestamp prev)
           in if f_less F threshold distance \<and> f_less F timeDelta (f_int F windowSecs)
              then fire io (''travel:'' @ userID) (travel_alert F userID distance timeDelta) s
              else s)"

text \<open>
  The script: read the key, then overwrite it with an expiry; a key past its
  expiry reads as nil.  \<open>city\<close> is the GeoLite2 lookup, which refuses a nil address.
\<close>

definition travel_swap :: "time \<Rightarrow> string \<Rightarrow> 'f LastLogin \<Rightarrow> (string \<Rightarrow> ('f LastLogin \<times> time) option) \<Rightarrow>
    'f LastLogin option \<times> (string \<Rightarrow> ('f LastLogin \<times> time) option)" where
  "travel_swap now key v m =
     ((case m key of None \<Rightarrow> None | Some (l, t) \<Rightarrow> if now < t then Some l else None), m(key \<mapsto> (v, now + windowSecs * Second)))"

definition processTravel :: "'f f64 \<Rightarrow> 'f \<Rightarrow> (ip \<Rightarrow> ('f \<times> 'f) option) \<Rightarrow> threat_io \<Rightarrow> raw_json \<Rightarrow> 'f travel_st \<Rightarrow> bool \<times> 'f travel_st" where
  "processTravel F threshold city io value s =
     (case event_map value of
        None \<Rightarrow> (True, s)
      | Some event \<Rightarrow>
          (let userID = json_str event ''user_id''; ipStr = json_str event ''ip'' in
           if json_str event ''event_type'' \<noteq> ''auth.login.success'' \<or> userID = [] \<or> ipStr = [] then (True, s)
           else (case Option.bind (ParseIP ipStr) city of
             None \<Rightarrow> (True, s)
           | Some (lat, lon) \<Rightarrow>
               (let current = \<lparr>ll_IP = ipStr, ll_Lat = lat, ll_Lon = lon, ll_Timestamp = t_now io\<rparr> in
                if \<not> t_redis io ''travel'' then (False, s)
                else (case travel_swap (t_now io) (''travel:'' @ userID) current (tv_last s) of
                  (None, m) \<Rightarrow> (True, s\<lparr>tv_last := m\<rparr>)
                | (Some prev, m) \<Rightarrow> (True, s\<lparr>tv_base := detect_travel F threshold io userID prev current (tv_base s), tv_last := m\<rparr>))))))"

subsection \<open>Data exfiltration\<close>

text \<open>
  A baseline that is missing, or that Redis does not return, reads as 0;
  \<open>parseF\<close> is \<open>strconv.ParseFloat\<close>, whose value is used whether or not it is
  an error.
\<close>

definition baseline :: "'f f64 \<Rightarrow> (string \<Rightarrow> 'f) \<Rightarrow> threat_io \<Rightarrow> string \<Rightarrow> threat_redis \<Rightarrow> 'f" where
  "baseline F parseF io key r =
     (case (if t_redis io key then exists_key (t_now io) key r else None) of None \<Rightarrow> f_int F 0 | Some v \<Rightarrow> parseF v)"

definition access_alert :: "'f f64 \<Rightarrow> string \<Rightarrow> string \<Rightarrow> int \<Rightarrow> 'f \<Rightarrow> 'f \<Rightarrow> TAlert" where
  "access_alert F orgID userID n mean stddev =
     new_alert orgID userID ''data_exfiltration'' 7 ''HIGH'' [(''count'', JNum n), (''mean'', f_json F mean), (''stddev'', f_json F stddev)]"

definition access_key :: "string \<Rightarrow> string \<Rightarrow> string" where
  "access_key orgID userID = ''access:'' @ orgID @ '':'' @ userID"

definition processAccess :: "'f f64 \<Rightarrow> (string \<Rightarrow> 'f) \<Rightarrow> threat_io \<Rightarrow> raw_json \<Rightarrow> threat_st \<Rightarrow> bool \<times> threat_st" where
  "processAccess F parseF io value s =
     (case event_map value of
        None \<Rightarrow> (True, s)
      | Some event \<Rightarrow>
          (let userID = json_str event ''user_id''; orgID = json_str event ''org_id'' in
           if userID = [] \<or> orgID = [] then (True, s)
           else if \<not> t_redis io ''access'' then (False, s)
           else (case window_add Hour (t_now io) (access_key orgID userID) (th_redis s) of (n, r) \<Rightarrow>
             (let s1 = s\<lparr>th_redis := r\<rparr>;
                  mean = baseline F parseF io (''baseline:'' @ orgID @ '':access_mean'') r;
                  stddev = baseline F parseF io (''baseline:'' @ orgID @ '':access_stddev'') r;
                  alerted = fire io (''exfiltration:'' @ orgID @ '':'' @ userID) (access_alert F orgID userID n mean stddev) s1
              in if f_eq F mean (f_int F 0) then (True, if n > 1000 then alerted else s1)
                 else if f_less F (f_add F mean (f_mul F (f_int F 3) stddev)) (f_int F n) then (True, alerted)
                 else (True, s1)))))"

subsection \<open>Composite score\<close>

record 'f Score =
  sc_Value :: 'f
  sc_Source :: string
  sc_OccurredAt :: time

definition decayed :: "'f f64 \<Rightarrow> time \<Rightarrow> 'f Score \<Rightarrow> 'f" where
  "decayed F now x = f_mul F (sc_Value x) (f_exp F (f_mul F (f_neg F (f_dec F 5 2)) (Minutes F (now - sc_OccurredAt x))))"

definition score_step :: "'f f64 \<Rightarrow> time \<Rightarrow> 'f Score \<Rightarrow> 'f \<times> string \<Rightarrow> 'f \<times> string" where
  "score_step F now x best = (if f_less F (fst best) (decayed F now x) then (decayed F now x, sc_Source x) else best)"

definition CompositeScore :: "'f f64 \<Rightarrow> time \<Rightarrow> 'f Score list \<Rightarrow> 'f \<times> string" where
  "CompositeScore F now scores =
     (if scores = [] then (f_int F 0, []) else fold (score_step F now) scores (f_dec F 0 1, []))"

definition Severity :: "'f f64 \<Rightarrow> 'f \<Rightarrow> string" where
  "Severity F score =
     (if f_le F (f_dec F 95 2) score then ''CRITICAL''
      else if f_le F (f_dec F 8 1) score then ''HIGH''
      else if f_le F (f_dec F 5 1) score then ''MEDIUM''
      else ''LOW'')"

subsection \<open>The formulas in exact arithmetic\<close>

definition atan2 :: "real \<Rightarrow> real \<Rightarrow> real" where
  "atan2 y x =
     (if x > 0 then arctan (y / x)
      else if x < 0 then (if y \<ge> 0 then arctan (y / x) + pi else arctan (y / x) - pi)
      else if y > 0 then pi / 2 else if y < 0 then - (pi / 2) else 0)"

definition exact :: "(real \<Rightarrow> json) \<Rightarrow> real f64" where
  "exact pr = \<lparr>f_int = real_of_int, f_dec = (\<lambda>m k. real_of_int m / 10 ^ k), f_pi = pi, f_add = (+), f_sub = (-), f_mul = (*),
     f_div = (/), f_neg = uminus, f_sqrt = sqrt, f_sin = sin, f_cos = cos, f_exp = exp, f_atan2 = atan2, f_less = (<), f_le = (\<le>),
     f_eq = (=), f_json = pr\<rparr>"

lemma exact_simps [simp]:
  "f_int (exact pr) = real_of_int" "f_dec (exact pr) m k = real_of_int m / 10 ^ k" "f_pi (exact pr) = pi"
  "f_add (exact pr) = (+)" "f_sub (exact pr) = (-)" "f_mul (exact pr) = (*)" "f_div (exact pr) = (/)" "f_neg (exact pr) = uminus"
  "f_sqrt (exact pr) = sqrt" "f_sin (exact pr) = sin" "f_cos (exact pr) = cos" "f_exp (exact pr) = exp" "f_atan2 (exact pr) = atan2"
  "f_less (exact pr) = (<)" "f_le (exact pr) = (\<le>)" "f_eq (exact pr) = (=)" "f_json (exact pr) = pr"
  by (simp_all add: exact_def)

text \<open>Great-circle distance by the spherical law of cosines, in kilometres, of points in degrees.\<close>

definition central_cos :: "real \<Rightarrow> real \<Rightarrow> real \<Rightarrow> real \<Rightarrow> real" where
  "central_cos lat1 lon1 lat2 lon2 =
     sin (lat1 * pi / 180) * sin (lat2 * pi / 180) + cos (lat1 * pi / 180) * cos (lat2 * pi / 180) * cos ((lon2 - lon1) * pi / 180)"

definition great_circle :: "real \<Rightarrow> real \<Rightarrow> real \<Rightarrow> real \<Rightarrow> real" where
  "great_circle lat1 lon1 lat2 lon2 = 6371 * arccos (central_cos lat1 lon1 lat2 lon2)"

lemma central_bounds: "- 1 \<le> central_cos lat1 lon1 lat2 lon2" "central_cos lat1 lon1 lat2 lon2 \<le> 1"
proof -
  define x y c where "x = lat1 * pi / 180" and "y = lat2 * pi / 180" and "c = cos ((lon2 - lon1) * pi / 180)"
  have mix: "sin x * sin y + cos x * cos y * c = (1 + c) / 2 * cos (x - y) + (1 - c) / 2 * (- cos (x + y))"
    by (simp add: cos_diff cos_add field_simps)
  have w: "0 \<le> (1 + c) / 2" "0 \<le> (1 - c) / 2"
    using cos_ge_minus_one [of "(lon2 - lon1) * pi / 180", folded c_def] cos_le_one [of "(lon2 - lon1) * pi / 180", folded c_def] by simp_all
  have "(1 + c) / 2 * cos (x - y) + (1 - c) / 2 * (- cos (x + y)) \<le> (1 + c) / 2 * 1 + (1 - c) / 2 * 1"
    using w by (intro add_mono mult_left_mono) auto
  moreover have "(1 + c) / 2 * (- 1) + (1 - c) / 2 * (- 1) \<le> (1 + c) / 2 * cos (x - y) + (1 - c) / 2 * (- cos (x + y))"
    using w by (intro add_mono mult_left_mono) auto
  ultimately have "- 1 \<le> sin x * sin y + cos x * cos y * c" "sin x * sin y + cos x * cos y * c \<le> 1"
    unfolding mix by (simp_all add: field_simps)
  then show "- 1 \<le> central_cos lat1 lon1 lat2 lon2" "central_cos lat1 lon1 lat2 lon2 \<le> 1"
    by (simp_all add: central_cos_def x_def y_def c_def)
qed

lemma half_angle: "2 * (sin (x / 2) * sin (x / 2)) = 1 - cos (x :: real)"
  using cos_double_sin [of "x / 2"] by (simp add: power2_eq_square)

lemma atan2_arccos:
  assumes "0 \<le> a" "a \<le> 1"
  shows "2 * atan2 (sqrt a) (sqrt (1 - a)) = arccos (1 - 2 * a)"
proof -
  define t where "t = arcsin (sqrt a)"
  have r: "0 \<le> sqrt a" "sqrt a \<le> 1" "- 1 \<le> sqrt a" using assms by (simp_all add: order_trans [of "- 1" 0])
  have s: "sin t = sqrt a" "0 \<le> t" "t \<le> pi / 2"
    unfolding t_def using r arcsin_le_arcsin [of 0 "sqrt a"] arcsin_ubound [of "sqrt a"] by (simp_all del: real_sqrt_le_1_iff)
  have "cos t = sqrt (1 - a)"
    unfolding t_def using r assms by (simp add: cos_arcsin)
  have "atan2 (sqrt a) (sqrt (1 - a)) = t"
  proof (cases "a = 1")
    case True
    then show ?thesis by (simp add: atan2_def t_def)
  next
    case False
    then have "0 < cos t" using assms \<open>cos t = sqrt (1 - a)\<close> by simp
    then have "t < pi / 2" using s(3) cos_pi_half by (cases "t = pi / 2") auto
    then have "arctan (tan t) = t" using s(2) by (intro arctan_tan) auto
    then show ?thesis using \<open>0 < cos t\<close> \<open>cos t = sqrt (1 - a)\<close> s(1) by (simp add: atan2_def tan_def)
  qed
  moreover have "cos (2 * t) = 1 - 2 * a" using s(1) assms by (simp add: cos_double_sin)
  then have "arccos (1 - 2 * a) = 2 * t" using s(2,3) arccos_cos [of "2 * t"] by simp
  ultimately show ?thesis by simp
qed

lemma haversine_great_circle: "haversine (exact pr) lat1 lon1 lat2 lon2 = great_circle lat1 lon1 lat2 lon2"
proof -
  define x y d where "x = lat1 * pi / 180" and "y = lat2 * pi / 180" and "d = (lon2 - lon1) * pi / 180"
  define a where "a = sin ((y - x) / 2) * sin ((y - x) / 2) + cos x * cos y * sin (d / 2) * sin (d / 2)"
  have diff: "(lat2 - lat1) * pi / 180 = y - x" by (simp add: x_def y_def diff_divide_distrib left_diff_distrib)
  have hav: "haversine (exact pr) lat1 lon1 lat2 lon2 = 6371 * (2 * atan2 (sqrt a) (sqrt (1 - a)))"
    unfolding haversine_def Let_def a_def exact_simps x_def [symmetric] y_def [symmetric] d_def [symmetric]
    by (simp only: diff x_def [symmetric] y_def [symmetric] d_def [symmetric] of_int_numeral of_int_1 power_0 div_by_1)
  have "2 * a = (1 - cos (y - x)) + cos x * cos y * (1 - cos d)"
    unfolding a_def half_angle [symmetric] by (simp add: algebra_simps)
  then have c: "1 - 2 * a = central_cos lat1 lon1 lat2 lon2"
    by (simp add: central_cos_def cos_diff x_def y_def d_def algebra_simps)
  have "0 \<le> a" "a \<le> 1" using central_bounds [of lat1 lon1 lat2 lon2] unfolding c [symmetric] by linarith+
  then show ?thesis unfolding hav great_circle_def by (simp add: atan2_arccos c)
qed

subsection \<open>Impossible travel\<close>

definition login_event :: "string \<Rightarrow> string \<Rightarrow> (string \<times> json) list \<Rightarrow> bool" where
  "login_event u addr ev \<longleftrightarrow> json_str ev ''event_type'' = ''auth.login.success'' \<and> json_str ev ''user_id'' = u \<and> json_str ev ''ip'' = addr
     \<and> u \<noteq> [] \<and> addr \<noteq> []"

definition place :: "(ip \<Rightarrow> ('f \<times> 'f) option) \<Rightarrow> string \<Rightarrow> ('f \<times> 'f) option" where
  "place city addr = Option.bind (ParseIP addr) city"

lemma travel_login:
  assumes "login_event u addr ev" "place city addr = Some (lat, lon)" "threat_up io"
  shows "processTravel F thr city io (Some (JObj ev)) s =
    (True, s\<lparr>tv_base := (case tv_last s (''travel:'' @ u) of
         None \<Rightarrow> tv_base s
       | Some (l, t) \<Rightarrow> if t_now io < t
           then detect_travel F thr io u l \<lparr>ll_IP = addr, ll_Lat = lat, ll_Lon = lon, ll_Timestamp = t_now io\<rparr> (tv_base s) else tv_base s),
       tv_last := (tv_last s)(''travel:'' @ u \<mapsto>
         (\<lparr>ll_IP = addr, ll_Lat = lat, ll_Lon = lon, ll_Timestamp = t_now io\<rparr>, t_now io + windowSecs * Second))\<rparr>)"
  using assms
  by (auto simp: processTravel_def login_event_def place_def threat_up_def travel_swap_def Let_def split: option.splits)

lemma Seconds_exact: "Seconds (exact pr) d = real_of_int d / real_of_int Second"
proof -
  have "real_of_int d = real_of_int (dur_div d Second) * real_of_int Second + real_of_int (d - dur_div d Second * Second)"
    by (simp flip: of_int_mult of_int_add)
  then show ?thesis by (simp add: Seconds_def time_units field_simps)
qed

lemma Minutes_exact: "Minutes (exact pr) d = real_of_int d / real_of_int Minute"
proof -
  have "real_of_int d = real_of_int (dur_div d Minute) * real_of_int Minute + real_of_int (d - dur_div d Minute * Minute)"
    by (simp flip: of_int_mult of_int_add)
  then show ?thesis by (simp add: Minutes_def time_units field_simps)
qed

text \<open>
  C33. Impossible travel in exact arithmetic: of two successive logins of one user,
  with Redis and the store up, the second raises an alert exactly when it comes from another address less
  than an hour after the first and the great-circle distance of the two places
  exceeds the threshold; the alert names the user, the distance in kilometres
  and the seconds between, and no organization.
\<close>

theorem travel_alert_iff_far:
  assumes "login_event u a1 ev1" "login_event u a2 ev2" "place city a1 = Some (lat1, lon1)" "place city a2 = Some (lat2, lon2)"
    and "threat_up io1" "threat_up io2" "t_now io1 \<le> t_now io2"
    and "s1 = snd (processTravel (exact pr) thr city io1 (Some (JObj ev1)) s)"
  shows "th_alerts (tv_base (snd (processTravel (exact pr) thr city io2 (Some (JObj ev2)) s1))) = th_alerts (tv_base s1) @
     (if a1 \<noteq> a2 \<and> t_now io2 < t_now io1 + Hour \<and> great_circle lat1 lon1 lat2 lon2 > thr
      then [(new_alert [] u ''impossible_travel'' 9 ''HIGH'' [(''distance_km'', pr (great_circle lat1 lon1 lat2 lon2)),
          (''time_delta_sec'', pr (real_of_int (t_now io2 - t_now io1) / 1000000000))])
        \<lparr>ta_ID := t_oid io2, ta_CreatedAt := Some (t_now io2), ta_Status := ''open''\<rparr>] else [])"
proof -
  have last: "tv_last s1 (''travel:'' @ u) =
      Some (\<lparr>ll_IP = a1, ll_Lat = lat1, ll_Lon = lon1, ll_Timestamp = t_now io1\<rparr>, t_now io1 + Hour)"
    unfolding assms(8) travel_login [OF assms(1,3,5)] by (simp add: windowSecs_def time_units)
  have within: "Seconds (exact pr) (t_now io2 - t_now io1) < real_of_int windowSecs \<longleftrightarrow> t_now io2 < t_now io1 + Hour"
    unfolding Seconds_exact windowSecs_def time_units by (auto simp: field_simps)
  have secs: "Seconds (exact pr) (t_now io2 - t_now io1) = real_of_int (t_now io2 - t_now io1) / 1000000000"
    by (simp add: Seconds_exact time_units)
  show ?thesis
    unfolding travel_login [OF assms(2,4,6)] last using assms(6)
    by (simp add: detect_travel_def Let_def haversine_great_circle within travel_alert_def CreateAlert_def new_alert_def threat_up_def)
      (simp add: secs)
qed

subsection \<open>Data exfiltration\<close>

text \<open>Accesses of one user at the given times.\<close>

definition access_event :: "string \<Rightarrow> string \<Rightarrow> (string \<times> json) list \<Rightarrow> bool" where
  "access_event o' u ev \<longleftrightarrow> json_str ev ''org_id'' = o' \<and> json_str ev ''user_id'' = u \<and> o' \<noteq> [] \<and> u \<noteq> []"

definition accesses :: "'f f64 \<Rightarrow> (string \<Rightarrow> 'f) \<Rightarrow> threat_io \<Rightarrow> (string \<times> json) list \<Rightarrow> time list \<Rightarrow> threat_st \<Rightarrow> threat_st" where
  "accesses F parseF io ev = fold (\<lambda>t s. snd (processAccess F parseF (io\<lparr>t_now := t\<rparr>) (Some (JObj ev)) s))"

lemma access_step:
  assumes "access_event o' u ev" "threat_up io" "tk (th_redis s) (''baseline:'' @ o' @ '':access_mean'') = None"
    and "f_eq F (f_int F 0) (f_int F 0)" "live_scores t (tz (th_redis s) (access_key o' u)) = map (\<lambda>t. t div Millisecond) ts"
    and "\<forall>x\<in>set ts. t \<le> x + (Hour - Millisecond)"
    and "s' = snd (processAccess F parseF (io\<lparr>t_now := t\<rparr>) (Some (JObj ev)) s)"
  shows "length (th_alerts s') = length (th_alerts s) + (if length ts \<ge> 1000 then 1 else 0)"
    and "tz (th_redis s') (access_key o' u) = Some (map (\<lambda>t. t div Millisecond) (ts @ [t]), t + Hour)"
    and "tk (th_redis s') = tk (th_redis s)"
proof -
  have "Hour mod Millisecond = 0" "0 < Hour" by (simp_all add: time_units)
  note add = window_add_within [OF assms(5,6) this]
  show "length (th_alerts s') = length (th_alerts s) + (if length ts \<ge> 1000 then 1 else 0)"
    and "tz (th_redis s') (access_key o' u) = Some (map (\<lambda>t. t div Millisecond) (ts @ [t]), t + Hour)"
    and "tk (th_redis s') = tk (th_redis s)"
    using assms(1-4) unfolding assms(7)
    by (auto simp: processAccess_def access_event_def threat_up_def Let_def add baseline_def exists_key_def CreateAlert_def)
qed

lemma accesses_window:
  assumes "access_event o' u ev" "threat_up io" "tk (th_redis s) (''baseline:'' @ o' @ '':access_mean'') = None"
    and "f_eq F (f_int F 0) (f_int F 0)" "tz (th_redis s) (access_key o' u) = None"
    and "sorted ts" "ts \<noteq> [] \<Longrightarrow> last ts \<le> hd ts + (Hour - Millisecond)"
  shows "length (th_alerts (accesses F parseF io ev ts s)) = length (th_alerts s) + (length ts - 1000)
     \<and> tk (th_redis (accesses F parseF io ev ts s)) = tk (th_redis s)
     \<and> (\<forall>t. (ts \<noteq> [] \<longrightarrow> last ts \<le> t \<and> t \<le> hd ts + (Hour - Millisecond)) \<longrightarrow>
          live_scores t (tz (th_redis (accesses F parseF io ev ts s)) (access_key o' u)) = map (\<lambda>t. t div Millisecond) ts)"
  using assms(6,7)
proof (induction ts rule: rev_induct)
  case Nil
  then show ?case using assms(5) by (simp add: accesses_def live_scores_def)
next
  case (snoc t ts)
  define s1 where "s1 = accesses F parseF io ev ts s"
  have le: "x \<le> t" "hd (ts @ [t]) \<le> x" if "x \<in> set ts" for x
    using snoc.prems(1) that by (cases ts; auto simp: sorted_append)+
  have span: "t \<le> hd (ts @ [t]) + (Hour - Millisecond)" using snoc.prems(2) by simp
  have "last ts \<le> hd ts + (Hour - Millisecond)" if "ts \<noteq> []"
    using le(1) [of "last ts"] that span by (cases ts) auto
  then have IH: "length (th_alerts s1) = length (th_alerts s) + (length ts - 1000)" "tk (th_redis s1) = tk (th_redis s)"
    "live_scores t (tz (th_redis s1) (access_key o' u)) = map (\<lambda>t. t div Millisecond) ts"
    using snoc.IH snoc.prems(1) span le(1) [of "last ts"] unfolding s1_def [symmetric]
    by (auto simp: sorted_append hd_append split: if_splits)
  have "\<forall>x\<in>set ts. t \<le> x + (Hour - Millisecond)" using le(2) span by fastforce
  note step = access_step [OF assms(1,2) _ assms(4) IH(3) this refl]
  have "accesses F parseF io ev (ts @ [t]) s = snd (processAccess F parseF (io\<lparr>t_now := t\<rparr>) (Some (JObj ev)) s1)"
    by (simp add: accesses_def s1_def)
  moreover have "t' < t + Hour" if "t' \<le> hd (ts @ [t]) + (Hour - Millisecond)" for t'
    using that le(1) [of "hd ts"] by (cases ts) (auto simp: time_units)
  ultimately show ?case using step [of parseF] IH assms(3)
    by (auto simp: live_scores_def)
qed

text \<open>
  Data exfiltration without a baseline: of \<open>n\<close> accesses of one user within an
  hour (less a millisecond), with Redis and the store up and none on record before,
  every access after the thousandth raises an alert of its own.
\<close>

theorem exfiltration_alert_per_access:
  assumes "access_event o' u ev" "threat_up io" "tk (th_redis s) (''baseline:'' @ o' @ '':access_mean'') = None"
    and "f_eq F (f_int F 0) (f_int F 0)" "tz (th_redis s) (access_key o' u) = None"
    and "sorted ts" "ts \<noteq> [] \<longrightarrow> last ts \<le> hd ts + (Hour - Millisecond)"
  shows "length (th_alerts (fold (\<lambda>t s. snd (processAccess F parseF (io\<lparr>t_now := t\<rparr>) (Some (JObj ev)) s)) ts s))
     = length (th_alerts s) + (length ts - 1000)"
  using accesses_window [OF assms(1-6)] assms(7) unfolding accesses_def by blast

subsection \<open>Composite score\<close>

lemma fold_score:
  assumes "fst b = m"
  shows "fst (fold (score_step (exact pr) now) xs b) = fold max (map (decayed (exact pr) now) xs) m"
  using assms by (induction xs arbitrary: b m) (auto simp: score_step_def max_def intro!: arg_cong [where f = fst])

lemma fold_score_source:
  "snd (fold (score_step (exact pr) now) xs b) = snd b \<and> fst (fold (score_step (exact pr) now) xs b) = fst b \<or>
   (\<exists>x\<in>set xs. snd (fold (score_step (exact pr) now) xs b) = sc_Source x
      \<and> decayed (exact pr) now x = fst (fold (score_step (exact pr) now) xs b) \<and> fst b < fst (fold (score_step (exact pr) now) xs b))"
proof (induction xs arbitrary: b)
  case (Cons x xs)
  show ?case
  proof (cases "fst b < decayed (exact pr) now x")
    case True
    then have "score_step (exact pr) now x b = (decayed (exact pr) now x, sc_Source x)" by (simp add: score_step_def)
    then show ?thesis using Cons.IH [of "score_step (exact pr) now x b"] True by auto
  next
    case False
    then have "score_step (exact pr) now x b = b" by (simp add: score_step_def)
    then show ?thesis using Cons.IH [of b] by auto
  qed
qed simp

text \<open>
  The composite score in exact arithmetic is the largest of 0 and the scores,
  each decayed by \<open>exp (- 0.05 * minutes)\<close>, and a positive score comes with
  the source of a detector that reached it.
\<close>

theorem composite_is_max:
  shows "CompositeScore (exact pr) now scores = (v, src) \<Longrightarrow>
    v = Max (insert 0 ((\<lambda>x. sc_Value x * exp (- (real_of_int (now - sc_OccurredAt x) / real_of_int Minute) / 20)) ` set scores))
    \<and> (v > 0 \<longrightarrow> (\<exists>x\<in>set scores. src = sc_Source x
         \<and> v = sc_Value x * exp (- (real_of_int (now - sc_OccurredAt x) / real_of_int Minute) / 20)))
    \<and> (v = 0 \<longrightarrow> src = [])"
proof -
  assume c: "CompositeScore (exact pr) now scores = (v, src)"
  define g :: "real Score \<Rightarrow> real" where "g = (\<lambda>x. sc_Value x * exp (- (real_of_int (now - sc_OccurredAt x) / real_of_int Minute) / 20))"
  have d: "decayed (exact pr) now = g" by (rule ext) (simp add: decayed_def g_def Minutes_exact)
  have f: "fold (score_step (exact pr) now) scores (0, []) = (v, src)"
    using c by (cases scores) (simp_all add: CompositeScore_def)
  have "v = fold max (map g scores) 0" using fold_score [of "(0, [])" 0 pr now scores] unfolding f d by simp
  then have "v = Max (insert 0 (g ` set scores))" using Max.set_eq_fold [of 0 "map g scores"] by simp
  moreover have "(v > 0 \<longrightarrow> (\<exists>x\<in>set scores. src = sc_Source x \<and> v = g x)) \<and> (v = 0 \<longrightarrow> src = [])"
    using fold_score_source [of pr now scores "(0, [])"] unfolding f d by auto
  ultimately show ?thesis unfolding g_def by simp
qed

subsection \<open>Instances\<close>

definition two_places :: "ip \<Rightarrow> (real \<times> real) option" where
  "two_places i = Some (0, if last i = 4 then 0 else 180)"

definition login_of :: "string \<Rightarrow> (string \<times> json) list" where
  "login_of addr = [(''event_type'', JStr ''auth.login.success''), (''user_id'', JStr ''u''), (''ip'', JStr addr)]"

lemma login_of_event: "addr \<noteq> [] \<Longrightarrow> login_event ''u'' addr (login_of addr)"
  by (simp add: login_event_def login_of_def json_str_def json_lookup_def)

lemma two_places_at: "place two_places ''1.2.3.4'' = Some (0, 0)" "place two_places ''5.6.7.8'' = Some (0, 180)"
proof -
  have "ParseIP ''1.2.3.4'' = Some (v4_prefix @ [1, 2, 3, 4])" "ParseIP ''5.6.7.8'' = Some (v4_prefix @ [5, 6, 7, 8])" by code_simp+
  then show "place two_places ''1.2.3.4'' = Some (0, 0)" "place two_places ''5.6.7.8'' = Some (0, 180)"
    by (simp_all add: place_def two_places_def)
qed

lemma antipodes: "great_circle 0 0 0 180 > 500"
proof -
  have "great_circle 0 0 0 180 = 6371 * pi" by (simp add: great_circle_def central_cos_def)
  then show ?thesis using pi_ge_two by simp
qed

theorem travel_alert_iff_far_witness:
  "\<exists>s1. length (th_alerts (tv_base (snd (processTravel (exact (\<lambda>_. JNull)) 500 two_places (all_up Minute)
       (Some (JObj (login_of ''5.6.7.8''))) s1)))) = 1"
proof -
  define s1 where "s1 = snd (processTravel (exact (\<lambda>_. JNull)) 500 two_places (all_up 0) (Some (JObj (login_of ''1.2.3.4'')))
    \<lparr>tv_base = fresh, tv_last = Map.empty\<rparr>)"
  have "th_alerts (tv_base s1) = []"
    unfolding s1_def using travel_login [OF login_of_event two_places_at(1), of "all_up 0"] by (simp add: fresh_def)
  with travel_alert_iff_far [OF login_of_event login_of_event two_places_at threat_up_all threat_up_all _ s1_def, of Minute]
  have "length (th_alerts (tv_base (snd (processTravel (exact (\<lambda>_. JNull)) 500 two_places (all_up Minute)
       (Some (JObj (login_of ''5.6.7.8''))) s1)))) = 1"
    using antipodes by (simp add: all_up_def time_units)
  then show ?thesis by blast
qed

theorem exfiltration_alert_per_access_witness:
  "length (th_alerts (fold (\<lambda>t s. snd (processAccess (exact (\<lambda>_. JNull)) (\<lambda>_. 0) ((all_up 0)\<lparr>t_now := t\<rparr>)
     (Some (JObj [(''org_id'', JStr ''o''), (''user_id'', JStr ''u'')])) s)) (replicate 1002 0) fresh)) = 2"
proof -
  have "access_event ''o'' ''u'' [(''org_id'', JStr ''o''), (''user_id'', JStr ''u'')]"
    by (simp add: access_event_def json_str_def json_lookup_def)
  from exfiltration_alert_per_access [OF this threat_up_all [of 0], of fresh "exact (\<lambda>_. JNull)" "replicate 1002 0" "\<lambda>_. 0"]
  show ?thesis by (simp add: fresh_def time_units del: replicate.simps fold_replicate)
qed

theorem composite_is_max_witness:
  "\<exists>v src. CompositeScore (exact (\<lambda>_. JNull)) 0 [\<lparr>sc_Value = 1 / 2, sc_Source = ''a'', sc_OccurredAt = 0\<rparr>,
      \<lparr>sc_Value = 9 / 10, sc_Source = ''b'', sc_OccurredAt = 0\<rparr>] = (v, src) \<and> v = 9 / 10 \<and> src = ''b''"
proof -
  define xs :: "real Score list" where "xs = [\<lparr>sc_Value = 1 / 2, sc_Source = ''a'', sc_OccurredAt = 0\<rparr>,
      \<lparr>sc_Value = 9 / 10, sc_Source = ''b'', sc_OccurredAt = 0\<rparr>]"
  obtain v src where c: "CompositeScore (exact (\<lambda>_. JNull)) 0 xs = (v, src)" by fastforce
  from composite_is_max [OF c] have "v = 9 / 10" "src = ''b''" unfolding xs_def by auto
  with c show ?thesis unfolding xs_def by blast
qed

end
