(* ===== verification/Threat_Service.thy ===== *)
theory Threat_Service
  imports Threat_Travel
begin

text \<open>
  How the threat service runs its detectors: their configuration and Kafka
  readers (the constructors and services/threat/main.go), the fetch, process
  and commit loops (the Run methods), and the delivery of a message to the
  readers of its topic.
\<close>

subsection \<open>Configuration\<close>

type_synonym getenv = "string \<Rightarrow> string"

definition env_or :: "getenv \<Rightarrow> string \<Rightarrow> string \<Rightarrow> string" where
  "env_or getenv k d = (if getenv k = [] then d else getenv k)"

definition env_int :: "getenv \<Rightarrow> string \<Rightarrow> int \<Rightarrow> int" where
  "env_int getenv k d = (if getenv k = [] then d else case Atoi (getenv k) of None \<Rightarrow> d | Some n \<Rightarrow> n)"

datatype detector = BruteForce | Travel | OffHours | Exfiltration | Takeover | EscalationAuth | EscalationPolicy

record reader =
  rd_detector :: detector
  rd_group :: string
  rd_topic :: string

definition NewBruteForceDetector :: "getenv \<Rightarrow> string \<Rightarrow> string \<Rightarrow> int \<times> reader" where
  "NewBruteForceDetector getenv groupID topic =
     (env_int getenv ''THREAT_MAX_FAILED_LOGINS'' 11, \<lparr>rd_detector = BruteForce, rd_group = groupID, rd_topic = topic\<rparr>)"

definition NewOffHoursDetector :: "getenv \<Rightarrow> string \<Rightarrow> string \<Rightarrow> (int \<times> int) \<times> reader" where
  "NewOffHoursDetector getenv groupID topic =
     ((env_int getenv ''THREAT_OFF_HOURS_START'' 22, env_int getenv ''THREAT_OFF_HOURS_END'' 6),
      \<lparr>rd_detector = OffHours, rd_group = groupID, rd_topic = topic\<rparr>)"

definition NewDataExfiltrationDetector :: "string \<Rightarrow> string \<Rightarrow> reader" where
  "NewDataExfiltrationDetector groupID topic = \<lparr>rd_detector = Exfiltration, rd_group = groupID, rd_topic = topic\<rparr>"

definition NewAccountTakeoverDetector :: "string \<Rightarrow> string \<Rightarrow> reader" where
  "NewAccountTakeoverDetector groupID topic = \<lparr>rd_detector = Takeover, rd_group = groupID, rd_topic = topic\<rparr>"

definition NewPrivilegeEscalationDetector :: "string \<Rightarrow> string \<Rightarrow> string \<Rightarrow> reader list" where
  "NewPrivilegeEscalationDetector groupID authTopic policyTopic =
     [\<lparr>rd_detector = EscalationAuth, rd_group = groupID @ ''-auth'', rd_topic = authTopic\<rparr>,
      \<lparr>rd_detector = EscalationPolicy, rd_group = groupID @ ''-policy'', rd_topic = policyTopic\<rparr>]"

text \<open>Without the GeoLite2 database there is no travel detector.  \<open>parse\<close> is \<open>strconv.ParseFloat\<close>.\<close>

definition NewImpossibleTravelDetector :: "'f f64 \<Rightarrow> (string \<Rightarrow> 'f option) \<Rightarrow> bool \<Rightarrow> getenv \<Rightarrow> string \<Rightarrow> string \<Rightarrow> ('f \<times> reader) option" where
  "NewImpossibleTravelDetector F parse db_opens getenv groupID topic =
     (let v = getenv ''THREAT_GEO_CHANGE_THRESHOLD_KM'';
          threshold = (if v = [] then f_dec F 500 0 else case parse v of None \<Rightarrow> f_dec F 500 0 | Some f \<Rightarrow> f)
      in if \<not> db_opens then None else Some (threshold, \<lparr>rd_detector = Travel, rd_group = groupID, rd_topic = topic\<rparr>))"

text \<open>The service as main sets it up: the settings of the detectors, and all readers in the order they start.\<close>

record 'f threat_service =
  sv_max :: int
  sv_off :: "int \<times> int"
  sv_km :: 'f
  sv_readers :: "reader list"

definition group_id :: "getenv \<Rightarrow> string" where "group_id getenv = env_or getenv ''KAFKA_GROUP_ID'' ''threat-detector''"
definition topic_auth :: "getenv \<Rightarrow> string" where "topic_auth getenv = env_or getenv ''KAFKA_TOPIC_AUTH'' ''auth.events''"
definition topic_policy :: "getenv \<Rightarrow> string" where "topic_policy getenv = env_or getenv ''KAFKA_TOPIC_POLICY'' ''policy.changes''"
definition topic_access :: "getenv \<Rightarrow> string" where "topic_access getenv = env_or getenv ''KAFKA_TOPIC_ACCESS'' ''data.access''"

definition threat_main :: "'f f64 \<Rightarrow> (string \<Rightarrow> 'f option) \<Rightarrow> bool \<Rightarrow> getenv \<Rightarrow> 'f threat_service" where
  "threat_main F parse db_opens getenv =
     (let groupID = group_id getenv; topicAuth = topic_auth getenv;
          bf = NewBruteForceDetector getenv groupID topicAuth;
          it = NewImpossibleTravelDetector F parse db_opens getenv groupID topicAuth;
          oh = NewOffHoursDetector getenv groupID topicAuth
      in \<lparr>sv_max = fst bf, sv_off = fst oh, sv_km = (case it of None \<Rightarrow> f_dec F 500 0 | Some (km, _) \<Rightarrow> km),
          sv_readers = [snd bf, snd oh, NewDataExfiltrationDetector groupID (topic_access getenv), NewAccountTakeoverDetector groupID topicAuth]
            @ NewPrivilegeEscalationDetector groupID topicAuth (topic_policy getenv) @ (case it of None \<Rightarrow> [] | Some (_, r) \<Rightarrow> [r])\<rparr>)"

subsection \<open>One message at one reader\<close>

definition lift_base :: "(threat_st \<Rightarrow> bool \<times> threat_st) \<Rightarrow> 'f travel_st \<Rightarrow> bool \<times> 'f travel_st" where
  "lift_base f s = (case f (tv_base s) of (ok, b) \<Rightarrow> (ok, s\<lparr>tv_base := b\<rparr>))"

record 'f threat_libs =
  lb_float :: "'f f64"
  lb_parse :: "string \<Rightarrow> 'f"
  lb_city :: "ip \<Rightarrow> ('f \<times> 'f) option"

definition process_by :: "'f threat_libs \<Rightarrow> 'f threat_service \<Rightarrow> detector \<Rightarrow> threat_io \<Rightarrow> raw_json \<Rightarrow> 'f travel_st \<Rightarrow> bool \<times> 'f travel_st" where
  "process_by L sv d io v = (case d of
      BruteForce \<Rightarrow> lift_base (processBruteForce io (sv_max sv) v)
    | Travel \<Rightarrow> processTravel (lb_float L) (sv_km sv) (lb_city L) io v
    | OffHours \<Rightarrow> lift_base (processOffHours io (fst (sv_off sv)) (snd (sv_off sv)) v)
    | Exfiltration \<Rightarrow> lift_base (processAccess (lb_float L) (lb_parse L) io v)
    | Takeover \<Rightarrow> lift_base (processTakeover io v)
    | EscalationAuth \<Rightarrow> lift_base (processAuthEvent io v)
    | EscalationPolicy \<Rightarrow> lift_base (processPolicyEvent io v))"

subsection \<open>The consumer loops\<close>

text \<open>
  What FetchMessage returns: an error, or the message at an offset of the
  reader's partition.  The first component of the state is the committed
  offset, where a restarted reader goes on; \<open>up i\<close> says whether the commit of
  offset \<open>i\<close> works, \<open>io i\<close> the environment while it is processed.
\<close>

datatype fetched = FetchError | Msg nat raw_json

fun consume_loop :: "(nat \<Rightarrow> raw_json \<Rightarrow> 's \<Rightarrow> bool \<times> 's) \<Rightarrow> (nat \<Rightarrow> bool) \<Rightarrow> fetched list \<Rightarrow> nat \<times> 's \<Rightarrow> nat \<times> 's" where
  "consume_loop process up [] cs = cs"
| "consume_loop process up (FetchError # ms) cs = consume_loop process up ms cs"
| "consume_loop process up (Msg i v # ms) (c, s) =
     (case process i v s of
        (False, s') \<Rightarrow> consume_loop process up ms (c, s')
      | (True, s') \<Rightarrow> consume_loop process up ms (if up i then Suc i else c, s'))"

definition RunBruteForce :: "(nat \<Rightarrow> threat_io) \<Rightarrow> int \<Rightarrow> (nat \<Rightarrow> bool) \<Rightarrow> fetched list \<Rightarrow> nat \<times> threat_st \<Rightarrow> nat \<times> threat_st" where
  "RunBruteForce io m = consume_loop (\<lambda>i. processBruteForce (io i) m)"

definition RunOffHours :: "(nat \<Rightarrow> threat_io) \<Rightarrow> int \<Rightarrow> int \<Rightarrow> (nat \<Rightarrow> bool) \<Rightarrow> fetched list \<Rightarrow> nat \<times> threat_st \<Rightarrow> nat \<times> threat_st" where
  "RunOffHours io offStart offEnd = consume_loop (\<lambda>i. processOffHours (io i) offStart offEnd)"

definition RunTakeover :: "(nat \<Rightarrow> threat_io) \<Rightarrow> (nat \<Rightarrow> bool) \<Rightarrow> fetched list \<Rightarrow> nat \<times> threat_st \<Rightarrow> nat \<times> threat_st" where
  "RunTakeover io = consume_loop (\<lambda>i. processTakeover (io i))"

definition consumeAuth :: "(nat \<Rightarrow> threat_io) \<Rightarrow> (nat \<Rightarrow> bool) \<Rightarrow> fetched list \<Rightarrow> nat \<times> threat_st \<Rightarrow> nat \<times> threat_st" where
  "consumeAuth io = consume_loop (\<lambda>i. processAuthEvent (io i))"

definition consumePolicy :: "(nat \<Rightarrow> threat_io) \<Rightarrow> (nat \<Rightarrow> bool) \<Rightarrow> fetched list \<Rightarrow> nat \<times> threat_st \<Rightarrow> nat \<times> threat_st" where
  "consumePolicy io = consume_loop (\<lambda>i. processPolicyEvent (io i))"

definition RunExfiltration :: "'f f64 \<Rightarrow> (string \<Rightarrow> 'f) \<Rightarrow> (nat \<Rightarrow> threat_io) \<Rightarrow> (nat \<Rightarrow> bool) \<Rightarrow> fetched list \<Rightarrow>
    nat \<times> threat_st \<Rightarrow> nat \<times> threat_st" where
  "RunExfiltration F parseF io = consume_loop (\<lambda>i. processAccess F parseF (io i))"

definition RunTravel :: "'f f64 \<Rightarrow> 'f \<Rightarrow> (ip \<Rightarrow> ('f \<times> 'f) option) \<Rightarrow> (nat \<Rightarrow> threat_io) \<Rightarrow> (nat \<Rightarrow> bool) \<Rightarrow> fetched list \<Rightarrow>
    nat \<times> 'f travel_st \<Rightarrow> nat \<times> 'f travel_st" where
  "RunTravel F km city io = consume_loop (\<lambda>i. processTravel F km city (io i))"

definition CheckRateLimit :: "threat_io \<Rightarrow> int \<Rightarrow> string \<Rightarrow> threat_redis \<Rightarrow> bool \<times> int" where
  "CheckRateLimit io m key r =
     (let n = int (length (live_scores (t_now io) (tz r key))) in if t_redis io ''card'' then (n < m, n) else (False, 0))"

subsection \<open>Delivery\<close>

text \<open>
  Kafka gives each partition of a topic to one reader of a consumer group;
  \<open>assign\<close> is that assignment.
\<close>

type_synonym assignment = "string \<Rightarrow> string \<Rightarrow> nat \<Rightarrow> reader option"

definition assigns :: "reader list \<Rightarrow> assignment \<Rightarrow> bool" where
  "assigns rs assign \<longleftrightarrow> (\<forall>r\<in>set rs. \<forall>p. \<exists>r'\<in>set rs. assign (rd_group r) (rd_topic r) p = Some r'
     \<and> rd_group r' = rd_group r \<and> rd_topic r' = rd_topic r)"

definition receivers :: "reader list \<Rightarrow> assignment \<Rightarrow> string \<Rightarrow> nat \<Rightarrow> reader list" where
  "receivers rs assign topic p = filter (\<lambda>r. rd_topic r = topic \<and> assign (rd_group r) topic p = Some r) rs"

definition deliver :: "'f threat_libs \<Rightarrow> 'f threat_service \<Rightarrow> assignment \<Rightarrow> string \<Rightarrow> nat \<Rightarrow> threat_io \<times> raw_json \<Rightarrow> 'f travel_st \<Rightarrow> 'f travel_st" where
  "deliver L sv assign topic p m =
     fold (\<lambda>r s. snd (process_by L sv (rd_detector r) (fst m) (snd m) s)) (receivers (sv_readers sv) assign topic p)"

subsection \<open>A failed event is passed over\<close>

lemma loop_append: "consume_loop process up (ms @ ms') cs = consume_loop process up ms' (consume_loop process up ms cs)"
  by (induction process up ms cs rule: consume_loop.induct) (auto split: prod.splits bool.splits)

lemma loop_skips:
  assumes "process i v s = (False, s)" "process (Suc i) v' s = (True, s')" "up (Suc i)"
  shows "consume_loop process up [Msg i v, Msg (Suc i) v'] (c, s) = (Suc (Suc i), s')"
  using assms by simp

text \<open>
  A failed event is lost: when Redis does not take the failed login at
  offset \<open>i\<close> and takes the next one, the loop commits past both, with the alerts and
  counters of the second alone, so a restart never delivers the first again.
\<close>

theorem failed_event_never_redelivered:
  assumes "\<not> t_redis (io i) ''window''" "t_redis (io (Suc i)) ''window''" "up (Suc i)"
    and "event_map v = Some ev" "event_map v' = Some ev'"
    and "json_str ev ''event_type'' = ''login.failed''" "json_str ev' ''event_type'' = ''login.failed''"
    and "json_str ev ''ip'' \<noteq> []" "RunBruteForce io m up ms (c0, s0) = (c, s)"
  shows "RunBruteForce io m up (ms @ [Msg i v, Msg (Suc i) v']) (c0, s0) = (Suc (Suc i), snd (processBruteForce (io (Suc i)) m v' s))"
proof -
  have track: "fst (trackFailedAttempt (io (Suc i)) m key t)" for key t
    using assms(2) by (simp add: trackFailedAttempt_def Let_def split: prod.split)
  have "fst (processBruteForce (io (Suc i)) m v' s)"
    using assms(5,7) track by (auto simp: processBruteForce_def Let_def split: prod.splits bool.splits) (metis fst_conv track)+
  then have "processBruteForce (io (Suc i)) m v' s = (True, snd (processBruteForce (io (Suc i)) m v' s))" by (metis prod.collapse)
  moreover have "processBruteForce (io i) m v s = (False, s)"
    using assms(1,4,6,8) by (simp add: processBruteForce_def trackFailedAttempt_def)
  ultimately show ?thesis using assms(3,9) loop_skips [of "\<lambda>i. processBruteForce (io i) m"]
    unfolding RunBruteForce_def loop_append by metis
qed

subsection \<open>One group for several detectors\<close>

lemma main_readers:
  "r \<in> set (sv_readers (threat_main F parse g e)) \<Longrightarrow> rd_topic r = topic_auth e \<Longrightarrow> topic_access e \<noteq> topic_auth e \<Longrightarrow> topic_policy e \<noteq> topic_auth e \<Longrightarrow>
     (rd_group r = group_id e \<and> rd_detector r \<in> {BruteForce, OffHours, Takeover, Travel}) \<or> (rd_group r = group_id e @ ''-auth'' \<and> rd_detector r = EscalationAuth)"
  by (auto simp: threat_main_def Let_def NewBruteForceDetector_def NewOffHoursDetector_def NewDataExfiltrationDetector_def
      NewAccountTakeoverDetector_def NewPrivilegeEscalationDetector_def NewImpossibleTravelDetector_def split: if_splits option.splits)

lemma distinct_readers: "distinct (sv_readers (threat_main F parse g e))"
  by (auto simp: threat_main_def Let_def NewBruteForceDetector_def NewOffHoursDetector_def NewDataExfiltrationDetector_def
      NewAccountTakeoverDetector_def NewPrivilegeEscalationDetector_def NewImpossibleTravelDetector_def)

lemma main_has_bf: "\<lparr>rd_detector = BruteForce, rd_group = group_id e, rd_topic = topic_auth e\<rparr> \<in> set (sv_readers (threat_main F parse g e))"
  by (simp add: threat_main_def Let_def NewBruteForceDetector_def)

lemma receivers_of_group:
  assumes "assigns rs assign" "distinct rs" "r0 \<in> set rs" "rd_topic r0 = topic"
  shows "length (filter (\<lambda>r. rd_group r = rd_group r0) (receivers rs assign topic p)) = 1"
proof -
  define xs where "xs = filter (\<lambda>r. rd_group r = rd_group r0) (receivers rs assign topic p)"
  obtain r where r: "r \<in> set rs" "assign (rd_group r0) topic p = Some r" "rd_group r = rd_group r0" "rd_topic r = topic"
    using assms(1,3,4) unfolding assigns_def by blast
  have "x = r" if "x \<in> set xs" for x using that r(2) by (auto simp: receivers_def xs_def)
  moreover have "r \<in> set xs" using r by (simp add: receivers_def xs_def)
  ultimately have "set xs = {r}" by blast
  moreover have "distinct xs" using assms(2) by (simp add: receivers_def xs_def)
  ultimately have "length xs = 1" using distinct_card [of xs] by simp
  then show ?thesis by (simp add: xs_def)
qed

text \<open>A failed login changes nothing at a reader that is not the brute-force one.\<close>

definition quiet :: "detector set" where "quiet = {OffHours, Takeover, Travel, EscalationAuth}"

lemma others_ignore_failures:
  assumes "event_map v = Some ev" "json_str ev ''event_type'' \<in> {''login.failed'', ''auth.failed''}"
    and "d \<in> quiet"
  shows "snd (process_by L sv d io v s) = s"
  using assms
  by (auto simp: quiet_def process_by_def lift_base_def processOffHours_def processTakeover_def processTravel_def processAuthEvent_def Let_def)

lemma deliver_ignored:
  assumes "\<forall>r\<in>set (receivers (sv_readers sv) assign topic p). rd_detector r \<in> quiet"
    and "event_map (snd m) = Some ev" "json_str ev ''event_type'' \<in> {''login.failed'', ''auth.failed''}"
  shows "deliver L sv assign topic p m s = s"
proof -
  have "fold (\<lambda>r s. snd (process_by L sv (rd_detector r) (fst m) (snd m) s)) rs s = s"
    if "\<forall>r\<in>set rs. rd_detector r \<in> quiet" for rs
    using that by (induction rs) (simp_all add: others_ignore_failures [OF assms(2,3)])
  then show ?thesis using assms(1) unfolding deliver_def by blast
qed

text \<open>
  C34. Failed logins can go unseen: the detectors on the authentication topic share
  one consumer group, so Kafka gives each partition to one of them.  When a
  partition belongs to another detector than the brute-force one, any number of failed logins
  on it leave the whole state of the service as it was, and no alert is raised.
\<close>

theorem failed_logins_unseen:
  assumes "assigns (sv_readers (threat_main F parse g e)) assign"
    and "topic_access e \<noteq> topic_auth e" "topic_policy e \<noteq> topic_auth e"
    and "assign (group_id e) (topic_auth e) p = Some r" "rd_detector r \<noteq> BruteForce"
    and "\<forall>m\<in>set ms. \<exists>ev. event_map (snd m) = Some ev \<and> json_str ev ''event_type'' \<in> {''login.failed'', ''auth.failed''}"
  shows "fold (deliver L (threat_main F parse g e) assign (topic_auth e) p) ms s = s"
proof -
  let ?rs = "sv_readers (threat_main F parse g e)"
  have "rd_detector r' \<in> quiet" if "r' \<in> set (receivers ?rs assign (topic_auth e) p)" for r'
  proof -
    have r': "r' \<in> set ?rs" "rd_topic r' = topic_auth e" "assign (rd_group r') (topic_auth e) p = Some r'"
      using that by (auto simp: receivers_def)
    show ?thesis using main_readers [OF r'(1,2) assms(2,3)] r'(3) assms(4,5) by (auto simp: quiet_def)
  qed
  then have "deliver L (threat_main F parse g e) assign (topic_auth e) p m s = s" if "m \<in> set ms" for m
    using assms(6) that deliver_ignored [of "threat_main F parse g e" assign "topic_auth e" p m] by blast
  then show ?thesis by (induction ms) auto
qed

text \<open>
  Each event of the authentication topic reaches, of the brute-force, off-hours, takeover and travel detectors,
  exactly one.
\<close>

theorem one_detector_per_event:
  assumes "assigns (sv_readers (threat_main F parse g e)) assign"
  shows "length (filter (\<lambda>r. rd_group r = group_id e) (receivers (sv_readers (threat_main F parse g e)) assign (topic_auth e) p)) = 1"
  using receivers_of_group [OF assms distinct_readers main_has_bf, of "topic_auth e" p] by simp

subsection \<open>Instances\<close>

definition no_env :: getenv where "no_env = (\<lambda>_. [])"

text \<open>The assignment that gives every partition to the last reader that may have it.\<close>

definition last_reader :: "reader list \<Rightarrow> assignment" where
  "last_reader rs g t p = (let xs = filter (\<lambda>r. rd_group r = g \<and> rd_topic r = t) rs in if xs = [] then None else Some (last xs))"

lemma last_reader_assigns: "assigns rs (last_reader rs)"
proof -
  have "last_reader rs (rd_group r) (rd_topic r) p = Some (last (filter (\<lambda>x. rd_group x = rd_group r \<and> rd_topic x = rd_topic r) rs))
      \<and> last (filter (\<lambda>x. rd_group x = rd_group r \<and> rd_topic x = rd_topic r) rs) \<in> set (filter (\<lambda>x. rd_group x = rd_group r \<and> rd_topic x = rd_topic r) rs)"
    if "r \<in> set rs" for r p
    using that by (auto simp: last_reader_def Let_def filter_empty_conv simp del: set_filter intro!: last_in_set)
  then show ?thesis unfolding assigns_def by fastforce
qed

definition sample_service :: "real threat_service" where
  "sample_service = threat_main (exact (\<lambda>_. JNull)) (\<lambda>_. None) True no_env"

definition failed_login :: raw_json where
  "failed_login = Some (JObj [(''event_type'', JStr ''login.failed''), (''ip'', JStr ''1.2.3.4'')])"

theorem failed_logins_unseen_witness:
  "fold (deliver \<lparr>lb_float = exact (\<lambda>_. JNull), lb_parse = (\<lambda>_. 0), lb_city = two_places\<rparr> sample_service (last_reader (sv_readers sample_service))
     (topic_auth no_env) 0) (replicate 50 (all_up 0, failed_login)) \<lparr>tv_base = fresh, tv_last = Map.empty\<rparr>
   = \<lparr>tv_base = fresh, tv_last = Map.empty\<rparr>"
proof -
  have t: "topic_access no_env \<noteq> topic_auth no_env" "topic_policy no_env \<noteq> topic_auth no_env"
    by (simp_all add: topic_access_def topic_auth_def topic_policy_def env_or_def no_env_def)
  have "last_reader (sv_readers sample_service) (group_id no_env) (topic_auth no_env) 0 =
      Some \<lparr>rd_detector = Travel, rd_group = group_id no_env, rd_topic = topic_auth no_env\<rparr>"
    by (simp add: last_reader_def sample_service_def threat_main_def Let_def NewImpossibleTravelDetector_def)
  from failed_logins_unseen [OF last_reader_assigns t this [unfolded sample_service_def],
      of "replicate 50 (all_up 0, failed_login)" "\<lparr>lb_float = exact (\<lambda>_. JNull), lb_parse = (\<lambda>_. 0), lb_city = two_places\<rparr>"
        "\<lparr>tv_base = fresh, tv_last = Map.empty\<rparr>"]
  show ?thesis
    by (simp add: sample_service_def failed_login_def json_str_def json_lookup_def del: replicate.simps fold_replicate)
qed

theorem one_detector_per_event_witness:
  "length (filter (\<lambda>r. rd_group r = group_id no_env) (receivers (sv_readers sample_service) (last_reader (sv_readers sample_service)) (topic_auth no_env) 0)) = 1
   \<and> length (filter (\<lambda>r. rd_group r = group_id no_env \<and> rd_topic r = topic_auth no_env) (sv_readers sample_service)) = 4"
proof
  show "length (filter (\<lambda>r. rd_group r = group_id no_env) (receivers (sv_readers sample_service) (last_reader (sv_readers sample_service)) (topic_auth no_env) 0)) = 1"
    unfolding sample_service_def by (rule one_detector_per_event [OF last_reader_assigns])
  show "length (filter (\<lambda>r. rd_group r = group_id no_env \<and> rd_topic r = topic_auth no_env) (sv_readers sample_service)) = 4"
    by (simp add: sample_service_def threat_main_def Let_def NewImpossibleTravelDetector_def NewBruteForceDetector_def NewOffHoursDetector_def
        NewDataExfiltrationDetector_def NewAccountTakeoverDetector_def NewPrivilegeEscalationDetector_def
        topic_access_def topic_auth_def topic_policy_def env_or_def no_env_def)
qed

theorem failed_event_never_redelivered_witness:
  "\<exists>s. RunBruteForce (\<lambda>i. if i = 0 then (all_up 0)\<lparr>t_redis := (\<lambda>_. False)\<rparr> else all_up 0) 2 (\<lambda>_. True)
     [Msg 0 failed_login, Msg 1 failed_login] (0, fresh) = (2, s)"
proof -
  let ?io = "\<lambda>i::nat. if i = 0 then (all_up 0)\<lparr>t_redis := (\<lambda>_. False)\<rparr> else all_up 0"
  have "RunBruteForce ?io 2 (\<lambda>_. True) [] (0, fresh) = (0, fresh)" by (simp add: RunBruteForce_def)
  from failed_event_never_redelivered [OF _ _ _ _ _ _ _ _ this, of 0 failed_login _ failed_login] show ?thesis
    by (auto simp: failed_login_def json_str_def json_lookup_def all_up_def numeral_2_eq_2)
qed

end
