(* ===== verification/Alert_Service.thy ===== *)
theory Alert_Service
  imports Threat_Service
begin

text \<open>
  The HTTP front of the two services that keep alerts: the routers of the
  alerting service and the threat service with the JWT middleware before their
  endpoints, and the statistics endpoints.  A path is the list of its segments;
  the header middlewares, which every route passes, add headers only and are left
  out of the answers.
\<close>

subsection \<open>Statistics\<close>

text \<open>
  The aggregation groups the alerts of an organization by severity.  MongoDB
  gives the groups in no particular order; here they come by first
  appearance.  Counts are below $2^{31}$, as the type assertion of the code asks.
\<close>

definition mean_of :: "'f f64 \<Rightarrow> 'f list \<Rightarrow> 'f" where
  "mean_of F xs = f_div F (fold (\<lambda>x acc. f_add F acc x) xs (f_int F 0)) (f_int F (int (length xs)))"

definition alerting_GetStats :: "'f f64 \<Rightarrow> bool \<Rightarrow> string \<Rightarrow> Alert list \<Rightarrow> (string, (string \<times> int) list \<times> 'f) result" where
  "alerting_GetStats F up orgID db =
     (if \<not> up then Err ''mongo''
      else let mine = filter (\<lambda>a. al_OrgID a = orgID) db; sevs = remdups (map al_Severity mine);
               group = (\<lambda>s. filter (\<lambda>a. al_Severity a = s) mine);
               avgs = map (\<lambda>s. mean_of F (map (\<lambda>a. Seconds F (al_MTTR a)) (group s))) sevs
           in Ok (map (\<lambda>s. (s, int (length (group s)))) sevs, if avgs = [] then f_int F 0 else mean_of F avgs))"

text \<open>The threat service keeps one entry per severity; \<open>$avg\<close> skips alerts without a time to resolve, and of none it is null.\<close>

definition threat_GetStats :: "'f f64 \<Rightarrow> bool \<Rightarrow> string \<Rightarrow> TAlert list \<Rightarrow> (string, (string \<times> int \<times> 'f option) list) result" where
  "threat_GetStats F up orgID db =
     (if \<not> up then Err ''mongo''
      else let mine = filter (\<lambda>a. ta_OrgID a = orgID) db; sevs = remdups (map ta_Severity mine);
               group = (\<lambda>s. filter (\<lambda>a. ta_Severity a = s) mine);
               times = (\<lambda>s. List.map_filter (\<lambda>a. map_option (f_int F) (ta_MTTR a)) (group s))
           in Ok (map (\<lambda>s. (s, int (length (group s)), if times s = [] then None else Some (mean_of F (times s)))) sevs))"

subsection \<open>Routes\<close>

datatype endpoint = EpMetrics | EpHealth | EpList | EpGet string | EpAcknowledge string | EpResolve string | EpStats | EpDetectors

text \<open>The routes below \<open>/v1/threats\<close>, which the two services share.\<close>

fun alerts_route :: "string \<Rightarrow> string list \<Rightarrow> endpoint option" where
  "alerts_route m [a] = (if m \<noteq> ''GET'' then None else if a = ''alerts'' then Some EpList else if a = ''stats'' then Some EpStats
     else if a = ''detectors'' then Some EpDetectors else None)"
| "alerts_route m [a, i] = (if m = ''GET'' \<and> a = ''alerts'' \<and> i \<noteq> [] then Some (EpGet i) else None)"
| "alerts_route m [a, i, b] = (if m \<noteq> ''POST'' \<or> a \<noteq> ''alerts'' \<or> i = [] then None
     else if b = ''acknowledge'' then Some (EpAcknowledge i) else if b = ''resolve'' then Some (EpResolve i) else None)"
| "alerts_route m _ = None"

definition alerting_route :: "string \<Rightarrow> string list \<Rightarrow> endpoint option" where
  "alerting_route m path =
     (if m = ''GET'' \<and> path = [''metrics''] then Some EpMetrics
      else if m = ''GET'' \<and> path = [''health''] then Some EpHealth
      else (case path of v # t # rest \<Rightarrow> if v = ''v1'' \<and> t = ''threats'' then alerts_route m rest else None | _ \<Rightarrow> None))"

text \<open>main adds the metrics to the threat router, for every method.\<close>

definition threat_route :: "string \<Rightarrow> string list \<Rightarrow> endpoint option" where
  "threat_route m path =
     (if path = [''metrics''] then Some EpMetrics
      else if m = ''GET'' \<and> path = [''health''] then Some EpHealth
      else (case path of v # t # rest \<Rightarrow> if v = ''v1'' \<and> t = ''threats'' then alerts_route m rest else None | _ \<Rightarrow> None))"

fun public_ep :: "endpoint \<Rightarrow> bool" where
  "public_ep EpMetrics = True"
| "public_ep EpHealth = True"
| "public_ep _ = False"

text \<open>The fixed lists of detectors, with their weights in tenths; every entry is marked active.\<close>

definition GetDetectors :: "(string \<times> string \<times> int) list" where
  "GetDetectors = [(''brute-force'', ''Brute Force Detector'', 8), (''impossible-travel'', ''Impossible Travel'', 9), (''dlp-pii'', ''DLP PII Scanner'', 7)]"

definition ListDetectors :: "(string \<times> int) list" where
  "ListDetectors = [(''Brute Force'', 9), (''Impossible Travel'', 9), (''Off-Hours Access'', 5), (''Data Exfiltration'', 7),
     (''Account Takeover'', 7), (''Privilege Escalation'', 9)]"

subsection \<open>Serving a request\<close>

text \<open>
  The answer to a request: a status alone, one of the alert endpoints, the
  statistics or the list of detectors.  The JWT middleware with its keyring and blocklist is
  \<open>auth\<close>, as a function of the request's context.
\<close>

datatype 'f alert_reply = Status int | AlertBody "alert_body http_resp" | ThreatBody "threat_body http_resp"
  | AlertStats "(string \<times> int) list" 'f | ThreatStats "(string \<times> int \<times> 'f option) list"
  | AlertDetectors "(string \<times> string \<times> int) list" | ThreatDetectors "(string \<times> int) list"

record alert_io =
  ai_up :: bool
  ai_update_up :: bool
  ai_now :: time
  ai_oid :: "string \<Rightarrow> string option"
  ai_query :: "string \<Rightarrow> string"

fun alerting_endpoint :: "'f f64 \<Rightarrow> alert_io \<Rightarrow> req_ctx \<Rightarrow> endpoint \<Rightarrow> Alert list \<Rightarrow> 'f alert_reply \<times> Alert list" where
  "alerting_endpoint F io ctx EpList db = (AlertBody (ListAlertsH (ai_up io) ctx (ai_query io) db), db)"
| "alerting_endpoint F io ctx (EpGet i) db = (AlertBody (GetAlertH (ai_up io) ctx i db), db)"
| "alerting_endpoint F io ctx (EpAcknowledge i) db = apfst AlertBody (AcknowledgeAlertH (ai_up io) (ai_now io) ctx i db)"
| "alerting_endpoint F io ctx (EpResolve i) db = apfst AlertBody (ResolveAlertH (ai_up io) (ai_now io) ctx i db)"
| "alerting_endpoint F io ctx EpStats db = (case alerting_GetStats F (ai_up io) (GetOrgID ctx) db of
     Inl _ \<Rightarrow> Status 500 | Inr (counts, avg) \<Rightarrow> AlertStats counts avg, db)"
| "alerting_endpoint F io ctx EpDetectors db = (AlertDetectors GetDetectors, db)"
| "alerting_endpoint F io ctx _ db = (Status 200, db)"

text \<open>The endpoints of the threat service name the tenant by the query, if at all.\<close>

fun threat_endpoint :: "'f f64 \<Rightarrow> alert_io \<Rightarrow> endpoint \<Rightarrow> TAlert list \<Rightarrow> 'f alert_reply \<times> TAlert list" where
  "threat_endpoint F io EpList db = (ThreatBody (ListAlertsT (ai_up io) (ai_oid io) (ai_query io) db), db)"
| "threat_endpoint F io (EpGet i) db = (ThreatBody (GetAlertT (ai_up io) (ai_oid io) i db), db)"
| "threat_endpoint F io (EpAcknowledge i) db = apfst ThreatBody (AcknowledgeAlertT (ai_up io) (ai_oid io) i db)"
| "threat_endpoint F io (EpResolve i) db = apfst ThreatBody (ResolveAlertT (ai_up io) (ai_update_up io) (ai_oid io) (ai_now io) i db)"
| "threat_endpoint F io EpStats db = (case threat_GetStats F (ai_up io) (ai_query io ''org_id'') db of
     Inl _ \<Rightarrow> Status 500 | Inr stats \<Rightarrow> ThreatStats stats, db)"
| "threat_endpoint F io EpDetectors db = (ThreatDetectors ListDetectors, db)"
| "threat_endpoint F io _ db = (Status 200, db)"

text \<open>A path that only other methods take is answered with 405.\<close>

definition unrouted :: "(string \<Rightarrow> string list \<Rightarrow> endpoint option) \<Rightarrow> string list \<Rightarrow> int" where
  "unrouted route path = (if \<exists>m\<in>set [''GET'', ''POST'']. route m path \<noteq> None then 405 else 404)"

text \<open>
  The middlewares of a gorilla subrouter run for the requests it has a route
  for, those of a chi subrouter for every path below it.  A panic is answered
  with 500 by the Recoverer of the threat service and by a closed connection,
  status 0, in the alerting service.
\<close>

definition alerting_serve :: "'f f64 \<Rightarrow> alert_io \<Rightarrow> (req_ctx \<Rightarrow> verdict) \<Rightarrow> req_ctx \<Rightarrow> string \<Rightarrow> string list \<Rightarrow> Alert list \<Rightarrow> 'f alert_reply \<times> Alert list" where
  "alerting_serve F io auth ctx m path db =
     (case alerting_route m path of
        None \<Rightarrow> (Status (unrouted alerting_route path), db)
      | Some e \<Rightarrow>
          if public_ep e then (Status 200, db)
          else (case auth ctx of
            Reject code _ \<Rightarrow> (Status code, db) | Panics \<Rightarrow> (Status 0, db) | Next ctx' \<Rightarrow> alerting_endpoint F io ctx' e db))"

definition threat_serve :: "'f f64 \<Rightarrow> alert_io \<Rightarrow> (req_ctx \<Rightarrow> verdict) \<Rightarrow> req_ctx \<Rightarrow> string \<Rightarrow> string list \<Rightarrow> TAlert list \<Rightarrow> 'f alert_reply \<times> TAlert list" where
  "threat_serve F io auth ctx m path db =
     (let answer = (case threat_route m path of None \<Rightarrow> (Status (unrouted threat_route path), db) | Some e \<Rightarrow> threat_endpoint F io e db) in
      if take 2 path = [''v1'', ''threats'']
      then (case auth ctx of Reject code _ \<Rightarrow> (Status code, db) | Panics \<Rightarrow> (Status 500, db) | Next _ \<Rightarrow> answer)
      else answer)"

subsection \<open>Tenants\<close>

fun shown :: "'f alert_reply \<Rightarrow> Alert list" where
  "shown (AlertBody r) = (case rs_body r of AAlerts as \<Rightarrow> as | AAlert a \<Rightarrow> [a] | _ \<Rightarrow> [])"
| "shown _ = []"

lemma find_holds: "find P xs = Some x \<Longrightarrow> P x"
  by (auto simp: find_Some_iff)

lemma list_org: "ListA up o' st sev cur n' db = Ok (as, n) \<Longrightarrow> a \<in> set as \<Longrightarrow> al_OrgID a = o'"
  by (auto simp: ListA_def mongo_limit_def alert_filter_def Let_def split: if_splits dest!: in_set_takeD)

lemma endpoint_shows_own: "a \<in> set (shown (fst (alerting_endpoint F io ctx e db))) \<Longrightarrow> al_OrgID a = GetOrgID ctx"
  by (cases e) (auto simp: ListAlertsH_def GetAlertH_def AcknowledgeAlertH_def ResolveAlertH_def no_content_def GetByID_def Let_def
      split: if_splits sum.splits option.splits prod.splits dest: list_org find_holds)

lemma endpoint_keeps_others:
  "t \<noteq> GetOrgID ctx \<Longrightarrow> tenant_alerts t (snd (alerting_endpoint F io ctx e db)) = tenant_alerts t db"
proof (cases e)
  case (EpAcknowledge i)
  assume "t \<noteq> GetOrgID ctx"
  then show ?thesis using EpAcknowledge run_alert_other [of "OpAck (ai_up io) (ai_now io) (GetOrgID ctx) i" t db]
    by (auto simp: AcknowledgeAlertH_def no_content_def split: prod.splits sum.splits)
next
  case (EpResolve i)
  assume "t \<noteq> GetOrgID ctx"
  then show ?thesis using EpResolve run_alert_other [of "OpResolve (ai_up io) (ai_now io) (GetOrgID ctx) i" t db]
    by (auto simp: ResolveAlertH_def no_content_def split: prod.splits sum.splits)
qed simp_all

text \<open>
  C24. The alerting service keeps tenants apart: whatever the request, its answer
  shows alerts only if the JWT middleware admitted it, and then only those of
  the token's organization, and no alert of another organization changes.
\<close>

theorem alerting_serves_own_tenant:
  assumes "alerting_serve F io (AuthJWTWithBlocklist lib ks bl now cookie h) ctx m path db = (reply, db')"
  shows "(\<forall>a\<in>set (shown reply). \<exists>claims. Verify lib now (extractToken cookie h) ks = Ok claims \<and> al_OrgID a = cl_OrgID claims)
     \<and> (\<forall>t. filter (\<lambda>a. al_OrgID a = t) db' \<noteq> filter (\<lambda>a. al_OrgID a = t) db \<longrightarrow>
          (\<exists>claims. Verify lib now (extractToken cookie h) ks = Ok claims \<and> t = cl_OrgID claims))"
proof (cases "\<exists>e ctx'. alerting_route m path = Some e \<and> \<not> public_ep e \<and> AuthJWTWithBlocklist lib ks bl now cookie h ctx = Next ctx'")
  case True
  then obtain e ctx' where e: "alerting_route m path = Some e" "\<not> public_ep e" and n: "AuthJWTWithBlocklist lib ks bl now cookie h ctx = Next ctx'"
    by blast
  have r: "reply = fst (alerting_endpoint F io ctx' e db)" "db' = snd (alerting_endpoint F io ctx' e db)"
    using assms e n by (simp_all add: alerting_serve_def)
  obtain claims where "Verify lib now (extractToken cookie h) ks = Ok claims" "GetOrgID ctx' = cl_OrgID claims"
    using n by (auto simp: AuthJWTWithBlocklist_def Let_def ctx_getters split: if_splits sum.splits option.splits)
  then show ?thesis
    using endpoint_shows_own [of _ F io ctx' e db] endpoint_keeps_others [of _ ctx' F io e db] unfolding r tenant_alerts_def by metis
next
  case False
  then have "shown reply = [] \<and> db' = db"
    using assms by (auto simp: alerting_serve_def split: option.splits if_splits verdict.splits)
  then show ?thesis by simp
qed

text \<open>
  The threat service does not: its answer and its effect are the same for every
  admitted caller, so any tenant's token reads the alerts of the organization
  named in the query and acknowledges or resolves any alert by its id.
\<close>

theorem threat_serves_any_tenant:
  assumes "AuthJWTWithBlocklist lib ks bl now cookie1 h1 ctx = Next c1" "AuthJWTWithBlocklist lib ks bl now cookie2 h2 ctx = Next c2"
  shows "threat_serve F io (AuthJWTWithBlocklist lib ks bl now cookie1 h1) ctx m path db
       = threat_serve F io (AuthJWTWithBlocklist lib ks bl now cookie2 h2) ctx m path db"
  using assms by (simp add: threat_serve_def Let_def)

subsection \<open>Statistics\<close>

lemma sum_groups: "(\<Sum>s\<leftarrow>remdups (map f xs). length (filter (\<lambda>a. f a = s) xs)) = length xs"
proof -
  have "(\<Sum>s\<leftarrow>remdups (map f xs). length (filter (\<lambda>a. f a = s) xs)) = (\<Sum>s\<in>f ` set xs. length (filter (\<lambda>a. f a = s) xs))"
    by (simp add: sum_list_distinct_conv_sum_set)
  also have "\<dots> = length xs"
  proof -
    have "(\<Sum>s\<in>S. length (filter (\<lambda>a. f a = s) xs)) = length xs" if "finite S" "f ` set xs \<subseteq> S" for S
      using that(2)
    proof (induction xs)
      case (Cons x xs)
      have "(\<Sum>s\<in>S. length (filter (\<lambda>a. f a = s) (x # xs))) = (\<Sum>s\<in>S. (if f x = s then 1 else 0) + length (filter (\<lambda>a. f a = s) xs))"
        by (rule sum.cong) auto
      also have "\<dots> = (\<Sum>s\<in>S. if f x = s then 1 else 0) + length xs" using Cons by (simp add: sum.distrib)
      also have "(\<Sum>s\<in>S. if f x = s then 1 else 0) = (1 :: nat)" using Cons.prems that(1) by (simp add: sum.delta)
      finally show ?case by simp
    qed simp
    then show ?thesis by simp
  qed
  finally show ?thesis .
qed

lemma int_sum_list: "int (\<Sum>x\<leftarrow>xs. f x) = (\<Sum>x\<leftarrow>xs. int (f x))"
  by (induction xs) simp_all

text \<open>The counts of the statistics add up to the alerts of the organization.\<close>

theorem stats_counts_total:
  assumes "alerting_GetStats F up o' db = Ok (counts, avg)"
  shows "(\<Sum>c\<leftarrow>counts. snd c) = int (length (filter (\<lambda>a. al_OrgID a = o') db))"
proof -
  let ?mine = "filter (\<lambda>a. al_OrgID a = o') db"
  have "counts = map (\<lambda>s. (s, int (length (filter (\<lambda>a. al_Severity a = s) ?mine)))) (remdups (map al_Severity ?mine))"
    using assms by (auto simp: alerting_GetStats_def Let_def split: if_splits)
  then have "(\<Sum>c\<leftarrow>counts. snd c) = int (\<Sum>s\<leftarrow>remdups (map al_Severity ?mine). length (filter (\<lambda>a. al_Severity a = s) ?mine))"
    by (simp add: o_def int_sum_list)
  then show ?thesis unfolding sum_groups .
qed

lemma mean_exact: "mean_of (exact pr) xs = sum_list xs / real (length xs)"
proof -
  have "fold (\<lambda>x acc. acc + x) xs c = c + sum_list xs" for c :: real by (induction xs arbitrary: c) simp_all
  then show ?thesis by (simp add: mean_of_def)
qed

text \<open>
  Open alerts lower the mean time to resolve: the collection stores 0 for an
  alert that is not resolved, so, in exact arithmetic and for alerts of one
  severity, the statistics divide the time of the resolved alerts by the number
  of all alerts.
\<close>

theorem open_alerts_lower_mttr:
  assumes "mine = filter (\<lambda>a. al_OrgID a = o') db" "mine \<noteq> []" "\<forall>a\<in>set mine. al_Severity a = sev"
    and "\<forall>a\<in>set mine. al_ResolvedAt a = None \<longrightarrow> al_MTTR a = 0"
  shows "\<exists>counts. alerting_GetStats (exact pr) True o' db = Ok (counts,
     (\<Sum>a\<leftarrow>filter (\<lambda>a. al_ResolvedAt a \<noteq> None) mine. real_of_int (al_MTTR a) / real_of_int Second) / real (length mine))"
proof -
  have sevs: "remdups (map al_Severity mine) = [sev]"
  proof -
    have "set (remdups (map al_Severity mine)) = {sev}" using assms(2,3) by (cases mine) auto
    then show ?thesis by (metis distinct_remdups distinct_card length_remdups_card_conv card.empty card.insert finite.emptyI
          empty_iff One_nat_def length_0_conv length_Suc_conv list.set_intros(1) singletonD set_remdups list.simps(15))
  qed
  have grp: "filter (\<lambda>a. al_Severity a = sev) mine = mine" using assms(3) by (simp add: filter_id_conv)
  have "(\<Sum>a\<leftarrow>xs. real_of_int (al_MTTR a) / real_of_int Second) = (\<Sum>a\<leftarrow>filter (\<lambda>a. al_ResolvedAt a \<noteq> None) xs. real_of_int (al_MTTR a) / real_of_int Second)"
    if "\<forall>a\<in>set xs. al_ResolvedAt a = None \<longrightarrow> al_MTTR a = 0" for xs using that by (induction xs) auto
  from this [OF assms(4)] show ?thesis
    unfolding alerting_GetStats_def Let_def assms(1) [symmetric] sevs
    by (simp add: grp mean_exact Seconds_exact o_def)
qed

subsection \<open>Instances\<close>

definition sample_io :: alert_io where
  "sample_io = \<lparr>ai_up = True, ai_update_up = True, ai_now = 0, ai_oid = Some, ai_query = (\<lambda>k. if k = ''org_id'' then ''o2'' else [])\<rparr>"

definition admitted :: "string option \<Rightarrow> headers \<Rightarrow> req_ctx \<Rightarrow> verdict" where
  "admitted = AuthJWTWithBlocklist toy_jwt [key_k1 ''secret''] None 0"

lemma toy_admitted: "\<exists>c. admitted (Some ''tok'') h empty_ctx = Next c"
  "\<exists>c. admitted None [(''Authorization'', ''Bearer tok'')] empty_ctx = Next c"
proof -
  have "Verify toy_jwt 0 ''tok'' [key_k1 ''secret''] = Ok toy_claims"
    using fresh_claims_valid [of 0 0 Hour] by (simp add: Verify_def toy_jwt_def key_func_def key_k1_def toy_claims_def time_units)
  moreover have "extractToken None [(''Authorization'', ''Bearer tok'')] = ''tok''" by code_simp
  ultimately show "\<exists>c. admitted (Some ''tok'') h empty_ctx = Next c" "\<exists>c. admitted None [(''Authorization'', ''Bearer tok'')] empty_ctx = Next c"
    by (simp_all add: admitted_def AuthJWTWithBlocklist_def extractToken_def [of "Some ''tok''"] Let_def toy_claims_def NewStandardClaims_def)
qed

theorem threat_serves_any_tenant_witness:
  "threat_serve (exact (\<lambda>_. JNull)) sample_io (admitted (Some ''tok'') []) empty_ctx ''GET'' [''v1'', ''threats'', ''alerts''] []
   = threat_serve (exact (\<lambda>_. JNull)) sample_io (admitted None [(''Authorization'', ''Bearer tok'')]) empty_ctx ''GET'' [''v1'', ''threats'', ''alerts''] []"
proof -
  obtain c1 c2 where "admitted (Some ''tok'') [] empty_ctx = Next c1" "admitted None [(''Authorization'', ''Bearer tok'')] empty_ctx = Next c2"
    using toy_admitted by blast
  then show ?thesis unfolding admitted_def by (rule threat_serves_any_tenant)
qed

theorem alerting_serves_own_tenant_witness:
  "\<exists>reply db'. alerting_serve (exact (\<lambda>_. JNull)) sample_io (AuthJWTWithBlocklist toy_jwt [key_k1 ''secret''] None 0 (Some ''tok'') []) empty_ctx
       ''GET'' [''v1'', ''threats'', ''alerts''] [sample_alert ''a1'' ''o1'', sample_alert ''a2'' ''o2''] = (reply, db')
     \<and> (\<forall>a\<in>set (shown reply). \<exists>claims. Verify toy_jwt 0 (extractToken (Some ''tok'') []) [key_k1 ''secret''] = Ok claims \<and> al_OrgID a = cl_OrgID claims)"
proof -
  obtain reply db' where r: "alerting_serve (exact (\<lambda>_. JNull)) sample_io (AuthJWTWithBlocklist toy_jwt [key_k1 ''secret''] None 0 (Some ''tok'') []) empty_ctx
       ''GET'' [''v1'', ''threats'', ''alerts''] [sample_alert ''a1'' ''o1'', sample_alert ''a2'' ''o2''] = (reply, db')" by fastforce
  from alerting_serves_own_tenant [OF this] r show ?thesis by blast
qed

theorem stats_counts_total_witness:
  "\<exists>counts avg. alerting_GetStats (exact (\<lambda>_. JNull)) True ''o1'' [sample_alert ''a1'' ''o1'', sample_alert ''a2'' ''o2''] = Ok (counts, avg)
     \<and> (\<Sum>c\<leftarrow>counts. snd c) = int (length (filter (\<lambda>a. al_OrgID a = ''o1'') [sample_alert ''a1'' ''o1'', sample_alert ''a2'' ''o2'']))"
proof -
  obtain counts avg where c: "alerting_GetStats (exact (\<lambda>_. JNull)) True ''o1'' [sample_alert ''a1'' ''o1'', sample_alert ''a2'' ''o2''] = Ok (counts, avg)"
    by (simp add: alerting_GetStats_def Let_def)
  with stats_counts_total [OF c] show ?thesis by blast
qed

theorem open_alerts_lower_mttr_witness:
  "\<exists>counts. alerting_GetStats (exact (\<lambda>_. JNull)) True ''o1''
     [(sample_alert ''a1'' ''o1'')\<lparr>al_MTTR := 100 * Second, al_ResolvedAt := Some 0\<rparr>, sample_alert ''a2'' ''o1''] = Ok (counts, 50)"
  using open_alerts_lower_mttr [OF refl, of "''o1''" "[(sample_alert ''a1'' ''o1'')\<lparr>al_MTTR := 100 * Second, al_ResolvedAt := Some 0\<rparr>, sample_alert ''a2'' ''o1'']"
      "al_Severity (sample_alert ''a1'' ''o1'')" "\<lambda>_. JNull"]
  by (simp add: sample_alert_def time_units)

end
