(* ===== verification/Policy_Direct.thy ===== *)
theory Policy_Direct
  imports Policy_Store
begin

text \<open>
  The mutations of the policy repository that open no transaction of their
  own (CreatePolicy, UpdatePolicy and DeletePolicy of
  services/policy/pkg/repository): the statements of the transactional
  versions, run on a pooled connection that withOrgContext prepares.  The
  two are compared for a role that row-level security passes over and for one
  that it restricts.
\<close>

definition RepoCreatePolicy :: "pg_env \<Rightarrow> go_ctx \<Rightarrow> db_faults \<Rightarrow> policy_db \<Rightarrow> string \<Rightarrow> time \<Rightarrow>
    string \<Rightarrow> string \<Rightarrow> string \<Rightarrow> raw_json \<Rightarrow> (db_error, Policy \<times> policy_db) result" where
  "RepoCreatePolicy env ctx f db new_id now orgID name description logic = withOrgContext ctx f (\<lambda>conn.
     case (pg_uuid env orgID, logic) of
       (Some org, Some j) \<Rightarrow>
         if f_query f \<or> \<not> rls_visible env conn org \<or> new_id \<in> pol_ID ` set (policies db)
         then Err (DbErr ''create policy'')
         else let p = \<lparr>pol_ID = new_id, pol_OrgID = org, pol_Name = name, pol_Description = description,
                pol_Logic = Some j, pol_Version = 1, pol_CreatedAt = now, pol_UpdatedAt = now\<rparr>
              in Ok (p, db\<lparr>policies := policies db @ [p]\<rparr>)
     | _ \<Rightarrow> Err (DbErr ''create policy''))"

definition RepoUpdatePolicy :: "pg_env \<Rightarrow> go_ctx \<Rightarrow> db_faults \<Rightarrow> policy_db \<Rightarrow> time \<Rightarrow>
    string \<Rightarrow> string \<Rightarrow> string \<Rightarrow> string \<Rightarrow> raw_json \<Rightarrow> (db_error, Policy \<times> policy_db) result" where
  "RepoUpdatePolicy env ctx f db now orgID policyID name description logic = withOrgContext ctx f (\<lambda>conn.
     case (pg_uuid env policyID, pg_uuid env orgID, logic) of
       (Some i, Some org, Some j) \<Rightarrow>
         if f_query f then Err (DbErr ''update policy'')
         else (case find (\<lambda>p. pol_ID p = i \<and> pol_OrgID p = org) (visible_policies env conn db) of
           None \<Rightarrow> Err ErrNotFound
         | Some p \<Rightarrow>
             if pol_Version p \<ge> max_int4 then Err (DbErr ''update policy'')
             else let p' = p\<lparr>pol_Name := name, pol_Description := description, pol_Logic := Some j,
                    pol_Version := pol_Version p + 1, pol_UpdatedAt := now\<rparr>
                  in Ok (p', db\<lparr>policies := map (\<lambda>q. if pol_ID q = i \<and> pol_OrgID q = org then p' else q) (policies db)\<rparr>))
     | _ \<Rightarrow> Err (DbErr ''update policy''))"

definition RepoDeletePolicy :: "pg_env \<Rightarrow> go_ctx \<Rightarrow> db_faults \<Rightarrow> policy_db \<Rightarrow> string \<Rightarrow> string \<Rightarrow> (db_error, policy_db) result" where
  "RepoDeletePolicy env ctx f db orgID policyID = withOrgContext ctx f (\<lambda>conn.
     case (pg_uuid env policyID, pg_uuid env orgID) of
       (Some i, Some org) \<Rightarrow>
         if f_query f then Err (DbErr ''delete policy'')
         else (let hit = (\<lambda>p. pol_ID p = i \<and> pol_OrgID p = org \<and> rls_visible env conn (pol_OrgID p)) in
           if filter hit (policies db) = [] then Err ErrNotFound
           else Ok (db\<lparr>policies := filter (\<lambda>p. \<not> hit p) (policies db),
                  policy_assignments := filter (\<lambda>a. asg_PolicyID a \<noteq> i) (policy_assignments db)\<rparr>))
     | _ \<Rightarrow> Err (DbErr ''delete policy''))"

text \<open>
  For a role that row-level security passes over, with a tenant in the context
  and no fault before the statement, the three operations are the
  transactional ones, results, errors and new tables alike.
\<close>

theorem direct_mutations_equal_tx:
  assumes "\<not> rls_enforced env" "Rls.OrgID ctx \<noteq> []" "\<not> f_acquire f" "\<not> f_setvar f"
  shows "RepoCreatePolicy env ctx f db i now o' n d l = CreatePolicyTx env f db i now o' n d l
    \<and> RepoUpdatePolicy env ctx f db now o' i n d l = UpdatePolicyTx env f db now o' i n d l
    \<and> RepoDeletePolicy env ctx f db o' i = DeletePolicyTx env f db o' i"
  using assms by (simp add: RepoCreatePolicy_def CreatePolicyTx_def RepoUpdatePolicy_def UpdatePolicyTx_def
      RepoDeletePolicy_def DeletePolicyTx_def withOrgContext_def Let_def split: option.split)

text \<open>
  For a role that row-level security restricts, none of them ever writes: the
  setting is gone when the statement runs, so an INSERT is refused and UPDATE
  and DELETE find no row, for the tenant's own policies too.
\<close>

theorem direct_mutations_never_write:
  assumes "rls_enforced env"
  shows "(\<exists>e. RepoCreatePolicy env ctx f db i now o' n d l = Err e)
    \<and> (\<exists>e. RepoUpdatePolicy env ctx f db now o' i n d l = Err e)
    \<and> (\<exists>e. RepoDeletePolicy env ctx f db o' i = Err e)"
  using assms by (auto simp: RepoCreatePolicy_def RepoUpdatePolicy_def RepoDeletePolicy_def withOrgContext_def
      invisible_without_tx Let_def split: option.splits)

theorem direct_mutations_equal_tx_witness:
  "RepoCreatePolicy open_env sample_ctx no_faults sample_db ''p9'' 0 ''o1'' ''n'' [] (Some JNull)
     = CreatePolicyTx open_env no_faults sample_db ''p9'' 0 ''o1'' ''n'' [] (Some JNull)
   \<and> RepoUpdatePolicy open_env sample_ctx no_faults sample_db 0 ''o1'' ''p9'' ''n'' [] (Some JNull)
     = UpdatePolicyTx open_env no_faults sample_db 0 ''o1'' ''p9'' ''n'' [] (Some JNull)
   \<and> RepoDeletePolicy open_env sample_ctx no_faults sample_db ''o1'' ''p9'' = DeletePolicyTx open_env no_faults sample_db ''o1'' ''p9''"
  by (rule direct_mutations_equal_tx) (simp_all add: open_env_def sample_ctx_def no_faults_def)

theorem direct_mutations_never_write_witness:
  "\<exists>e. RepoDeletePolicy strict_env sample_ctx no_faults sample_db ''o1'' ''p1'' = Err e"
  using direct_mutations_never_write [of strict_env sample_ctx no_faults sample_db "''p1''" 0 "''o1''" "[]" "[]" None]
  by (simp add: strict_env_def)

end
