(* ===== verification/Alert_Consumer.thy ===== *)
theory Alert_Consumer
  imports Alerting "HOL-Library.Multiset"
begin

text \<open>
  AlertSaga.Start of services/alerting/pkg/saga as a step relation: the loop
  that fetches messages, the semaphore of 50 slots, one goroutine per message
  that processes and commits it, and the wait for the goroutines at the end.

  The messages are those of one partition of the topic; \<open>None\<close> is a value that does
  not unmarshal.  A call of processMessage is one step.  Kafka keeps for the consumer
  group the offset after the last committed message and gives a reader that
  starts the messages from there on.
\<close>

subsection \<open>The loop\<close>

datatype loop_pc = Fetching | Sending nat | Waiting | Returned

record saga_st =
  sg_pc :: loop_pc
  sg_next :: nat
  sg_work :: "(nat \<times> bool) list"
  sg_committed :: nat
  sg_cancelled :: bool
  sg_done :: "nat list"
  sg_data :: alert_st

definition max_goroutines :: nat where "max_goroutines = 50"

text \<open>A reader that joins the group at a committed offset.\<close>

definition saga_start :: "nat \<Rightarrow> alert_st \<Rightarrow> saga_st" where
  "saga_start c d = \<lparr>sg_pc = Fetching, sg_next = c, sg_work = [], sg_committed = c, sg_cancelled = False, sg_done = [], sg_data = d\<rparr>"

text \<open>
  An entry of \<open>sg_work\<close> is a goroutine: its message, and whether processMessage has
  returned.  \<open>sg_done\<close> lists the messages processed, in order.  A fetch error
  with a live context leads back to the fetch and is no step.  FetchMessage may
  still return a message after the context was cancelled.
\<close>

inductive saga_step :: "Alert option list \<Rightarrow> (nat \<Rightarrow> saga_io) \<Rightarrow> saga_st \<Rightarrow> saga_st \<Rightarrow> bool" for msgs io where
  fetch: "sg_pc s = Fetching \<Longrightarrow> sg_next s < length msgs \<Longrightarrow>
    saga_step msgs io s (s\<lparr>sg_pc := Sending (sg_next s), sg_next := Suc (sg_next s)\<rparr>)"
| spawn: "sg_pc s = Sending n \<Longrightarrow> length (sg_work s) < max_goroutines \<Longrightarrow>
    saga_step msgs io s (s\<lparr>sg_pc := Fetching, sg_work := sg_work s @ [(n, False)]\<rparr>)"
| process: "sg_work s = xs @ (n, False) # ys \<Longrightarrow>
    saga_step msgs io s (s\<lparr>sg_work := xs @ (n, True) # ys, sg_done := sg_done s @ [n],
      sg_data := processMessage (io n) (msgs ! n) (sg_data s)\<rparr>)"
| commit: "sg_work s = xs @ (n, True) # ys \<Longrightarrow> saga_step msgs io s (s\<lparr>sg_work := xs @ ys, sg_committed := Suc n\<rparr>)"
| commit_failed: "sg_work s = xs @ (n, True) # ys \<Longrightarrow> saga_step msgs io s (s\<lparr>sg_work := xs @ ys\<rparr>)"
| cancel: "saga_step msgs io s (s\<lparr>sg_cancelled := True\<rparr>)"
| stop: "sg_pc s = Fetching \<Longrightarrow> sg_cancelled s \<Longrightarrow> saga_step msgs io s (s\<lparr>sg_pc := Waiting\<rparr>)"
| return: "sg_pc s = Waiting \<Longrightarrow> sg_work s = [] \<Longrightarrow> saga_step msgs io s (s\<lparr>sg_pc := Returned\<rparr>)"

subsection \<open>Invariant\<close>

fun at_semaphore :: "loop_pc \<Rightarrow> nat list" where
  "at_semaphore (Sending n) = [n]"
| "at_semaphore _ = []"

text \<open>Fetched but not yet processed.\<close>

definition open_msgs :: "saga_st \<Rightarrow> nat list" where
  "open_msgs s = map fst (filter (\<lambda>w. \<not> snd w) (sg_work s)) @ at_semaphore (sg_pc s)"

definition process_all :: "Alert option list \<Rightarrow> (nat \<Rightarrow> saga_io) \<Rightarrow> nat list \<Rightarrow> alert_st \<Rightarrow> alert_st" where
  "process_all msgs io ns d = fold (\<lambda>n. processMessage (io n) (msgs ! n)) ns d"

definition saga_inv :: "Alert option list \<Rightarrow> (nat \<Rightarrow> saga_io) \<Rightarrow> nat \<Rightarrow> alert_st \<Rightarrow> saga_st \<Rightarrow> bool" where
  "saga_inv msgs io c d s \<longleftrightarrow> c \<le> sg_next s \<and> length (sg_work s) \<le> max_goroutines
     \<and> mset (sg_done s @ open_msgs s) = mset [c..<sg_next s]
     \<and> sg_data s = process_all msgs io (sg_done s) d
     \<and> (sg_pc s = Returned \<longrightarrow> sg_work s = [])"

lemma saga_inv_start [simp]: "saga_inv msgs io c d (saga_start c d)"
  by (simp add: saga_inv_def saga_start_def open_msgs_def process_all_def)

lemma saga_inv_step: "saga_inv msgs io c d s \<Longrightarrow> saga_step msgs io s t \<Longrightarrow> saga_inv msgs io c d t"
  by (erule saga_step.cases) (auto simp: saga_inv_def open_msgs_def process_all_def)

interpretation saga_loop: step_invariant "saga_step msgs io" "saga_inv msgs io c d" for msgs io c d
  by unfold_locales (rule saga_inv_step)

lemma reach_saga_inv: "(saga_step msgs io)\<^sup>*\<^sup>* (saga_start c d) s \<Longrightarrow> saga_inv msgs io c d s"
  by (erule saga_loop.reach_inv) (rule saga_inv_start)

lemma fetched_msgs:
  assumes "saga_inv msgs io c d s"
  shows "distinct (sg_done s @ open_msgs s)" "set (sg_done s) \<union> set (open_msgs s) = {c..<sg_next s}"
proof -
  have m: "mset (sg_done s @ open_msgs s) = mset [c..<sg_next s]" using assms by (simp add: saga_inv_def)
  show "distinct (sg_done s @ open_msgs s)" using m by (metis distinct_upt mset_eq_imp_distinct_iff)
  show "set (sg_done s) \<union> set (open_msgs s) = {c..<sg_next s}" using m by (metis mset_eq_setD set_append set_upt)
qed

lemma done_range:
  assumes "saga_inv msgs io c d s" "n \<in> set (sg_done s)"
  shows "c \<le> n"
proof -
  have "n \<in> set (sg_done s) \<union> set (open_msgs s)" using assms(2) by simp
  then show ?thesis unfolding fetched_msgs(2) [OF assms(1)] by simp
qed

subsection \<open>Properties\<close>


lemma two_steps: "r a b \<Longrightarrow> r b c \<Longrightarrow> r\<^sup>*\<^sup>* a c"
  by (rule rtranclp.rtrancl_into_rtrancl [OF r_into_rtranclp])

lemma drain_step:
  assumes "sg_work s \<noteq> []"
  shows "\<exists>t. (saga_step msgs io)\<^sup>*\<^sup>* s t \<and> sg_pc t = sg_pc s \<and> sg_cancelled t = sg_cancelled s \<and> sg_work t = tl (sg_work s)"
proof -
  obtain n p ws where w: "sg_work s = [] @ (n, p) # ws" using assms by (cases "sg_work s") auto
  show ?thesis
  proof (cases p)
    case True
    then show ?thesis using w commit [of s "[]" n ws msgs io] by (intro exI [of _ "s\<lparr>sg_work := ws, sg_committed := Suc n\<rparr>"]) auto
  next
    case False
    let ?s = "s\<lparr>sg_work := [] @ (n, True) # ws, sg_done := sg_done s @ [n], sg_data := processMessage (io n) (msgs ! n) (sg_data s)\<rparr>"
    have "saga_step msgs io s ?s" using w False by (intro process) simp
    moreover have "saga_step msgs io ?s (?s\<lparr>sg_work := [] @ ws, sg_committed := Suc n\<rparr>)" by (rule commit) simp
    ultimately have "(saga_step msgs io)\<^sup>*\<^sup>* s (?s\<lparr>sg_work := [] @ ws, sg_committed := Suc n\<rparr>)"
      by (rule two_steps)
    then show ?thesis using w by (intro exI [of _ "?s\<lparr>sg_work := [] @ ws, sg_committed := Suc n\<rparr>"]) simp
  qed
qed

lemma work_drains: "\<exists>t. (saga_step msgs io)\<^sup>*\<^sup>* s t \<and> sg_pc t = sg_pc s \<and> sg_work t = []"
proof (induction "length (sg_work s)" arbitrary: s)
  case 0
  then show ?case by (intro exI [of _ s]) simp
next
  case (Suc k)
  then have "sg_work s \<noteq> []" by auto
  from drain_step [OF this, of msgs io] obtain t where t: "(saga_step msgs io)\<^sup>*\<^sup>* s t" "sg_pc t = sg_pc s" "sg_work t = tl (sg_work s)"
    by blast
  then have "k = length (sg_work t)" using Suc.hyps(2) by simp
  from Suc.hyps(1) [OF this] t show ?case by (metis rtranclp_trans)
qed

lemma fetching_returns:
  assumes "sg_pc s = Fetching"
  shows "\<exists>t. (saga_step msgs io)\<^sup>*\<^sup>* s t \<and> sg_pc t = Returned"
proof -
  let ?s = "s\<lparr>sg_cancelled := True\<rparr>"
  have w: "(saga_step msgs io)\<^sup>*\<^sup>* s (?s\<lparr>sg_pc := Waiting\<rparr>)"
    by (rule two_steps, rule cancel, rule stop) (simp_all add: assms)
  obtain t where t: "(saga_step msgs io)\<^sup>*\<^sup>* (?s\<lparr>sg_pc := Waiting\<rparr>) t" "sg_pc t = Waiting" "sg_work t = []"
    using work_drains [of msgs io "?s\<lparr>sg_pc := Waiting\<rparr>"] by auto
  have "(saga_step msgs io)\<^sup>*\<^sup>* s (t\<lparr>sg_pc := Returned\<rparr>)"
    using w t return [of t msgs io] by (meson rtranclp.rtrancl_into_rtrancl rtranclp_trans)
  then show ?thesis by (intro exI [of _ "t\<lparr>sg_pc := Returned\<rparr>"]) simp
qed

text \<open>
  Start never gets stuck: from every state of the loop, also with all slots
  taken and a message waiting for one, it can still return once the context
  is cancelled.
\<close>

theorem saga_can_always_return: "\<exists>t. (saga_step msgs io)\<^sup>*\<^sup>* s t \<and> sg_pc t = Returned"
proof -
  obtain u where u: "(saga_step msgs io)\<^sup>*\<^sup>* s u" "sg_pc u = sg_pc s" "sg_work u = []" using work_drains by blast
  have "\<exists>t. (saga_step msgs io)\<^sup>*\<^sup>* u t \<and> sg_pc t = Returned"
  proof (cases "sg_pc u")
    case Fetching
    then show ?thesis by (rule fetching_returns)
  next
    case (Sending n)
    let ?v = "u\<lparr>sg_pc := Fetching, sg_work := sg_work u @ [(n, False)]\<rparr>"
    have "saga_step msgs io u ?v" using Sending u(3) by (intro spawn) (auto simp: max_goroutines_def)
    moreover obtain t where "(saga_step msgs io)\<^sup>*\<^sup>* ?v t" "sg_pc t = Returned" using fetching_returns [of ?v msgs io] by auto
    ultimately show ?thesis by (meson converse_rtranclp_into_rtranclp)
  next
    case Waiting
    then show ?thesis using return [of u msgs io] u(3) by (intro exI [of _ "u\<lparr>sg_pc := Returned\<rparr>"]) auto
  next
    case Returned
    then show ?thesis by blast
  qed
  with u(1) show ?thesis by (meson rtranclp_trans)
qed

text \<open>
  Commits may overtake: the goroutine of the second message can commit while
  the first is still being processed.  If the service stops then, the next
  reader starts after both, and no run from there ever processes the first
  message: its alert is neither stored nor published.
\<close>

theorem crash_loses_alert_in_flight:
  assumes "2 \<le> length msgs"
  shows "\<exists>s. (saga_step msgs io)\<^sup>*\<^sup>* (saga_start 0 d) s \<and> sg_next s = 2 \<and> 0 \<notin> set (sg_done s)
     \<and> (\<forall>t. (saga_step msgs io)\<^sup>*\<^sup>* (saga_start (sg_committed s) (sg_data s)) t \<longrightarrow> 0 \<notin> set (sg_done t))"
proof -
  let ?s0 = "saga_start 0 d"
  let ?s1 = "?s0\<lparr>sg_pc := Sending 0, sg_next := 1\<rparr>"
  let ?s2 = "?s1\<lparr>sg_pc := Fetching, sg_work := [(0, False)]\<rparr>"
  let ?s3 = "?s2\<lparr>sg_pc := Sending 1, sg_next := 2\<rparr>"
  let ?s4 = "?s3\<lparr>sg_pc := Fetching, sg_work := [(0, False)] @ [(1, False)]\<rparr>"
  let ?s5 = "?s4\<lparr>sg_work := [(0, False)] @ (1, True) # [], sg_done := [1], sg_data := processMessage (io 1) (msgs ! 1) d\<rparr>"
  let ?s6 = "?s5\<lparr>sg_work := [(0, False)] @ [], sg_committed := 2\<rparr>"
  have ne: "msgs \<noteq> []" using assms by auto
  have "saga_step msgs io ?s0 ?s1" using fetch [of ?s0 msgs io] ne by (simp add: saga_start_def)
  moreover have "saga_step msgs io ?s1 ?s2" using spawn [of ?s1 0 msgs io] by (simp add: saga_start_def max_goroutines_def)
  moreover have "saga_step msgs io ?s2 ?s3" using fetch [of ?s2 msgs io] assms by (simp add: saga_start_def numeral_2_eq_2)
  moreover have "saga_step msgs io ?s3 ?s4" using spawn [of ?s3 1 msgs io] by (simp add: saga_start_def max_goroutines_def)
  moreover have "saga_step msgs io ?s4 ?s5" using process [of ?s4 "[(0, False)]" 1 "[]" msgs io] by (simp add: saga_start_def)
  moreover have "saga_step msgs io ?s5 ?s6" using commit [of ?s5 "[(0, False)]" 1 "[]" msgs io] by (simp add: saga_start_def numeral_2_eq_2)
  ultimately have "(saga_step msgs io)\<^sup>*\<^sup>* ?s0 ?s6" by (meson r_into_rtranclp rtranclp.rtrancl_into_rtrancl)
  moreover have "0 \<notin> set (sg_done t)" if "(saga_step msgs io)\<^sup>*\<^sup>* (saga_start (sg_committed ?s6) (sg_data ?s6)) t" for t
    using done_range [OF reach_saga_inv [OF that], of 0] by auto
  ultimately show ?thesis by (intro exI [of _ ?s6]) auto
qed

subsection \<open>Instances\<close>


theorem crash_loses_alert_in_flight_witness:
  "\<exists>s. (saga_step [Some (sample_alert ''a'' ''o1''), None] (\<lambda>_. working))\<^sup>*\<^sup>* (saga_start 0 \<lparr>as_db = [], as_log = []\<rparr>) s
     \<and> sg_next s = 2 \<and> 0 \<notin> set (sg_done s)"
  using crash_loses_alert_in_flight [of "[Some (sample_alert ''a'' ''o1''), None]" "\<lambda>_. working" "\<lparr>as_db = [], as_log = []\<rparr>"] by auto

end
