(* ===== verification/Gateway.thy ===== *)
theory Gateway
  imports Policy_Handlers Middleware
begin

text \<open>
  The control plane (services/control-plane): which requests it forwards to which
  service, what it does to their headers, and the routers of the policy service
  and the IAM service that receive them.  A path is the list of its segments
  between slashes; a segment \<open>{id}\<close> of a route matches any non-empty one.  The
  reverse proxy is that of the standard library with a transport behind a
  circuit breaker.
\<close>

subsection \<open>CORS and headers\<close>

definition cors_allowed :: "string \<Rightarrow> string \<Rightarrow> bool" where
  "cors_allowed publicURL origin \<longleftrightarrow> origin = ''http://localhost:4200'' \<or> origin = ''https://openguard.lb.localstack.cloud'' \<or>
     origin = ''https://openguard-dev.instatunnel.io'' \<or> (publicURL \<noteq> [] \<and> origin = publicURL)"

definition cors_headers :: "string \<Rightarrow> http_req \<Rightarrow> headers \<Rightarrow> headers" where
  "cors_headers publicURL rq h =
     (let origin = hget (rq_headers rq) ''Origin'' in
      if cors_allowed publicURL origin
      then hset (hset (hset (hset h ''Access-Control-Allow-Origin'' origin)
        ''Access-Control-Allow-Methods'' ''GET, POST, PUT, DELETE, PATCH, OPTIONS'')
        ''Access-Control-Allow-Headers'' ''Content-Type, Authorization, X-Request-ID'')
        ''Access-Control-Allow-Credentials'' ''true''
      else h)"

subsection \<open>Routes\<close>

datatype upstream = ToPolicy | ToAudit | ToIAM

datatype cp_target = CpMetrics | CpHealth | CpLogs | CpProxy upstream

fun cp_policies :: "string \<Rightarrow> string list \<Rightarrow> bool" where
  "cp_policies m [] = (m = ''GET'' \<or> m = ''POST'')"
| "cp_policies m [s] = (if s = [] then m = ''GET'' \<or> m = ''POST'' else m = ''GET'' \<or> m = ''PUT'' \<or> m = ''DELETE'')"
| "cp_policies m _ = False"

fun cp_scim_users :: "string \<Rightarrow> string list \<Rightarrow> bool" where
  "cp_scim_users m [] = (m = ''GET'' \<or> m = ''POST'')"
| "cp_scim_users m [s] = (if s = [] then m = ''GET'' \<or> m = ''POST'' else m = ''GET'' \<or> m = ''PATCH'')"
| "cp_scim_users m _ = False"

definition cp_route :: "string \<Rightarrow> string list \<Rightarrow> cp_target option" where
  "cp_route m path =
     (if path = [''metrics''] then Some CpMetrics
      else if m = ''GET'' \<and> path = [''health''] then Some CpHealth
      else (case path of
        v # s # rest \<Rightarrow>
          if v \<noteq> ''v1'' then None
          else if s = ''policy'' then
            (if m = ''POST'' \<and> rest = [''evaluate''] \<or> m = ''GET'' \<and> rest = [''eval-logs''] then Some (CpProxy ToPolicy) else None)
          else if s = ''policies'' then (if cp_policies m rest then Some (CpProxy ToPolicy) else None)
          else if s = ''events'' then (if m = ''POST'' \<and> rest = [''ingest''] then Some (CpProxy ToAudit) else None)
          else if s = ''scim'' then
            (case rest of
               a # b # is \<Rightarrow> if a = ''v2'' \<and> b = ''Users'' \<and> cp_scim_users m is then Some (CpProxy ToIAM) else None
             | _ \<Rightarrow> None)
          else if s = ''logs'' then (if m = ''POST'' \<and> rest = [] then Some CpLogs else None)
          else None
      | _ \<Rightarrow> None))"

text \<open>The policy service: every route below \<open>/v1\<close> passes the rate limiter and the JWT middleware.\<close>

fun policy_crud :: "bool \<Rightarrow> string \<Rightarrow> string list \<Rightarrow> bool" where
  "policy_crud item m [] = (m = ''GET'' \<or> m = ''POST'')"
| "policy_crud item m [s] = (if s = [] then m = ''GET'' \<or> m = ''POST'' else m = ''DELETE'' \<or> item \<and> (m = ''GET'' \<or> m = ''PUT''))"
| "policy_crud item m _ = False"

definition policy_serves :: "string \<Rightarrow> string list \<Rightarrow> bool" where
  "policy_serves m path =
     (path = [''metrics''] \<or> m = ''GET'' \<and> path = [''health''] \<or>
      (case path of
         v # s # rest \<Rightarrow> v = ''v1'' \<and>
           (s = ''policies'' \<and> policy_crud True m rest \<or> s = ''assignments'' \<and> policy_crud False m rest \<or>
            s = ''policy'' \<and> (m = ''POST'' \<and> rest = [''evaluate''] \<or> m = ''GET'' \<and> rest = [''eval-logs'']))
       | _ \<Rightarrow> False))"

text \<open>The IAM service.\<close>

definition iam_mgmt :: "string \<Rightarrow> string list \<Rightarrow> bool" where
  "iam_mgmt m path \<longleftrightarrow>
     (path = [''orgs''] \<and> m = ''POST'') \<or> (path = [''users''] \<and> (m = ''GET'' \<or> m = ''POST'')) \<or>
     (path = [''connectors''] \<and> (m = ''GET'' \<or> m = ''POST'')) \<or>
     (\<exists>i\<in>set path. i \<noteq> [] \<and> path = [''connectors'', i] \<and> (m = ''PUT'' \<or> m = ''DELETE'')) \<or>
     (\<exists>i\<in>set path. i \<noteq> [] \<and> path = [''users'', i, ''reprovision''] \<and> m = ''POST'') \<or>
     (path = [''users'', ''mfa'', ''totp'', ''setup''] \<and> m = ''GET'') \<or> (path = [''users'', ''mfa'', ''totp'', ''enable''] \<and> m = ''POST'')"

definition iam_auth :: "string \<Rightarrow> string list \<Rightarrow> bool" where
  "iam_auth m path \<longleftrightarrow>
     (m = ''POST'' \<and> path \<in> set [[''login''], [''oauth'', ''login''], [''refresh''], [''mfa'', ''verify''], [''mfa'', ''backup-verify''],
        [''logout''], [''token''], [''webauthn'', ''login'', ''begin''], [''webauthn'', ''login'', ''finish''],
        [''webauthn'', ''register'', ''begin''], [''webauthn'', ''register'', ''finish''], [''saml'', ''acs''], [''saml'', ''providers''],
        [''scim'', ''v2'', ''Users'']]) \<or>
     (m = ''GET'' \<and> path \<in> set [[''me''], [''authorize''], [''jwks''], [''.well-known'', ''openid-configuration''], [''saml'', ''metadata''],
        [''saml'', ''providers''], [''scim'', ''v2'', ''Users'']]) \<or>
     (\<exists>i\<in>set path. i \<noteq> [] \<and> path = [''scim'', ''v2'', ''Users'', i] \<and> (m = ''GET'' \<or> m = ''DELETE'' \<or> m = ''PATCH''))"

definition iam_serves :: "string \<Rightarrow> string list \<Rightarrow> bool" where
  "iam_serves m path =
     (path = [''metrics''] \<or> m = ''GET'' \<and> path = [''health''] \<or>
      (case path of
         s # rest \<Rightarrow> s = ''mgmt'' \<and> iam_mgmt m rest \<or> s = ''auth'' \<and> iam_auth m rest
       | _ \<Rightarrow> False))"

subsection \<open>The proxy\<close>

text \<open>
  The Director keeps the path, since the configured targets have none, and drops
  three internal headers; the reverse proxy then drops the hop-by-hop headers,
  those that \<open>Connection\<close> lists included, puts back what announces trailers and a
  protocol upgrade, and extends \<open>X-Forwarded-For\<close> with the peer's address.
\<close>

definition hop_headers :: "string list" where
  "hop_headers = [''Connection'', ''Proxy-Connection'', ''Keep-Alive'', ''Proxy-Authenticate'', ''Proxy-Authorization'', ''Te'', ''Trailer'',
     ''Transfer-Encoding'', ''Upgrade'']"

definition director :: "headers \<Rightarrow> headers" where
  "director h = hdel (hdel (hdel h ''X-Org-Id'') ''X-Internal-Key'') ''X-Openguard-Org-Id''"

definition hvalues :: "headers \<Rightarrow> string \<Rightarrow> string list" where
  "hvalues h k = map snd (filter (\<lambda>(k', _). k' = k) h)"

definition header_tokens :: "headers \<Rightarrow> string \<Rightarrow> string list" where
  "header_tokens h k = filter (\<lambda>t. t \<noteq> []) (concat (map (\<lambda>v. map (\<lambda>t. ToLower (TrimSpace t)) (Split CHR '','' v)) (hvalues h k)))"

definition remove_hop :: "headers \<Rightarrow> headers" where
  "remove_hop h = filter (\<lambda>(k, _). ToLower k \<notin> set (header_tokens h ''Connection'') \<and> k \<notin> set hop_headers) h"

definition upgrade_type :: "headers \<Rightarrow> string" where
  "upgrade_type h = (if ''upgrade'' \<in> set (header_tokens h ''Connection'') then hget h ''Upgrade'' else [])"

fun join_comma :: "string list \<Rightarrow> string" where
  "join_comma [] = []"
| "join_comma [v] = v"
| "join_comma (v # vs) = v @ '', '' @ join_comma vs"

definition forward_headers :: "http_req \<Rightarrow> headers" where
  "forward_headers rq =
     (let d = director (rq_headers rq); h = remove_hop d;
          h = (if ''trailers'' \<in> set (header_tokens d ''Te'') then hset h ''Te'' ''trailers'' else h);
          h = (if upgrade_type d \<noteq> [] then hset (hset h ''Connection'' ''Upgrade'') ''Upgrade'' (upgrade_type d) else h) in
      case SplitHostPort (rq_remote rq) of
        None \<Rightarrow> h
      | Some (host, _) \<Rightarrow> hset h ''X-Forwarded-For'' (join_comma (hvalues h ''X-Forwarded-For'' @ [host])))"

text \<open>
  RoundTrip: a refusal of the breaker and an error of the transport are errors,
  which the reverse proxy answers with 502; every answer counts as a success.
\<close>

definition RoundTrip :: "cb_refusal option \<Rightarrow> (string, 'b http_resp) result \<Rightarrow> (string call_error, 'b http_resp) result" where
  "RoundTrip refusal reply = Call ''proxy'' refusal reply"

definition serve_proxy :: "'b \<Rightarrow> cb_refusal option option \<Rightarrow> (headers \<Rightarrow> (string, 'b http_resp) result) \<Rightarrow> http_req \<Rightarrow> 'b http_resp" where
  "serve_proxy no_body cb upstream_do rq =
     (let bad = \<lparr>rs_code = 502, rs_headers = [], rs_body = no_body\<rparr>; reply = upstream_do (forward_headers rq) in
      case cb of
        None \<Rightarrow> (case reply of Inl _ \<Rightarrow> bad | Inr r \<Rightarrow> r)
      | Some refusal \<Rightarrow> (case RoundTrip refusal reply of Inl _ \<Rightarrow> bad | Inr r \<Rightarrow> r))"

subsection \<open>The endpoint for log lines of the web client\<close>

datatype log_level = LevelInfo | LevelError | LevelWarn | LevelDebug

definition frontend_level :: "string \<Rightarrow> (string \<times> json) list \<Rightarrow> log_level" where
  "frontend_level level context =
     (if level = ''error''
      then (case json_lookup context ''status'' of Some (JNum n) \<Rightarrow> if n < 400 then LevelInfo else LevelError | _ \<Rightarrow> LevelError)
      else if level = ''warn'' then LevelWarn
      else if level = ''debug'' then LevelDebug
      else LevelInfo)"

subsection \<open>Facts\<close>

lemma map_of_filter_key: "map_of (filter (\<lambda>(k, _). P k) h) k = (if P k then map_of h k else None)"
  by (induction h) auto

lemma hget_remove_hop:
  "hget (remove_hop h) k = (if ToLower k \<notin> set (header_tokens h ''Connection'') \<and> k \<notin> set hop_headers then hget h k else [])"
  by (simp add: remove_hop_def hget_def map_of_filter_key)

lemma hvalues_hdel: "k \<noteq> k' \<Longrightarrow> hvalues (hdel h k') k = hvalues h k"
  by (induction h) (auto simp: hvalues_def hdel_def)

lemma header_tokens_director:
  "header_tokens (director h) ''Connection'' = header_tokens h ''Connection''"
  by (simp add: header_tokens_def director_def hvalues_hdel)

text \<open>What a forwarded request carries under a name that the proxy does not write itself.\<close>

lemma hget_forward:
  assumes "k \<notin> set (''X-Forwarded-For'' # hop_headers)"
  shows "hget (forward_headers rq) k =
     (if ToLower k \<in> set (header_tokens (rq_headers rq) ''Connection'') then [] else hget (director (rq_headers rq)) k)"
  using assms by (simp add: forward_headers_def Let_def hget_remove_hop header_tokens_director hop_headers_def split: option.split)

lemma join_comma_last: "\<exists>u. join_comma (vs @ [v]) = u @ v"
proof (induction vs rule: join_comma.induct)
  case (3 w w' ws)
  then obtain u where "join_comma ((w' # ws) @ [v]) = u @ v" by blast
  then show ?case by simp
qed auto

lemma join_comma_suffix: "HasSuffix (join_comma (vs @ [v])) v"
  using join_comma_last [of vs v] by (auto simp: HasSuffix_def)

text \<open>
  The internal identity headers of a client never reach a service: whatever
  headers a request has, the forwarded request has none of the three, names the peer as
  the last forwarder, and keeps the client's credentials unless the client's own
  \<open>Connection\<close> header lists them.
\<close>

theorem proxy_strips_identity:
  assumes "SplitHostPort (rq_remote rq) = Some (host, port)" "h = forward_headers rq"
  shows "(\<forall>k\<in>{''X-Org-Id'', ''X-Internal-Key'', ''X-Openguard-Org-Id''}. hget h k = []) \<and> HasSuffix (hget h ''X-Forwarded-For'') host \<and>
     (\<forall>k\<in>{''Authorization'', ''X-Api-Key''}. hget h k =
        (if ToLower k \<in> set (header_tokens (rq_headers rq) ''Connection'') then [] else hget (rq_headers rq) k))"
proof -
  have "HasSuffix (hget h ''X-Forwarded-For'') host"
    using assms by (simp add: forward_headers_def Let_def join_comma_suffix)
  then show ?thesis unfolding assms(2) by (auto simp: hget_forward hop_headers_def director_def)
qed

text \<open>
  Routes agree for policies and differ for SCIM: every request that the
  control plane forwards to the policy service is one that service has a route for, and no
  request that it forwards to the IAM service is, because the path keeps its
  \<open>/v1\<close> and lacks \<open>/auth\<close>.
\<close>

theorem gateway_routes_agree:
  "(cp_route m path = Some (CpProxy ToPolicy) \<longrightarrow> policy_serves m path) \<and>
   (cp_route m path = Some (CpProxy ToIAM) \<longrightarrow> \<not> iam_serves m path)"
proof -
  have crud: "cp_policies m rest \<Longrightarrow> policy_crud True m rest" for rest
    by (induction m rest rule: cp_policies.induct) (auto split: if_splits)
  show ?thesis
  proof (cases path)
    case (Cons v more)
    then show ?thesis using crud
      by (cases more) (auto simp: cp_route_def policy_serves_def iam_serves_def split: if_splits list.splits)
  qed (auto simp: cp_route_def)
qed

subsection \<open>Instances\<close>

definition scim_request :: http_req where
  "scim_request = \<lparr>rq_method = ''GET'', rq_headers = [(''X-Org-Id'', ''victim''), (''Authorization'', ''Bearer t'')], rq_query = [], rq_form = None,
     rq_body = None, rq_basic_user = [], rq_cookie = None, rq_remote = ''10.0.0.1:5000'', rq_param = (\<lambda>_. []), rq_ctx = empty_ctx\<rparr>"

theorem proxy_strips_identity_witness:
  "hget (forward_headers scim_request) ''X-Org-Id'' = [] \<and> hget (forward_headers scim_request) ''Authorization'' = ''Bearer t''"
proof -
  have "SplitHostPort (rq_remote scim_request) = Some (''10.0.0.1'', ''5000'')" by code_simp
  from proxy_strips_identity [OF this refl] show ?thesis by (simp add: scim_request_def hget_def header_tokens_def hvalues_def)
qed

theorem gateway_routes_agree_witness:
  "cp_route ''GET'' [''v1'', ''scim'', ''v2'', ''Users''] = Some (CpProxy ToIAM) \<and> \<not> iam_serves ''GET'' [''v1'', ''scim'', ''v2'', ''Users''] \<and>
   cp_route ''PUT'' [''v1'', ''policies'', ''p1''] = Some (CpProxy ToPolicy) \<and> policy_serves ''PUT'' [''v1'', ''policies'', ''p1'']"
  using gateway_routes_agree [of "''GET''" "[''v1'', ''scim'', ''v2'', ''Users'']"] gateway_routes_agree [of "''PUT''" "[''v1'', ''policies'', ''p1'']"]
  by (simp add: cp_route_def)

end
