(* ===== verification/Sdk.thy ===== *)
theory Sdk
  imports Gateway
begin

text \<open>
  The Go client library (sdk): the local decision cache, the HTTP call with
  retries behind an optional circuit breaker, and Allow; then Allow against the
  policy service behind the control plane.

  An error is its text, since the retry decision searches it.  The waits between
  attempts have no effect but the time they take; what the context and the
  server do in them is part of the environment.
\<close>

subsection \<open>The local cache\<close>

record cacheEntry =
  ce_value :: bool
  ce_expiresAt :: time

record localCache =
  lc_data :: "string \<Rightarrow> cacheEntry option"
  lc_ttl :: time

definition grace :: time where "grace = 60 * Second"

definition newLocalCache :: "time \<Rightarrow> localCache" where
  "newLocalCache ttl = \<lparr>lc_data = Map.empty, lc_ttl = ttl\<rparr>"

text \<open>One tick of the eviction loop.\<close>

definition evict :: "time \<Rightarrow> localCache \<Rightarrow> localCache" where
  "evict now c = c\<lparr>lc_data := (\<lambda>k. case lc_data c k of
      None \<Rightarrow> None | Some v \<Rightarrow> if ce_expiresAt v < now - grace then None else Some v)\<rparr>"

definition Get :: "time \<Rightarrow> string \<Rightarrow> localCache \<Rightarrow> bool \<times> bool" where
  "Get now key c =
     (case lc_data c key of
        None \<Rightarrow> (False, False)
      | Some entry \<Rightarrow> if now > ce_expiresAt entry then (False, False) else (ce_value entry, True))"

text \<open>GetOrStale reads the clock once for the fresh and once for the stale case.\<close>

definition GetOrStale :: "time \<Rightarrow> time \<Rightarrow> string \<Rightarrow> localCache \<Rightarrow> bool \<times> bool" where
  "GetOrStale now now' key c =
     (case lc_data c key of
        None \<Rightarrow> (False, False)
      | Some entry \<Rightarrow>
          if now < ce_expiresAt entry then (ce_value entry, True)
          else if now' < ce_expiresAt entry + grace then (ce_value entry, True)
          else (False, False))"

definition Set :: "time \<Rightarrow> string \<Rightarrow> bool \<Rightarrow> localCache \<Rightarrow> localCache" where
  "Set now key value c = c\<lparr>lc_data := (lc_data c)(key \<mapsto> \<lparr>ce_value = value, ce_expiresAt = now + lc_ttl c\<rparr>)\<rparr>"

subsection \<open>The HTTP call\<close>

record Client =
  sc_apiKey :: string
  sc_orgID :: string
  sc_cache :: localCache
  sc_failOpen :: bool
  sc_breaker :: bool
  sc_retryMax :: int

text \<open>
  The options of the constructor that the model can see; those on TLS change the
  transport only.  Later options win, and a cache lifetime replaces the cache.
\<close>

datatype ClientOption = OptOrgID string | OptFailOpen bool | OptCircuitBreaker int | OptRetry int | OptCacheTTL time

fun apply_option :: "ClientOption \<Rightarrow> Client \<Rightarrow> Client" where
  "apply_option (OptOrgID orgID) c = c\<lparr>sc_orgID := orgID\<rparr>"
| "apply_option (OptFailOpen enabled) c = c\<lparr>sc_failOpen := enabled\<rparr>"
| "apply_option (OptCircuitBreaker threshold) c = c\<lparr>sc_breaker := True\<rparr>"
| "apply_option (OptRetry attempts) c = c\<lparr>sc_retryMax := attempts\<rparr>"
| "apply_option (OptCacheTTL ttl) c = c\<lparr>sc_cache := newLocalCache ttl\<rparr>"

definition NewClient :: "string \<Rightarrow> ClientOption list \<Rightarrow> Client" where
  "NewClient apiKey opts = fold apply_option opts
     \<lparr>sc_apiKey = apiKey, sc_orgID = [], sc_cache = newLocalCache (60 * Second), sc_failOpen = False, sc_breaker = False, sc_retryMax = 0\<rparr>"

text \<open>When the breaker opens: the threshold is cut to 32 bits, and more than half of at least ten requests failed.\<close>

definition sdk_ready_to_trip :: "int \<Rightarrow> nat \<Rightarrow> nat \<Rightarrow> nat \<Rightarrow> bool" where
  "sdk_ready_to_trip threshold requests totalFailures consecutiveFailures \<longleftrightarrow>
     int consecutiveFailures \<ge> threshold mod 2 ^ 32 \<or> (requests \<ge> 10 \<and> 2 * totalFailures > requests)"

definition sdk_headers :: "Client \<Rightarrow> headers" where
  "sdk_headers c = hset (hset (hset [] ''X-Api-Key'' (sc_apiKey c)) ''Content-Type'' ''application/json'') ''User-Agent'' ''openguard-go-sdk/v1.0''"

definition isTransient :: "string \<Rightarrow> bool" where
  "isTransient err \<longleftrightarrow> Contains err ''transient'' \<or> Contains err ''timeout'' \<or> Contains err ''connection refused''"

record EvaluationResponse =
  er_Allowed :: bool
  er_Reason :: string

definition resp_member :: "string \<Rightarrow> json \<Rightarrow> EvaluationResponse \<Rightarrow> EvaluationResponse option" where
  "resp_member k j r =
     (if key_is k ''allowed'' then map_option (\<lambda>v. r\<lparr>er_Allowed := v\<rparr>) (dec_bool j (er_Allowed r))
      else if key_is k ''reason'' then map_option (\<lambda>v. r\<lparr>er_Reason := v\<rparr>) (dec_string j (er_Reason r))
      else Some r)"

definition dec_EvaluationResponse :: "raw_json \<Rightarrow> EvaluationResponse option" where
  "dec_EvaluationResponse = dec_struct resp_member \<lparr>er_Allowed = False, er_Reason = []\<rparr>"

text \<open>
  What one attempt meets: a request that cannot be built, the breaker's refusal,
  the transport's error (or that of reading the body of a good answer) or the
  answer, and the context's error while waiting for the next attempt.
\<close>

record attempt_io =
  ai_build :: "string option"
  ai_refusal :: "cb_refusal option"
  ai_reply :: "(string, int \<times> raw_json) result"
  ai_done :: "string option"

text \<open>The closure \<open>operation\<close>; \<open>decode\<close> is the decoder of \<open>out\<close>, absent when \<open>out\<close> is nil.\<close>

definition operation :: "(raw_json \<Rightarrow> 'r option) option \<Rightarrow> attempt_io \<Rightarrow> (string, 'r option) result" where
  "operation decode io =
     (case ai_build io of
        Some e \<Rightarrow> Err e
      | None \<Rightarrow> (case ai_reply io of
          Inl e \<Rightarrow> Err e
        | Inr (status, body) \<Rightarrow>
            if status = 429 \<or> status \<ge> 500 then Err (''transient api error: status '' @ itoa status)
            else if status = 408 \<or> status = 504 then Err (''transient network timeout: status '' @ itoa status)
            else if status \<ge> 400 then Err (''permanent api error: status '' @ itoa status)
            else (case decode of
                None \<Rightarrow> Ok None
              | Some d \<Rightarrow> (case d body of None \<Rightarrow> Err ''json'' | Some r \<Rightarrow> Ok (Some r)))))"

fun cb_text :: "cb_refusal \<Rightarrow> string" where
  "cb_text ErrOpenState = ''circuit breaker is open''"
| "cb_text ErrTooManyRequests = ''too many requests''"

definition guarded :: "bool \<Rightarrow> (raw_json \<Rightarrow> 'r option) option \<Rightarrow> attempt_io \<Rightarrow> (string, 'r option) result" where
  "guarded breaker decode io =
     (if breaker then (case ai_refusal io of Some r \<Rightarrow> Err (cb_text r) | None \<Rightarrow> operation decode io)
      else operation decode io)"

text \<open>
  The loop of \<open>do\<close> at attempt \<open>i\<close> with the error so far: the result, and how many
  attempts were made.  With a negative retry count there is no attempt and no
  error.
\<close>

function do_loop :: "bool \<Rightarrow> int \<Rightarrow> (raw_json \<Rightarrow> 'r option) option \<Rightarrow> (nat \<Rightarrow> attempt_io) \<Rightarrow> nat \<Rightarrow> (string, 'r option) result \<Rightarrow>
    (string, 'r option) result \<times> nat" where
  "do_loop breaker retryMax decode io i err =
     (if retryMax < int i then (err, i)
      else (case guarded breaker decode (io i) of
        Inr r \<Rightarrow> (Ok r, Suc i)
      | Inl e \<Rightarrow>
          if \<not> isTransient e then (Err e, Suc i)
          else if int i < retryMax
          then (case ai_done (io i) of
             Some ce \<Rightarrow> (Err ce, Suc i)
           | None \<Rightarrow> do_loop breaker retryMax decode io (Suc i) (Err e))
          else do_loop breaker retryMax decode io (Suc i) (Err e)))"
  by pat_completeness auto
termination by (relation "measure (\<lambda>(_, m, _, _, i, _). nat (m + 1 - int i))") auto

declare do_loop.simps [simp del]

definition do_call :: "Client \<Rightarrow> (raw_json \<Rightarrow> 'r option) option \<Rightarrow> (nat \<Rightarrow> attempt_io) \<Rightarrow> (string, 'r option) result \<times> nat" where
  "do_call c decode io = do_loop (sc_breaker c) (sc_retryMax c) decode io 0 (Ok None)"

subsection \<open>Allow and IngestEvent\<close>

definition sdk_key :: "Client \<Rightarrow> string \<Rightarrow> string \<Rightarrow> string \<Rightarrow> string" where
  "sdk_key c subjectID action resource = sc_orgID c @ '':'' @ subjectID @ '':'' @ action @ '':'' @ resource"

record sdk_io =
  si_now :: time
  si_now' :: time
  si_set :: time
  si_attempt :: "nat \<Rightarrow> attempt_io"

text \<open>The decision, the number of requests and the client afterwards; Allow never returns an error.\<close>

definition AllowS :: "sdk_io \<Rightarrow> string \<Rightarrow> string \<Rightarrow> string \<Rightarrow> Client \<Rightarrow> bool \<times> nat \<times> Client" where
  "AllowS io subjectID action resource c =
     (let key = sdk_key c subjectID action resource in
      case GetOrStale (si_now io) (si_now' io) key (sc_cache c) of
        (val, True) \<Rightarrow> (val, 0, c)
      | (_, False) \<Rightarrow>
          (case do_call c (Some dec_EvaluationResponse) (si_attempt io) of
             (Inl _, n) \<Rightarrow> (sc_failOpen c, n, c)
           | (Inr resp, n) \<Rightarrow>
               (let allowed = (case resp of None \<Rightarrow> False | Some r \<Rightarrow> er_Allowed r)
                in (allowed, n, c\<lparr>sc_cache := Set (si_set io) key allowed (sc_cache c)\<rparr>))))"

record AuditEvent =
  ae_EventID :: string
  ae_EventType :: string
  ae_UserID :: string
  ae_OrgID :: string
  ae_ResourceID :: string
  ae_Metadata :: "(string \<times> json) list"
  ae_Timestamp :: "time option"

definition fill_event :: "string \<Rightarrow> time \<Rightarrow> AuditEvent \<Rightarrow> AuditEvent" where
  "fill_event uuid now e = e\<lparr>ae_EventID := (if ae_EventID e = [] then uuid else ae_EventID e),
     ae_Timestamp := (case ae_Timestamp e of None \<Rightarrow> Some now | Some t \<Rightarrow> Some t)\<rparr>"

definition IngestEvent :: "string \<Rightarrow> time \<Rightarrow> (AuditEvent \<Rightarrow> nat \<Rightarrow> attempt_io) \<Rightarrow> AuditEvent \<Rightarrow> Client \<Rightarrow> (string, unit) result" where
  "IngestEvent uuid now io e c =
     (case fst (do_call c (None :: (raw_json \<Rightarrow> unit option) option) (io (fill_event uuid now e))) of
        Inl err \<Rightarrow> Err err | Inr _ \<Rightarrow> Ok ())"

subsection \<open>Retries\<close>

lemma do_loop_bound:
  assumes "int i \<le> m + 1"
  shows "int (snd (do_loop b m d io i r)) \<le> m + 1 \<and> i \<le> snd (do_loop b m d io i r)"
  using assms
proof (induction b m d io i r rule: do_loop.induct)
  case (1 b m d io i r)
  show ?case
  proof (cases "guarded b d (io i)")
    case (Inl e)
    then show ?thesis using 1 by (subst (1 2) do_loop.simps) (fastforce split: option.splits)
  next
    case (Inr x)
    then show ?thesis using 1 by (subst (1 2) do_loop.simps) auto
  qed
qed

text \<open>While attempts fail transiently and the context is alive, the loop goes on.\<close>

lemma do_loop_skip:
  assumes "\<forall>j\<in>{i..<k}. (\<exists>e. guarded b d (io j) = Err e \<and> isTransient e) \<and> ai_done (io j) = None" "i \<le> k" "int k \<le> m"
  shows "\<exists>r'. do_loop b m d io i r = do_loop b m d io k r'"
  using assms
proof (induction "k - i" arbitrary: i r)
  case (Suc n)
  then have i: "i < k" by simp
  then obtain e where e: "guarded b d (io i) = Err e" "isTransient e" "ai_done (io i) = None" using bspec [OF Suc.prems(1), of i] by auto
  have "do_loop b m d io i r = do_loop b m d io (Suc i) (Err e)"
    using e i Suc.prems(3) by (subst do_loop.simps) auto
  moreover have "\<exists>r'. do_loop b m d io (Suc i) (Err e) = do_loop b m d io k r'"
    using Suc i by (intro Suc.hyps(1)) auto
  ultimately show ?case by simp
qed auto

text \<open>
  C38. The call terminates within its attempts: it makes at most \<open>retryMax + 1\<close>
  of them, and when attempt \<open>k\<close> is the first that succeeds or fails for good,
  the context being alive, its outcome is the result after \<open>k + 1\<close> attempts.
\<close>

theorem sdk_retries_until_settled:
  assumes "\<forall>j<k. (\<exists>e. guarded (sc_breaker c) d (io j) = Err e \<and> isTransient e) \<and> ai_done (io j) = None"
    and "int k \<le> sc_retryMax c" "guarded (sc_breaker c) d (io k) = r" "\<forall>e. r = Err e \<longrightarrow> \<not> isTransient e"
  shows "do_call c d io = (r, Suc k) \<and> int (snd (do_call c d io')) \<le> sc_retryMax c + 1"
proof -
  have "\<exists>r'. do_call c d io = do_loop (sc_breaker c) (sc_retryMax c) d io k r'"
    unfolding do_call_def using assms(1,2) by (intro do_loop_skip) auto
  then obtain r' where "do_call c d io = do_loop (sc_breaker c) (sc_retryMax c) d io k r'" by blast
  also have "\<dots> = (r, Suc k)" using assms(2-4) by (subst do_loop.simps) (auto split: sum.splits)
  finally show ?thesis using do_loop_bound [of 0 "sc_retryMax c" "sc_breaker c" d io' "Ok None"] assms(2) by (simp add: do_call_def)
qed

subsection \<open>The cache\<close>

lemma Set_GetOrStale:
  "GetOrStale now now' k (Set t k v c) = (if now < t + lc_ttl c \<or> now' < t + lc_ttl c + grace then (v, True) else (False, False))"
  by (auto simp: GetOrStale_def Set_def)

lemma Allow_cached:
  "GetOrStale (si_now io) (si_now' io) (sdk_key c s a r) (sc_cache c) = (v, True) \<Longrightarrow> AllowS io s a r c = (v, 0, c)"
  by (simp add: AllowS_def Let_def)

lemma Allow_asked:
  "\<lbrakk>GetOrStale (si_now io) (si_now' io) (sdk_key c s a r) (sc_cache c) = (v, False);
    do_call c (Some dec_EvaluationResponse) (si_attempt io) = (Ok (Some resp), n)\<rbrakk> \<Longrightarrow>
   AllowS io s a r c = (er_Allowed resp, n, c\<lparr>sc_cache := Set (si_set io) (sdk_key c s a r) (er_Allowed resp) (sc_cache c)\<rparr>)"
  by (simp add: AllowS_def Let_def)

text \<open>
  A decision is served for a minute beyond its lifetime without asking: after
  an answer stored at \<open>t\<close>, every Allow for the same request before \<open>t\<close> plus the
  lifetime plus 60 seconds returns that answer with no request, whatever the
  server would say, although the grace period is meant for outages.
\<close>

theorem sdk_serves_stale_unasked:
  assumes "GetOrStale (si_now io) (si_now' io) (sdk_key c s a r) (sc_cache c) = (v, False)"
    and "do_call c (Some dec_EvaluationResponse) (si_attempt io) = (Ok (Some resp), n)"
    and "AllowS io s a r c = (d, n', c')" "si_now' io2 < si_set io + lc_ttl (sc_cache c) + 60 * Second"
  shows "AllowS io2 s a r c' = (er_Allowed resp, 0, c') \<and> d = er_Allowed resp"
proof -
  have c': "c' = c\<lparr>sc_cache := Set (si_set io) (sdk_key c s a r) (er_Allowed resp) (sc_cache c)\<rparr>" "d = er_Allowed resp"
    using Allow_asked [OF assms(1,2)] assms(3) by simp_all
  have "sdk_key c' s a r = sdk_key c s a r" by (simp add: c' sdk_key_def)
  then have "GetOrStale (si_now io2) (si_now' io2) (sdk_key c' s a r) (sc_cache c') = (er_Allowed resp, True)"
    using assms(4) by (simp add: c' Set_GetOrStale grace_def)
  from Allow_cached [OF this] c'(2) show ?thesis by simp
qed

text \<open>
  Decisions leak between requests whose parts contain colons: an answer for
  subject \<open>s\<close> and action \<open>x:a\<close> is served, unasked, for subject \<open>s:x\<close> and action
  \<open>a\<close>.
\<close>

theorem sdk_cache_confuses_requests:
  assumes "GetOrStale (si_now io) (si_now' io) (sdk_key c s (x @ '':'' @ a) r) (sc_cache c) = (v, False)"
    and "do_call c (Some dec_EvaluationResponse) (si_attempt io) = (Ok (Some resp), n)"
    and "AllowS io s (x @ '':'' @ a) r c = (d, n', c')" "si_now io2 < si_set io + lc_ttl (sc_cache c)"
  shows "AllowS io2 (s @ '':'' @ x) a r c' = (er_Allowed resp, 0, c')"
proof -
  have c': "c' = c\<lparr>sc_cache := Set (si_set io) (sdk_key c s (x @ '':'' @ a) r) (er_Allowed resp) (sc_cache c)\<rparr>"
    using trans [OF assms(3) [symmetric] Allow_asked [OF assms(1,2)]] by simp
  have "sdk_key c' (s @ '':'' @ x) a r = sdk_key c s (x @ '':'' @ a) r" by (simp add: c' sdk_key_def)
  then have "GetOrStale (si_now io2) (si_now' io2) (sdk_key c' (s @ '':'' @ x) a r) (sc_cache c') = (er_Allowed resp, True)"
    using assms(4) by (simp add: c' Set_GetOrStale)
  from Allow_cached [OF this] show ?thesis .
qed

subsection \<open>Against the policy service\<close>

text \<open>
  What the policy service answers to \<open>POST /v1/policy/evaluate\<close>: the rate limiter,
  the JWT middleware, and the handler; a panic is answered by Recoverer with 500.
  The texts of rejections are no JSON.
\<close>

fun eval_json :: "pol_body \<Rightarrow> raw_json" where
  "eval_json (BEval r) = Some (JObj [(''effect'', JStr (Effect r)),
     (''matched_policy_ids'', case MatchedPolicyIDs r of None \<Rightarrow> JNull | Some is \<Rightarrow> JArr (map JStr is)),
     (''max_version'', JNum (MaxVersion r)), (''cache_hit'', JStr (CacheHit r)), (''latency_ms'', JNum (LatencyMs r))])"
| "eval_json (BError e) = Some (JObj [(''error'', JStr e)])"
| "eval_json _ = None"

record 'l policy_io =
  pi_rate :: "'l rate_lib"
  pi_fault :: redis_fault
  pi_lib :: jwt_lib
  pi_keys :: "JWTKey list"
  pi_block :: "(string \<Rightarrow> cb_refusal option \<times> (string, bool) result) option"
  pi_now :: time
  pi_sha :: "string \<Rightarrow> string"
  pi_eval :: "req_ctx \<Rightarrow> eval_io"
  pi_db :: policy_db
  pi_limiter :: "'l RateLimiter"
  pi_rdb :: "rl_redis option"
  pi_svc :: policy_svc

definition policy_front :: "'l policy_io \<Rightarrow> http_req \<Rightarrow> verdict" where
  "policy_front p rq =
     (case fst (Limit (pi_rate p) (pi_now p) (pi_fault p) rq (pi_limiter p) (pi_rdb p)) of
        Next ctx \<Rightarrow> AuthJWTWithBlocklist (pi_lib p) (pi_keys p) (pi_block p) (pi_now p) (rq_cookie rq) (rq_headers rq) ctx
      | v \<Rightarrow> v)"

definition policy_answer :: "'l policy_io \<Rightarrow> http_req \<Rightarrow> int \<times> raw_json" where
  "policy_answer p rq =
     (case policy_front p rq of
        Reject code _ \<Rightarrow> (code, None)
      | Panics \<Rightarrow> (500, None)
      | Next ctx \<Rightarrow>
          (case EvaluateH (pi_sha p) ((pi_eval p ctx)\<lparr>io_ctx := cx_rls ctx\<rparr>) (pi_db p) (rq_body rq) (pi_svc p) of
             (resp, _) \<Rightarrow> (rs_code resp, eval_json (rs_body resp))))"

text \<open>The request of the client as the control plane passes it on.\<close>

definition forwarded :: "string \<Rightarrow> raw_json \<Rightarrow> Client \<Rightarrow> http_req" where
  "forwarded peer body c =
     (let rq = \<lparr>rq_method = ''POST'', rq_headers = sdk_headers c, rq_query = [], rq_form = None, rq_body = body, rq_basic_user = [],
        rq_cookie = None, rq_remote = peer, rq_param = (\<lambda>_. []), rq_ctx = empty_ctx\<rparr>
      in rq\<lparr>rq_headers := forward_headers rq\<rparr>)"

lemma hget_Nil: "hget [] k = []"
  by (simp add: hget_def)

lemma EvaluateH_body:
  "(\<exists>r. rs_body (fst (EvaluateH sha io db body svc)) = BEval r) \<or>
   (\<exists>e. rs_body (fst (EvaluateH sha io db body svc)) = BError e)"
  by (auto simp: EvaluateH_def Policy_Handlers.writeError_def Policy_Handlers.writeJSON_def Let_def split: prod.splits option.splits sum.splits)

lemma eval_json_not_allowed:
  assumes "dec_EvaluationResponse (eval_json b) = Some r" "(\<exists>x. b = BEval x) \<or> (\<exists>e. b = BError e)"
  shows "\<not> er_Allowed r"
  using assms
  by (auto simp: dec_EvaluationResponse_def resp_member_def key_is_def ToLower_def ToLowerC_def split: option.splits)

lemma dec_no_body: "dec_EvaluationResponse None = None"
  by (simp add: dec_EvaluationResponse_def)

lemma policy_answer_not_allowed:
  "dec_EvaluationResponse (snd (policy_answer p rq)) = Some r \<Longrightarrow> \<not> er_Allowed r"
proof (cases "policy_front p rq")
  case (Next ctx)
  assume a: "dec_EvaluationResponse (snd (policy_answer p rq)) = Some r"
  let ?e = "EvaluateH (pi_sha p) ((pi_eval p ctx)\<lparr>io_ctx := cx_rls ctx\<rparr>) (pi_db p) (rq_body rq) (pi_svc p)"
  have "snd (policy_answer p rq) = eval_json (rs_body (fst ?e))" using Next by (simp add: policy_answer_def split: prod.split)
  then show ?thesis using a eval_json_not_allowed EvaluateH_body by metis
qed (simp_all add: policy_answer_def dec_no_body)

text \<open>A result of the loop is the result of an attempt, or the one it started with.\<close>

lemma do_loop_source:
  "do_loop b m d io i r = (Ok x, n) \<Longrightarrow> r = Ok x \<or> (\<exists>j. guarded b d (io j) = Ok x)"
proof (induction b m d io i r rule: do_loop.induct)
  case (1 b m d io i r)
  show ?case
  proof (cases "guarded b d (io i)")
    case (Inl e)
    then show ?thesis using 1 by (subst (asm) (2) do_loop.simps) (auto split: if_splits option.splits)
  next
    case (Inr y)
    then show ?thesis using 1(3) by (subst (asm) do_loop.simps) (auto split: if_splits)
  qed
qed

lemma do_loop_first_error:
  assumes "0 \<le> m" "do_loop b m d io 0 r = (Ok x, n)"
  shows "\<exists>j y. guarded b d (io j) = Ok y"
proof (cases "guarded b d (io 0)")
  case (Inl e)
  have "do_loop b m d io 0 r = do_loop b m d io 0 (Err e)" using assms(1) by (subst (1 2) do_loop.simps) simp
  then show ?thesis using assms(2) do_loop_source [of b m d io 0 "Err e" x n] by auto
qed auto

lemma guarded_Ok: "guarded b (Some d) io = Ok x \<Longrightarrow> \<exists>status body r. ai_reply io = Ok (status, body) \<and> status < 400 \<and> x = Some r \<and> d body = Some r"
  by (auto simp: guarded_def operation_def split: if_splits option.splits sum.splits prod.splits) (metis+)

text \<open>
  C37. The client and the policy service do not agree on the answer: whatever
  policies there are and whatever request is made, a client that gets its answers from
  the policy service, does not fail open and has nothing cached is never
  allowed anything, because the service writes \<open>effect\<close> and the client reads
  \<open>allowed\<close>.
\<close>

theorem sdk_never_allows:
  assumes "\<And>j. ai_reply (si_attempt io j) = Ok (policy_answer (p j) (rq j))"
    and "\<not> sc_failOpen c" "lc_data (sc_cache c) (sdk_key c s a r) = None"
  shows "fst (AllowS io s a r c) = False"
proof -
  have "\<not> er_Allowed resp" if "do_call c (Some dec_EvaluationResponse) (si_attempt io) = (Ok (Some resp), n)" for resp n
  proof -
    from do_loop_source [OF that [unfolded do_call_def]] obtain j where
      "guarded (sc_breaker c) (Some dec_EvaluationResponse) (si_attempt io j) = Ok (Some resp)" by auto
    from guarded_Ok [OF this] assms(1) [of j] show ?thesis using policy_answer_not_allowed [of "p j" "rq j" resp] by auto
  qed
  then show ?thesis using assms(2,3)
    by (cases "do_call c (Some dec_EvaluationResponse) (si_attempt io)")
      (auto simp: AllowS_def Let_def GetOrStale_def split: sum.splits option.splits)
qed

text \<open>
  The client's key is not a credential of the policy service: the request that
  the control plane forwards for a client carries \<open>X-Api-Key\<close> and no token, so
  the service answers 401 or, when the limiter refuses it, 429; and Allow then
  returns its fail-open setting.
\<close>

theorem sdk_key_is_refused:
  assumes "\<And>j. ai_reply (si_attempt io j) = Ok (policy_answer (p j) (forwarded peer (body j) c))"
    and "\<And>j. ai_build (si_attempt io j) = None" "0 \<le> sc_retryMax c" "lc_data (sc_cache c) (sdk_key c s a r) = None"
  shows "fst (policy_answer (p 0) (forwarded peer (body 0) c)) \<in> {401, 429} \<and> fst (AllowS io s a r c) = sc_failOpen c"
proof -
  have auth: "hget (rq_headers (forwarded peer b c)) ''Authorization'' = []" for b
    by (simp add: forwarded_def Let_def hget_forward hop_headers_def director_def sdk_headers_def hget_Nil)
  have "extractToken (rq_cookie (forwarded peer b c)) (rq_headers (forwarded peer b c)) = []" for b
    using auth [of b] by (simp add: extractToken_def forwarded_def Let_def HasPrefix_def)
  then have front: "policy_front q (forwarded peer b c) \<in> {Reject 401 ''Unauthorized: missing token'', Reject 429 ''Too Many Requests''}"
    for b and q :: "'a policy_io"
    by (auto simp: policy_front_def AuthJWTWithBlocklist_def Limit_def split: prod.splits)
  have code: "fst (policy_answer q (forwarded peer b c)) \<in> {401, 429}" for b and q :: "'a policy_io"
    using front [of q b] by (elim insertE) (simp_all add: policy_answer_def)
  have "guarded (sc_breaker c) (Some dec_EvaluationResponse) (si_attempt io j) \<noteq> Ok x" for j x
    using guarded_Ok [of "sc_breaker c" dec_EvaluationResponse "si_attempt io j" x] assms(1) [of j] code [of "p j" "body j"] by auto
  then have "\<nexists>x n. do_call c (Some dec_EvaluationResponse) (si_attempt io) = (Ok x, n)"
    using do_loop_first_error [of "sc_retryMax c" "sc_breaker c" "Some dec_EvaluationResponse" "si_attempt io"] assms(3)
    unfolding do_call_def by blast
  then have "fst (AllowS io s a r c) = sc_failOpen c"
    using assms(4) by (cases "do_call c (Some dec_EvaluationResponse) (si_attempt io)")
      (auto simp: AllowS_def Let_def GetOrStale_def split: sum.splits)
  then show ?thesis using code by blast
qed

subsection \<open>Instances\<close>

definition answered :: "int \<Rightarrow> raw_json \<Rightarrow> attempt_io" where
  "answered status body = \<lparr>ai_build = None, ai_refusal = None, ai_reply = Ok (status, body), ai_done = None\<rparr>"

definition sample_client :: Client where
  "sample_client = NewClient ''ogk_1'' [OptOrgID ''o'', OptCircuitBreaker 5, OptRetry 2]"

lemma sample_client_eq:
  "sample_client = \<lparr>sc_apiKey = ''ogk_1'', sc_orgID = ''o'', sc_cache = newLocalCache (60 * Second), sc_failOpen = False, sc_breaker = True, sc_retryMax = 2\<rparr>"
  by (simp add: sample_client_def NewClient_def)

definition asks :: "(nat \<Rightarrow> attempt_io) \<Rightarrow> time \<Rightarrow> sdk_io" where
  "asks io t = \<lparr>si_now = t, si_now' = t, si_set = t, si_attempt = io\<rparr>"

definition flaky :: "nat \<Rightarrow> attempt_io" where
  "flaky i = (if i < 2 then answered 503 None else answered 200 (Some (JObj [(''allowed'', JBool True)])))"

lemma flaky_call: "do_call sample_client (Some dec_EvaluationResponse) flaky = (Ok (Some \<lparr>er_Allowed = True, er_Reason = []\<rparr>), 3)"
  by code_simp

theorem sdk_retries_until_settled_witness:
  "do_call sample_client (Some dec_EvaluationResponse) flaky = (guarded True (Some dec_EvaluationResponse) (flaky 2), 3)"
proof -
  have "guarded (sc_breaker sample_client) (Some dec_EvaluationResponse) (flaky j) = Err ''transient api error: status 503''" if "j < 2" for j
    using that by (simp add: guarded_def operation_def flaky_def answered_def sample_client_eq) code_simp
  moreover have "isTransient ''transient api error: status 503''" by code_simp
  moreover have "guarded (sc_breaker sample_client) (Some dec_EvaluationResponse) (flaky 2) = Ok (Some \<lparr>er_Allowed = True, er_Reason = []\<rparr>)" by code_simp
  ultimately show ?thesis
    using sdk_retries_until_settled [of 2 sample_client "Some dec_EvaluationResponse" flaky _ flaky, OF _ _ refl]
    by (simp add: sample_client_eq flaky_def answered_def)
qed

lemma sample_miss: "GetOrStale t t' k (sc_cache sample_client) = (False, False)"
  by (simp add: sample_client_eq newLocalCache_def GetOrStale_def)

theorem sdk_serves_stale_unasked_witness:
  "let c' = snd (snd (AllowS (asks flaky 0) ''u'' ''read'' ''f'' sample_client))
   in AllowS (asks (\<lambda>_. answered 403 None) (119 * Second)) ''u'' ''read'' ''f'' c' = (True, 0, c')"
proof -
  obtain d n' c' where r: "AllowS (asks flaky 0) ''u'' ''read'' ''f'' sample_client = (d, n', c')" by (metis prod.exhaust)
  have "AllowS (asks (\<lambda>_. answered 403 None) (119 * Second)) ''u'' ''read'' ''f'' c' = (True, 0, c')"
    using sdk_serves_stale_unasked [OF _ _ r, of False "\<lparr>er_Allowed = True, er_Reason = []\<rparr>" 3 "asks (\<lambda>_. answered 403 None) (119 * Second)"]
    by (simp add: asks_def sample_miss flaky_call) (simp add: sample_client_eq newLocalCache_def time_units)
  then show ?thesis by (simp add: r)
qed

theorem sdk_cache_confuses_requests_witness:
  "let c' = snd (snd (AllowS (asks flaky 0) ''u'' ''x:read'' ''f'' sample_client))
   in AllowS (asks (\<lambda>_. answered 403 None) Second) ''u:x'' ''read'' ''f'' c' = (True, 0, c')"
proof -
  obtain d n' c' where r: "AllowS (asks flaky 0) ''u'' (''x'' @ '':'' @ ''read'') ''f'' sample_client = (d, n', c')" by (metis prod.exhaust)
  have "AllowS (asks (\<lambda>_. answered 403 None) Second) (''u'' @ '':'' @ ''x'') ''read'' ''f'' c' = (True, 0, c')"
    using sdk_cache_confuses_requests [OF _ _ r, of False "\<lparr>er_Allowed = True, er_Reason = []\<rparr>" 3 "asks (\<lambda>_. answered 403 None) Second"]
    by (simp add: asks_def sample_miss flaky_call) (simp add: sample_client_eq newLocalCache_def time_units)
  then show ?thesis using r by simp
qed

text \<open>A policy service with one policy that allows everything, and a caller with a token of its tenant.\<close>

definition sample_service :: "unit policy_io" where
  "sample_service = \<lparr>pi_rate = open_lib, pi_fault = Delivered, pi_lib = toy_jwt, pi_keys = [key_k1 ''active''], pi_block = None, pi_now = Minute,
     pi_sha = (\<lambda>x. x), pi_eval = (\<lambda>_. sample_io), pi_db = sample_db, pi_limiter = auth_limiter, pi_rdb = None, pi_svc = idle_svc\<rparr>"

definition token_request :: http_req where
  "token_request = \<lparr>rq_method = ''POST'', rq_headers = [(''Authorization'', ''Bearer tok'')], rq_query = [], rq_form = None,
     rq_body = sample_body, rq_basic_user = [], rq_cookie = None, rq_remote = ''10.0.0.1:5000'', rq_param = (\<lambda>_. []), rq_ctx = empty_ctx\<rparr>"

theorem sdk_never_allows_witness:
  "(\<exists>ms. policy_answer sample_service token_request = (200, Some (JObj ((''effect'', JStr ''allow'') # ms)))) \<and>
   fst (AllowS (asks (\<lambda>_. (answered 0 None)\<lparr>ai_reply := Ok (policy_answer sample_service token_request)\<rparr>) 0) ''u1'' ''read'' ''doc:1'' sample_client) = False"
proof -
  have "policy_answer sample_service token_request = (200, Some (JObj [(''effect'', JStr ''allow''), (''matched_policy_ids'', JArr [JStr ''p1'']),
      (''max_version'', JNum 1), (''cache_hit'', JStr ''none''), (''latency_ms'', JNum 0)]))"
    by code_simp
  then show ?thesis
    using sdk_never_allows [of "asks (\<lambda>_. (answered 0 None)\<lparr>ai_reply := Ok (policy_answer sample_service token_request)\<rparr>) 0"
        "\<lambda>_. sample_service" "\<lambda>_. token_request" sample_client "''u1''" "''read''" "''doc:1''"]
    by (simp add: asks_def sample_client_eq newLocalCache_def)
qed

theorem sdk_key_is_refused_witness:
  "fst (AllowS (asks (\<lambda>_. (answered 0 None)\<lparr>ai_reply := Ok (policy_answer sample_service (forwarded ''10.0.0.1:5000'' sample_body sample_client))\<rparr>) 0)
     ''u1'' ''read'' ''doc:1'' sample_client) = False"
  using sdk_key_is_refused [of "asks (\<lambda>_. (answered 0 None)\<lparr>ai_reply := Ok (policy_answer sample_service (forwarded ''10.0.0.1:5000'' sample_body sample_client))\<rparr>) 0"
      "\<lambda>_. sample_service" "''10.0.0.1:5000''" "\<lambda>_. sample_body" sample_client "''u1''" "''read''" "''doc:1''"]
  by (simp add: asks_def answered_def sample_client_eq newLocalCache_def)

end
