(* ===== verification/Dlp.thy ===== *)
theory Dlp
  imports Jwt
begin

text \<open>
  The data-loss-prevention service (services/dlp): the scanner with its regular
  expressions, Luhn check and masks, the findings table, the consumer of
  events and the handlers.

  A text is its bytes; the expressions mention ASCII characters only.  Scores
  are in tenths.  Whether the entropy of a token exceeds 4.5 is an argument,
  since it is decided in floating-point arithmetic.
\<close>

subsection \<open>Regular expressions\<close>

text \<open>
  The constructs the rules use, with the leftmost-first semantics of package
  regexp: the lengths of the matches at a position in order of preference, given
  the character before it.
\<close>

datatype re = Cls "char \<Rightarrow> bool" | Lit string | AtLeast nat "char \<Rightarrow> bool" | Times nat "char \<Rightarrow> bool" | Opt re | Alt re re | Cat re re | WordB

definition is_word :: "char \<Rightarrow> bool" where
  "is_word c \<longleftrightarrow> c \<in> set ''0123456789ABCDEFGHIJKLMNOPQRSTUVWXYZabcdefghijklmnopqrstuvwxyz_''"

definition head_word :: "string \<Rightarrow> bool" where
  "head_word s \<longleftrightarrow> s \<noteq> [] \<and> is_word (hd s)"

definition prev_at :: "char option \<Rightarrow> string \<Rightarrow> nat \<Rightarrow> char option" where
  "prev_at prev s k = (if k = 0 then prev else Some (s ! (k - 1)))"

fun ends :: "re \<Rightarrow> char option \<Rightarrow> string \<Rightarrow> nat list" where
  "ends (Cls C) prev s = (if s \<noteq> [] \<and> C (hd s) then [1] else [])"
| "ends (Lit w) prev s = (if HasPrefix s w then [length w] else [])"
| "ends (AtLeast n C) prev s = rev [n..<Suc (length (takeWhile C s))]"
| "ends (Times n C) prev s = (if n \<le> length s \<and> list_all C (take n s) then [n] else [])"
| "ends (Opt r) prev s = ends r prev s @ [0]"
| "ends (Alt r q) prev s = ends r prev s @ ends q prev s"
| "ends (Cat r q) prev s = concat (map (\<lambda>k. map ((+) k) (ends q (prev_at prev s k) (drop k s))) (ends r prev s))"
| "ends WordB prev s = (if (case prev of None \<Rightarrow> False | Some c \<Rightarrow> is_word c) \<noteq> head_word s then [0] else [])"

text \<open>\<open>FindAllString(text, -1)\<close> for expressions that match no empty text, with fuel for the length.\<close>

fun find_all :: "nat \<Rightarrow> re \<Rightarrow> char option \<Rightarrow> string \<Rightarrow> string list" where
  "find_all 0 r prev s = []"
| "find_all (Suc n) r prev s =
     (case ends r prev s of
        k # _ \<Rightarrow> if k = 0 then (case s of [] \<Rightarrow> [] | c # s' \<Rightarrow> find_all n r (Some c) s')
          else take k s # find_all n r (prev_at prev s k) (drop k s)
      | [] \<Rightarrow> (case s of [] \<Rightarrow> [] | c # s' \<Rightarrow> find_all n r (Some c) s'))"

definition FindAllString :: "re \<Rightarrow> string \<Rightarrow> string list" where
  "FindAllString r s = find_all (Suc (length s)) r None s"

definition is_upper :: "char \<Rightarrow> bool" where "is_upper c \<longleftrightarrow> c \<in> set ''ABCDEFGHIJKLMNOPQRSTUVWXYZ''"
definition is_alpha :: "char \<Rightarrow> bool" where "is_alpha c \<longleftrightarrow> c \<in> set ''ABCDEFGHIJKLMNOPQRSTUVWXYZabcdefghijklmnopqrstuvwxyz''"
definition is_alnum :: "char \<Rightarrow> bool" where "is_alnum c \<longleftrightarrow> is_alpha c \<or> is_digit c"
definition is_sep :: "char \<Rightarrow> bool" where
  "is_sep c \<longleftrightarrow> c = CHR ''-'' \<or> c = CHR ''.'' \<or> c \<in> {CHR 0x09, CHR 0x0A, CHR 0x0C, CHR 0x0D, CHR '' ''}"

fun Cats :: "re list \<Rightarrow> re" where
  "Cats [r] = r"
| "Cats (r # rs) = Cat r (Cats rs)"
| "Cats [] = Lit []"

record ScanRule =
  sr_Kind :: string
  sr_Luhn :: bool
  sr_Re :: re

definition Rules :: "ScanRule list" where
  "Rules =
     [\<lparr>sr_Kind = ''email'', sr_Luhn = False, sr_Re = Cats [AtLeast 1 (\<lambda>c. is_alnum c \<or> c \<in> set ''._%+-''), Lit ''@'',
         AtLeast 1 (\<lambda>c. is_alnum c \<or> c = CHR ''.'' \<or> c = CHR ''-''), Lit ''.'', AtLeast 2 is_alpha]\<rparr>,
      \<lparr>sr_Kind = ''ssn'', sr_Luhn = False, sr_Re = Cats [WordB, Times 3 is_digit, Lit ''-'', Times 2 is_digit, Lit ''-'', Times 4 is_digit, WordB]\<rparr>,
      \<lparr>sr_Kind = ''credit_card'', sr_Luhn = True, sr_Re = Cats [WordB,
         Alt (Cats [Lit ''4'', Times 12 is_digit, Opt (Times 3 is_digit)])
           (Alt (Cats [Lit ''5'', Cls (\<lambda>c. c \<in> set ''12345''), Times 14 is_digit])
             (Cats [Lit ''3'', Cls (\<lambda>c. c \<in> set ''47''), Times 13 is_digit])), WordB]\<rparr>,
      \<lparr>sr_Kind = ''phone_us'', sr_Luhn = False, sr_Re = Cats [WordB, Opt (Lit ''+''), Opt (Lit ''1''), Opt (Cls is_sep), Opt (Lit ''(''),
         Times 3 is_digit, Opt (Lit '')''), Cls is_sep, Times 3 is_digit, Cls is_sep, Times 4 is_digit, WordB]\<rparr>,
      \<lparr>sr_Kind = ''aws_access_key'', sr_Luhn = False, sr_Re = Cats [WordB, Lit ''AKIA'', Times 16 (\<lambda>c. is_digit c \<or> is_upper c), WordB]\<rparr>,
      \<lparr>sr_Kind = ''private_key'', sr_Luhn = False, sr_Re = Cats [Lit ''-----BEGIN '',
         Alt (Lit ''RSA'') (Alt (Lit ''EC'') (Alt (Lit ''PGP'') (Lit ''OPENSSH''))), Lit '' PRIVATE KEY-----'']\<rparr>]"

subsection \<open>Luhn check and masks\<close>

definition digits_of :: "string \<Rightarrow> string" where
  "digits_of s = filter is_digit s"

definition digit_val :: "char \<Rightarrow> int" where
  "digit_val c = int (of_char c) - 48"

definition luhn_term :: "bool \<Rightarrow> int \<Rightarrow> int" where
  "luhn_term alternate n = (if alternate then (if n * 2 > 9 then n * 2 - 9 else n * 2) else n)"

text \<open>The loop from the last digit to the first.\<close>

fun luhn_sum :: "bool \<Rightarrow> string \<Rightarrow> int" where
  "luhn_sum alternate [] = 0"
| "luhn_sum alternate (d # ds) = luhn_term alternate (digit_val d) + luhn_sum (\<not> alternate) ds"

definition LuhnCheck :: "string \<Rightarrow> bool" where
  "LuhnCheck s = (let digits = digits_of s in
     if length digits < 13 then False else luhn_sum False (rev digits) mod 10 = 0)"

record Finding =
  fi_Kind :: string
  fi_Value :: string
  fi_Location :: string
  fi_RiskScore :: int

definition last_n :: "nat \<Rightarrow> string \<Rightarrow> string" where
  "last_n n s = drop (length s - n) s"

definition MaskValue :: "string \<Rightarrow> string \<Rightarrow> string" where
  "MaskValue kind value =
     (if kind = ''credit_card'' then
        (let digits = digits_of value in if length digits \<ge> 4 then ''****-****-****-'' @ last_n 4 digits else ''[REDACTED]'')
      else if kind = ''ssn'' then (if length value \<ge> 4 then ''***-**-'' @ last_n 4 value else ''[REDACTED]'')
      else ''[REDACTED]'')"

definition rule_findings :: "string \<Rightarrow> ScanRule \<Rightarrow> Finding list" where
  "rule_findings text' rule = map (\<lambda>m. \<lparr>fi_Kind = sr_Kind rule, fi_Value = MaskValue (sr_Kind rule) m, fi_Location = [], fi_RiskScore = 8\<rparr>)
     (filter (\<lambda>m. sr_Luhn rule \<longrightarrow> LuhnCheck m) (FindAllString (sr_Re rule) text'))"

definition ScanRegex :: "string \<Rightarrow> Finding list" where
  "ScanRegex text' = concat (map (rule_findings text') Rules)"

subsection \<open>Entropy\<close>

definition is_delim :: "char \<Rightarrow> bool" where
  "is_delim r \<longleftrightarrow> r = CHR '' '' \<or> r = CHR 0x0A \<or> r = CHR 0x09 \<or> r = CHR '','' \<or> r = CHR '';'' \<or> r = CHR ''=''"

text \<open>\<open>strings.FieldsFunc\<close>: the maximal runs without delimiters.\<close>

fun FieldsFunc :: "string \<Rightarrow> string \<Rightarrow> string list" where
  "FieldsFunc acc [] = (if acc = [] then [] else [acc])"
| "FieldsFunc acc (c # s) = (if is_delim c then (if acc = [] then [] else [acc]) @ FieldsFunc [] s else FieldsFunc (acc @ [c]) s)"

definition ScanEntropy :: "(string \<Rightarrow> bool) \<Rightarrow> string \<Rightarrow> Finding list" where
  "ScanEntropy over text' = map (\<lambda>t. \<lparr>fi_Kind = ''potential_credential'', fi_Value = t, fi_Location = [], fi_RiskScore = 9\<rparr>)
     (filter (\<lambda>t. length t \<ge> 20 \<and> over t) (FieldsFunc [] text'))"

record ScanResult =
  Findings :: "Finding list"
  RiskScore :: int
  HasPII :: bool
  HasSecrets :: bool
  HasFinancial :: bool

definition ScanContent :: "(string \<Rightarrow> bool) \<Rightarrow> string \<Rightarrow> ScanResult" where
  "ScanContent over text' =
     (let fs = ScanRegex text' @ ScanEntropy over text' in
      fold (\<lambda>f r. r\<lparr>RiskScore := (if fi_RiskScore f > RiskScore r then fi_RiskScore f else RiskScore r),
          HasPII := (HasPII r \<or> fi_Kind f \<in> {''email'', ''ssn'', ''phone_us''}),
          HasSecrets := (HasSecrets r \<or> fi_Kind f \<in> {''aws_access_key'', ''private_key'', ''potential_credential''}),
          HasFinancial := (HasFinancial r \<or> fi_Kind f = ''credit_card'')\<rparr>) fs
        \<lparr>Findings = fs, RiskScore = 0, HasPII = False, HasSecrets = False, HasFinancial = False\<rparr>)"

subsection \<open>Tables\<close>

record DLPPolicy =
  dp_ID :: string
  dp_OrgID :: string
  dp_Name :: string
  dp_Rules :: "string list option"
  dp_Action :: string
  dp_Enabled :: bool
  dp_CreatedAt :: time

text \<open>A nil slice of rules is NULL, which the column refuses.  Of the findings, \<open>policy_id\<close> is a UUID.\<close>

record DLPFinding =
  df_ID :: string
  df_OrgID :: string
  df_EventID :: string
  df_PolicyID :: string
  df_FindingType :: string
  df_Action :: string
  df_Confidence :: int
  df_MatchedField :: string
  df_RedactedValue :: string
  df_CreatedAt :: time

record dlp_db =
  dlp_policies :: "DLPPolicy list"
  dlp_findings :: "DLPFinding list"

text \<open>Whether the database answers, its UUID conversion, the id it draws and its clock.\<close>

record dlp_env =
  de_up :: bool
  de_uuid :: "string \<Rightarrow> string option"
  de_id :: string
  de_now :: time

definition DlpListPolicies :: "dlp_env \<Rightarrow> string \<Rightarrow> dlp_db \<Rightarrow> (string, DLPPolicy list) result" where
  "DlpListPolicies env orgID db = (if de_up env then Ok (filter (\<lambda>p. dp_OrgID p = orgID) (dlp_policies db)) else Err ''postgres'')"

definition DlpCreatePolicy :: "dlp_env \<Rightarrow> DLPPolicy \<Rightarrow> dlp_db \<Rightarrow> (string, DLPPolicy) result \<times> dlp_db" where
  "DlpCreatePolicy env p db =
     (if \<not> de_up env \<or> dp_Rules p = None then (Err ''postgres'', db)
      else let p' = p\<lparr>dp_ID := de_id env, dp_CreatedAt := de_now env\<rparr> in (Ok p', db\<lparr>dlp_policies := dlp_policies db @ [p']\<rparr>))"

definition SaveFinding :: "dlp_env \<Rightarrow> DLPFinding \<Rightarrow> dlp_db \<Rightarrow> (string, DLPFinding) result \<times> dlp_db" where
  "SaveFinding env f db =
     (case de_uuid env (df_PolicyID f) of
        None \<Rightarrow> (Err ''invalid uuid'', db)
      | Some pid \<Rightarrow>
          if \<not> de_up env then (Err ''postgres'', db)
          else let f' = f\<lparr>df_ID := de_id env, df_PolicyID := pid, df_CreatedAt := de_now env\<rparr>
               in (Ok f', db\<lparr>dlp_findings := dlp_findings db @ [f']\<rparr>))"

definition DlpListFindings :: "dlp_env \<Rightarrow> string \<Rightarrow> dlp_db \<Rightarrow> (string, DLPFinding list) result" where
  "DlpListFindings env orgID db =
     (if de_up env then Ok (sort_key (\<lambda>f. - df_CreatedAt f) (filter (\<lambda>f. df_OrgID f = orgID) (dlp_findings db))) else Err ''postgres'')"

definition event_finding :: "string \<Rightarrow> string \<Rightarrow> string \<Rightarrow> Finding \<Rightarrow> DLPFinding" where
  "event_finding orgID eventID field f = \<lparr>df_ID = [], df_OrgID = orgID, df_EventID = eventID, df_PolicyID = [], df_FindingType = fi_Kind f,
     df_Action = [], df_Confidence = fi_RiskScore f, df_MatchedField = field, df_RedactedValue = ''REDACTED'', df_CreatedAt = 0\<rparr>"

subsection \<open>The consumer\<close>

record DLPEvent =
  ev_OrgID :: string
  ev_EventID :: string
  ev_Metadata :: "(string \<times> json) list"

definition event_member :: "string \<Rightarrow> json \<Rightarrow> DLPEvent \<Rightarrow> DLPEvent option" where
  "event_member k j e =
     (if key_is k ''org_id'' then map_option (\<lambda>v. e\<lparr>ev_OrgID := v\<rparr>) (dec_string j (ev_OrgID e))
      else if key_is k ''event_id'' then map_option (\<lambda>v. e\<lparr>ev_EventID := v\<rparr>) (dec_string j (ev_EventID e))
      else if key_is k ''metadata'' then (case j of JObj ms \<Rightarrow> Some (e\<lparr>ev_Metadata := ev_Metadata e @ ms\<rparr>) | JNull \<Rightarrow> Some (e\<lparr>ev_Metadata := []\<rparr>) | _ \<Rightarrow> None)
      else Some e)"

definition dec_event :: "raw_json \<Rightarrow> DLPEvent option" where
  "dec_event = dec_struct event_member \<lparr>ev_OrgID = [], ev_EventID = [], ev_Metadata = []\<rparr>"

fun save_all :: "dlp_env \<Rightarrow> DLPFinding list \<Rightarrow> dlp_db \<Rightarrow> (string, unit) result \<times> dlp_db" where
  "save_all env [] db = (Ok (), db)"
| "save_all env (f # fs) db = (case SaveFinding env f db of (Inl e, db') \<Rightarrow> (Err e, db') | (Inr _, db') \<Rightarrow> save_all env fs db')"

definition field_findings :: "(string \<Rightarrow> bool) \<Rightarrow> DLPEvent \<Rightarrow> string \<Rightarrow> DLPFinding list" where
  "field_findings over ev field =
     (case json_lookup (ev_Metadata ev) field of
        Some (JStr strVal) \<Rightarrow> map (event_finding (ev_OrgID ev) (ev_EventID ev) field) (Findings (ScanContent over strVal))
      | _ \<Rightarrow> [])"

definition contentFields :: "string list" where
  "contentFields = [''content'', ''body'', ''message'', ''description'']"

fun process_fields :: "(string \<Rightarrow> bool) \<Rightarrow> dlp_env \<Rightarrow> DLPEvent \<Rightarrow> string list \<Rightarrow> dlp_db \<Rightarrow> (string, unit) result \<times> dlp_db" where
  "process_fields over env ev [] db = (Ok (), db)"
| "process_fields over env ev (field # fs) db =
     (case save_all env (field_findings over ev field) db of
        (Inl e, db') \<Rightarrow> (Err e, db')
      | (Inr _, db') \<Rightarrow> process_fields over env ev fs db')"

definition processEvent :: "(string \<Rightarrow> bool) \<Rightarrow> dlp_env \<Rightarrow> DLPEvent \<Rightarrow> dlp_db \<Rightarrow> (string, unit) result \<times> dlp_db" where
  "processEvent over env ev db = process_fields over env ev contentFields db"

text \<open>
  The reader hands out the messages in order; a commit of a message commits
  everything before it.  \<open>ds_next\<close> is the next offset, \<open>ds_committed\<close> the committed one.
\<close>

record dlp_st =
  ds_db :: dlp_db
  ds_failures :: int
  ds_next :: nat
  ds_committed :: nat
  ds_dlq :: "raw_json list"

record dlp_io =
  di_env :: dlp_env
  di_commit :: bool
  di_dlq :: "bool option"

definition commit :: "dlp_io \<Rightarrow> dlp_st \<Rightarrow> dlp_st" where
  "commit io s = (if di_commit io then s\<lparr>ds_committed := ds_next s\<rparr> else s)"

text \<open>\<open>None\<close>: no writer for the dead-letter queue is configured.\<close>

definition sendToDLQ :: "dlp_io \<Rightarrow> raw_json \<Rightarrow> dlp_st \<Rightarrow> dlp_st" where
  "sendToDLQ io value s = (if di_dlq io = Some True then s\<lparr>ds_dlq := ds_dlq s @ [value]\<rparr> else s)"

text \<open>One round of the loop of Start, for the next message.\<close>

definition dlp_round :: "(string \<Rightarrow> bool) \<Rightarrow> int \<Rightarrow> dlp_io \<Rightarrow> raw_json \<Rightarrow> dlp_st \<Rightarrow> dlp_st" where
  "dlp_round over maxConsecutiveFailures io value s0 =
     (let s = s0\<lparr>ds_next := Suc (ds_next s0)\<rparr> in
      case dec_event value of
        None \<Rightarrow> commit io s
      | Some ev \<Rightarrow>
          (case processEvent over (di_env io) ev (ds_db s) of
             (Inl _, db) \<Rightarrow>
               (let s1 = s\<lparr>ds_db := db, ds_failures := ds_failures s + 1\<rparr> in
                if ds_failures s1 \<ge> maxConsecutiveFailures then (commit io (sendToDLQ io value s1))\<lparr>ds_failures := 0\<rparr> else s1)
           | (Inr _, db) \<Rightarrow> commit io (s\<lparr>ds_db := db, ds_failures := 0\<rparr>)))"

definition max_failures :: "int \<Rightarrow> int" where
  "max_failures n = (if n \<le> 0 then 5 else n)"

subsection \<open>Routes and handlers\<close>

datatype dlp_body = DText string | DFindings "Finding list option" | DPolicies "DLPPolicy list option" | DPolicy DLPPolicy | DRows "DLPFinding list option"

text \<open>The status of a request that no handler takes: an unknown path, or a known one with another method.\<close>

definition dlp_routes :: "(string \<times> string list) list" where
  "dlp_routes = [(''/metrics'', [''GET'']), (''/health'', [''GET'']), (''/v1/dlp/scan'', [''POST'']), (''/v1/dlp/policies'', [''GET'', ''POST'']),
     (''/v1/dlp/findings'', [''GET''])]"

definition dlp_unserved :: "string \<Rightarrow> string \<Rightarrow> int option" where
  "dlp_unserved m path = (case map_of dlp_routes path of None \<Rightarrow> Some 404 | Some ms \<Rightarrow> if m \<in> set ms then None else Some 405)"

definition policy_matches :: "DLPPolicy \<Rightarrow> Finding \<Rightarrow> bool" where
  "policy_matches p f \<longleftrightarrow> (\<exists>rule\<in>set (case dp_Rules p of None \<Rightarrow> [] | Some rs \<Rightarrow> rs). rule = fi_Kind f \<or> rule = ''all'')"

definition scan_findings :: "string \<Rightarrow> Finding list \<Rightarrow> DLPPolicy list \<Rightarrow> DLPFinding list" where
  "scan_findings orgID fs ps = concat (map (\<lambda>p. if \<not> dp_Enabled p then [] else
     map (\<lambda>f. \<lparr>df_ID = [], df_OrgID = orgID, df_EventID = [], df_PolicyID = dp_ID p, df_FindingType = fi_Kind f, df_Action = dp_Action p,
        df_Confidence = 0, df_MatchedField = [], df_RedactedValue = [], df_CreatedAt = 0\<rparr>) (filter (policy_matches p) fs)) ps)"

text \<open>Errors of the database are ignored; each finding is inserted on its own.\<close>

definition dec_scan :: "raw_json \<Rightarrow> string option" where
  "dec_scan = dec_struct (\<lambda>k j c. if key_is k ''content'' then dec_string j c else Some c) []"

definition ScanH :: "(string \<Rightarrow> bool) \<Rightarrow> dlp_env \<Rightarrow> req_ctx \<Rightarrow> raw_json \<Rightarrow> dlp_db \<Rightarrow> dlp_body http_resp \<times> dlp_db" where
  "ScanH over env ctx body db =
     (let orgID = GetOrgID ctx in
      case dec_scan body of
        None \<Rightarrow> (\<lparr>rs_code = 400, rs_headers = [], rs_body = DText ''Invalid request''\<rparr>, db)
      | Some content \<Rightarrow>
          (let fs = ScanRegex content @ ScanEntropy over content;
               ps = (case DlpListPolicies env orgID db of Inl _ \<Rightarrow> [] | Inr ps \<Rightarrow> ps);
               db' = fold (\<lambda>f db. snd (SaveFinding env f db)) (scan_findings orgID fs ps) db
           in (\<lparr>rs_code = 200, rs_headers = hset [] ''Content-Type'' ''application/json'',
                rs_body = DFindings (if fs = [] then None else Some fs)\<rparr>, db')))"

definition ListPoliciesD :: "dlp_env \<Rightarrow> req_ctx \<Rightarrow> dlp_db \<Rightarrow> dlp_body http_resp" where
  "ListPoliciesD env ctx db =
     (case DlpListPolicies env (GetOrgID ctx) db of
        Inl e \<Rightarrow> \<lparr>rs_code = 500, rs_headers = [], rs_body = DText e\<rparr>
      | Inr ps \<Rightarrow> \<lparr>rs_code = 200, rs_headers = hset [] ''Content-Type'' ''application/json'', rs_body = DPolicies (if ps = [] then None else Some ps)\<rparr>)"

definition CreatePolicyD :: "dlp_env \<Rightarrow> req_ctx \<Rightarrow> DLPPolicy option \<Rightarrow> dlp_db \<Rightarrow> dlp_body http_resp \<times> dlp_db" where
  "CreatePolicyD env ctx body db =
     (case body of
        None \<Rightarrow> (\<lparr>rs_code = 400, rs_headers = [], rs_body = DText ''Invalid request''\<rparr>, db)
      | Some p \<Rightarrow> (case DlpCreatePolicy env (p\<lparr>dp_OrgID := GetOrgID ctx\<rparr>) db of
           (Inl e, db') \<Rightarrow> (\<lparr>rs_code = 500, rs_headers = [], rs_body = DText e\<rparr>, db')
         | (Inr p', db') \<Rightarrow> (\<lparr>rs_code = 201, rs_headers = hset [] ''Content-Type'' ''application/json'', rs_body = DPolicy p'\<rparr>, db')))"

definition ListFindingsD :: "dlp_env \<Rightarrow> req_ctx \<Rightarrow> dlp_db \<Rightarrow> dlp_body http_resp" where
  "ListFindingsD env ctx db =
     (case DlpListFindings env (GetOrgID ctx) db of
        Inl e \<Rightarrow> \<lparr>rs_code = 500, rs_headers = [], rs_body = DText e\<rparr>
      | Inr fs \<Rightarrow> \<lparr>rs_code = 200, rs_headers = hset [] ''Content-Type'' ''application/json'', rs_body = DRows (if fs = [] then None else Some fs)\<rparr>)"

subsection \<open>The Luhn check\<close>

lemma luhn_sum_append: "luhn_sum b (us @ ws) = luhn_sum b us + luhn_sum (if even (length us) then b else \<not> b) ws"
  by (induction us arbitrary: b) auto

lemma digit_val_range: "is_digit c \<Longrightarrow> 0 \<le> digit_val c \<and> digit_val c \<le> 9"
  by (auto simp: is_digit_def digit_val_def)

lemma digit_val_inj: "digit_val c = digit_val d \<Longrightarrow> c = d"
  by (simp add: digit_val_def)

lemma small_dvd: "10 dvd x \<Longrightarrow> \<bar>x\<bar> < 10 \<Longrightarrow> x = (0 :: int)"
  using dvd_imp_le_int [of x 10] by fastforce

lemma luhn_term_range: "0 \<le> n \<Longrightarrow> n \<le> 9 \<Longrightarrow> 0 \<le> luhn_term b n \<and> luhn_term b n \<le> 9"
  by (auto simp: luhn_term_def)

lemma luhn_term_inj: "0 \<le> n \<Longrightarrow> n \<le> 9 \<Longrightarrow> 0 \<le> m \<Longrightarrow> m \<le> 9 \<Longrightarrow> luhn_term b n = luhn_term b m \<Longrightarrow> n = m"
  by (auto simp: luhn_term_def split: if_splits; presburger)

lemma mod_10_shift: "(k + x) mod 10 = (k + y) mod 10 \<longleftrightarrow> 10 dvd x - (y :: int)"
  by (simp add: mod_eq_dvd_iff)

lemma luhn_term_sub:
  assumes "0 \<le> n" "n \<le> 9" "0 \<le> m" "m \<le> 9" "n \<noteq> m"
  shows "\<not> 10 dvd luhn_term b n - luhn_term b m"
proof
  assume d: "10 dvd luhn_term b n - luhn_term b m"
  have "\<bar>luhn_term b n - luhn_term b m\<bar> < 10" using luhn_term_range [of n b] luhn_term_range [of m b] assms by linarith
  from small_dvd [OF d this] show False using luhn_term_inj assms by fastforce
qed

text \<open>What a digit adds more when it is doubled.\<close>

definition luhn_gain :: "int \<Rightarrow> int" where
  "luhn_gain n = luhn_term True n - luhn_term False n"

lemma luhn_gain_eq: "luhn_gain n = (if n \<le> 4 then n else n - 9)"
  by (simp add: luhn_gain_def luhn_term_def)

lemma luhn_term_swap:
  assumes "0 \<le> n" "n \<le> 9" "0 \<le> m" "m \<le> 9" "n \<noteq> m" "\<not> (n = 0 \<and> m = 9)" "\<not> (n = 9 \<and> m = 0)"
  shows "\<not> 10 dvd (luhn_term b n + luhn_term (\<not> b) m) - (luhn_term b m + luhn_term (\<not> b) n)"
proof
  assume d: "10 dvd (luhn_term b n + luhn_term (\<not> b) m) - (luhn_term b m + luhn_term (\<not> b) n)"
  have e: "(luhn_term b n + luhn_term (\<not> b) m) - (luhn_term b m + luhn_term (\<not> b) n) = (if b then luhn_gain n - luhn_gain m else luhn_gain m - luhn_gain n)"
    by (cases b) (simp_all add: luhn_gain_def)
  have "\<bar>luhn_gain n - luhn_gain m\<bar> < 10" using assms by (auto simp: luhn_gain_eq)
  then have "\<bar>if b then luhn_gain n - luhn_gain m else luhn_gain m - luhn_gain n\<bar> < 10" by (simp add: abs_minus_commute)
  from small_dvd [OF d [unfolded e] this] have "luhn_gain n = luhn_gain m" by (auto split: if_splits)
  then show False using assms by (auto simp: luhn_gain_eq split: if_splits)
qed

text \<open>
  The Luhn check catches the usual slips: a card number that passes no longer
  passes after one digit is changed, nor after two adjacent digits are swapped,
  other than 0 and 9.
\<close>

theorem luhn_detects_slips:
  assumes ds: "list_all is_digit (xs @ a # b # ys)" and ok: "LuhnCheck (xs @ a # b # ys)"
  shows "(\<forall>a'. is_digit a' \<and> a' \<noteq> a \<longrightarrow> \<not> LuhnCheck (xs @ a' # b # ys)) \<and>
     (a \<noteq> b \<and> {a, b} \<noteq> {CHR ''0'', CHR ''9''} \<longrightarrow> \<not> LuhnCheck (xs @ b # a # ys))"
proof -
  let ?p = "if even (length ys) then False else True"
  let ?k = "luhn_sum False (rev ys) + luhn_sum ?p (rev xs)"
  have digits: "digits_of zs = zs" if "list_all is_digit zs" for zs
    using that by (induction zs) (simp_all add: digits_of_def)
  have sum: "luhn_sum False (rev (xs @ c # d # ys)) = ?k + (luhn_term ?p (digit_val d) + luhn_term (\<not> ?p) (digit_val c))" for c d
    by (simp add: luhn_sum_append)
  have len: "13 \<le> length (xs @ a # b # ys)" and m: "luhn_sum False (rev (xs @ a # b # ys)) mod 10 = 0"
    using ok digits [OF ds] by (auto simp: LuhnCheck_def split: if_splits)
  have pass: "LuhnCheck (xs @ c # d # ys) \<longleftrightarrow>
      10 dvd (luhn_term ?p (digit_val d) + luhn_term (\<not> ?p) (digit_val c)) - (luhn_term ?p (digit_val b) + luhn_term (\<not> ?p) (digit_val a))"
    if "is_digit c" "is_digit d" for c d
  proof -
    have "list_all is_digit (xs @ c # d # ys)" using ds that by simp
    then have "LuhnCheck (xs @ c # d # ys) \<longleftrightarrow> luhn_sum False (rev (xs @ c # d # ys)) mod 10 = luhn_sum False (rev (xs @ a # b # ys)) mod 10"
      using digits len m by (simp add: LuhnCheck_def)
    then show ?thesis unfolding sum mod_10_shift .
  qed
  have ab: "is_digit a" "is_digit b" using ds by auto
  note r = digit_val_range [OF ab(1)] digit_val_range [OF ab(2)]
  show ?thesis
  proof (intro conjI allI impI)
    fix a' assume a': "is_digit a' \<and> a' \<noteq> a"
    then have "digit_val a' \<noteq> digit_val a" using digit_val_inj by blast
    then show "\<not> LuhnCheck (xs @ a' # b # ys)"
      using pass [OF _ ab(2), of a'] luhn_term_sub [of "digit_val a'" "digit_val a"] a' r digit_val_range [of a'] by auto
  next
    assume s: "a \<noteq> b \<and> {a, b} \<noteq> {CHR ''0'', CHR ''9''}"
    have "\<not> (digit_val a = 0 \<and> digit_val b = 9)" "\<not> (digit_val a = 9 \<and> digit_val b = 0)"
      using s digit_val_inj [of a "CHR ''0''"] digit_val_inj [of b "CHR ''9''"] digit_val_inj [of a "CHR ''9''"] digit_val_inj [of b "CHR ''0''"]
      by (auto simp: digit_val_def)
    moreover have "digit_val a \<noteq> digit_val b" using s digit_val_inj by blast
    ultimately show "\<not> LuhnCheck (xs @ b # a # ys)"
      using pass [OF ab(2,1)] luhn_term_swap [of "digit_val a" "digit_val b" ?p] r by auto
  qed
qed

theorem luhn_detects_slips_witness:
  "LuhnCheck ''4111111111111111'' \<and> \<not> LuhnCheck ''5111111111111111'' \<and> \<not> LuhnCheck ''1411111111111111''"
proof -
  have ok: "LuhnCheck ([] @ CHR ''4'' # CHR ''1'' # ''11111111111111'')" by code_simp
  moreover have "list_all is_digit ([] @ CHR ''4'' # CHR ''1'' # ''11111111111111'')" "is_digit (CHR ''5'')" by code_simp+
  ultimately show ?thesis
    using luhn_detects_slips [of "[]" "CHR ''4''" "CHR ''1''" "''11111111111111''"] by (auto simp: doubleton_eq_iff)
qed

subsection \<open>What a scan shows\<close>

definition masked :: "string \<Rightarrow> bool" where
  "masked v \<longleftrightarrow> v = ''[REDACTED]'' \<or> (\<exists>tail. length tail \<le> 4 \<and> (v = ''****-****-****-'' @ tail \<or> v = ''***-**-'' @ tail))"

lemma MaskValue_masked: "masked (MaskValue kind v)"
  by (auto simp: masked_def MaskValue_def last_n_def Let_def)

lemma ScanRegex_masked: "f \<in> set (ScanRegex t) \<Longrightarrow> masked (fi_Value f)"
  by (auto simp: ScanRegex_def rule_findings_def MaskValue_masked)

text \<open>
  The answer of a scan masks what the expressions find, at most four
  characters of it being shown, and repeats in full every token of at least twenty bytes
  that the entropy test takes for a credential.
\<close>

theorem scan_masks_matches_not_credentials:
  assumes "ScanH over env ctx body db = (rs, db')" "rs_body rs = DFindings (Some fs)" "dec_scan body = Some content"
  shows "(\<forall>f\<in>set fs. fi_Kind f \<noteq> ''potential_credential'' \<longrightarrow> masked (fi_Value f)) \<and>
     (\<forall>t\<in>set (FieldsFunc [] content). 20 \<le> length t \<and> over t \<longrightarrow> (\<exists>f\<in>set fs. fi_Value f = t))"
proof -
  have fs: "fs = ScanRegex content @ ScanEntropy over content"
    using assms by (auto simp: ScanH_def Let_def split: if_splits)
  have cred: "fi_Kind f = ''potential_credential''" if "f \<in> set (ScanEntropy over content)" for f
    using that by (auto simp: ScanEntropy_def)
  have tokens: "fi_Value ` set (ScanEntropy over content) = {t \<in> set (FieldsFunc [] content). 20 \<le> length t \<and> over t}"
    by (force simp: ScanEntropy_def image_iff)
  show ?thesis unfolding fs
  proof (intro conjI ballI impI)
    fix f assume "f \<in> set (ScanRegex content @ ScanEntropy over content)" "fi_Kind f \<noteq> ''potential_credential''"
    then show "masked (fi_Value f)" using cred ScanRegex_masked by auto
  next
    fix t assume "t \<in> set (FieldsFunc [] content)" "20 \<le> length t \<and> over t"
    then have "t \<in> fi_Value ` set (ScanEntropy over content)" unfolding tokens by simp
    then show "\<exists>f\<in>set (ScanRegex content @ ScanEntropy over content). fi_Value f = t" by auto
  qed
qed

subsection \<open>Events\<close>

text \<open>A finding of an event names no policy, and the empty text is no UUID.\<close>

lemma save_all_no_policy:
  "de_uuid env [] = None \<Longrightarrow> \<forall>f\<in>set fs. df_PolicyID f = [] \<Longrightarrow>
   save_all env fs db = (if fs = [] then Ok () else Err ''invalid uuid'', db)"
  by (cases fs) (simp_all add: SaveFinding_def)

lemma field_findings_no_policy: "f \<in> set (field_findings over ev field) \<Longrightarrow> df_PolicyID f = []"
  by (auto simp: field_findings_def event_finding_def split: option.splits json.splits)

lemma process_fields_no_policy:
  "de_uuid env [] = None \<Longrightarrow>
   process_fields over env ev flds db = (if \<forall>x\<in>set flds. field_findings over ev x = [] then Ok () else Err ''invalid uuid'', db)"
  by (induction flds) (auto simp: save_all_no_policy field_findings_no_policy)

text \<open>
  The consumer records nothing: since the database refuses the empty text as
  a policy id, an event without findings is processed without effect and an
  event with one fails, and no finding of an event is ever stored.
\<close>

theorem dlp_events_store_nothing:
  assumes "de_uuid env [] = None"
  shows "processEvent over env ev db =
     (if \<forall>x\<in>set contentFields. field_findings over ev x = [] then Ok () else Err ''invalid uuid'', db)"
  unfolding processEvent_def by (rule process_fields_no_policy [OF assms])

text \<open>
  A failed event is skipped: when the event after it is processed, the
  committed offset passes both, although the failed one was neither stored nor
  sent to the dead-letter queue.
\<close>

theorem dlp_failed_event_skipped:
  assumes uuid: "de_uuid (di_env io) [] = None" "de_uuid (di_env io') [] = None" and up: "di_commit io'"
    and bad: "dec_event bad = Some ev" "\<exists>x\<in>set contentFields. field_findings over ev x \<noteq> []"
    and good: "dec_event good = Some ev'" "\<forall>x\<in>set contentFields. field_findings over ev' x = []"
    and few: "ds_failures s + 1 < m"
  shows "dlp_round over m io' good (dlp_round over m io bad s) =
     s\<lparr>ds_failures := 0, ds_next := ds_next s + 2, ds_committed := ds_next s + 2\<rparr>"
proof -
  have p: "processEvent over (di_env io) ev db = (Err ''invalid uuid'', db)" "processEvent over (di_env io') ev' db = (Ok (), db)" for db
    using process_fields_no_policy [OF uuid(1)] process_fields_no_policy [OF uuid(2)] bad(2) good(2) by (auto simp: processEvent_def)
  have "dlp_round over m io bad s = s\<lparr>ds_next := Suc (ds_next s), ds_failures := ds_failures s + 1\<rparr>"
    using few by (simp add: dlp_round_def Let_def bad(1) p(1))
  then show ?thesis using up by (simp add: dlp_round_def Let_def good(1) p(2) commit_def)
qed

subsection \<open>Instances\<close>

definition dlp_up :: dlp_env where
  "dlp_up = \<lparr>de_up = True, de_uuid = (\<lambda>s. if length s = 36 then Some s else None), de_id = ''f1'', de_now = 0\<rparr>"

definition no_rows :: dlp_db where
  "no_rows = \<lparr>dlp_policies = [], dlp_findings = []\<rparr>"

definition mail_event :: raw_json where
  "mail_event = Some (JObj [(''org_id'', JStr ''o1''), (''metadata'', JObj [(''body'', JStr ''write to ann@example.org today'')])])"

definition plain_event :: raw_json where
  "plain_event = Some (JObj [(''org_id'', JStr ''o1''), (''metadata'', JObj [(''body'', JStr ''hello'')])])"

definition long_token :: "string \<Rightarrow> bool" where
  "long_token t \<longleftrightarrow> CHR ''9'' \<in> set t"

lemma scan_examples:
  "map fi_Value (ScanRegex ''card 4111111111111111, ssn 123-45-6789, ann@example.org'') = [''[REDACTED]'', ''***-**-6789'', ''****-****-****-1111'']"
  "ScanRegex ''card 4111111111111112'' = []"
  by code_simp+

theorem scan_masks_matches_not_credentials_witness:
  "\<exists>rs fs. fst (ScanH long_token dlp_up empty_ctx (Some (JObj [(''content'', JStr ''token=abcdefghijklmnopqrstuv9 mail a@b.org'')])) no_rows) = rs \<and>
     rs_body rs = DFindings (Some fs) \<and> (\<exists>f\<in>set fs. fi_Value f = ''abcdefghijklmnopqrstuv9'')"
proof -
  let ?body = "Some (JObj [(''content'', JStr ''token=abcdefghijklmnopqrstuv9 mail a@b.org'')])"
  have c: "dec_scan ?body = Some ''token=abcdefghijklmnopqrstuv9 mail a@b.org''"
    and t: "''abcdefghijklmnopqrstuv9'' \<in> set (FieldsFunc [] ''token=abcdefghijklmnopqrstuv9 mail a@b.org'')" "long_token ''abcdefghijklmnopqrstuv9''"
    and n: "ScanEntropy long_token ''token=abcdefghijklmnopqrstuv9 mail a@b.org'' \<noteq> []"
    by code_simp+
  obtain rs db' where rs: "ScanH long_token dlp_up empty_ctx ?body no_rows = (rs, db')" by (metis prod.exhaust)
  then obtain fs where fs: "rs_body rs = DFindings (Some fs)" using c n by (auto simp: ScanH_def Let_def)
  from scan_masks_matches_not_credentials [OF rs fs c] t have "\<exists>f\<in>set fs. fi_Value f = ''abcdefghijklmnopqrstuv9''" by simp
  then show ?thesis using rs fs by auto
qed

lemma mail_found: "\<exists>x\<in>set contentFields. field_findings (\<lambda>_. False) \<lparr>ev_OrgID = ''o1'', ev_EventID = [], ev_Metadata = [(''body'', JStr ''write to ann@example.org today'')]\<rparr> x \<noteq> []"
  by code_simp

theorem dlp_events_store_nothing_witness:
  "processEvent (\<lambda>_. False) dlp_up \<lparr>ev_OrgID = ''o1'', ev_EventID = [], ev_Metadata = [(''body'', JStr ''write to ann@example.org today'')]\<rparr> no_rows
     = (Err ''invalid uuid'', no_rows)"
  using mail_found by (subst dlp_events_store_nothing) (auto simp: dlp_up_def)

theorem dlp_failed_event_skipped_witness:
  "ds_committed (dlp_round (\<lambda>_. False) 5 \<lparr>di_env = dlp_up, di_commit = True, di_dlq = Some True\<rparr> plain_event
     (dlp_round (\<lambda>_. False) 5 \<lparr>di_env = dlp_up, di_commit = True, di_dlq = Some True\<rparr> mail_event
       \<lparr>ds_db = no_rows, ds_failures = 0, ds_next = 0, ds_committed = 0, ds_dlq = []\<rparr>)) = 2"
proof -
  have d: "dec_event mail_event = Some \<lparr>ev_OrgID = ''o1'', ev_EventID = [], ev_Metadata = [(''body'', JStr ''write to ann@example.org today'')]\<rparr>"
    "dec_event plain_event = Some \<lparr>ev_OrgID = ''o1'', ev_EventID = [], ev_Metadata = [(''body'', JStr ''hello'')]\<rparr>"
    and g: "\<forall>x\<in>set contentFields. field_findings (\<lambda>_. False) \<lparr>ev_OrgID = ''o1'', ev_EventID = [], ev_Metadata = [(''body'', JStr ''hello'')]\<rparr> x = []"
    by code_simp+
  show ?thesis by (subst dlp_failed_event_skipped [OF _ _ _ d(1) mail_found d(2) g]) (simp_all add: dlp_up_def)
qed

end
