(* ===== verification/Compliance.thy ===== *)
theory Compliance
  imports Audit_Trail Jwt Resilience
begin

text \<open>
  The compliance service (services/compliance): the consumer that copies the audit
  topic into ClickHouse, statistics and posture scores, and report jobs that
  render, sign and upload a PDF (pkg/consumer, pkg/repository, pkg/handlers,
  pkg/storage).

  The PDF library, RSA-PSS and the object store's presigning are parameters.  A
  score is the exact weighted sum in tenths of a percent; the code adds the same
  terms as floating-point numbers.  Dates are those of UTC.
\<close>

subsection \<open>Dates\<close>

text \<open>The day of a date counted from 1970, and the two layouts the service reads.\<close>

definition days_from_civil :: "int \<Rightarrow> int \<Rightarrow> int \<Rightarrow> int" where
  "days_from_civil y m d =
     (let y' = (if m \<le> 2 then y - 1 else y); era = y' div 400; yoe = y' - era * 400;
          doy = (153 * (if m > 2 then m - 3 else m + 9) + 2) div 5 + d - 1;
          doe = yoe * 365 + yoe div 4 - yoe div 100 + doy
      in era * 146097 + doe - 719468)"

definition days_in :: "int \<Rightarrow> int \<Rightarrow> int" where
  "days_in y m = (if m = 2 then (if y mod 4 = 0 \<and> (y mod 100 \<noteq> 0 \<or> y mod 400 = 0) then 29 else 28)
     else if m \<in> {4, 6, 9, 11} then 30 else 31)"

definition parse_uint :: "nat \<Rightarrow> nat \<Rightarrow> string \<Rightarrow> int option" where
  "parse_uint i n s = (let ds = take n (drop i s) in
     if length ds = n \<and> list_all is_digit ds then Some (int (dec_nat 0 ds)) else None)"

definition parse_date :: "string \<Rightarrow> int option" where
  "parse_date s =
     (case (parse_uint 0 4 s, parse_uint 5 2 s, parse_uint 8 2 s) of
        (Some y, Some m, Some d) \<Rightarrow>
          if s ! 4 = CHR ''-'' \<and> s ! 7 = CHR ''-'' \<and> 1 \<le> m \<and> m \<le> 12 \<and> 1 \<le> d \<and> d \<le> days_in y m
          then Some (days_from_civil y m d) else None
      | _ \<Rightarrow> None)"

definition parse_day :: "string \<Rightarrow> time option" where
  "parse_day s = (if length s = 10 then map_option (\<lambda>d. d * (24 * Hour)) (parse_date s) else None)"

definition parse_zone :: "string \<Rightarrow> int option" where
  "parse_zone s =
     (if s = ''Z'' then Some 0
      else if length s = 6 \<and> (hd s = CHR ''+'' \<or> hd s = CHR ''-'') \<and> s ! 3 = CHR '':''
      then (case (parse_uint 1 2 s, parse_uint 4 2 s) of
              (Some h, Some m) \<Rightarrow> if h \<le> 23 \<and> m \<le> 59 then Some ((if hd s = CHR ''-'' then - 1 else 1) * (h * 60 + m)) else None
            | _ \<Rightarrow> None)
      else None)"

definition parse_nanos :: "string \<Rightarrow> int" where
  "parse_nanos ds = int (dec_nat 0 (take 9 (ds @ replicate 9 CHR ''0'')))"

definition parse_rfc3339 :: "string \<Rightarrow> time option" where
  "parse_rfc3339 s =
     (case (parse_date s, parse_uint 11 2 s, parse_uint 14 2 s, parse_uint 17 2 s) of
        (Some day, Some h, Some mi, Some sec) \<Rightarrow>
          if s ! 10 = CHR ''T'' \<and> s ! 13 = CHR '':'' \<and> s ! 16 = CHR '':'' \<and> h \<le> 23 \<and> mi \<le> 59 \<and> sec \<le> 59
          then (let rest = drop 19 s;
                    frac = (if rest \<noteq> [] \<and> hd rest = CHR ''.'' then takeWhile is_digit (tl rest) else []);
                    zone = (if frac = [] then rest else drop (length frac + 1) rest)
                in map_option (\<lambda>off. day * (24 * Hour) + h * Hour + mi * Minute + sec * Second + parse_nanos frac - off * Minute) (parse_zone zone))
          else None
      | _ \<Rightarrow> None)"

subsection \<open>ClickHouse\<close>

record Event =
  cv_EventID :: string
  cv_Type :: string
  cv_OrgID :: string
  cv_ActorID :: string
  cv_ActorType :: string
  cv_OccurredAt :: time
  cv_Source :: string
  cv_Payload :: string

text \<open>
  The table of events, with times cut to milliseconds, and the materialized view
  that counts each inserted row under its tenant, type and day.  Reading the
  table with FINAL shows one of the rows that agree in the sorting key.
\<close>

record ch_db =
  ch_events :: "Event list"
  ch_daily :: "(string \<times> string \<times> int) list"

definition to_ms :: "time \<Rightarrow> time" where
  "to_ms t = t div Millisecond * Millisecond"

definition toDate :: "time \<Rightarrow> int" where
  "toDate t = t div (24 * Hour)"

definition IngestEvents :: "string option \<Rightarrow> Event list \<Rightarrow> ch_db \<Rightarrow> (string, unit) result \<times> ch_db" where
  "IngestEvents err es db =
     (case err of
        Some e \<Rightarrow> (Err e, db)
      | None \<Rightarrow> (Ok (), \<lparr>ch_events = ch_events db @ map (\<lambda>e. e\<lparr>cv_OccurredAt := to_ms (cv_OccurredAt e)\<rparr>) es,
           ch_daily = ch_daily db @ map (\<lambda>e. (cv_OrgID e, cv_Type e, toDate (cv_OccurredAt e))) es\<rparr>))"

definition stat_types :: "string \<Rightarrow> time \<Rightarrow> time \<Rightarrow> (string \<times> string \<times> int) list \<Rightarrow> string list" where
  "stat_types orgID from to daily = map (\<lambda>(_, t, _). t) (filter (\<lambda>(org, _, day). org = orgID \<and> toDate from \<le> day \<and> day \<le> toDate to) daily)"

definition GetStats :: "string option \<Rightarrow> string \<Rightarrow> time \<Rightarrow> time \<Rightarrow> ch_db \<Rightarrow> (string, (string \<times> nat) list) result" where
  "GetStats err orgID from to db =
     (case err of
        Some e \<Rightarrow> Err e
      | None \<Rightarrow> (let types = stat_types orgID from to (ch_daily db)
                in Ok (sort_key (\<lambda>(_, total). - int total) (map (\<lambda>t. (t, length (filter ((=) t) types))) (remdups types)))))"

definition sort_cols :: "Event \<Rightarrow> string \<times> string \<times> time \<times> string" where
  "sort_cols e = (cv_OrgID e, cv_Type e, cv_OccurredAt e, cv_EventID e)"

definition count_like :: "string \<Rightarrow> (string \<times> string \<times> time \<times> string) list \<Rightarrow> nat" where
  "count_like p rows = length (filter (\<lambda>(_, t, _, _). HasPrefix t p) rows)"

definition recent_rows :: "string \<Rightarrow> time \<Rightarrow> ch_db \<Rightarrow> (string \<times> string \<times> time \<times> string) list" where
  "recent_rows orgID now db = filter (\<lambda>(org, _, t, _). org = orgID \<and> t > now - 30 * (24 * Hour)) (remdups (map sort_cols (ch_events db)))"

definition score :: "nat \<Rightarrow> int" where
  "score n = (if n > 100 then 100 else int n)"

definition GetPosture :: "string option \<Rightarrow> time \<Rightarrow> string \<Rightarrow> ch_db \<Rightarrow> (string, (string \<times> int) list) result" where
  "GetPosture err now orgID db =
     (case err of
        Some e \<Rightarrow> Err e
      | None \<Rightarrow>
          (let rows = recent_rows orgID now db;
               auth = count_like ''auth.'' rows; policy = count_like ''policy.'' rows;
               access = count_like ''data.access'' rows; threat = count_like ''threat.'' rows
           in Ok [(''GDPR'', score auth * 3 + score access * 7),
                  (''SOC2'', score auth * 2 + score policy * 4 + score threat * 4),
                  (''HIPAA'', score auth * 2 + score access * 6 + score threat * 2)]))"

subsection \<open>The consumer\<close>

text \<open>
  The struct has no JSON tags, so a member is decoded into a field when its
  name is the field's Go name up to letter case.
\<close>

definition cv_member :: "string \<Rightarrow> json \<Rightarrow> Event \<Rightarrow> Event option" where
  "cv_member k j e =
     (if key_is k ''eventid'' then map_option (\<lambda>v. e\<lparr>cv_EventID := v\<rparr>) (dec_string j (cv_EventID e))
      else if key_is k ''type'' then map_option (\<lambda>v. e\<lparr>cv_Type := v\<rparr>) (dec_string j (cv_Type e))
      else if key_is k ''orgid'' then map_option (\<lambda>v. e\<lparr>cv_OrgID := v\<rparr>) (dec_string j (cv_OrgID e))
      else if key_is k ''actorid'' then map_option (\<lambda>v. e\<lparr>cv_ActorID := v\<rparr>) (dec_string j (cv_ActorID e))
      else if key_is k ''actortype'' then map_option (\<lambda>v. e\<lparr>cv_ActorType := v\<rparr>) (dec_string j (cv_ActorType e))
      else if key_is k ''occurredat'' then
        (case j of JNull \<Rightarrow> Some e | JStr s \<Rightarrow> map_option (\<lambda>t. e\<lparr>cv_OccurredAt := t\<rparr>) (parse_rfc3339 s) | _ \<Rightarrow> None)
      else if key_is k ''source'' then map_option (\<lambda>v. e\<lparr>cv_Source := v\<rparr>) (dec_string j (cv_Source e))
      else if key_is k ''payload'' then map_option (\<lambda>v. e\<lparr>cv_Payload := v\<rparr>) (dec_string j (cv_Payload e))
      else Some e)"

definition zero_Event :: Event where
  "zero_Event = \<lparr>cv_EventID = [], cv_Type = [], cv_OrgID = [], cv_ActorID = [], cv_ActorType = [], cv_OccurredAt = zero_time,
     cv_Source = [], cv_Payload = []\<rparr>"

definition dec_Event :: "raw_json \<Rightarrow> Event option" where
  "dec_Event = dec_struct cv_member zero_Event"

definition flush_event :: "time \<Rightarrow> raw_json \<Rightarrow> Event list" where
  "flush_event now m = (case dec_Event m of
      None \<Rightarrow> []
    | Some e \<Rightarrow> [if cv_OccurredAt e = zero_time then e\<lparr>cv_OccurredAt := now\<rparr> else e])"

text \<open>
  The state of the loop: the messages not yet flushed, the number of messages
  fetched and the committed offset.  A commit of a batch commits everything
  before its end.
\<close>

record cw_st =
  cw_ch :: ch_db
  cw_batch :: "raw_json list"
  cw_next :: nat
  cw_committed :: nat

record cw_io =
  ci_now :: time
  ci_ingest :: "string option"
  ci_commit :: bool

datatype cw_input = CwTick | CwMessage raw_json

definition cw_commit :: "cw_io \<Rightarrow> cw_st \<Rightarrow> cw_st" where
  "cw_commit io s = (if ci_commit io then s\<lparr>cw_committed := cw_next s\<rparr> else s)"

definition cw_flush :: "cw_io \<Rightarrow> raw_json list \<Rightarrow> cw_st \<Rightarrow> cw_st" where
  "cw_flush io messages s =
     (let events = concat (map (flush_event (ci_now io)) messages) in
      if events = [] then cw_commit io s
      else (case IngestEvents (ci_ingest io) events (cw_ch s) of
        (Inl _, _) \<Rightarrow> s
      | (Inr _, db) \<Rightarrow> cw_commit io (s\<lparr>cw_ch := db\<rparr>)))"

fun cw_round :: "int \<Rightarrow> cw_io \<Rightarrow> cw_input \<Rightarrow> cw_st \<Rightarrow> cw_st" where
  "cw_round batchSize io CwTick s = (if cw_batch s \<noteq> [] then (cw_flush io (cw_batch s) s)\<lparr>cw_batch := []\<rparr> else s)"
| "cw_round batchSize io (CwMessage m) s =
     (let s1 = s\<lparr>cw_batch := cw_batch s @ [m], cw_next := Suc (cw_next s)\<rparr> in
      if int (length (cw_batch s1)) \<ge> batchSize then (cw_flush io (cw_batch s1) s1)\<lparr>cw_batch := []\<rparr> else s1)"

subsection \<open>Report jobs\<close>

text \<open>A row of the table: the columns the insert does not set are NULL.\<close>

record report_row =
  rp_ID :: string
  rp_OrgID :: string
  rp_Framework :: string
  rp_Status :: string
  rp_S3Key :: "string option"
  rp_S3SigKey :: "string option"
  rp_ErrorMsg :: "string option"
  rp_CreatedAt :: time
  rp_UpdatedAt :: time

record ComplianceReport =
  cr_ID :: string
  cr_OrgID :: string
  cr_Framework :: string
  cr_Status :: string
  cr_S3Key :: string
  cr_S3SigKey :: string
  cr_ErrorMsg :: string
  cr_CreatedAt :: time
  cr_UpdatedAt :: time

text \<open>Scanning a row: a NULL cannot be scanned into a Go string.\<close>

definition scan_report :: "report_row \<Rightarrow> ComplianceReport option" where
  "scan_report r =
     (case (rp_S3Key r, rp_S3SigKey r, rp_ErrorMsg r) of
        (Some k, Some g, Some e) \<Rightarrow> Some \<lparr>cr_ID = rp_ID r, cr_OrgID = rp_OrgID r, cr_Framework = rp_Framework r, cr_Status = rp_Status r,
           cr_S3Key = k, cr_S3SigKey = g, cr_ErrorMsg = e, cr_CreatedAt = rp_CreatedAt r, cr_UpdatedAt = rp_UpdatedAt r\<rparr>
      | _ \<Rightarrow> None)"

fun scan_reports :: "report_row list \<Rightarrow> (string, ComplianceReport list) result" where
  "scan_reports [] = Ok []"
| "scan_reports (r # rs) =
     (case scan_report r of
        None \<Rightarrow> Err ''cannot scan NULL into *string''
      | Some c \<Rightarrow> (case scan_reports rs of Inl e \<Rightarrow> Err e | Inr cs \<Rightarrow> Ok (c # cs)))"

text \<open>
  \<open>up\<close> says whether the database answers, \<open>uu\<close> is its reading of a UUID.  The
  ids of jobs are drawn as UUIDs in canonical form.
\<close>

definition CreateReportJob :: "bool \<Rightarrow> (string \<Rightarrow> string option) \<Rightarrow> ComplianceReport \<Rightarrow> report_row list \<Rightarrow> (string, report_row list) result" where
  "CreateReportJob up uu rep rows =
     (case uu (cr_OrgID rep) of
        None \<Rightarrow> Err ''invalid uuid''
      | Some org \<Rightarrow>
          if \<not> up then Err ''postgres''
          else if cr_ID rep \<in> rp_ID ` set rows then Err ''duplicate key''
          else if cr_Framework rep \<notin> {''gdpr'', ''soc2'', ''hipaa''} \<or> cr_Status rep \<notin> {''pending'', ''generating'', ''ready'', ''failed''} then Err ''check''
          else Ok (rows @ [\<lparr>rp_ID = cr_ID rep, rp_OrgID = org, rp_Framework = cr_Framework rep, rp_Status = cr_Status rep,
             rp_S3Key = None, rp_S3SigKey = None, rp_ErrorMsg = None, rp_CreatedAt = cr_CreatedAt rep, rp_UpdatedAt = cr_UpdatedAt rep\<rparr>]))"

definition set_status :: "time \<Rightarrow> string \<Rightarrow> string \<Rightarrow> string \<Rightarrow> string \<Rightarrow> report_row \<Rightarrow> report_row" where
  "set_status now status s3Key s3SigKey errMsg r =
     r\<lparr>rp_Status := status, rp_S3Key := Some s3Key, rp_S3SigKey := Some s3SigKey, rp_ErrorMsg := Some errMsg, rp_UpdatedAt := now\<rparr>"

definition UpdateReportStatus :: "bool \<Rightarrow> time \<Rightarrow> string \<Rightarrow> string \<Rightarrow> string \<Rightarrow> string \<Rightarrow> string \<Rightarrow> report_row list \<Rightarrow> report_row list" where
  "UpdateReportStatus up now i status s3Key s3SigKey errMsg rows =
     (if \<not> up then rows
      else map (\<lambda>r. if rp_ID r = i then set_status now status s3Key s3SigKey errMsg r else r) rows)"

definition GetReport :: "bool \<Rightarrow> (string \<Rightarrow> string option) \<Rightarrow> string \<Rightarrow> string \<Rightarrow> report_row list \<Rightarrow> ComplianceReport option" where
  "GetReport up uu orgID i rows =
     (case (uu orgID, uu i) of
        (Some org, Some j) \<Rightarrow>
          if \<not> up then None
          else (case find (\<lambda>r. rp_ID r = j \<and> rp_OrgID r = org) rows of None \<Rightarrow> None | Some r \<Rightarrow> scan_report r)
      | _ \<Rightarrow> None)"

definition ListReports :: "bool \<Rightarrow> (string \<Rightarrow> string option) \<Rightarrow> string \<Rightarrow> report_row list \<Rightarrow> (string, ComplianceReport list) result" where
  "ListReports up uu orgID rows =
     (case uu orgID of
        None \<Rightarrow> Err ''invalid uuid''
      | Some org \<Rightarrow> if \<not> up then Err ''postgres''
          else scan_reports (sort_key (\<lambda>r. - rp_CreatedAt r) (filter (\<lambda>r. rp_OrgID r = org) rows)))"

definition GetPendingReports :: "bool \<Rightarrow> report_row list \<Rightarrow> (string, ComplianceReport list) result" where
  "GetPendingReports up rows =
     (if \<not> up then Err ''postgres'' else scan_reports (sort_key rp_CreatedAt (filter (\<lambda>r. rp_Status r = ''pending'') rows)))"

text \<open>
  The state of the service: the table, the bucket, the bulkhead and the
  goroutines that generate reports, each with what it has left to do.
\<close>

datatype job_phase = JobQueued | JobRendering | JobDone string string string string

record report_job =
  rj_ID :: string
  rj_OrgID :: string
  rj_Framework :: string
  rj_phase :: job_phase

record comp_st =
  cs_reports :: "report_row list"
  cs_objects :: "string \<Rightarrow> string option"
  cs_bulkhead :: Bulkhead
  cs_running :: "report_job list"

definition report_key :: "string \<Rightarrow> string \<Rightarrow> string" where
  "report_key orgID jobID = ''reports/'' @ orgID @ ''/'' @ jobID @ ''.pdf''"

definition Upload :: "string option \<Rightarrow> string \<Rightarrow> string \<Rightarrow> comp_st \<Rightarrow> (string, unit) result \<times> comp_st" where
  "Upload err key data st = (case err of Some e \<Rightarrow> (Err e, st) | None \<Rightarrow> (Ok (), st\<lparr>cs_objects := (cs_objects st)(key \<mapsto> data)\<rparr>))"

text \<open>
  What a run of generateReport meets: the two statements' database, the text
  of the clock and of the scores, the PDF library, the signing key with its
  outcome on a document, and the two uploads.
\<close>

record gen_io =
  gi_up1 :: bool
  gi_now1 :: time
  gi_stamp :: string
  gi_scores :: "string list"
  gi_pdf :: "string list \<Rightarrow> (string, string) result"
  gi_sign :: "(string \<Rightarrow> string option) option"
  gi_put :: "string option"
  gi_put_sig :: "string option"
  gi_up2 :: bool
  gi_now2 :: time

definition report_lines :: "gen_io \<Rightarrow> report_job \<Rightarrow> string list" where
  "report_lines io j = [rj_Framework j @ '' Compliance Report'', ''Organization: '' @ rj_OrgID j, ''Report ID: '' @ rj_ID j, ''Generated At: '' @ gi_stamp io,
     ''1. Executive Summary'', ''This report provides an overview of compliance status and audit trails...'', ''2. Control Compliance''] @ gi_scores io"

definition job_start :: "gen_io \<Rightarrow> report_job \<Rightarrow> comp_st \<Rightarrow> report_job \<times> comp_st" where
  "job_start io j st = (j\<lparr>rj_phase := JobRendering\<rparr>,
     st\<lparr>cs_reports := UpdateReportStatus (gi_up1 io) (gi_now1 io) (rj_ID j) ''generating'' [] [] [] (cs_reports st)\<rparr>)"

definition job_render :: "gen_io \<Rightarrow> report_job \<Rightarrow> comp_st \<Rightarrow> report_job \<times> comp_st" where
  "job_render io j st =
     (case gi_pdf io (report_lines io j) of
        Inl e \<Rightarrow> (j\<lparr>rj_phase := JobDone ''failed'' [] [] e\<rparr>, st)
      | Inr pdf \<Rightarrow>
          (let sig = (case gi_sign io of None \<Rightarrow> None | Some sign \<Rightarrow> sign pdf); s3Key = report_key (rj_OrgID j) (rj_ID j) in
           case Upload (gi_put io) s3Key pdf st of
             (Inl e, st1) \<Rightarrow> (j\<lparr>rj_phase := JobDone ''failed'' [] [] (''Upload failed: '' @ e)\<rparr>, st1)
           | (Inr _, st1) \<Rightarrow>
               (case sig of
                  None \<Rightarrow> (j\<lparr>rj_phase := JobDone ''ready'' s3Key [] []\<rparr>, st1)
                | Some sg \<Rightarrow> (j\<lparr>rj_phase := JobDone ''ready'' s3Key (s3Key @ ''.sig'') []\<rparr>, snd (Upload (gi_put_sig io) (s3Key @ ''.sig'') sg st1)))))"

fun job_finish :: "gen_io \<Rightarrow> report_job \<Rightarrow> comp_st \<Rightarrow> comp_st" where
  "job_finish io j st =
     (case rj_phase j of
        JobDone status key sigKey err \<Rightarrow>
          st\<lparr>cs_reports := UpdateReportStatus (gi_up2 io) (gi_now2 io) (rj_ID j) status key sigKey err (cs_reports st)\<rparr>
      | _ \<Rightarrow> st)"

definition generateReport :: "gen_io \<Rightarrow> string \<Rightarrow> string \<Rightarrow> string \<Rightarrow> comp_st \<Rightarrow> comp_st" where
  "generateReport io jobID orgID framework st =
     (let (j1, st1) = job_start io \<lparr>rj_ID = jobID, rj_OrgID = orgID, rj_Framework = framework, rj_phase = JobQueued\<rparr> st;
          (j2, st2) = job_render io j1 st1
      in job_finish io j2 st2)"

text \<open>The body of the worker's loop at a tick; each report runs in the bulkhead until it is finished.\<close>

fun dispatch_all :: "(string \<Rightarrow> gen_io) \<Rightarrow> ComplianceReport list \<Rightarrow> comp_st \<Rightarrow> comp_st" where
  "dispatch_all io [] st = st"
| "dispatch_all io (r # rs) st =
     dispatch_all io rs
       (case Execute (cs_bulkhead st) (\<lambda>s. (Ok () :: (unit, unit) result, generateReport (io (cr_ID r)) (cr_ID r) (cr_OrgID r) (cr_Framework r) s)) st of
          (_, st1, b) \<Rightarrow> st1\<lparr>cs_bulkhead := b\<rparr>)"

definition worker_tick :: "bool \<Rightarrow> (string \<Rightarrow> gen_io) \<Rightarrow> comp_st \<Rightarrow> comp_st" where
  "worker_tick up io st =
     (case GetPendingReports up (cs_reports st) of
        Inl _ \<Rightarrow> st
      | Inr rs \<Rightarrow> dispatch_all io rs st)"

subsection \<open>Handlers\<close>

datatype comp_body = CText string | CPosture "(string \<times> int) list" | CStats "(string \<times> nat) list option" | CReports "ComplianceReport list option"
  | CReport ComplianceReport | CJob string | CEmpty

record comp_io =
  co_up :: bool
  co_uuid :: "string \<Rightarrow> string option"
  co_ch :: "string option"
  co_id :: string
  co_now :: time
  co_now' :: time
  co_presign :: "string \<Rightarrow> string option"

abbreviation c_json :: "int \<Rightarrow> comp_body \<Rightarrow> comp_body http_resp" where
  "c_json code b \<equiv> \<lparr>rs_code = code, rs_headers = hset [] ''Content-Type'' ''application/json'', rs_body = b\<rparr>"

abbreviation c_text :: "int \<Rightarrow> string \<Rightarrow> comp_body http_resp" where
  "c_text code t \<equiv> \<lparr>rs_code = code, rs_headers = [], rs_body = CText t\<rparr>"

definition nil_list :: "'a list \<Rightarrow> 'a list option" where
  "nil_list xs = (if xs = [] then None else Some xs)"

definition GetPostureH :: "comp_io \<Rightarrow> req_ctx \<Rightarrow> ch_db \<Rightarrow> comp_body http_resp" where
  "GetPostureH io ctx db =
     (case GetPosture (co_ch io) (co_now io) (GetOrgID ctx) db of Inl e \<Rightarrow> c_text 500 e | Inr p \<Rightarrow> c_json 200 (CPosture p))"

definition GetStatsH :: "comp_io \<Rightarrow> req_ctx \<Rightarrow> string \<Rightarrow> string \<Rightarrow> ch_db \<Rightarrow> comp_body http_resp" where
  "GetStatsH io ctx fromStr toStr db =
     (let to0 = co_now io; from0 = to0 - 30 * (24 * Hour);
          from = (if fromStr \<noteq> [] then (case parse_day fromStr of None \<Rightarrow> from0 | Some f \<Rightarrow> f) else from0);
          to = (if toStr \<noteq> [] then (case parse_day toStr of None \<Rightarrow> to0 | Some t \<Rightarrow> t) else to0)
      in case GetStats (co_ch io) (GetOrgID ctx) from to db of Inl e \<Rightarrow> c_text 500 e | Inr s \<Rightarrow> c_json 200 (CStats (nil_list s)))"

definition ListReportsH :: "comp_io \<Rightarrow> req_ctx \<Rightarrow> comp_st \<Rightarrow> comp_body http_resp" where
  "ListReportsH io ctx st =
     (case ListReports (co_up io) (co_uuid io) (GetOrgID ctx) (cs_reports st) of Inl e \<Rightarrow> c_text 500 e | Inr rs \<Rightarrow> c_json 200 (CReports (nil_list rs)))"

definition dec_framework :: "raw_json \<Rightarrow> string option" where
  "dec_framework = dec_struct (\<lambda>k j f. if key_is k ''framework'' then dec_string j f else Some f) []"

definition CreateReportH :: "comp_io \<Rightarrow> req_ctx \<Rightarrow> raw_json \<Rightarrow> comp_st \<Rightarrow> comp_body http_resp \<times> comp_st" where
  "CreateReportH io ctx body st =
     (case dec_framework body of
        None \<Rightarrow> (c_text 400 ''Invalid request'', st)
      | Some framework \<Rightarrow>
          (let orgID = GetOrgID ctx; jobID = co_id io in
           case CreateReportJob (co_up io) (co_uuid io)
               \<lparr>cr_ID = jobID, cr_OrgID = orgID, cr_Framework = framework, cr_Status = ''pending'', cr_S3Key = [], cr_S3SigKey = [],
                cr_ErrorMsg = [], cr_CreatedAt = co_now io, cr_UpdatedAt = co_now' io\<rparr> (cs_reports st) of
             Inl e \<Rightarrow> (c_text 500 e, st)
           | Inr rows \<Rightarrow>
               (case Execute (cs_bulkhead st)
                   (\<lambda>s. (Ok (), s\<lparr>cs_running := cs_running s @ [\<lparr>rj_ID = jobID, rj_OrgID = orgID, rj_Framework = framework, rj_phase = JobQueued\<rparr>]\<rparr>))
                   (st\<lparr>cs_reports := rows\<rparr>) of
                  (Inl ErrBulkheadFull, st1, b) \<Rightarrow>
                    (\<lparr>rs_code = 429, rs_headers = hset [] ''Retry-After'' ''30'', rs_body = CText ''Bulkhead full, try again later''\<rparr>, st1\<lparr>cs_bulkhead := b\<rparr>)
                | (Inl (BhFn e), st1, b) \<Rightarrow> (c_text 500 e, st1\<lparr>cs_bulkhead := b\<rparr>)
                | (Inr _, st1, b) \<Rightarrow> (c_json 202 (CJob jobID), st1\<lparr>cs_bulkhead := b\<rparr>))))"

definition GetReportStatusH :: "comp_io \<Rightarrow> req_ctx \<Rightarrow> string \<Rightarrow> comp_st \<Rightarrow> comp_body http_resp" where
  "GetReportStatusH io ctx i st =
     (case GetReport (co_up io) (co_uuid io) (GetOrgID ctx) i (cs_reports st) of None \<Rightarrow> c_text 404 ''Report not found'' | Some r \<Rightarrow> c_json 200 (CReport r))"

definition DownloadReportH :: "comp_io \<Rightarrow> req_ctx \<Rightarrow> string \<Rightarrow> comp_st \<Rightarrow> comp_body http_resp" where
  "DownloadReportH io ctx i st =
     (case GetReport (co_up io) (co_uuid io) (GetOrgID ctx) i (cs_reports st) of
        None \<Rightarrow> c_text 404 ''Report not ready or not found''
      | Some r \<Rightarrow>
          if cr_Status r \<noteq> ''ready'' then c_text 404 ''Report not ready or not found''
          else (case co_presign io (cr_S3Key r) of
             None \<Rightarrow> c_text 500 ''Failed to generate download URL''
           | Some url \<Rightarrow> \<lparr>rs_code = 302, rs_headers = hset [] ''Location'' url, rs_body = CEmpty\<rparr>))"

subsection \<open>The running service\<close>

definition put_job :: "report_job \<Rightarrow> report_job list \<Rightarrow> report_job list" where
  "put_job j js = map (\<lambda>i. if rj_ID i = rj_ID j then j else i) js"

definition drop_job :: "report_job \<Rightarrow> report_job list \<Rightarrow> report_job list" where
  "drop_job j js = filter (\<lambda>i. rj_ID i \<noteq> rj_ID j) js"

text \<open>
  Requests, the goroutines of report jobs and the worker interleave; a restart
  ends the goroutines.
\<close>

inductive comp_step :: "(string \<Rightarrow> string option) \<Rightarrow> comp_st \<Rightarrow> comp_st \<Rightarrow> bool" for uu where
  request: "co_uuid io = uu \<Longrightarrow> CreateReportH io ctx body st = (rs, st') \<Longrightarrow> comp_step uu st st'"
| start: "j \<in> set (cs_running st) \<Longrightarrow> rj_phase j = JobQueued \<Longrightarrow> job_start io j st = (j', st') \<Longrightarrow>
    comp_step uu st (st'\<lparr>cs_running := put_job j' (cs_running st)\<rparr>)"
| render: "j \<in> set (cs_running st) \<Longrightarrow> rj_phase j = JobRendering \<Longrightarrow> job_render io j st = (j', st') \<Longrightarrow>
    comp_step uu st (st'\<lparr>cs_running := put_job j' (cs_running st)\<rparr>)"
| finish: "j \<in> set (cs_running st) \<Longrightarrow> rj_phase j = JobDone status key sigKey err \<Longrightarrow>
    comp_step uu st ((job_finish io j st)\<lparr>cs_running := drop_job j (cs_running st)\<rparr>)"
| tick: "comp_step uu st (worker_tick up ios st)"
| restart: "comp_step uu st (st\<lparr>cs_running := [], cs_bulkhead := NewBulkhead n\<rparr>)"

definition row_ok :: "(string \<Rightarrow> string option) \<Rightarrow> (string \<Rightarrow> string option) \<Rightarrow> report_row \<Rightarrow> bool" where
  "row_ok uu objs r \<longleftrightarrow>
     (if rp_Status r = ''pending'' then rp_S3Key r = None
      else scan_report r \<noteq> None \<and>
        (rp_Status r = ''ready'' \<longrightarrow> (\<exists>org. uu org = Some (rp_OrgID r) \<and> rp_S3Key r = Some (report_key org (rp_ID r)) \<and> objs (report_key org (rp_ID r)) \<noteq> None)))"

definition job_ok :: "(string \<Rightarrow> string option) \<Rightarrow> report_row list \<Rightarrow> (string \<Rightarrow> string option) \<Rightarrow> report_job \<Rightarrow> bool" where
  "job_ok uu rows objs j \<longleftrightarrow> (\<exists>r\<in>set rows. rp_ID r = rj_ID j \<and> uu (rj_OrgID j) = Some (rp_OrgID r)) \<and>
     (case rj_phase j of
        JobDone status key sigKey err \<Rightarrow> status = ''failed'' \<or> status = ''ready'' \<and> key = report_key (rj_OrgID j) (rj_ID j) \<and> objs key \<noteq> None
      | _ \<Rightarrow> True)"

definition comp_inv :: "(string \<Rightarrow> string option) \<Rightarrow> comp_st \<Rightarrow> bool" where
  "comp_inv uu st \<longleftrightarrow> distinct (map rp_ID (cs_reports st)) \<and> distinct (map rj_ID (cs_running st)) \<and>
     (\<forall>r\<in>set (cs_reports st). row_ok uu (cs_objects st) r) \<and> (\<forall>j\<in>set (cs_running st). job_ok uu (cs_reports st) (cs_objects st) j)"

definition comp_init :: "int \<Rightarrow> comp_st" where
  "comp_init n = \<lparr>cs_reports = [], cs_objects = Map.empty, cs_bulkhead = NewBulkhead n, cs_running = []\<rparr>"

lemma row_ok_mono: "row_ok uu objs r \<Longrightarrow> (\<And>k. objs k \<noteq> None \<Longrightarrow> objs' k \<noteq> None) \<Longrightarrow> row_ok uu objs' r"
  by (auto simp: row_ok_def split: if_splits)

lemma job_ok_mono:
  assumes "job_ok uu rows objs j" and objs: "\<And>k. objs k \<noteq> None \<Longrightarrow> objs' k \<noteq> None"
    and rows: "\<And>r. r \<in> set rows \<Longrightarrow> \<exists>r'\<in>set rows'. rp_ID r' = rp_ID r \<and> rp_OrgID r' = rp_OrgID r"
  shows "job_ok uu rows' objs' j"
proof -
  obtain r where "r \<in> set rows" "rp_ID r = rj_ID j" "uu (rj_OrgID j) = Some (rp_OrgID r)" using assms(1) by (auto simp: job_ok_def)
  then have "\<exists>r\<in>set rows'. rp_ID r = rj_ID j \<and> uu (rj_OrgID j) = Some (rp_OrgID r)" using rows [of r] by force
  moreover have "case rj_phase j of
        JobDone status key sigKey err \<Rightarrow> status = ''failed'' \<or> status = ''ready'' \<and> key = report_key (rj_OrgID j) (rj_ID j) \<and> objs' key \<noteq> None
      | _ \<Rightarrow> True"
    using assms(1) objs by (cases "rj_phase j") (auto simp: job_ok_def)
  ultimately show ?thesis by (simp add: job_ok_def)
qed

lemma set_status_simps [simp]:
  "rp_ID (set_status now st k g e r) = rp_ID r" "rp_OrgID (set_status now st k g e r) = rp_OrgID r"
  "rp_Status (set_status now st k g e r) = st" "rp_S3Key (set_status now st k g e r) = Some k" "\<exists>y. scan_report (set_status now st k g e r) = Some y"
  by (simp_all add: set_status_def scan_report_def)

lemma UpdateReportStatus_set:
  "set (UpdateReportStatus up now i st k g e rows) =
     (if up then {r \<in> set rows. rp_ID r \<noteq> i} \<union> set_status now st k g e ` {r \<in> set rows. rp_ID r = i} else set rows)"
  by (auto simp: UpdateReportStatus_def)

lemma UpdateReportStatus_ids [simp]: "map rp_ID (UpdateReportStatus up now i st k g e rows) = map rp_ID rows"
  by (simp add: UpdateReportStatus_def comp_def if_distrib cong: if_cong)

lemma UpdateReportStatus_orgs:
  assumes "r \<in> set rows"
  shows "\<exists>r'\<in>set (UpdateReportStatus up now i st k g e rows). rp_ID r' = rp_ID r \<and> rp_OrgID r' = rp_OrgID r"
proof (cases "up \<and> rp_ID r = i")
  case True
  then have "set_status now st k g e r \<in> set (UpdateReportStatus up now i st k g e rows)" using assms by (simp add: UpdateReportStatus_set)
  then show ?thesis by (intro bexI) simp_all
next
  case False
  then have "r \<in> set (UpdateReportStatus up now i st k g e rows)" using assms by (auto simp: UpdateReportStatus_set)
  then show ?thesis by blast
qed

lemma UpdateReportStatus_other: "r \<in> set rows \<Longrightarrow> rp_ID r \<noteq> i \<Longrightarrow> r \<in> set (UpdateReportStatus up now i st k g e rows)"
  by (simp add: UpdateReportStatus_set)

lemma UpdateReportStatus_row_ok:
  assumes "\<forall>r\<in>set rows. row_ok uu objs r" "st \<noteq> ''pending''"
    and "\<And>r. r \<in> set rows \<Longrightarrow> rp_ID r = i \<Longrightarrow> st = ''ready'' \<Longrightarrow> \<exists>org. uu org = Some (rp_OrgID r) \<and> k = report_key org i \<and> objs k \<noteq> None"
  shows "\<forall>r\<in>set (UpdateReportStatus up now i st k g e rows). row_ok uu objs r"
proof
  fix r assume "r \<in> set (UpdateReportStatus up now i st k g e rows)"
  then consider "r \<in> set rows" | r0 where "r0 \<in> set rows" "rp_ID r0 = i" "r = set_status now st k g e r0"
    by (auto simp: UpdateReportStatus_set split: if_splits)
  then show "row_ok uu objs r"
  proof cases
    case 2
    then show ?thesis using assms(2) assms(3) [of r0] by (auto simp: row_ok_def)
  qed (use assms(1) in blast)
qed

text \<open>A table in order has no pending report that could be scanned, so the worker finds nothing to do.\<close>

lemma scan_reports_fail: "rs \<noteq> [] \<Longrightarrow> \<forall>r\<in>set rs. rp_S3Key r = None \<Longrightarrow> \<exists>e. scan_reports rs = Err e"
  by (cases rs) (auto simp: scan_report_def)

lemma worker_idle:
  assumes "\<forall>r\<in>set (cs_reports st). row_ok uu objs r"
  shows "worker_tick up ios st = st"
proof (cases "up \<and> filter (\<lambda>r. rp_Status r = ''pending'') (cs_reports st) \<noteq> []")
  case True
  let ?p = "sort_key rp_CreatedAt (filter (\<lambda>r. rp_Status r = ''pending'') (cs_reports st))"
  have "set ?p \<noteq> {}" using True by (auto simp: filter_empty_conv)
  then have "?p \<noteq> []" by force
  moreover have "\<forall>r\<in>set ?p. rp_S3Key r = None" using assms by (auto simp: row_ok_def)
  ultimately obtain e where "scan_reports ?p = Err e" using scan_reports_fail by blast
  then show ?thesis by (simp add: worker_tick_def GetPendingReports_def True)
next
  case False
  then have "GetPendingReports up (cs_reports st) \<in> {Err ''postgres'', Ok []}" unfolding GetPendingReports_def by (cases up) auto
  then show ?thesis unfolding worker_tick_def by auto
qed

subsection \<open>The invariant of report jobs\<close>

lemma find_unique: "x \<in> set xs \<Longrightarrow> P x \<Longrightarrow> (\<And>y. y \<in> set xs \<Longrightarrow> P y \<Longrightarrow> y = x) \<Longrightarrow> find P xs = Some x"
  by (metis find_None_all find_Some_iff_set not_None_eq)

lemma CreateReportH_cases:
  assumes "CreateReportH io ctx body st = (rs, st')"
  obtains "st' = st"
  | row job where "rp_ID row \<notin> rp_ID ` set (cs_reports st)" "rp_Status row = ''pending''" "rp_S3Key row = None"
      "rj_ID job = rp_ID row" "co_uuid io (rj_OrgID job) = Some (rp_OrgID row)" "rj_phase job = JobQueued"
      "cs_reports st' = cs_reports st @ [row]" "cs_objects st' = cs_objects st"
      "cs_running st' = cs_running st \<or> cs_running st' = cs_running st @ [job]"
proof (cases "st' = st")
  case False
  then obtain framework where d: "dec_framework body = Some framework" using assms by (auto simp: CreateReportH_def split: option.splits)
  let ?rep = "\<lparr>cr_ID = co_id io, cr_OrgID = GetOrgID ctx, cr_Framework = framework, cr_Status = ''pending'', cr_S3Key = [], cr_S3SigKey = [],
                cr_ErrorMsg = [], cr_CreatedAt = co_now io, cr_UpdatedAt = co_now' io\<rparr>"
  let ?job = "\<lparr>rj_ID = co_id io, rj_OrgID = GetOrgID ctx, rj_Framework = framework, rj_phase = JobQueued\<rparr>"
  obtain rows where rows: "CreateReportJob (co_up io) (co_uuid io) ?rep (cs_reports st) = Ok rows"
    using assms d False by (auto simp: CreateReportH_def Let_def split: sum.splits)
  then obtain org where org: "co_uuid io (GetOrgID ctx) = Some org" "co_id io \<notin> rp_ID ` set (cs_reports st)"
    "rows = cs_reports st @ [\<lparr>rp_ID = co_id io, rp_OrgID = org, rp_Framework = framework, rp_Status = ''pending'',
       rp_S3Key = None, rp_S3SigKey = None, rp_ErrorMsg = None, rp_CreatedAt = co_now io, rp_UpdatedAt = co_now' io\<rparr>]" (is "_ = _ @ [?row]")
    by (auto simp: CreateReportJob_def split: option.splits if_splits)
  have "cs_reports st' = rows \<and> cs_objects st' = cs_objects st \<and> (cs_running st' = cs_running st \<or> cs_running st' = cs_running st @ [?job])"
    using assms d rows by (cases "TryAcquire (cs_bulkhead st)") (auto simp: CreateReportH_def Let_def Execute_def)
  then show ?thesis using that(2) [of ?row ?job] org by simp
qed (rule that(1))

lemma put_job_ids [simp]: "map rj_ID (put_job j js) = map rj_ID js"
  by (auto simp: put_job_def)

lemma put_job_set: "i \<in> set (put_job j js) \<Longrightarrow> i = j \<or> i \<in> set js"
  by (auto simp: put_job_def split: if_splits)

lemma job_start_fields:
  assumes "job_start io j st = (j', st')"
  shows "rj_ID j' = rj_ID j" "rj_OrgID j' = rj_OrgID j" "rj_phase j' = JobRendering" "cs_objects st' = cs_objects st"
    "cs_reports st' = UpdateReportStatus (gi_up1 io) (gi_now1 io) (rj_ID j) ''generating'' [] [] [] (cs_reports st)"
  using assms by (auto simp: job_start_def)

lemma job_render_fields:
  assumes "job_render io j st = (j', st')"
  shows "rj_ID j' = rj_ID j" "rj_OrgID j' = rj_OrgID j" "cs_reports st' = cs_reports st"
    "\<And>k. cs_objects st k \<noteq> None \<Longrightarrow> cs_objects st' k \<noteq> None"
    "\<exists>key sigKey err. rj_phase j' = JobDone ''failed'' key sigKey err \<or>
       rj_phase j' = JobDone ''ready'' key sigKey err \<and> key = report_key (rj_OrgID j) (rj_ID j) \<and> cs_objects st' key \<noteq> None"
  using assms by (auto simp: job_render_def Upload_def Let_def split: sum.splits option.splits prod.splits)

lemma job_finish_reports:
  "rj_phase j = JobDone status key sigKey err \<Longrightarrow>
   cs_reports (job_finish io j st) = UpdateReportStatus (gi_up2 io) (gi_now2 io) (rj_ID j) status key sigKey err (cs_reports st)"
  "cs_objects (job_finish io j st) = cs_objects st"
  by (auto split: job_phase.splits)

lemma comp_inv_job: "comp_inv uu st \<Longrightarrow> j \<in> set (cs_running st) \<Longrightarrow> job_ok uu (cs_reports st) (cs_objects st) j"
  by (simp add: comp_inv_def)

lemma comp_inv_keep_jobs:
  assumes "comp_inv uu st" "j \<in> set (cs_running st)" "\<And>k. cs_objects st k \<noteq> None \<Longrightarrow> objs k \<noteq> None"
    and "\<And>r. r \<in> set (cs_reports st) \<Longrightarrow> \<exists>r'\<in>set rows. rp_ID r' = rp_ID r \<and> rp_OrgID r' = rp_OrgID r"
  shows "job_ok uu rows objs j"
  using job_ok_mono [OF comp_inv_job [OF assms(1,2)]] assms(3,4) by blast

lemma create_inv:
  assumes inv: "comp_inv uu st" and "co_uuid io = uu" "CreateReportH io ctx body st = (rs, st')"
  shows "comp_inv uu st'"
  using assms(3)
proof (cases rule: CreateReportH_cases)
  case (2 row job)
  have fresh: "rj_ID j \<noteq> rp_ID row" if "j \<in> set (cs_running st)" for j
  proof -
    have "\<exists>r\<in>set (cs_reports st). rp_ID r = rj_ID j" using comp_inv_job [OF inv that] by (auto simp: job_ok_def)
    then show ?thesis using 2(1) by (metis image_eqI)
  qed
  have old: "job_ok uu (cs_reports st') (cs_objects st') j" if "j \<in> set (cs_running st)" for j
    by (rule comp_inv_keep_jobs [OF inv that]) (auto simp: 2(7,8))
  have new: "job_ok uu (cs_reports st') (cs_objects st') job" using 2 assms(2) by (auto simp: job_ok_def)
  have fresh': "rp_ID row \<notin> rj_ID ` set (cs_running st)" using fresh by (metis imageE)
  have jobs: "distinct (map rj_ID (cs_running st'))" "\<forall>j\<in>set (cs_running st'). job_ok uu (cs_reports st') (cs_objects st') j"
    using 2(9) inv fresh' 2(4) old new by (auto simp: comp_inv_def)
  have rows: "distinct (map rp_ID (cs_reports st'))" "\<forall>r\<in>set (cs_reports st'). row_ok uu (cs_objects st') r"
    using inv 2(1-3) by (auto simp: comp_inv_def row_ok_def 2(7,8))
  from jobs rows show ?thesis by (simp add: comp_inv_def)
qed (use inv in simp)

lemma start_inv:
  assumes inv: "comp_inv uu st" and j: "j \<in> set (cs_running st)" "rj_phase j = JobQueued" and "job_start io j st = (j', s')"
  shows "comp_inv uu (s'\<lparr>cs_running := put_job j' (cs_running st)\<rparr>)"
proof -
  note f = job_start_fields [OF assms(4)]
  have old: "job_ok uu (cs_reports s') (cs_objects s') i" if "i \<in> set (cs_running st)" for i
    by (rule comp_inv_keep_jobs [OF inv that]) (auto simp: f(4,5) UpdateReportStatus_orgs)
  have "job_ok uu (cs_reports s') (cs_objects s') j'" using old [OF j(1)] f(1-3) by (simp add: job_ok_def j(2))
  moreover have "\<forall>r\<in>set (cs_reports s'). row_ok uu (cs_objects s') r"
    unfolding f(4,5) by (rule UpdateReportStatus_row_ok) (use inv in \<open>auto simp: comp_inv_def\<close>)
  ultimately show ?thesis using inv old put_job_set unfolding comp_inv_def by (fastforce simp: f(5))
qed

lemma render_inv:
  assumes inv: "comp_inv uu st" and j: "j \<in> set (cs_running st)" and "job_render io j st = (j', s')"
  shows "comp_inv uu (s'\<lparr>cs_running := put_job j' (cs_running st)\<rparr>)"
proof -
  note f = job_render_fields [OF assms(3)]
  have old: "job_ok uu (cs_reports s') (cs_objects s') i" if "i \<in> set (cs_running st)" for i
    by (rule comp_inv_keep_jobs [OF inv that f(4)]) (auto simp: f(3))
  have "job_ok uu (cs_reports s') (cs_objects s') j'" using old [OF j] f(1,2,5) by (auto simp: job_ok_def)
  moreover have "\<forall>r\<in>set (cs_reports s'). row_ok uu (cs_objects s') r"
    using inv f(3,4) row_ok_mono unfolding comp_inv_def by metis
  ultimately show ?thesis using inv old put_job_set f(3) unfolding comp_inv_def by fastforce
qed

lemma finish_inv:
  assumes inv: "comp_inv uu st" and j: "j \<in> set (cs_running st)" and ph: "rj_phase j = JobDone status key sigKey err"
  shows "comp_inv uu ((job_finish io j st)\<lparr>cs_running := drop_job j (cs_running st)\<rparr>)"
proof -
  note jok = comp_inv_job [OF inv j] and f = job_finish_reports(1) [OF ph, of io st]
  have old: "job_ok uu (cs_reports (job_finish io j st)) (cs_objects st) i" if "i \<in> set (cs_running st)" for i
    by (rule comp_inv_keep_jobs [OF inv that]) (auto simp: f UpdateReportStatus_orgs simp del: job_finish.simps)
  have "\<forall>r\<in>set (cs_reports (job_finish io j st)). row_ok uu (cs_objects st) r"
    unfolding f
  proof (rule UpdateReportStatus_row_ok)
    fix r assume r: "r \<in> set (cs_reports st)" "rp_ID r = rj_ID j" "status = ''ready''"
    obtain r0 where "r0 \<in> set (cs_reports st)" "rp_ID r0 = rj_ID j" "uu (rj_OrgID j) = Some (rp_OrgID r0)" using jok by (auto simp: job_ok_def)
    moreover from this r inv have "r0 = r" by (auto simp: comp_inv_def distinct_map inj_on_def)
    ultimately show "\<exists>org. uu org = Some (rp_OrgID r) \<and> key = report_key org (rj_ID j) \<and> cs_objects st key \<noteq> None"
      using jok r(3) by (auto simp: job_ok_def ph)
  qed (use inv jok in \<open>auto simp: comp_inv_def job_ok_def ph\<close>)
  then show ?thesis using inv old unfolding comp_inv_def
    by (auto simp: drop_job_def distinct_map_filter f job_finish_reports(2) simp del: job_finish.simps)
qed

lemma tick_idle: "comp_inv uu st \<Longrightarrow> worker_tick up ios st = st"
  using worker_idle [of st uu "cs_objects st" up ios] by (simp add: comp_inv_def)

lemma comp_step_inv: "comp_step uu st st' \<Longrightarrow> comp_inv uu st \<Longrightarrow> comp_inv uu st'"
proof (induction rule: comp_step.induct)
  case (restart st n)
  then show ?case by (simp add: comp_inv_def)
qed (auto simp: tick_idle intro: create_inv start_inv render_inv finish_inv simp del: job_finish.simps)

interpretation cr: step_invariant "comp_step uu" "comp_inv uu" for uu
  by unfold_locales (erule comp_step_inv)

lemma comp_reach_inv: "(comp_step uu)\<^sup>*\<^sup>* (comp_init n) st \<Longrightarrow> comp_inv uu st"
  by (erule cr.reach_inv) (simp add: comp_inv_def comp_init_def)

text \<open>A step concerns one job at a time; a report without a job is left alone.\<close>

lemma orphan_step:
  assumes "comp_step uu s t" "comp_inv uu s \<and> r \<in> set (cs_reports s) \<and> rp_ID r \<notin> rj_ID ` set (cs_running s)"
  shows "r \<in> set (cs_reports t) \<and> rp_ID r \<notin> rj_ID ` set (cs_running t)"
  using assms
proof (induction rule: comp_step.induct)
  case (request io ctx body st rs st')
  from request(2) show ?case
  proof (cases rule: CreateReportH_cases)
    case (2 row job)
    then have "rp_ID r \<noteq> rj_ID job" using request(3) by (metis image_eqI)
    then show ?thesis using request(3) 2(7,9) by auto
  qed (use request(3) in simp)
next
  case (start j st io j' st')
  have "rp_ID r \<noteq> rj_ID j" using start by auto
  moreover have "rj_ID ` set (put_job j' (cs_running st)) = rj_ID ` set (cs_running st)" by (metis list.set_map put_job_ids)
  ultimately show ?case using start(4) job_start_fields(5) [OF start(3)] UpdateReportStatus_other by simp
next
  case (render j st io j' st')
  have "rj_ID ` set (put_job j' (cs_running st)) = rj_ID ` set (cs_running st)" by (metis list.set_map put_job_ids)
  then show ?case using render(4) job_render_fields(3) [OF render(3)] by simp
next
  case (finish j st status key sigKey err io)
  have "rp_ID r \<noteq> rj_ID j" using finish by auto
  then show ?case using finish(3) UpdateReportStatus_other
    by (auto simp: job_finish_reports(1) [OF finish(2)] drop_job_def simp del: job_finish.simps)
qed (auto simp: tick_idle)

text \<open>
  A report whose goroutine is gone stays as it is for ever: whatever
  requests, jobs, worker ticks and restarts follow, a pending or half-done report without a
  running job is never completed, since the worker cannot read a pending row.
\<close>

theorem abandoned_report_stays:
  assumes "(comp_step uu)\<^sup>*\<^sup>* (comp_init n) st" "r \<in> set (cs_reports st)" "rp_ID r \<notin> rj_ID ` set (cs_running st)" "(comp_step uu)\<^sup>*\<^sup>* st st'"
  shows "r \<in> set (cs_reports st')"
proof -
  have "comp_inv uu st' \<and> r \<in> set (cs_reports st') \<and> rp_ID r \<notin> rj_ID ` set (cs_running st')"
    using assms(4)
  proof (induction rule: rtranclp_induct)
    case base
    then show ?case using assms(2,3) comp_reach_inv [OF assms(1)] by blast
  next
    case (step s t)
    have "r \<in> set (cs_reports t) \<and> rp_ID r \<notin> rj_ID ` set (cs_running t)"
      using step(2,3) orphan_step by blast
    then show ?case using step comp_step_inv by blast
  qed
  then show ?thesis by blast
qed

text \<open>
  C36. A download leads to a document that exists: the endpoint redirects exactly
  for a ready report of the caller's tenant, to the address of the key under which the report's
  PDF was stored, in the folder of that tenant.
\<close>

theorem download_needs_stored_report:
  assumes reach: "(comp_step (co_uuid io))\<^sup>*\<^sup>* (comp_init n) st"
  shows "rs_code (DownloadReportH io ctx i st) = 302 \<longleftrightarrow>
     (\<exists>r org url. r \<in> set (cs_reports st) \<and> rp_Status r = ''ready'' \<and> co_uuid io (GetOrgID ctx) = Some (rp_OrgID r) \<and> co_uuid io i = Some (rp_ID r) \<and>
        co_up io \<and> co_uuid io org = Some (rp_OrgID r) \<and> cs_objects st (report_key org (rp_ID r)) \<noteq> None \<and>
        rp_S3Key r = Some (report_key org (rp_ID r)) \<and> co_presign io (report_key org (rp_ID r)) = Some url \<and>
        hget (rs_headers (DownloadReportH io ctx i st)) ''Location'' = url)" (is "?l \<longleftrightarrow> ?r")
proof
  note inv = comp_reach_inv [OF reach]
  assume ?l
  then obtain c url where c: "GetReport (co_up io) (co_uuid io) (GetOrgID ctx) i (cs_reports st) = Some c" "cr_Status c = ''ready''"
    "co_presign io (cr_S3Key c) = Some url"
    by (auto simp: DownloadReportH_def split: option.splits if_splits)
  then obtain r where r: "r \<in> set (cs_reports st)" "co_uuid io (GetOrgID ctx) = Some (rp_OrgID r)" "co_uuid io i = Some (rp_ID r)" "co_up io" "scan_report r = Some c"
    by (auto simp: GetReport_def split: option.splits if_splits dest!: find_Some_iff_set)
  then have s: "rp_Status r = ''ready''" "rp_S3Key r = Some (cr_S3Key c)" using c(2) by (auto simp: scan_report_def split: option.splits)
  have "row_ok (co_uuid io) (cs_objects st) r" using inv r(1) by (simp add: comp_inv_def)
  then obtain org where "co_uuid io org = Some (rp_OrgID r)" "cr_S3Key c = report_key org (rp_ID r)" "cs_objects st (report_key org (rp_ID r)) \<noteq> None"
    using s by (auto simp: row_ok_def)
  then show ?r using r s c by (intro exI [of _ r] exI [of _ org] exI [of _ url]) (simp add: DownloadReportH_def)
next
  note inv = comp_reach_inv [OF reach]
  assume ?r
  then obtain r org url where r: "r \<in> set (cs_reports st)" "rp_Status r = ''ready''" "co_uuid io (GetOrgID ctx) = Some (rp_OrgID r)" "co_uuid io i = Some (rp_ID r)"
    "co_up io" "rp_S3Key r = Some (report_key org (rp_ID r))" "co_presign io (report_key org (rp_ID r)) = Some url" by blast
  have "find (\<lambda>x. rp_ID x = rp_ID r \<and> rp_OrgID x = rp_OrgID r) (cs_reports st) = Some r"
    using inv r(1) by (intro find_unique) (auto simp: comp_inv_def distinct_map inj_on_def)
  moreover have "row_ok (co_uuid io) (cs_objects st) r" using inv r(1) by (simp add: comp_inv_def)
  then have "scan_report r \<noteq> None" using r(2) by (auto simp: row_ok_def)
  ultimately show ?l using r by (auto simp: DownloadReportH_def GetReport_def scan_report_def split: option.splits)
qed

subsection \<open>The bulkhead\<close>

lemma create_accepted:
  assumes "dec_framework body = Some framework" "framework \<in> {''gdpr'', ''soc2'', ''hipaa''}" "co_uuid io (GetOrgID ctx) = Some org" "co_up io"
    and "co_id io \<notin> rp_ID ` set (cs_reports st)" "bh_used (cs_bulkhead st) < bh_cap (cs_bulkhead st)"
  shows "\<exists>st'. CreateReportH io ctx body st = (c_json 202 (CJob (co_id io)), st') \<and> cs_bulkhead st' = cs_bulkhead st \<and>
     map rp_ID (cs_reports st') = map rp_ID (cs_reports st) @ [co_id io] \<and> map rj_ID (cs_running st') = map rj_ID (cs_running st) @ [co_id io]"
  using assms by (auto simp: CreateReportH_def Let_def CreateReportJob_def Execute_def TryAcquire_def Release_def)

text \<open>
  The bulkhead does not bound report generation: with one free slot, any
  number of requests in a row is accepted and each starts a goroutine.
\<close>

theorem report_jobs_unbounded:
  assumes "bh_used (cs_bulkhead st) < bh_cap (cs_bulkhead st)" "distinct (map (co_id \<circ> fst) reqs)"
    and "\<And>io ctx body. (io, ctx, body) \<in> set reqs \<Longrightarrow> co_up io \<and> co_uuid io (GetOrgID ctx) \<noteq> None \<and>
       dec_framework body \<in> {Some ''gdpr'', Some ''soc2'', Some ''hipaa''} \<and> co_id io \<notin> rp_ID ` set (cs_reports st)"
  shows "map rj_ID (cs_running (fold (\<lambda>(io, ctx, body) s. snd (CreateReportH io ctx body s)) reqs st)) =
     map rj_ID (cs_running st) @ map (co_id \<circ> fst) reqs"
  using assms
proof (induction reqs arbitrary: st)
  case (Cons q reqs)
  obtain io ctx body where q: "q = (io, ctx, body)" by (cases q)
  have ok: "co_up io" "co_uuid io (GetOrgID ctx) \<noteq> None" "dec_framework body \<in> {Some ''gdpr'', Some ''soc2'', Some ''hipaa''}"
    "co_id io \<notin> rp_ID ` set (cs_reports st)" using Cons.prems(3) [of io ctx body] by (auto simp: q)
  then obtain st' where st': "snd (CreateReportH io ctx body st) = st'" "cs_bulkhead st' = cs_bulkhead st"
    "map rp_ID (cs_reports st') = map rp_ID (cs_reports st) @ [co_id io]" "map rj_ID (cs_running st') = map rj_ID (cs_running st) @ [co_id io]"
    using create_accepted [of body _ io ctx _ st] Cons.prems(1) by fastforce
  have "map rj_ID (cs_running (fold (\<lambda>(io, ctx, body) s. snd (CreateReportH io ctx body s)) reqs st')) =
     map rj_ID (cs_running st') @ map (co_id \<circ> fst) reqs"
  proof (rule Cons.IH)
    show "bh_used (cs_bulkhead st') < bh_cap (cs_bulkhead st')" using Cons.prems(1) st'(2) by simp
    show "distinct (map (co_id \<circ> fst) reqs)" using Cons.prems(2) by (simp add: comp_def)
    fix io' ctx' body' assume m: "(io', ctx', body') \<in> set reqs"
    then have "co_id io' \<noteq> co_id io" using Cons.prems(2) by (auto simp: q image_iff)
    moreover have "rp_ID ` set (cs_reports st') = insert (co_id io) (rp_ID ` set (cs_reports st))"
      using st'(3) by (metis Un_insert_right list.set(1,2) list.set_map set_append sup_bot.right_neutral)
    ultimately show "co_up io' \<and> co_uuid io' (GetOrgID ctx') \<noteq> None \<and>
       dec_framework body' \<in> {Some ''gdpr'', Some ''soc2'', Some ''hipaa''} \<and> co_id io' \<notin> rp_ID ` set (cs_reports st')"
      using Cons.prems(3) [of io' ctx' body'] m by auto
  qed
  then show ?case by (simp add: q st'(1,4))
qed simp

subsection \<open>What reaches the statistics\<close>

text \<open>The tenant a message is stored under: the last string among the members whose name is \<open>orgid\<close> in some letter case.\<close>

fun named_org :: "string \<Rightarrow> (string \<times> json) list \<Rightarrow> string" where
  "named_org org [] = org"
| "named_org org ((k, j) # ms) = named_org (if key_is k ''orgid'' then (case j of JStr s \<Rightarrow> s | _ \<Rightarrow> org) else org) ms"

lemma cv_member_org:
  "cv_member k j e = Some e' \<Longrightarrow> cv_OrgID e' = (if key_is k ''orgid'' then (case j of JStr s \<Rightarrow> s | _ \<Rightarrow> cv_OrgID e) else cv_OrgID e)"
  by (cases j) (auto simp: cv_member_def key_is_def split: if_splits)

lemma dec_members_org: "dec_members cv_member ms e = Some e' \<Longrightarrow> cv_OrgID e' = named_org (cv_OrgID e) ms"
proof (induction ms arbitrary: e)
  case (Cons m ms)
  then show ?case by (cases m) (auto split: option.splits dest: cv_member_org)
qed simp

lemma named_org_append: "named_org org (ms @ ms') = named_org (named_org org ms) ms'"
  by (induction org ms rule: named_org.induct) simp_all

lemma named_org_put: "\<not> key_is k ''orgid'' \<Longrightarrow> named_org org (json_put k v ms) = named_org org ms"
proof -
  assume k: "\<not> key_is k ''orgid''"
  have "named_org org (filter (\<lambda>(k', _). k' \<noteq> k) ms) = named_org org ms"
    using k by (induction org ms rule: named_org.induct) auto
  then show ?thesis using k by (simp add: json_put_def named_org_append)
qed

lemma flush_event_org: "e \<in> set (flush_event now (Some (JObj ms))) \<Longrightarrow> cv_OrgID e = named_org [] ms"
proof -
  assume e: "e \<in> set (flush_event now (Some (JObj ms)))"
  then obtain e0 where e0: "dec_members cv_member ms zero_Event = Some e0" "cv_OrgID e = cv_OrgID e0"
    by (cases "dec_members cv_member ms zero_Event") (auto simp: flush_event_def dec_Event_def)
  then show ?thesis using dec_members_org [OF e0(1)] by (simp add: zero_Event_def)
qed

lemma stat_types_append: "stat_types org from to (d @ d') = stat_types org from to d @ stat_types org from to d'"
  by (simp add: stat_types_def)

lemma ingest_other_tenants:
  assumes "\<And>e. e \<in> set es \<Longrightarrow> cv_OrgID e \<noteq> tenant"
  shows "GetPosture perr now tenant (snd (IngestEvents err es db)) = GetPosture perr now tenant db \<and>
     GetStats perr tenant from to (snd (IngestEvents err es db)) = GetStats perr tenant from to db"
proof (cases err)
  case None
  have "recent_rows tenant now (snd (IngestEvents err es db)) = recent_rows tenant now db"
    using assms by (auto simp: IngestEvents_def None recent_rows_def remdups_filter [symmetric] sort_cols_def filter_empty_conv)
  moreover have "stat_types tenant from to (ch_daily (snd (IngestEvents err es db))) = stat_types tenant from to (ch_daily db)"
    using assms by (auto simp: IngestEvents_def None stat_types_def filter_empty_conv)
  ultimately show ?thesis by (simp add: GetPosture_def GetStats_def split: option.split)
qed (simp add: IngestEvents_def)

lemma ingest_named_org: "Ingest h orgID (Some (JObj ev)) now dlp ok = Accepted topic key ev' \<Longrightarrow> named_org [] ev' = named_org [] ev"
  by (auto simp: Ingest_def Let_def key_is_def ToLower_def ToLowerC_def named_org_put split: if_splits)

text \<open>
  Audit events are counted under the wrong tenant: what the audit service
  accepts for a tenant, with that tenant's \<open>org_id\<close>, is stored under the name in a member
  \<open>OrgID\<close> that the client may or may not have sent.  The posture and the statistics of every
  other tenant, the authenticated one included, do not change.
\<close>

theorem audit_events_miscounted:
  assumes "Ingest h orgID (Some (JObj ev)) now dlp ok = Accepted topic key ev'" "tenant \<noteq> named_org [] ev"
  shows "GetPosture err t tenant (cw_ch (cw_flush io [Some (JObj ev')] s)) = GetPosture err t tenant (cw_ch s) \<and>
     GetStats err tenant from to (cw_ch (cw_flush io [Some (JObj ev')] s)) = GetStats err tenant from to (cw_ch s)"
proof -
  let ?es = "flush_event (ci_now io) (Some (JObj ev'))"
  have other: "e \<in> set ?es \<Longrightarrow> cv_OrgID e \<noteq> tenant" for e using flush_event_org ingest_named_org [OF assms(1)] assms(2) by auto
  have "cw_ch (cw_flush io [Some (JObj ev')] s) \<in> {cw_ch s, snd (IngestEvents (ci_ingest io) ?es (cw_ch s))}"
    by (auto simp: cw_flush_def cw_commit_def Let_def split: prod.splits sum.splits)
  then show ?thesis using ingest_other_tenants [OF other] by (elim insertE emptyE) simp_all
qed

text \<open>
  A redelivered batch is counted once by the posture and twice by the
  statistics: the table replaces equal rows when it is read, the daily counts add up
  insertions.
\<close>

theorem redelivery_counted_twice:
  assumes "snd (IngestEvents None es \<lparr>ch_events = [], ch_daily = []\<rparr>) = db1" "snd (IngestEvents None es db1) = db2"
    and "GetStats None tenant from to db1 = Ok s1" "GetStats None tenant from to db2 = Ok s2"
  shows "GetPosture err now tenant db2 = GetPosture err now tenant db1 \<and> set s2 = (\<lambda>(t, n). (t, 2 * n)) ` set s1"
proof -
  have "set xs \<subseteq> set ys \<Longrightarrow> remdups (xs @ ys) = remdups ys" for xs ys :: "(string \<times> string \<times> time \<times> string) list"
    by (induction xs) auto
  then have p: "recent_rows tenant now db2 = recent_rows tenant now db1"
    using assms(1,2) by (auto simp: recent_rows_def IngestEvents_def)
  define ts where "ts = stat_types tenant from to (ch_daily db1)"
  have "stat_types tenant from to (ch_daily db2) = ts @ ts"
    using assms(1,2) by (auto simp: ts_def IngestEvents_def stat_types_append)
  then have "set s1 = (\<lambda>t. (t, length (filter ((=) t) ts))) ` set ts" "set s2 = (\<lambda>t. (t, length (filter ((=) t) ts) + length (filter ((=) t) ts))) ` set ts"
    using assms(3,4) by (auto simp: GetStats_def Let_def ts_def)
  then have "set s2 = (\<lambda>(t, n). (t, 2 * n)) ` set s1" by (simp add: image_image mult_2)
  then show ?thesis using p by (simp add: GetPosture_def split: option.split)
qed

subsection \<open>Batches\<close>

lemma feed_batch:
  "int (length (cw_batch s) + length b) < n \<Longrightarrow>
   fold (\<lambda>m. cw_round n io (CwMessage m)) b s = s\<lparr>cw_batch := cw_batch s @ b, cw_next := cw_next s + length b\<rparr>"
  by (induction b arbitrary: s) (simp_all add: Let_def)

text \<open>
  A batch that ClickHouse refused is lost when the next batch is stored: it
  is not kept for another attempt, and the commit of the next batch covers it.
\<close>

theorem refused_batch_lost:
  assumes "cw_batch s = []" "int (length b) < n" "int (length b') < n"
    and "ci_ingest io = Some err" "concat (map (flush_event (ci_now io)) b) \<noteq> []"
    and "ci_ingest io' = None" "ci_commit io'" "concat (map (flush_event (ci_now io')) b') \<noteq> []"
    and "s1 = cw_round n io CwTick (fold (\<lambda>m. cw_round n io (CwMessage m)) b s)"
    and "s2 = cw_round n io' CwTick (fold (\<lambda>m. cw_round n io' (CwMessage m)) b' s1)"
  shows "cw_committed s2 = cw_next s + length b + length b' \<and>
     cw_ch s2 = snd (IngestEvents None (concat (map (flush_event (ci_now io')) b')) (cw_ch s))"
proof -
  have b: "b \<noteq> []" "b' \<noteq> []" using assms(5,8) by auto
  have "s1 = s\<lparr>cw_next := cw_next s + length b\<rparr>"
    unfolding assms(9) using assms(1,2,4,5) b by (auto simp: feed_batch cw_flush_def Let_def IngestEvents_def)
  then show ?thesis
    unfolding assms(10) using assms(1,3,6-8) b by (auto simp: feed_batch cw_flush_def cw_commit_def Let_def IngestEvents_def)
qed

subsection \<open>Instances\<close>

definition co_ok :: comp_io where
  "co_ok = \<lparr>co_up = True, co_uuid = (\<lambda>s. if s = [] then None else Some s), co_ch = None, co_id = ''r1'', co_now = 0, co_now' = 0,
     co_presign = (\<lambda>k. Some (''https://s3/'' @ k))\<rparr>"

definition gen_ok :: gen_io where
  "gen_ok = \<lparr>gi_up1 = True, gi_now1 = 1, gi_stamp = ''t'', gi_scores = [], gi_pdf = (\<lambda>ls. Ok (concat ls)), gi_sign = Some (\<lambda>d. Some ''sig''),
     gi_put = None, gi_put_sig = None, gi_up2 = True, gi_now2 = 2\<rparr>"

definition o1_ctx :: req_ctx where
  "o1_ctx = empty_ctx\<lparr>cx_org_id := Some ''o1''\<rparr>"

definition soc2_body :: raw_json where
  "soc2_body = Some (JObj [(''framework'', JStr ''soc2'')])"

definition o1_job :: "job_phase \<Rightarrow> report_job" where
  "o1_job ph = \<lparr>rj_ID = ''r1'', rj_OrgID = ''o1'', rj_Framework = ''soc2'', rj_phase = ph\<rparr>"

definition requested :: comp_st where
  "requested = snd (CreateReportH co_ok o1_ctx soc2_body (comp_init 1))"

definition restarted :: comp_st where
  "restarted = requested\<lparr>cs_running := [], cs_bulkhead := NewBulkhead 1\<rparr>"

definition rendering :: comp_st where
  "rendering = (let (j, s) = job_start gen_ok (o1_job JobQueued) requested in s\<lparr>cs_running := put_job j (cs_running requested)\<rparr>)"

definition rendered_job :: report_job where
  "rendered_job = fst (job_render gen_ok (o1_job JobRendering) rendering)"

definition rendered :: comp_st where
  "rendered = (let (j, s) = job_render gen_ok (o1_job JobRendering) rendering in s\<lparr>cs_running := put_job j (cs_running rendering)\<rparr>)"

definition finished :: comp_st where
  "finished = (job_finish gen_ok rendered_job rendered)\<lparr>cs_running := drop_job rendered_job (cs_running rendered)\<rparr>"

lemma requested_step: "comp_step (co_uuid co_ok) (comp_init 1) requested"
  unfolding requested_def by (rule comp_step.request [OF refl surjective_pairing])

lemma requested_jobs: "cs_running requested = [o1_job JobQueued]" "map rp_ID (cs_reports requested) = [''r1'']"
  by code_simp+

lemma finished_reached: "(comp_step (co_uuid co_ok))\<^sup>*\<^sup>* (comp_init 1) finished"
proof -
  have "comp_step (co_uuid co_ok) requested rendering"
    unfolding rendering_def Let_def split_beta by (rule comp_step.start [OF _ _ surjective_pairing]) (simp_all add: requested_jobs o1_job_def)
  moreover have "comp_step (co_uuid co_ok) rendering rendered"
  proof -
    have "cs_running rendering = [o1_job JobRendering]" by code_simp
    then show ?thesis unfolding rendered_def Let_def split_beta by (intro comp_step.render [OF _ _ surjective_pairing]) (simp_all add: o1_job_def)
  qed
  moreover have "comp_step (co_uuid co_ok) rendered finished"
  proof -
    have j: "cs_running rendered = [rendered_job]"
      "rj_phase rendered_job = JobDone ''ready'' ''reports/o1/r1.pdf'' ''reports/o1/r1.pdf.sig'' []" by code_simp+
    show ?thesis unfolding finished_def by (rule comp_step.finish [OF _ j(2)]) (simp add: j(1))
  qed
  ultimately show ?thesis using requested_step by (meson converse_rtranclp_into_rtranclp rtranclp.rtrancl_refl)
qed

theorem abandoned_report_stays_witness:
  "hd (cs_reports requested) \<in> set (cs_reports (worker_tick True (\<lambda>_. gen_ok) restarted))"
proof (rule abandoned_report_stays)
  have "comp_step (co_uuid co_ok) requested restarted" unfolding restarted_def by (rule comp_step.restart)
  then show "(comp_step (co_uuid co_ok))\<^sup>*\<^sup>* (comp_init 1) restarted" using requested_step by (meson converse_rtranclp_into_rtranclp rtranclp.rtrancl_refl)
  show "(comp_step (co_uuid co_ok))\<^sup>*\<^sup>* restarted (worker_tick True (\<lambda>_. gen_ok) restarted)" by (intro r_into_rtranclp comp_step.tick)
  show "hd (cs_reports requested) \<in> set (cs_reports restarted)" using requested_jobs(2) by (cases "cs_reports requested") (simp_all add: restarted_def)
  show "rp_ID (hd (cs_reports requested)) \<notin> rj_ID ` set (cs_running restarted)" by (simp add: restarted_def)
qed

theorem download_needs_stored_report_witness:
  "\<exists>r\<in>set (cs_reports finished). \<exists>org. co_uuid co_ok org = Some (rp_OrgID r) \<and> cs_objects finished (report_key org (rp_ID r)) \<noteq> None"
proof -
  have "rs_code (DownloadReportH co_ok o1_ctx ''r1'' finished) = 302" by code_simp
  with download_needs_stored_report [OF finished_reached] show ?thesis by blast
qed

theorem report_jobs_unbounded_witness:
  "map rj_ID (cs_running (fold (\<lambda>(io, ctx, body) s. snd (CreateReportH io ctx body s))
     [(co_ok, o1_ctx, soc2_body), (co_ok\<lparr>co_id := ''r2''\<rparr>, o1_ctx, soc2_body), (co_ok\<lparr>co_id := ''r3''\<rparr>, o1_ctx, soc2_body)] (comp_init 1))) = [''r1'', ''r2'', ''r3'']"
proof (subst report_jobs_unbounded)
  have "dec_framework soc2_body = Some ''soc2''" by code_simp
  then show "\<And>io ctx body. (io, ctx, body) \<in> set [(co_ok, o1_ctx, soc2_body), (co_ok\<lparr>co_id := ''r2''\<rparr>, o1_ctx, soc2_body), (co_ok\<lparr>co_id := ''r3''\<rparr>, o1_ctx, soc2_body)] \<Longrightarrow>
     co_up io \<and> co_uuid io (GetOrgID ctx) \<noteq> None \<and> dec_framework body \<in> {Some ''gdpr'', Some ''soc2'', Some ''hipaa''} \<and> co_id io \<notin> rp_ID ` set (cs_reports (comp_init 1))"
    by (auto simp: co_ok_def o1_ctx_def comp_init_def GetOrgID_def ctx_str_def)
qed (simp_all add: comp_init_def NewBulkhead_def co_ok_def)

definition cw_ok :: "string option \<Rightarrow> cw_io" where
  "cw_ok err = \<lparr>ci_now = 40 * (24 * Hour), ci_ingest = err, ci_commit = True\<rparr>"

definition cw_empty :: cw_st where
  "cw_empty = \<lparr>cw_ch = \<lparr>ch_events = [], ch_daily = []\<rparr>, cw_batch = [], cw_next = 0, cw_committed = 0\<rparr>"

theorem audit_events_miscounted_witness:
  "\<exists>ev'. Ingest (NewIngestHandler [] []) ''o1'' (Some (JObj [(''type'', JStr ''auth.login''), (''orgId'', JStr ''o2'')])) 7 (\<lambda>_. ReplyErr) True =
       Accepted ''audit.trail'' ''evt-7'' ev' \<and>
     GetPosture None (41 * (24 * Hour)) ''o1'' (cw_ch (cw_flush (cw_ok None) [Some (JObj ev')] cw_empty)) = GetPosture None (41 * (24 * Hour)) ''o1'' (cw_ch cw_empty) \<and>
     GetPosture None (41 * (24 * Hour)) ''o2'' (cw_ch (cw_flush (cw_ok None) [Some (JObj ev')] cw_empty)) = Ok [(''GDPR'', 3), (''SOC2'', 2), (''HIPAA'', 2)]"
proof -
  let ?ev = "[(''type'', JStr ''auth.login''), (''orgId'', JStr ''o2''), (''org_id'', JStr ''o1''), (''event_id'', JStr ''evt-7'')]"
  have i: "Ingest (NewIngestHandler [] []) ''o1'' (Some (JObj [(''type'', JStr ''auth.login''), (''orgId'', JStr ''o2'')])) 7 (\<lambda>_. ReplyErr) True =
       Accepted ''audit.trail'' ''evt-7'' ?ev" and n: "''o1'' \<noteq> named_org [] [(''type'', JStr ''auth.login''), (''orgId'', JStr ''o2'')]"
    and p: "GetPosture None (41 * (24 * Hour)) ''o2'' (cw_ch (cw_flush (cw_ok None) [Some (JObj ?ev)] cw_empty)) = Ok [(''GDPR'', 3), (''SOC2'', 2), (''HIPAA'', 2)]"
    by code_simp+
  from audit_events_miscounted [OF i n] i p show ?thesis by blast
qed

definition login_event :: Event where
  "login_event = zero_Event\<lparr>cv_OrgID := ''o1'', cv_Type := ''auth.login'', cv_OccurredAt := 0\<rparr>"

theorem redelivery_counted_twice_witness:
  "let db1 = snd (IngestEvents None [login_event] \<lparr>ch_events = [], ch_daily = []\<rparr>); db2 = snd (IngestEvents None [login_event] db1)
   in GetStats None ''o1'' 0 0 db1 = Ok [(''auth.login'', 1)] \<and> GetStats None ''o1'' 0 0 db2 = Ok [(''auth.login'', 2)] \<and>
      GetPosture None 1 ''o1'' db2 = GetPosture None 1 ''o1'' db1"
proof -
  let ?db1 = "snd (IngestEvents None [login_event] \<lparr>ch_events = [], ch_daily = []\<rparr>)"
  have "GetStats None ''o1'' 0 0 ?db1 = Ok [(''auth.login'', 1)]" "GetStats None ''o1'' 0 0 (snd (IngestEvents None [login_event] ?db1)) = Ok [(''auth.login'', 2)]"
    by code_simp+
  with redelivery_counted_twice [OF refl refl this] show ?thesis by (auto simp: Let_def)
qed

theorem refused_batch_lost_witness:
  "cw_committed (cw_round 10 (cw_ok None) CwTick (cw_round 10 (cw_ok None) (CwMessage (Some (JObj [(''type'', JStr ''b'')])))
     (cw_round 10 (cw_ok (Some ''down'')) CwTick (cw_round 10 (cw_ok (Some ''down'')) (CwMessage (Some (JObj [(''type'', JStr ''a'')]))) cw_empty)))) = 2"
proof -
  have "flush_event t (Some (JObj [(''type'', JStr x)])) \<noteq> []" for t x
    by (simp add: flush_event_def dec_Event_def cv_member_def key_is_def ToLower_def ToLowerC_def)
  with refused_batch_lost [of cw_empty "[Some (JObj [(''type'', JStr ''a'')])]" 10 "[Some (JObj [(''type'', JStr ''b'')])]" "cw_ok (Some ''down'')" "''down''" "cw_ok None",
    OF _ _ _ _ _ _ _ _ refl refl] show ?thesis
    by (simp add: cw_empty_def cw_ok_def)
qed

end
