(* ===== verification/IAM_Federation.thy ===== *)
theory IAM_Federation
  imports IAM_Handlers
begin

text \<open>
  Logins of the IAM service that rest on a third party: SAML 2.0
  (pkg/handlers/saml.go, pkg/service/saml.go, pkg/repository/repository_saml.go)
  and WebAuthn (the first part of pkg/service/mfa.go,
  pkg/repository/repository_webauthn.go and the endpoints in pkg/handlers/handler.go).

  What crewjam/saml and go-webauthn decide is a parameter: whether a stored
  provider makes a service provider, the assertion a request carries, the
  metadata documents, and the two WebAuthn ceremonies with the session text they
  keep.  The policies of the two tables compare the row's tenant with the same
  setting as the others.
\<close>

subsection \<open>Tables\<close>

record SAMLProvider =
  sp_ID :: string
  sp_OrgID :: string
  sp_EntityID :: string
  sp_SSOURL :: string
  sp_SLOURL :: string
  sp_MetadataXML :: string
  sp_CertPEM :: string
  sp_KeyPEM :: string
  sp_NameIDFormat :: string
  sp_AttributeMap :: raw_json
  sp_Enabled :: bool
  sp_CreatedAt :: time
  sp_UpdatedAt :: time

record WebAuthnCredential =
  wc_CredentialID :: string
  wc_PublicKey :: string
  wc_AttestationType :: string
  wc_SignCount :: int

record wa_row =
  wr_OrgID :: string
  wr_UserID :: string
  wr_cred :: WebAuthnCredential

record fed_st =
  fs_iam :: iam_st
  fs_saml :: "SAMLProvider list"
  fs_wa :: "wa_row list"

text \<open>One provider per tenant: the insert replaces the columns of an existing row, but not its id and creation time.\<close>

definition UpsertSAMLProvider :: "iam_env \<Rightarrow> string \<Rightarrow> string \<Rightarrow> SAMLProvider \<Rightarrow> fed_st \<Rightarrow> (repo_error, SAMLProvider \<times> fed_st) result" where
  "UpsertSAMLProvider env new_id orgID p st =
     withOrgContext env ''UpsertSAMLProvider'' orgID (\<lambda>conn. exec_uuid env ''UpsertSAMLProvider'' orgID (\<lambda>org.
       if \<not> sees env conn org \<or> org \<notin> org_id ` set (orgs (st_db (fs_iam st))) \<or> new_id \<in> sp_ID ` set (fs_saml st) then Err (RepoErr ''upsert saml provider'')
       else let row = p\<lparr>sp_ID := new_id, sp_OrgID := org, sp_CreatedAt := ie_now env, sp_UpdatedAt := ie_now env\<rparr> in
         (case find (\<lambda>q. sp_OrgID q = org) (fs_saml st) of
            None \<Rightarrow> Ok (row, st\<lparr>fs_saml := fs_saml st @ [row]\<rparr>)
          | Some q \<Rightarrow> (let row' = row\<lparr>sp_ID := sp_ID q, sp_CreatedAt := sp_CreatedAt q\<rparr>
               in Ok (row', st\<lparr>fs_saml := map (\<lambda>q. if sp_OrgID q = org then row' else q) (fs_saml st)\<rparr>)))))"

definition GetSAMLProvider :: "iam_env \<Rightarrow> string \<Rightarrow> fed_st \<Rightarrow> (repo_error, SAMLProvider) result" where
  "GetSAMLProvider env orgID st =
     withOrgContext env ''GetSAMLProvider'' orgID (\<lambda>conn. exec_uuid env ''GetSAMLProvider'' orgID (\<lambda>org.
       case find (\<lambda>q. sees env conn (sp_OrgID q) \<and> sp_OrgID q = org) (fs_saml st) of None \<Rightarrow> Err NotFound | Some q \<Rightarrow> Ok q))"

definition ListSAMLProviders :: "iam_env \<Rightarrow> string \<Rightarrow> fed_st \<Rightarrow> (repo_error, SAMLProvider list) result" where
  "ListSAMLProviders env orgID st =
     withOrgContext env ''ListSAMLProviders'' orgID (\<lambda>conn. exec_uuid env ''ListSAMLProviders'' orgID (\<lambda>org.
       Ok (sort_key (\<lambda>q. - sp_CreatedAt q) (filter (\<lambda>q. sees env conn (sp_OrgID q) \<and> sp_OrgID q = org) (fs_saml st)))))"

definition SaveWebAuthnCredential :: "iam_env \<Rightarrow> string \<Rightarrow> string \<Rightarrow> WebAuthnCredential \<Rightarrow> fed_st \<Rightarrow> (repo_error, fed_st) result" where
  "SaveWebAuthnCredential env orgID userID cred st =
     withOrgContext env ''SaveWebAuthnCredential'' orgID (\<lambda>conn. exec_uuid env ''SaveWebAuthnCredential'' orgID (\<lambda>org.
       exec_uuid env ''SaveWebAuthnCredential'' userID (\<lambda>uid.
         let same = (\<lambda>r. wr_UserID r = uid \<and> wc_CredentialID (wr_cred r) = wc_CredentialID cred) in
         if \<not> sees env conn org \<or> org \<notin> org_id ` set (orgs (st_db (fs_iam st))) \<or> uid \<notin> u_ID ` set (users (st_db (fs_iam st))) \<or>
            (\<exists>r\<in>set (fs_wa st). same r \<and> \<not> sees env conn (wr_OrgID r)) then Err (RepoErr ''webauthn_credentials'')
         else if \<exists>r\<in>set (fs_wa st). same r
         then Ok (st\<lparr>fs_wa := map (\<lambda>r. if same r then r\<lparr>wr_cred := (wr_cred r)\<lparr>wc_SignCount := wc_SignCount cred\<rparr>\<rparr> else r) (fs_wa st)\<rparr>)
         else Ok (st\<lparr>fs_wa := fs_wa st @ [\<lparr>wr_OrgID = org, wr_UserID = uid, wr_cred = cred\<rparr>]\<rparr>))))"

definition ListWebAuthnCredentials :: "iam_env \<Rightarrow> go_ctx \<Rightarrow> string \<Rightarrow> fed_st \<Rightarrow> (repo_error, WebAuthnCredential list) result" where
  "ListWebAuthnCredentials env ctx userID st =
     withOrgContext env ''ListWebAuthnCredentials'' (OrgID ctx) (\<lambda>conn. exec_uuid env ''ListWebAuthnCredentials'' userID (\<lambda>uid.
       Ok (map wr_cred (filter (\<lambda>r. sees env conn (wr_OrgID r) \<and> wr_UserID r = uid) (fs_wa st)))))"

subsection \<open>SAML: service\<close>

definition UpsertSAMLProviderS :: "auth_io \<Rightarrow> string \<Rightarrow> SAMLProvider \<Rightarrow> fed_st \<Rightarrow> (auth_error, SAMLProvider \<times> fed_st) result" where
  "UpsertSAMLProviderS io orgID p st =
     (if orgID = [] then Err (AuthErr ''org_id required'')
      else if sp_EntityID p = [] \<or> sp_SSOURL p = [] \<or> sp_MetadataXML p = [] then Err (AuthErr ''entity_id, sso_url, and metadata_xml are required'')
      else (case UpsertSAMLProvider (a_env io) (a_uuid io ''saml_provider'') orgID (p\<lparr>sp_Enabled := True\<rparr>) st of
         Inl e \<Rightarrow> Err (AuthRepo e) | Inr r \<Rightarrow> Ok r))"

definition ProvisionOrGetSAMLUser :: "auth_io \<Rightarrow> string \<Rightarrow> string \<Rightarrow> string \<Rightarrow> string \<Rightarrow> iam_st \<Rightarrow> (auth_error, User) result \<times> iam_st" where
  "ProvisionOrGetSAMLUser io orgID nameID email displayName st =
     (case GetUserByExternalID (a_env io) (a_ctx io) (st_db st) orgID nameID of
        Inr existing \<Rightarrow> (Ok existing, st)
      | Inl _ \<Rightarrow>
          (case (if email \<noteq> [] then GetUserByEmail (a_env io) (st_db st) email else Err NotFound) of
             Inr byEmail \<Rightarrow> (Ok byEmail,
               (case UpdateUserSCIM (a_env io) (a_ctx io) (st_db st) (u_ID byEmail) nameID ''active'' of Inl _ \<Rightarrow> st | Inr db \<Rightarrow> st\<lparr>st_db := db\<rparr>))
           | Inl _ \<Rightarrow>
               (case CreateUser (a_env io) (st_db st) (a_uuid io ''user'') orgID email [] (if displayName = [] then email else displayName) ''member'' ''active'' of
                  Inl e \<Rightarrow> (Err (AuthErr ''saml jit provision''), st)
                | Inr (userID, db1) \<Rightarrow>
                    (case UpdateUserSCIM (a_env io) (a_ctx io) db1 userID nameID ''active'' of
                       Inl e \<Rightarrow> (Err (AuthErr ''saml link external id''), st\<lparr>st_db := db1\<rparr>)
                     | Inr db2 \<Rightarrow>
                         (case GetUserByID (a_env io) (a_ctx io) db2 userID of
                            Inl e \<Rightarrow> (Err (AuthRepo e), st\<lparr>st_db := db2\<rparr>)
                          | Inr u \<Rightarrow> (Ok u, st\<lparr>st_db := db2\<rparr>))))))"

subsection \<open>SAML: handlers\<close>

text \<open>The parts of an assertion that the handler reads; the name id may be absent.\<close>

record saml_assertion =
  sa_ID :: string
  sa_NotOnOrAfter :: time
  sa_NameID :: "string option"
  sa_Attributes :: "(string \<times> string list) list"

record saml_lib =
  sl_builds :: "SAMLProvider \<Rightarrow> bool"
  sl_metadata :: "SAMLProvider \<Rightarrow> string option"
  sl_parse :: "SAMLProvider \<Rightarrow> http_req \<Rightarrow> saml_assertion option"
  sl_idp :: "string \<Rightarrow> (string \<times> (string \<times> string) list) option"
  sl_keypair :: "(string \<times> string) option"

datatype fed_body = FIam iam_body | FProvider SAMLProvider | FProviders "SAMLProvider list" | FXml string | FEmpty

definition fed_error :: "int \<Rightarrow> string \<Rightarrow> fed_body http_resp" where
  "fed_error status reason = \<lparr>rs_code = status, rs_headers = hset [] ''Content-Type'' ''application/json'', rs_body = FIam (IError reason)\<rparr>"

definition fed_json :: "int \<Rightarrow> fed_body \<Rightarrow> fed_body http_resp" where
  "fed_json status b = \<lparr>rs_code = status, rs_headers = hset [] ''Content-Type'' ''application/json'', rs_body = b\<rparr>"

definition SAMLMetadataH :: "auth_io \<Rightarrow> saml_lib \<Rightarrow> http_req \<Rightarrow> fed_st \<Rightarrow> fed_body http_resp" where
  "SAMLMetadataH io lib rq st =
     (let orgID = Query rq ''org_id'' in
      if orgID = [] then fed_error 400 ''org_id required''
      else (case GetSAMLProvider (a_env io) orgID st of
        Inl _ \<Rightarrow> fed_error 404 ''SAML provider not configured''
      | Inr provider \<Rightarrow>
          if \<not> sl_builds lib provider then fed_error 500 ''internal error''
          else (case sl_metadata lib provider of
             None \<Rightarrow> fed_error 500 ''failed to generate metadata''
           | Some xml \<Rightarrow> \<lparr>rs_code = 200, rs_headers = hset [] ''Content-Type'' ''application/samlmetadata+xml'', rs_body = FXml xml\<rparr>)))"

text \<open>The attributes in order; the provider may name further attributes for the two fields.\<close>

definition attr_name :: "raw_json \<Rightarrow> string \<Rightarrow> string" where
  "attr_name m k = (case m of Some (JObj ms) \<Rightarrow> json_str ms k | _ \<Rightarrow> [])"

definition read_attr :: "raw_json \<Rightarrow> string \<times> string list \<Rightarrow> string \<times> string \<Rightarrow> string \<times> string" where
  "read_attr m attr ed =
     (case (attr, ed) of ((name, vals), (email, displayName)) \<Rightarrow>
        if name = ''email'' \<or> name = attr_name m ''email'' then (if vals \<noteq> [] then (hd vals, displayName) else (email, displayName))
        else if name = ''displayName'' \<or> name = ''name'' \<or> name = attr_name m ''displayName'' then (if vals \<noteq> [] then (email, hd vals) else (email, displayName))
        else (email, displayName))"

definition replay_key :: "string \<Rightarrow> string" where
  "replay_key assertionID = ''saml:assertion:'' @ assertionID"

definition saml_cookie :: "bool \<Rightarrow> string \<Rightarrow> headers" where
  "saml_cookie secure token = hset [] ''Set-Cookie'' (''og_session='' @ token @ ''; Path=/; Max-Age=28800; HttpOnly'' @
     (if secure then ''; Secure'' else []) @ ''; SameSite=Lax'')"

definition saml_session :: "auth_io \<Rightarrow> SAMLProvider \<Rightarrow> saml_assertion \<Rightarrow> string \<Rightarrow> string \<Rightarrow> fed_st \<Rightarrow> fed_body http_resp \<times> fed_st" where
  "saml_session io provider a orgID nameID st =
     (let (email, displayName) = fold (read_attr (sp_AttributeMap provider)) (sa_Attributes a) (nameID, []) in
      case ProvisionOrGetSAMLUser io orgID nameID email displayName (fs_iam st) of
        (Inl _, iam) \<Rightarrow> (fed_error 500 ''user provisioning failed'', st\<lparr>fs_iam := iam\<rparr>)
      | (Inr user, iam) \<Rightarrow>
          (let st1 = st\<lparr>fs_iam := iam\<rparr> in
           case SignToken io orgID (u_ID user) (''saml-'' @ itoa (a_clock io)) (8 * Hour) of
             Inl _ \<Rightarrow> (fed_error 500 ''token issuance failed'', st1)
           | Inr token \<Rightarrow>
               (let dashboardURL = (if a_getenv io ''OPENGUARD_DASHBOARD_URL'' = [] then ''http://localhost:4200'' else a_getenv io ''OPENGUARD_DASHBOARD_URL'')
                in (\<lparr>rs_code = 302, rs_headers = hset (saml_cookie (a_getenv io ''NODE_ENV'' = ''production'') token) ''Location'' (dashboardURL @ ''/dashboard''),
                     rs_body = FEmpty\<rparr>, st1))))"

definition SAMLAssertionConsumerServiceH :: "auth_io \<Rightarrow> saml_lib \<Rightarrow> http_req \<Rightarrow> fed_st \<Rightarrow> fed_body http_resp \<times> fed_st" where
  "SAMLAssertionConsumerServiceH io0 lib rq st =
     (let io = req_io io0 rq in
      case rq_form rq of
        None \<Rightarrow> (fed_error 400 ''bad request'', st)
      | Some form \<Rightarrow>
          (let orgID = hget form ''RelayState'' in
           if orgID = [] then (fed_error 400 ''missing RelayState (org_id)'', st)
           else (case GetSAMLProvider (a_env io) orgID st of
             Inl _ \<Rightarrow> (fed_error 401 ''SAML provider not configured or disabled'', st)
           | Inr provider \<Rightarrow>
               if \<not> sp_Enabled provider then (fed_error 401 ''SAML provider not configured or disabled'', st)
               else if \<not> sl_builds lib provider then (fed_error 500 ''internal error'', st)
               else (case sl_parse lib provider rq of
                  None \<Rightarrow> (fed_error 401 ''invalid SAML response'', st)
                | Some a \<Rightarrow>
                    (let ttl = sa_NotOnOrAfter a - a_clock io in
                     if ttl \<le> 0 then (fed_error 401 ''expired assertion'', st)
                     else (case st_rdb (fs_iam st) of
                       None \<Rightarrow> (\<lparr>rs_code = 500, rs_headers = [], rs_body = FIam IPanic\<rparr>, st)
                     | Some r \<Rightarrow>
                         (case redis_do (a_redis io ''saml'') (rsetnx (a_clock io) (replay_key (sa_ID a)) (RText ''1'') ttl) r of
                            (Some True, r') \<Rightarrow>
                              (let st1 = st\<lparr>fs_iam := (fs_iam st)\<lparr>st_rdb := Some r'\<rparr>\<rparr> in
                               case sa_NameID a of
                                 None \<Rightarrow> (\<lparr>rs_code = 500, rs_headers = [], rs_body = FIam IPanic\<rparr>, st1)
                               | Some nameID \<Rightarrow>
                                   if nameID = [] then (fed_error 401 ''SAML assertion missing NameID'', st1)
                                   else saml_session io provider a orgID nameID st1)
                          | (_, r') \<Rightarrow> (fed_error 401 ''assertion replay detected'', st\<lparr>fs_iam := (fs_iam st)\<lparr>st_rdb := Some r'\<rparr>\<rparr>))))))))"

definition sso_location :: "(string \<times> string) list \<Rightarrow> string" where
  "sso_location services = (case find (\<lambda>(b, _). b = ''urn:oasis:names:tc:SAML:2.0:bindings:HTTP-POST'') services of None \<Rightarrow> [] | Some (_, loc) \<Rightarrow> loc)"

record saml_request =
  sr_strs :: "string \<Rightarrow> string"
  sr_attribute_map :: raw_json

definition saml_member :: "string \<Rightarrow> json \<Rightarrow> saml_request \<Rightarrow> saml_request option" where
  "saml_member k j b =
     (if key_is k ''attribute_map'' then Some (b\<lparr>sr_attribute_map := Some j\<rparr>)
      else map_option (\<lambda>m. b\<lparr>sr_strs := m\<rparr>) (str_member [''entity_id'', ''sso_url'', ''slo_url'', ''metadata_xml''] k j (sr_strs b)))"

definition CreateSAMLProviderH :: "auth_io \<Rightarrow> saml_lib \<Rightarrow> http_req \<Rightarrow> fed_st \<Rightarrow> fed_body http_resp \<times> fed_st" where
  "CreateSAMLProviderH io lib rq st =
     (let orgID = GetOrgID (rq_ctx rq) in
      if orgID = [] then (fed_error 401 ''unauthorized'', st)
      else (case dec_struct saml_member \<lparr>sr_strs = (\<lambda>_. []), sr_attribute_map = None\<rparr> (rq_body rq) of
        None \<Rightarrow> (fed_error 400 ''invalid request body'', st)
      | Some body \<Rightarrow>
          if sr_strs body ''metadata_xml'' = [] then (fed_error 400 ''metadata_xml required'', st)
          else (case sl_idp lib (sr_strs body ''metadata_xml'') of
             None \<Rightarrow> (fed_error 400 ''invalid metadata_xml'', st)
           | Some (entity, services) \<Rightarrow>
               (case sl_keypair lib of
                  None \<Rightarrow> (fed_error 500 ''failed to generate SP credentials'', st)
                | Some (cert, key) \<Rightarrow>
                    (let p = \<lparr>sp_ID = [], sp_OrgID = orgID,
                           sp_EntityID = (if sr_strs body ''entity_id'' = [] then entity else sr_strs body ''entity_id''),
                           sp_SSOURL = (if sr_strs body ''sso_url'' = [] then sso_location services else sr_strs body ''sso_url''),
                           sp_SLOURL = sr_strs body ''slo_url'', sp_MetadataXML = sr_strs body ''metadata_xml'', sp_CertPEM = cert, sp_KeyPEM = key,
                           sp_NameIDFormat = ''urn:oasis:names:tc:SAML:1.1:nameid-format:emailAddress'',
                           sp_AttributeMap = (case sr_attribute_map body of None \<Rightarrow> Some (JObj []) | Some j \<Rightarrow> Some j),
                           sp_Enabled = True, sp_CreatedAt = zero_time, sp_UpdatedAt = zero_time\<rparr>
                     in case UpsertSAMLProviderS io orgID p st of
                       Inl _ \<Rightarrow> (fed_error 500 ''failed to save SAML provider'', st)
                     | Inr (saved, st') \<Rightarrow> (fed_json 201 (FProvider (saved\<lparr>sp_KeyPEM := []\<rparr>)), st'))))))"

definition ListSAMLProvidersH :: "auth_io \<Rightarrow> http_req \<Rightarrow> fed_st \<Rightarrow> fed_body http_resp" where
  "ListSAMLProvidersH io rq st =
     (let orgID = GetOrgID (rq_ctx rq) in
      if orgID = [] then fed_error 401 ''unauthorized''
      else (case ListSAMLProviders (a_env io) orgID st of
        Inl _ \<Rightarrow> fed_error 500 ''failed to list SAML providers''
      | Inr ps \<Rightarrow> fed_json 200 (FProviders (map (\<lambda>p. p\<lparr>sp_KeyPEM := []\<rparr>) ps))))"

subsection \<open>WebAuthn: service\<close>

text \<open>A credential as the library handles it: id and key as bytes, the counter as an unsigned 32-bit number.\<close>

record wa_credential =
  wk_ID :: string
  wk_PublicKey :: string
  wk_SignCount :: "32 word"

record WebAuthnUser =
  wu_id :: string
  wu_displayName :: string
  wu_name :: string
  wu_credentials :: "wa_credential list"

record wa_lib =
  wl_begin_reg :: "WebAuthnUser \<Rightarrow> (string \<times> string) option"
  wl_finish_reg :: "WebAuthnUser \<Rightarrow> string \<Rightarrow> http_req \<Rightarrow> (wa_credential \<times> string) option"
  wl_begin_login :: "WebAuthnUser \<Rightarrow> (string \<times> string) option"
  wl_finish_login :: "WebAuthnUser \<Rightarrow> string \<Rightarrow> http_req \<Rightarrow> bool"

text \<open>\<open>hex.DecodeString\<close> with its error ignored: what was decoded before the first bad pair.\<close>

fun hex_prefix :: "string \<Rightarrow> string" where
  "hex_prefix (a # b # r) = (case (hex_digit a, hex_digit b) of (Some x, Some y) \<Rightarrow> char_of (16 * x + y) # hex_prefix r | _ \<Rightarrow> [])"
| "hex_prefix _ = []"

definition wa_stored :: "wa_credential \<Rightarrow> string \<Rightarrow> WebAuthnCredential" where
  "wa_stored c attestation = \<lparr>wc_CredentialID = hex_encode (wk_ID c), wc_PublicKey = hex_encode (wk_PublicKey c),
     wc_AttestationType = attestation, wc_SignCount = sint (wk_SignCount c)\<rparr>"

definition wa_loaded :: "WebAuthnCredential \<Rightarrow> wa_credential" where
  "wa_loaded c = \<lparr>wk_ID = hex_prefix (wc_CredentialID c), wk_PublicKey = hex_prefix (wc_PublicKey c), wk_SignCount = word_of_int (wc_SignCount c)\<rparr>"

definition reg_key :: "string \<Rightarrow> string \<Rightarrow> string" where
  "reg_key userID sessionID = ''webauthn:reg:'' @ userID @ '':'' @ sessionID"

definition login_key :: "string \<Rightarrow> string \<Rightarrow> string" where
  "login_key userID sessionID = ''webauthn:login:'' @ userID @ '':'' @ sessionID"

definition set_rdb :: "iam_redis \<Rightarrow> fed_st \<Rightarrow> fed_st" where
  "set_rdb r st = st\<lparr>fs_iam := (fs_iam st)\<lparr>st_rdb := Some r\<rparr>\<rparr>"

text \<open>Storing the session of a ceremony; the key names the user and a fresh id.\<close>

definition keep_session :: "auth_io \<Rightarrow> (string \<Rightarrow> string) \<Rightarrow> string \<Rightarrow> string \<Rightarrow> fed_st \<Rightarrow> (auth_error, string \<times> string) result \<times> fed_st" where
  "keep_session io key session options st =
     (let sessionID = a_uuid io ''webauthn_session'' in
      case st_rdb (fs_iam st) of
        None \<Rightarrow> (Err NilRedis, st)
      | Some r \<Rightarrow>
          (case redis_do (a_redis io ''webauthn_set'') (\<lambda>r. ((), rset (a_clock io) (key sessionID) (RText session) (5 * Minute) r)) r of
             (None, r') \<Rightarrow> (Err (AuthErr ''redis''), set_rdb r' st)
           | (Some _, r') \<Rightarrow> (Ok (sessionID, options), set_rdb r' st)))"

definition BeginWebAuthnRegistration :: "auth_io \<Rightarrow> wa_lib option \<Rightarrow> string \<Rightarrow> fed_st \<Rightarrow> (auth_error, string \<times> string) result \<times> fed_st" where
  "BeginWebAuthnRegistration io w userID st =
     (case w of
        None \<Rightarrow> (Err (AuthErr ''webauthn not configured''), st)
      | Some lib \<Rightarrow>
          (case GetUserByID (a_env io) (a_ctx io) (st_db (fs_iam st)) userID of
             Inl e \<Rightarrow> (Err (AuthRepo e), st)
           | Inr user \<Rightarrow>
               (case wl_begin_reg lib \<lparr>wu_id = userID, wu_displayName = u_DisplayName user, wu_name = u_Email user, wu_credentials = []\<rparr> of
                  None \<Rightarrow> (Err (AuthErr ''webauthn''), st)
                | Some (session, options) \<Rightarrow> keep_session io (reg_key userID) session options st)))"

text \<open>Taking the session of a ceremony out of Redis.\<close>

definition take_session :: "auth_io \<Rightarrow> string \<Rightarrow> string \<Rightarrow> fed_st \<Rightarrow> (auth_error, string) result \<times> fed_st" where
  "take_session io key reason st =
     (case st_rdb (fs_iam st) of
        None \<Rightarrow> (Err NilRedis, st)
      | Some r \<Rightarrow>
          (case redis_do (a_redis io ''webauthn_getdel'') (rgetdel (a_clock io) key) r of
             (Some (Some (RText session)), r') \<Rightarrow> (Ok session, set_rdb r' st)
           | (_, r') \<Rightarrow> (Err (AuthErr reason), set_rdb r' st)))"

text \<open>The final DEL of a key without a session id; its outcome is ignored.\<close>

definition del_key :: "auth_io \<Rightarrow> string \<Rightarrow> fed_st \<Rightarrow> fed_st" where
  "del_key io key st = (case st_rdb (fs_iam st) of None \<Rightarrow> st
     | Some r \<Rightarrow> set_rdb (snd (redis_do (a_redis io ''webauthn_del'') (\<lambda>r. ((), r\<lparr>rk := (rk r)(key := None)\<rparr>)) r)) st)"

definition FinishWebAuthnRegistration :: "auth_io \<Rightarrow> wa_lib option \<Rightarrow> string \<Rightarrow> string \<Rightarrow> string \<Rightarrow> http_req \<Rightarrow> fed_st \<Rightarrow> (auth_error, unit) result \<times> fed_st" where
  "FinishWebAuthnRegistration io w orgID userID sessionID response st =
     (case w of
        None \<Rightarrow> (Err (AuthErr ''webauthn not configured''), st)
      | Some lib \<Rightarrow>
          (case take_session io (reg_key userID sessionID) ''registration session expired or invalid'' st of
             (Inl e, st1) \<Rightarrow> (Err e, st1)
           | (Inr session, st1) \<Rightarrow>
               (case GetUserByID (a_env io) (a_ctx io) (st_db (fs_iam st1)) userID of
                  Inl e \<Rightarrow> (Err (AuthRepo e), st1)
                | Inr user \<Rightarrow>
                    (case wl_finish_reg lib \<lparr>wu_id = userID, wu_displayName = u_DisplayName user, wu_name = u_Email user, wu_credentials = []\<rparr> session response of
                       None \<Rightarrow> (Err (AuthErr ''webauthn''), st1)
                     | Some (c, attestation) \<Rightarrow>
                         (case SaveWebAuthnCredential (a_env io) orgID userID (wa_stored c attestation) st1 of
                            Inl e \<Rightarrow> (Err (AuthRepo e), st1)
                          | Inr st2 \<Rightarrow> (Ok (), del_key io (''webauthn:reg:'' @ userID) st2))))))"

definition login_user :: "auth_io \<Rightarrow> User \<Rightarrow> fed_st \<Rightarrow> WebAuthnUser" where
  "login_user io user st =
     \<lparr>wu_id = u_ID user, wu_displayName = u_DisplayName user, wu_name = u_Email user,
      wu_credentials = map wa_loaded (case ListWebAuthnCredentials (a_env io) (a_ctx io) (u_ID user) st of Inl _ \<Rightarrow> [] | Inr cs \<Rightarrow> cs)\<rparr>"

definition BeginWebAuthnLogin :: "auth_io \<Rightarrow> wa_lib option \<Rightarrow> string \<Rightarrow> fed_st \<Rightarrow> (auth_error, string \<times> string) result \<times> fed_st" where
  "BeginWebAuthnLogin io w email st =
     (case w of
        None \<Rightarrow> (Err (AuthErr ''webauthn not configured''), st)
      | Some lib \<Rightarrow>
          (case GetUserByEmail (a_env io) (st_db (fs_iam st)) email of
             Inl e \<Rightarrow> (Err (AuthRepo e), st)
           | Inr user \<Rightarrow>
               (case wl_begin_login lib (login_user io user st) of
                  None \<Rightarrow> (Err (AuthErr ''webauthn''), st)
                | Some (session, options) \<Rightarrow> keep_session io (login_key (u_ID user)) session options st)))"

definition FinishWebAuthnLogin :: "auth_io \<Rightarrow> wa_lib option \<Rightarrow> string \<Rightarrow> string \<Rightarrow> string \<Rightarrow> string \<Rightarrow> http_req \<Rightarrow> fed_st \<Rightarrow>
    (auth_error, User \<times> TokenResponse) result \<times> fed_st" where
  "FinishWebAuthnLogin io w email sessionID userAgent addr response st =
     (case w of
        None \<Rightarrow> (Err (AuthErr ''webauthn not configured''), st)
      | Some lib \<Rightarrow>
          (case GetUserByEmail (a_env io) (st_db (fs_iam st)) email of
             Inl e \<Rightarrow> (Err (AuthRepo e), st)
           | Inr user \<Rightarrow>
               (case take_session io (login_key (u_ID user) sessionID) ''login session expired or invalid'' st of
                  (Inl e, st1) \<Rightarrow> (Err e, st1)
                | (Inr session, st1) \<Rightarrow>
                    if \<not> wl_finish_login lib (login_user io user st1) session response then (Err (AuthErr ''webauthn''), st1)
                    else (let st2 = del_key io (''webauthn:login:'' @ u_ID user) st1 in
                      case issue_for io user userAgent addr (fs_iam st2) of
                        (r, iam) \<Rightarrow> (r, st2\<lparr>fs_iam := iam\<rparr>)))))"

subsection \<open>WebAuthn: handlers\<close>

definition wa_failed :: "int \<Rightarrow> auth_error \<Rightarrow> fed_body http_resp" where
  "wa_failed status e = (if e = NilRedis then \<lparr>rs_code = 500, rs_headers = [], rs_body = FIam IPanic\<rparr> else fed_json status (FIam (IAuthErr e)))"

definition wa_begun :: "(auth_error, string \<times> string) result \<times> fed_st \<Rightarrow> fed_body http_resp \<times> fed_st" where
  "wa_begun r = (case r of
      (Inl e, st) \<Rightarrow> (wa_failed 500 e, st)
    | (Inr (sessionID, options), st) \<Rightarrow> (fed_json 200 (FIam (IFields [(''session_id'', sessionID), (''options'', options)])), st))"

definition WebAuthnBeginRegistrationH :: "auth_io \<Rightarrow> wa_lib option \<Rightarrow> http_req \<Rightarrow> fed_st \<Rightarrow> fed_body http_resp \<times> fed_st" where
  "WebAuthnBeginRegistrationH io w rq st = wa_begun (BeginWebAuthnRegistration (req_io io rq) w (GetUserID (rq_ctx rq)) st)"

definition WebAuthnFinishRegistrationH :: "auth_io \<Rightarrow> wa_lib option \<Rightarrow> http_req \<Rightarrow> fed_st \<Rightarrow> fed_body http_resp \<times> fed_st" where
  "WebAuthnFinishRegistrationH io w rq st =
     (let sessionID = Query rq ''session_id'' in
      if sessionID = [] then (fed_error 400 ''missing session_id'', st)
      else (case FinishWebAuthnRegistration (req_io io rq) w (GetOrgID (rq_ctx rq)) (GetUserID (rq_ctx rq)) sessionID rq st of
        (Inl e, st') \<Rightarrow> (wa_failed 400 e, st')
      | (Inr _, st') \<Rightarrow> (fed_json 200 (FIam (IFields [(''status'', ''registered'')])), st')))"

definition WebAuthnBeginLoginH :: "auth_io \<Rightarrow> wa_lib option \<Rightarrow> http_req \<Rightarrow> fed_st \<Rightarrow> fed_body http_resp \<times> fed_st" where
  "WebAuthnBeginLoginH io w rq st =
     (case dec_strs [''email''] (rq_body rq) of
        None \<Rightarrow> (fed_error 400 ''invalid request body'', st)
      | Some body \<Rightarrow> wa_begun (BeginWebAuthnLogin (req_io io rq) w (body ''email'') st))"

definition WebAuthnFinishLoginH :: "auth_io \<Rightarrow> wa_lib option \<Rightarrow> http_req \<Rightarrow> fed_st \<Rightarrow> fed_body http_resp \<times> fed_st" where
  "WebAuthnFinishLoginH io w rq st =
     (let email = Query rq ''email''; sessionID = Query rq ''session_id'' in
      if sessionID = [] then (fed_error 400 ''missing session_id'', st)
      else (case FinishWebAuthnLogin (req_io io rq) w email sessionID (UserAgentOf rq) (rq_remote rq) rq st of
        (Inl e, st') \<Rightarrow> (wa_failed 401 e, st')
      | (Inr (user, token), st') \<Rightarrow>
          (\<lparr>rs_code = 200, rs_headers = hset (session_cookie True (AccessToken token)) ''Content-Type'' ''application/json'',
            rs_body = FIam (ILogin (Some user) (Some token))\<rparr>, st')))"

subsection \<open>Accepting an assertion\<close>

lemma ProvisionOrGetSAMLUser_rdb: "st_rdb (snd (ProvisionOrGetSAMLUser io orgID nameID email dn st)) = st_rdb st"
proof (cases "GetUserByExternalID (a_env io) (a_ctx io) (st_db st) orgID nameID")
  case (Inl e)
  show ?thesis
  proof (cases "if email \<noteq> [] then GetUserByEmail (a_env io) (st_db st) email else Err NotFound")
    case (Inl e')
    show ?thesis unfolding ProvisionOrGetSAMLUser_def \<open>GetUserByExternalID _ _ _ _ _ = Inl e\<close> Inl
      by (simp split: sum.split prod.split)
  next
    case (Inr u)
    show ?thesis unfolding ProvisionOrGetSAMLUser_def \<open>GetUserByExternalID _ _ _ _ _ = Inl e\<close> Inr
      by (simp split: sum.split)
  qed
qed (simp add: ProvisionOrGetSAMLUser_def)

lemma saml_session_rdb: "st_rdb (fs_iam (snd (saml_session io p a orgID nameID st))) = st_rdb (fs_iam st)"
proof -
  obtain email dn where e: "fold (read_attr (sp_AttributeMap p)) (sa_Attributes a) (nameID, []) = (email, dn)" by fastforce
  obtain res iam where r: "ProvisionOrGetSAMLUser io orgID nameID email dn (fs_iam st) = (res, iam)" by fastforce
  then have "st_rdb iam = st_rdb (fs_iam st)" using ProvisionOrGetSAMLUser_rdb [of io orgID nameID email dn "fs_iam st"] by simp
  then show ?thesis by (cases res) (auto simp: saml_session_def e r Let_def split: sum.split)
qed

lemma acs_accepted:
  assumes "SAMLAssertionConsumerServiceH io0 lib rq st = (rs, st')" "rs_code rs = 302"
  obtains form provider a r nameID where "rq_form rq = Some form" "GetSAMLProvider (a_env io0) (hget form ''RelayState'') st = Ok provider"
    "sp_Enabled provider" "sl_parse lib provider rq = Some a" "a_clock io0 < sa_NotOnOrAfter a" "sa_NameID a = Some nameID" "nameID \<noteq> []"
    "st_rdb (fs_iam st) = Some r" "a_redis io0 ''saml'' = Delivered" "rget (a_clock io0) (replay_key (sa_ID a)) r = None"
    "(rs, st') = saml_session (req_io io0 rq) provider a (hget form ''RelayState'') nameID
       (set_rdb (rset (a_clock io0) (replay_key (sa_ID a)) (RText ''1'') (sa_NotOnOrAfter a - a_clock io0) r) st)"
proof -
  have io: "a_env (req_io io0 rq) = a_env io0" "a_clock (req_io io0 rq) = a_clock io0" "a_redis (req_io io0 rq) = a_redis io0"
    by (simp_all add: req_io_def)
  obtain form where form: "rq_form rq = Some form" and org: "hget form ''RelayState'' \<noteq> []"
    using assms by (auto simp: SAMLAssertionConsumerServiceH_def Let_def fed_error_def split: option.splits if_splits)
  obtain provider where p: "GetSAMLProvider (a_env io0) (hget form ''RelayState'') st = Ok provider" "sp_Enabled provider" "sl_builds lib provider"
    using assms form org by (auto simp: SAMLAssertionConsumerServiceH_def Let_def fed_error_def io split: sum.splits if_splits)
  obtain a where a: "sl_parse lib provider rq = Some a" "a_clock io0 < sa_NotOnOrAfter a"
    using assms form org p by (auto simp: SAMLAssertionConsumerServiceH_def Let_def fed_error_def io split: option.splits if_splits)
  obtain r where r: "st_rdb (fs_iam st) = Some r"
    using assms form org p a by (auto simp: SAMLAssertionConsumerServiceH_def Let_def io split: option.splits)
  have claim: "a_redis io0 ''saml'' = Delivered \<and> rget (a_clock io0) (replay_key (sa_ID a)) r = None"
    using assms form org p a r
    by (cases "a_redis io0 ''saml''") (auto simp: SAMLAssertionConsumerServiceH_def Let_def io fed_error_def redis_do_def rsetnx_def split: if_splits)
  then obtain nameID where n: "sa_NameID a = Some nameID" "nameID \<noteq> []"
    using assms form org p a r
    by (cases "sa_NameID a") (auto simp: SAMLAssertionConsumerServiceH_def Let_def io fed_error_def redis_do_def rsetnx_def split: if_splits)
  have "(rs, st') = saml_session (req_io io0 rq) provider a (hget form ''RelayState'') nameID
       (set_rdb (rset (a_clock io0) (replay_key (sa_ID a)) (RText ''1'') (sa_NotOnOrAfter a - a_clock io0) r) st)"
    using assms(1) form org p a r claim n
    by (simp add: SAMLAssertionConsumerServiceH_def Let_def io redis_do_def rsetnx_def set_rdb_def)
  then show ?thesis using that form p a r claim n by blast
qed

lemma redis_ttl_close: "d - Millisecond < redis_ttl d"
proof -
  have "d mod Millisecond < Millisecond" by (simp add: Millisecond_def)
  then have "d - Millisecond < d div Millisecond * Millisecond" unfolding minus_mod_eq_div_mult [symmetric] by linarith
  then show ?thesis by (auto simp: redis_ttl_def Millisecond_def)
qed

text \<open>
  C35. An assertion opens one session: once the consumer service has accepted it,
  the same assertion is refused at every later time but the last millisecond of its
  validity, as long as Redis keeps the key until it expires.
\<close>

theorem saml_assertion_single_use:
  assumes "SAMLAssertionConsumerServiceH io lib rq st = (rs, st')" "rs_code rs = 302"
  shows "\<exists>a r'. (\<exists>p. sl_parse lib p rq = Some a) \<and> st_rdb (fs_iam st') = Some r' \<and>
     (\<forall>io2 lib2 rq2 st2 r2. st_rdb (fs_iam st2) = Some r2 \<and> rk r2 (replay_key (sa_ID a)) = rk r' (replay_key (sa_ID a)) \<and>
        (\<forall>p. sl_parse lib2 p rq2 \<in> {None, Some a}) \<and> a_clock io2 \<notin> {sa_NotOnOrAfter a - Millisecond ..< sa_NotOnOrAfter a} \<longrightarrow>
        rs_code (fst (SAMLAssertionConsumerServiceH io2 lib2 rq2 st2)) \<noteq> 302)"
proof -
  obtain form provider a r nameID where f: "sl_parse lib provider rq = Some a"
    "(rs, st') = saml_session (req_io io rq) provider a (hget form ''RelayState'') nameID
       (set_rdb (rset (a_clock io) (replay_key (sa_ID a)) (RText ''1'') (sa_NotOnOrAfter a - a_clock io) r) st)"
    using acs_accepted [OF assms] by metis
  let ?r' = "rset (a_clock io) (replay_key (sa_ID a)) (RText ''1'') (sa_NotOnOrAfter a - a_clock io) r"
  have r': "st_rdb (fs_iam st') = Some ?r'"
    using f(2) saml_session_rdb [of "req_io io rq" provider a "hget form ''RelayState''" nameID "set_rdb ?r' st"] by (simp add: set_rdb_def) (metis snd_conv)
  have "rs_code (fst (SAMLAssertionConsumerServiceH io2 lib2 rq2 st2)) \<noteq> 302"
    if h: "st_rdb (fs_iam st2) = Some r2" "rk r2 (replay_key (sa_ID a)) = rk ?r' (replay_key (sa_ID a))" "\<forall>p. sl_parse lib2 p rq2 \<in> {None, Some a}"
      "a_clock io2 \<notin> {sa_NotOnOrAfter a - Millisecond ..< sa_NotOnOrAfter a}" for io2 lib2 rq2 st2 r2
  proof
    assume c: "rs_code (fst (SAMLAssertionConsumerServiceH io2 lib2 rq2 st2)) = 302"
    obtain rs2 st3 where run: "SAMLAssertionConsumerServiceH io2 lib2 rq2 st2 = (rs2, st3)" by fastforce
    obtain provider2 a2 where a2: "sl_parse lib2 provider2 rq2 = Some a2" "a_clock io2 < sa_NotOnOrAfter a2" "rget (a_clock io2) (replay_key (sa_ID a2)) r2 = None"
      using acs_accepted [OF run] c run h(1) by (metis fst_conv option.inject)
    then have "a2 = a" using h(3) by (metis insertE option.inject option.distinct(1) singletonD)
    then have "a_clock io2 < sa_NotOnOrAfter a - Millisecond" using a2(2) h(4) by auto
    then have "a_clock io2 < a_clock io + redis_ttl (sa_NotOnOrAfter a - a_clock io)" using redis_ttl_close [of "sa_NotOnOrAfter a - a_clock io"] by linarith
    then have "rget (a_clock io2) (replay_key (sa_ID a)) r2 \<noteq> None" using h(2) by (simp add: rget_def rset_def)
    then show False using a2(3) \<open>a2 = a\<close> by simp
  qed
  then show ?thesis using f(1) r' by blast
qed

definition linked :: "iam_env \<Rightarrow> string \<Rightarrow> User \<Rightarrow> User" where
  "linked env nameID u = u\<lparr>u_SCIMExternalID := Some nameID, u_Status := ''active'', u_Version := u_Version u + 1, u_UpdatedAt := ie_now env\<rparr>"

lemma find_first: "\<forall>u\<in>set us. \<not> P u \<Longrightarrow> P v \<Longrightarrow> find P (us @ v # vs) = Some v"
  by (induction us) auto

lemma provision_foreign:
  assumes users: "users (st_db st) = us @ v # vs" "u_Email v = email" "\<forall>u\<in>set us. u_Email u \<noteq> email" "u_Version v < int4_max"
      "\<forall>u\<in>set (us @ vs). u_ID u \<noteq> u_ID v" "\<forall>u\<in>set (users (st_db st)). u_SCIMExternalID u \<noteq> Some nameID" "email \<noteq> []"
    and env: "calm (a_env io)" "pg_uuid (ie_pg (a_env io)) (u_ID v) = Some (u_ID v)"
  shows "\<exists>db'. ProvisionOrGetSAMLUser io orgID nameID email dn st = (Ok (login_columns v), st\<lparr>st_db := db'\<rparr>) \<and>
     linked (a_env io) nameID v \<in> set (users db')"
proof -
  have flt: "ie_flt (a_env io) op = NoFault" and vis: "sees (a_env io) c org" for op c org using env(1) by (auto simp: calm_def sees_def)
  have "\<exists>e. GetUserByExternalID (a_env io) (a_ctx io) (st_db st) orgID nameID = Err e"
  proof (cases "pg_uuid (ie_pg (a_env io)) orgID")
    case (Some org)
    have "find (\<lambda>u. sees (a_env io) c (u_OrgID u) \<and> u_OrgID u = org \<and> u_SCIMExternalID u = Some nameID) (users (st_db st)) = None" for c
      using users(6) by (auto simp: find_None_iff)
    then show ?thesis using Some by (simp add: GetUserByExternalID_def getUser_def withOrgContext_def exec_uuid_def flt)
  qed (simp add: GetUserByExternalID_def getUser_def withOrgContext_def exec_uuid_def flt)
  moreover have "GetUserByEmail (a_env io) (st_db st) email = Ok (login_columns v)"
    using find_first [of us "\<lambda>u. u_Email u = email" v vs] users(1-3) by (simp add: GetUserByEmail_def flt)
  moreover have "version_room (a_env io) c (\<lambda>u. u_ID u = u_ID v) (st_db st)" for c
    using users(1,4,5) by (auto simp: version_room_def)
  then have "UpdateUserSCIM (a_env io) (a_ctx io) (st_db st) (u_ID v) nameID ''active'' =
      Ok (update_users (a_env io) (SetSessionVar idle_conn (OrgID (a_ctx io))) (\<lambda>u. u_ID u = u_ID v) (linked (a_env io) nameID) (st_db st))"
    by (simp add: UpdateUserSCIM_def withOrgContext_def exec_uuid_def flt env(2) linked_def [abs_def])
  ultimately show ?thesis using users(1,7)
    by (auto simp: ProvisionOrGetSAMLUser_def login_columns_def update_users_def vis)
qed

text \<open>
  A tenant's identity provider can name users of other tenants: if nobody
  has the asserted name id, the session is opened for the first user with the asserted email
  in any tenant, the token names that user in the asserting tenant, and that user's row is linked
  to the asserted name and set active.
\<close>

theorem saml_opens_foreign_accounts:
  assumes acc: "SAMLAssertionConsumerServiceH io lib rq st = (rs, st')" "rs_code rs = 302" "rq_form rq = Some form"
    and parse: "\<And>p. sl_parse lib p rq \<in> {None, Some a}" "sa_NameID a = Some nameID" "\<And>m. fst (fold (read_attr m) (sa_Attributes a) (nameID, [])) = email"
    and users: "users (st_db (fs_iam st)) = us @ v # vs" "u_Email v = email" "\<forall>u\<in>set us. u_Email u \<noteq> email" "u_Version v < int4_max"
      "\<forall>u\<in>set (us @ vs). u_ID u \<noteq> u_ID v" "\<forall>u\<in>set (users (st_db (fs_iam st))). u_SCIMExternalID u \<noteq> Some nameID" "email \<noteq> []"
    and env: "calm (a_env io)" "pg_uuid (ie_pg (a_env io)) (u_ID v) = Some (u_ID v)"
  shows "\<exists>token. SignToken io (hget form ''RelayState'') (u_ID v) (''saml-'' @ itoa (a_clock io)) (8 * Hour) = Ok token \<and>
     hget (rs_headers rs) ''Set-Cookie'' = hget (saml_cookie (a_getenv io ''NODE_ENV'' = ''production'') token) ''Set-Cookie'' \<and>
     linked (a_env io) nameID v \<in> set (users (st_db (fs_iam st')))"
proof -
  obtain form' provider a' r nameID' where f: "rq_form rq = Some form'" "sl_parse lib provider rq = Some a'" "sa_NameID a' = Some nameID'"
    "(rs, st') = saml_session (req_io io rq) provider a' (hget form' ''RelayState'') nameID'
       (set_rdb (rset (a_clock io) (replay_key (sa_ID a')) (RText ''1'') (sa_NotOnOrAfter a' - a_clock io) r) st)"
    using acs_accepted [OF acc(1,2)] by metis
  have same: "form' = form" "a' = a" "nameID' = nameID" using parse(1) [of provider] parse(2) f(1-3) acc(3) by auto
  let ?st = "set_rdb (rset (a_clock io) (replay_key (sa_ID a)) (RText ''1'') (sa_NotOnOrAfter a - a_clock io) r) st"
  obtain dn where dn: "fold (read_attr (sp_AttributeMap provider)) (sa_Attributes a) (nameID, []) = (email, dn)"
    using parse(3) by (metis prod.collapse)
  have io: "a_env (req_io io rq) = a_env io" "SignToken (req_io io rq) = SignToken io" "a_clock (req_io io rq) = a_clock io" "a_getenv (req_io io rq) = a_getenv io"
    by (auto simp: req_io_def SignToken_def fun_eq_iff)
  obtain db' where db': "ProvisionOrGetSAMLUser (req_io io rq) (hget form ''RelayState'') nameID email dn (fs_iam ?st) = (Ok (login_columns v), (fs_iam ?st)\<lparr>st_db := db'\<rparr>)"
    "linked (a_env io) nameID v \<in> set (users db')"
    using provision_foreign [of "fs_iam ?st" us v vs email nameID "req_io io rq" "hget form ''RelayState''" dn] users env by (auto simp: io set_rdb_def)
  have "u_ID (login_columns v) = u_ID v" by (simp add: login_columns_def)
  then show ?thesis using f(4) acc(2) db' dn
    by (auto simp: same saml_session_def Let_def io fed_error_def split: sum.splits)
qed

text \<open>The value of a cookie that a response sets, as the browser sends it back.\<close>

definition cookie_of :: "headers \<Rightarrow> string \<Rightarrow> string option" where
  "cookie_of h name = (let v = hget h ''Set-Cookie'' in
     if HasPrefix v (name @ ''='') then Some (takeWhile (\<lambda>c. c \<noteq> CHR '';'') (drop (length name + 1) v)) else None)"

text \<open>
  The session of a SAML login is not recognised: the consumer service names
  its cookie \<open>og_session\<close>, the middlewares read \<open>openguard_session\<close>, so the browser's next
  request is refused as one without a token.  The cookie of a WebAuthn login is read back in full.
\<close>

theorem saml_cookie_not_read:
  assumes "SAMLAssertionConsumerServiceH io lib rq st = (rs, st')" "rs_code rs = 302" "hget h ''Authorization'' = []"
    and "WebAuthnFinishLoginH io' w rq' fst1 = (rs', fst2)" "rs_body rs' = FIam (ILogin (Some u) (Some tok))" "CHR '';'' \<notin> set (AccessToken tok)"
  shows "AuthJWTWithBlocklist jl keyring bl now (cookie_of (rs_headers rs) ''openguard_session'') h ctx = Reject 401 ''Unauthorized: missing token'' \<and>
     extractToken (cookie_of (rs_headers rs') ''openguard_session'') h = AccessToken tok"
proof -
  obtain form provider a r nameID where "(rs, st') = saml_session (req_io io rq) provider a (hget form ''RelayState'') nameID
       (set_rdb (rset (a_clock io) (replay_key (sa_ID a)) (RText ''1'') (sa_NotOnOrAfter a - a_clock io) r) st)"
    using acs_accepted [OF assms(1,2)] by metis
  then have "\<exists>x. hget (rs_headers rs) ''Set-Cookie'' = ''og_session='' @ x"
    using assms(2) by (auto simp: saml_session_def saml_cookie_def Let_def fed_error_def split: prod.splits sum.splits)
  then have "cookie_of (rs_headers rs) ''openguard_session'' = None" by (auto simp: cookie_of_def HasPrefix_def)
  moreover have "hget (rs_headers rs') ''Set-Cookie'' = hget (session_cookie True (AccessToken tok)) ''Set-Cookie''"
    using assms(4,5) by (auto simp: WebAuthnFinishLoginH_def Let_def fed_error_def wa_failed_def fed_json_def split: if_splits prod.splits sum.splits)
  then have "cookie_of (rs_headers rs') ''openguard_session'' = Some (AccessToken tok)"
    using assms(6) by (simp add: cookie_of_def session_cookie_def HasPrefix_def takeWhile_append)
  ultimately show ?thesis using assms(3) by (simp add: AuthJWTWithBlocklist_def extractToken_def HasPrefix_def)
qed

subsection \<open>WebAuthn ceremonies\<close>

lemma issue_for_keeps:
  assumes "issue_for io u ua addr st = (Ok (user, tok), st')"
  shows "user = u \<and> st_rdb st' = st_rdb st"
proof -
  obtain res st1 where i: "IssueTokens io \<lparr>it_OrgID = u_OrgID u, it_UserID = u_ID u, it_UserAgent = ua, it_IPAddress = addr, it_FamilyID = a_uuid io ''family''\<rparr> st = (res, st1)"
    by fastforce
  then have "st_rdb st1 = st_rdb st" by (auto simp: IssueTokens_def Let_def split: sum.splits)
  then show ?thesis using assms i by (auto simp: issue_for_def split: sum.splits)
qed

lemma take_session_Ok:
  "take_session io key reason st = (Ok session, st') \<longleftrightarrow>
   (\<exists>r. st_rdb (fs_iam st) = Some r \<and> a_redis io ''webauthn_getdel'' = Delivered \<and> rget (a_clock io) key r = Some (RText session) \<and>
      st' = set_rdb (r\<lparr>rk := (rk r)(key := None)\<rparr>) st)"
  by (cases "a_redis io ''webauthn_getdel''")
    (auto simp: take_session_def redis_do_def rgetdel_def split: option.splits redis_val.splits)

text \<open>
  What a WebAuthn login requires and what it leaves: a user with the email,
  the unexpired session that was stored for this user under the given id, the library's consent
  on the user's stored credentials, and tokens that could be issued.  Lockout and status are not asked
  for.  The session is spent: the same id fails from then on.
\<close>

theorem webauthn_login_requires_session:
  assumes "FinishWebAuthnLogin io w email sessionID ua addr rq st = (Ok (user, tok), st')"
  shows "(\<exists>lib r session. w = Some lib \<and> GetUserByEmail (a_env io) (st_db (fs_iam st)) email = Ok user \<and> st_rdb (fs_iam st) = Some r \<and>
        rget (a_clock io) (login_key (u_ID user) sessionID) r = Some (RText session) \<and>
        wl_finish_login lib (login_user io user st) session rq) \<and>
     (\<forall>io2 w2 email2 ua2 addr2 rq2 st2 r2 r'. st_rdb (fs_iam st') = Some r' \<and> st_rdb (fs_iam st2) = Some r2 \<and>
        rk r2 (login_key (u_ID user) sessionID) = rk r' (login_key (u_ID user) sessionID) \<and>
        GetUserByEmail (a_env io2) (st_db (fs_iam st2)) email2 = Ok user \<longrightarrow>
        \<not> is_ok (fst (FinishWebAuthnLogin io2 w2 email2 sessionID ua2 addr2 rq2 st2)))"
proof -
  obtain lib where w: "w = Some lib" using assms by (auto simp: FinishWebAuthnLogin_def split: option.splits)
  obtain u where u: "GetUserByEmail (a_env io) (st_db (fs_iam st)) email = Ok u"
    using assms w by (auto simp: FinishWebAuthnLogin_def split: sum.splits)
  obtain session st1 where s: "take_session io (login_key (u_ID u) sessionID) ''login session expired or invalid'' st = (Ok session, st1)"
    using assms w u by (auto simp: FinishWebAuthnLogin_def split: sum.splits prod.splits)
  then obtain r where r: "st_rdb (fs_iam st) = Some r" "rget (a_clock io) (login_key (u_ID u) sessionID) r = Some (RText session)"
    "st1 = set_rdb (r\<lparr>rk := (rk r)(login_key (u_ID u) sessionID := None)\<rparr>) st" by (auto simp: take_session_Ok)
  have lu: "login_user io u st1 = login_user io u st" by (simp add: login_user_def ListWebAuthnCredentials_def r(3) set_rdb_def)
  have ok: "wl_finish_login lib (login_user io u st) session rq"
    using assms w u s by (auto simp: FinishWebAuthnLogin_def lu split: if_splits)
  let ?st2 = "del_key io (''webauthn:login:'' @ u_ID u) st1"
  have i: "issue_for io u ua addr (fs_iam ?st2) = (Ok (user, tok), fs_iam st')"
    using assms w u s ok by (auto simp: FinishWebAuthnLogin_def lu Let_def split: prod.splits)
  then have us: "user = u" "st_rdb (fs_iam st') = st_rdb (fs_iam ?st2)" using issue_for_keeps [OF i] by blast+
  have spent: "rk r' (login_key (u_ID u) sessionID) = None" if "st_rdb (fs_iam st') = Some r'" for r'
    using that us(2) by (cases "a_redis io ''webauthn_del''") (auto simp: del_key_def r(3) set_rdb_def redis_do_def)
  have "\<not> is_ok (fst (FinishWebAuthnLogin io2 w2 email2 sessionID ua2 addr2 rq2 st2))"
    if h: "st_rdb (fs_iam st2) = Some r2" "rk r2 (login_key (u_ID u) sessionID) = None" "GetUserByEmail (a_env io2) (st_db (fs_iam st2)) email2 = Ok u"
    for io2 w2 email2 ua2 addr2 rq2 st2 r2
  proof -
    have "\<exists>e s. take_session io2 (login_key (u_ID u) sessionID) x st2 = (Err e, s)" for x
      using h(1,2) by (cases "a_redis io2 ''webauthn_getdel''") (auto simp: take_session_def redis_do_def rgetdel_def rget_def)
    then obtain e s where "take_session io2 (login_key (u_ID u) sessionID) ''login session expired or invalid'' st2 = (Err e, s)" by blast
    then show ?thesis using h(3) by (simp add: FinishWebAuthnLogin_def split: option.split)
  qed
  then show ?thesis using w u r(1,2) ok spent unfolding us(1) by metis
qed

lemma hex_prefix_encode [simp]: "hex_prefix (hex_encode s) = s"
proof (induction s)
  case (Cons c s)
  have "(of_char c :: nat) div 16 < 16" "16 * (of_char c div 16) + of_char c mod 16 = (of_char c :: nat)"
    using nat_of_char_less_256 [of c] by (auto simp: less_mult_imp_div_less)
  with Cons show ?case by (simp add: hex_encode_def hex_byte_def)
qed (simp add: hex_encode_def)

lemma wa_loaded_stored: "wa_loaded (wa_stored c att) = c"
  by (simp add: wa_loaded_def wa_stored_def)

text \<open>
  A registered credential comes back: what the library returned at the end of
  a registration, with its bytes and its 32-bit counter, is among the credentials
  it is given at the user's next login, whatever was stored before.
\<close>

theorem webauthn_credential_roundtrip:
  assumes "FinishWebAuthnRegistration io (Some lib) orgID userID sessionID rq st = (Ok (), st')"
    and "\<And>u s q. wl_finish_reg lib u s q \<in> {None, Some (c, att)}" "calm (a_env io)" "calm (a_env io')"
    and "pg_uuid (ie_pg (a_env io)) userID = Some (u_ID user)" "pg_uuid (ie_pg (a_env io')) (u_ID user) = Some (u_ID user)"
    and fresh: "\<forall>r\<in>set (fs_wa st). wr_UserID r = u_ID user \<and> wc_CredentialID (wr_cred r) = hex_encode (wk_ID c) \<longrightarrow> wc_PublicKey (wr_cred r) = hex_encode (wk_PublicKey c)"
  shows "c \<in> set (wu_credentials (login_user io' user st'))"
proof -
  obtain session st1 where s: "take_session io (reg_key userID sessionID) ''registration session expired or invalid'' st = (Ok session, st1)"
    using assms(1) by (auto simp: FinishWebAuthnRegistration_def split: sum.splits prod.splits)
  obtain usr where u: "GetUserByID (a_env io) (a_ctx io) (st_db (fs_iam st1)) userID = Ok usr"
    using assms(1) s by (auto simp: FinishWebAuthnRegistration_def split: sum.splits)
  obtain st2 where st2: "SaveWebAuthnCredential (a_env io) orgID userID (wa_stored c att) st1 = Ok st2" "st' = del_key io (''webauthn:reg:'' @ userID) st2"
    using assms(1) s u assms(2) [of "\<lparr>wu_id = userID, wu_displayName = u_DisplayName usr, wu_name = u_Email usr, wu_credentials = []\<rparr>" session rq]
    by (auto simp: FinishWebAuthnRegistration_def split: sum.splits)
  have wa: "fs_wa st1 = fs_wa st" "fs_wa st' = fs_wa st2" using s st2(2) by (auto simp: take_session_Ok set_rdb_def del_key_def split: option.splits)
  have "\<exists>r\<in>set (fs_wa st2). wr_UserID r = u_ID user \<and> wa_loaded (wr_cred r) = c"
  proof (cases "\<exists>r\<in>set (fs_wa st). wr_UserID r = u_ID user \<and> wc_CredentialID (wr_cred r) = wc_CredentialID (wa_stored c att)")
    case True
    then obtain r where r: "r \<in> set (fs_wa st)" "wr_UserID r = u_ID user" "wc_CredentialID (wr_cred r) = hex_encode (wk_ID c)"
      by (auto simp: wa_stored_def)
    let ?r = "r\<lparr>wr_cred := (wr_cred r)\<lparr>wc_SignCount := wc_SignCount (wa_stored c att)\<rparr>\<rparr>"
    have "?r \<in> set (fs_wa st2)"
      using st2(1) r assms(5) True by (auto simp: SaveWebAuthnCredential_def withOrgContext_def exec_uuid_def wa(1) wa_stored_def Let_def image_iff split: option.splits if_splits)
    moreover have "wa_loaded (wr_cred ?r) = c" using r(2,3) fresh r(1) by (simp add: wa_loaded_def wa_stored_def)
    ultimately show ?thesis using r(2) by (intro bexI [of _ ?r]) simp_all
  next
    case False
    then show ?thesis
      using st2(1) assms(5) by (auto simp: SaveWebAuthnCredential_def withOrgContext_def exec_uuid_def wa(1) Let_def wa_loaded_stored split: option.splits if_splits)
  qed
  then show ?thesis using assms(4,6)
    by (auto simp: login_user_def ListWebAuthnCredentials_def withOrgContext_def exec_uuid_def calm_def sees_def wa(2))
qed

subsection \<open>Instances\<close>

definition evil_provider :: SAMLProvider where
  "evil_provider = \<lparr>sp_ID = ''p1'', sp_OrgID = ''evil'', sp_EntityID = ''idp'', sp_SSOURL = ''https://idp'', sp_SLOURL = [], sp_MetadataXML = ''x'', sp_CertPEM = ''c'',
     sp_KeyPEM = ''k'', sp_NameIDFormat = ''f'', sp_AttributeMap = Some (JObj []), sp_Enabled = True, sp_CreatedAt = 0, sp_UpdatedAt = 0\<rparr>"

definition sample_fed :: fed_st where
  "sample_fed = \<lparr>fs_iam = sample_st, fs_saml = [evil_provider], fs_wa = []\<rparr>"

definition evil_assertion :: saml_assertion where
  "evil_assertion = \<lparr>sa_ID = ''a1'', sa_NotOnOrAfter = 60 * Second, sa_NameID = Some ''x'', sa_Attributes = [(''email'', [''e''])]\<rparr>"

definition sample_saml :: saml_lib where
  "sample_saml = \<lparr>sl_builds = (\<lambda>_. True), sl_metadata = (\<lambda>_. None), sl_parse = (\<lambda>_ _. Some evil_assertion), sl_idp = (\<lambda>_. None), sl_keypair = None\<rparr>"

definition acs_request :: http_req where
  "acs_request = form_request [(''RelayState'', ''evil'')]"

definition saml_io :: auth_io where
  "saml_io = calm_io\<lparr>a_jwt := toy_jwt\<lparr>jl_sign := (\<lambda>_ _ _ c. Some (''tok-'' @ cl_OrgID c @ ''-'' @ cl_UserID c))\<rparr>\<rparr>"

lemma acs_code: "rs_code (fst (SAMLAssertionConsumerServiceH saml_io sample_saml acs_request sample_fed)) = 302"
  by code_simp

theorem saml_assertion_single_use_witness:
  "let st' = snd (SAMLAssertionConsumerServiceH saml_io sample_saml acs_request sample_fed)
   in rs_code (fst (SAMLAssertionConsumerServiceH (saml_io\<lparr>a_clock := 59 * Second\<rparr>) sample_saml acs_request st')) \<noteq> 302"
proof -
  obtain rs st' where run: "SAMLAssertionConsumerServiceH saml_io sample_saml acs_request sample_fed = (rs, st')" by fastforce
  then have c: "rs_code rs = 302" using acs_code by simp
  have p: "sl_parse sample_saml p acs_request = Some evil_assertion" for p by (simp add: sample_saml_def)
  from saml_assertion_single_use [OF run c] obtain r' where r': "st_rdb (fs_iam st') = Some r'"
    "\<And>io2 lib2 rq2 st2 r2. st_rdb (fs_iam st2) = Some r2 \<and> rk r2 (replay_key (sa_ID evil_assertion)) = rk r' (replay_key (sa_ID evil_assertion)) \<and>
        (\<forall>p. sl_parse lib2 p rq2 \<in> {None, Some evil_assertion}) \<and> a_clock io2 \<notin> {sa_NotOnOrAfter evil_assertion - Millisecond ..< sa_NotOnOrAfter evil_assertion} \<Longrightarrow>
        rs_code (fst (SAMLAssertionConsumerServiceH io2 lib2 rq2 st2)) \<noteq> 302" by (auto simp: p)
  show ?thesis using r'(2) [of st' r' sample_saml acs_request "saml_io\<lparr>a_clock := 59 * Second\<rparr>"] r'(1) run p
    by (simp add: evil_assertion_def time_units)
qed

theorem saml_opens_foreign_accounts_witness:
  "linked calm_env ''x'' sample_user \<in> set (users (st_db (fs_iam (snd (SAMLAssertionConsumerServiceH saml_io sample_saml acs_request sample_fed)))))"
proof -
  obtain rs st' where run: "SAMLAssertionConsumerServiceH saml_io sample_saml acs_request sample_fed = (rs, st')" by fastforce
  then have c: "rs_code rs = 302" using acs_code by simp
  have attr: "fst (fold (read_attr m) (sa_Attributes evil_assertion) (''x'', [])) = ''e''" for m by (simp add: evil_assertion_def read_attr_def)
  have "\<exists>token. SignToken saml_io (hget [(''RelayState'', ''evil'')] ''RelayState'') (u_ID sample_user) (''saml-'' @ itoa (a_clock saml_io)) (8 * Hour) = Ok token \<and>
     hget (rs_headers rs) ''Set-Cookie'' = hget (saml_cookie (a_getenv saml_io ''NODE_ENV'' = ''production'') token) ''Set-Cookie'' \<and>
     linked (a_env saml_io) ''x'' sample_user \<in> set (users (st_db (fs_iam st')))"
    by (rule saml_opens_foreign_accounts [OF run c _ _ _ attr, where us = "[]" and vs = "[]"])
      (simp_all add: acs_request_def form_request_def sample_saml_def evil_assertion_def sample_fed_def sample_st_def sample_user_def zero_user_def int4_max_def saml_io_def calm_io_def,
       simp add: calm_env_def)
  moreover have "a_env saml_io = calm_env" by (simp add: saml_io_def calm_io_def)
  ultimately show ?thesis using run by auto
qed

definition sample_wa :: wa_lib where
  "sample_wa = \<lparr>wl_begin_reg = (\<lambda>_. Some (''s'', ''o'')), wl_finish_reg = (\<lambda>_ _ _. Some (\<lparr>wk_ID = ''id'', wk_PublicKey = ''key'', wk_SignCount = 4000000000\<rparr>, ''none'')),
     wl_begin_login = (\<lambda>_. Some (''s'', ''o'')), wl_finish_login = (\<lambda>_ s _. s = ''s'')\<rparr>"

definition wa_request :: http_req where
  "wa_request = token_request\<lparr>rq_headers := [], rq_query := [(''email'', ''e''), (''session_id'', ''webauthn_session'')], rq_remote := ''9.9.9.9:1''\<rparr>"

definition wa_begun_st :: fed_st where
  "wa_begun_st = snd (BeginWebAuthnLogin calm_io (Some sample_wa) ''e'' sample_fed)"

lemma wa_login_ok: "is_ok (fst (FinishWebAuthnLogin calm_io (Some sample_wa) ''e'' ''webauthn_session'' ''ua'' ''9.9.9.9'' wa_request wa_begun_st))"
  by code_simp

theorem webauthn_login_requires_session_witness:
  "let st' = snd (FinishWebAuthnLogin calm_io (Some sample_wa) ''e'' ''webauthn_session'' ''ua'' ''9.9.9.9'' wa_request wa_begun_st)
   in \<not> is_ok (fst (FinishWebAuthnLogin calm_io (Some sample_wa) ''e'' ''webauthn_session'' ''ua'' ''9.9.9.9'' wa_request st'))"
proof -
  obtain user tok st' where run: "FinishWebAuthnLogin calm_io (Some sample_wa) ''e'' ''webauthn_session'' ''ua'' ''9.9.9.9'' wa_request wa_begun_st = (Ok (user, tok), st')"
    using wa_login_ok by (cases "FinishWebAuthnLogin calm_io (Some sample_wa) ''e'' ''webauthn_session'' ''ua'' ''9.9.9.9'' wa_request wa_begun_st" rule: prod.exhaust)
      (auto elim: is_ok.elims)
  then have st': "st' = snd (FinishWebAuthnLogin calm_io (Some sample_wa) ''e'' ''webauthn_session'' ''ua'' ''9.9.9.9'' wa_request wa_begun_st)" by simp
  have "st_rdb (fs_iam st') \<noteq> None" "users (st_db (fs_iam st')) = users (st_db (fs_iam wa_begun_st))" unfolding st' by code_simp+
  then obtain r' where r': "st_rdb (fs_iam st') = Some r'" and us: "users (st_db (fs_iam st')) = users (st_db (fs_iam wa_begun_st))" by blast
  have "GetUserByEmail (a_env calm_io) (st_db (fs_iam wa_begun_st)) ''e'' = Ok user" using webauthn_login_requires_session [OF run] by blast
  then have "GetUserByEmail (a_env calm_io) (st_db (fs_iam st')) ''e'' = Ok user" by (simp only: GetUserByEmail_def us)
  then show ?thesis using webauthn_login_requires_session [OF run] r' st' by (simp only: Let_def) blast
qed

theorem saml_cookie_not_read_witness:
  "AuthJWTWithBlocklist toy_jwt [] None 0 (cookie_of (rs_headers (fst (SAMLAssertionConsumerServiceH saml_io sample_saml acs_request sample_fed))) ''openguard_session'') [] empty_ctx =
     Reject 401 ''Unauthorized: missing token''"
proof -
  obtain rs st' where run: "SAMLAssertionConsumerServiceH saml_io sample_saml acs_request sample_fed = (rs, st')" by fastforce
  obtain rs' st'' where wa: "WebAuthnFinishLoginH calm_io (Some sample_wa) wa_request wa_begun_st = (rs', st'')" by fastforce
  have "case rs_body (fst (WebAuthnFinishLoginH calm_io (Some sample_wa) wa_request wa_begun_st)) of
      FIam (ILogin (Some u) (Some tok)) \<Rightarrow> CHR '';'' \<notin> set (AccessToken tok) | _ \<Rightarrow> False" by code_simp
  then obtain u tok where "rs_body rs' = FIam (ILogin (Some u) (Some tok))" "CHR '';'' \<notin> set (AccessToken tok)"
    using wa by (auto split: fed_body.splits iam_body.splits option.splits)
  from saml_cookie_not_read [OF run _ _ wa this] run acs_code show ?thesis by (simp add: hget_def)
qed

theorem webauthn_credential_roundtrip_witness:
  "let st1 = snd (BeginWebAuthnRegistration calm_io (Some sample_wa) ''u1'' sample_fed);
       st2 = snd (FinishWebAuthnRegistration calm_io (Some sample_wa) ''o1'' ''u1'' ''webauthn_session'' wa_request st1)
   in \<lparr>wk_ID = ''id'', wk_PublicKey = ''key'', wk_SignCount = 4000000000\<rparr> \<in> set (wu_credentials (login_user calm_io sample_user st2))"
proof -
  let ?st1 = "snd (BeginWebAuthnRegistration calm_io (Some sample_wa) ''u1'' sample_fed)"
  obtain x st2 where run: "FinishWebAuthnRegistration calm_io (Some sample_wa) ''o1'' ''u1'' ''webauthn_session'' wa_request ?st1 = (x, st2)" by fastforce
  have "is_ok (fst (FinishWebAuthnRegistration calm_io (Some sample_wa) ''o1'' ''u1'' ''webauthn_session'' wa_request ?st1))" "fs_wa ?st1 = []" by code_simp+
  then have x: "x = Ok ()" and e: "fs_wa ?st1 = []" using run by (auto elim: is_ok.elims)
  have env: "calm (a_env calm_io)" "pg_uuid (ie_pg (a_env calm_io)) t = Some t" "u_ID sample_user = ''u1''" for t
    by (simp_all add: calm_io_def calm_env_def calm_def sample_user_def)
  have "\<lparr>wk_ID = ''id'', wk_PublicKey = ''key'', wk_SignCount = 4000000000\<rparr> \<in> set (wu_credentials (login_user calm_io sample_user st2))"
    by (rule webauthn_credential_roundtrip [OF run [unfolded x], where att = "''none''"]) (simp_all add: env e, simp add: sample_wa_def)
  then show ?thesis using run by simp
qed

end
