(* ===== verification/Auth_Pool.thy ===== *)
theory Auth_Pool
  imports IAM_Auth "HOL-Library.Multiset"
begin

text \<open>
  The pool of goroutines that runs bcrypt for the IAM service
  (services/iam/pkg/service/auth_pool.go), as a step relation: callers send a
  job into one of two channels of capacity 100 and wait on a channel of their
  own, workers take jobs and answer, contexts are cancelled, and Shutdown
  closes the channels.  A step is one channel operation or one chosen case of a
  \<open>select\<close>; Go takes any case that is ready.

  \<open>bc\<close> and \<open>gn\<close> are bcrypt's comparison and generation at cost 12.
\<close>

datatype request = CompareReq string string | GenerateReq string

datatype answer = Compared "(string, unit) result" | Generated "(string, string) result"

text \<open>A job: the caller, whose result channel it carries, and the arguments.\<close>

type_synonym job = "nat \<times> request"

datatype worker = Idle | Busy job | Exited

text \<open>A call of Compare or Generate: at its first select, at its second, returned, or panicked.\<close>

datatype caller = NotCalled | Sending request | Waiting request | Returned request answer | Panicked request

datatype shutdown = Running | ClosedCompare | ClosedBoth | Finished

record pool =
  compareJobs :: "job list"
  generateJobs :: "job list"
  p_workers :: "worker list"
  p_result :: "nat \<Rightarrow> answer option"
  p_callers :: "nat \<Rightarrow> caller"
  p_cancelled :: "nat \<Rightarrow> bool"
  p_done :: bool
  p_shutdown :: shutdown

definition cap :: nat where "cap = 100"

fun answer_of :: "(string \<Rightarrow> string \<Rightarrow> bool) \<Rightarrow> (string \<Rightarrow> (string, string) result) \<Rightarrow> request \<Rightarrow> answer" where
  "answer_of bc gn (CompareReq password hash) = Compared (if bc password hash then Ok () else Err ''mismatched hash and password'')"
| "answer_of bc gn (GenerateReq password) = Generated (gn password)"

fun ctx_err :: "request \<Rightarrow> answer" where
  "ctx_err (CompareReq _ _) = Compared (Err ''context canceled'')"
| "ctx_err (GenerateReq _) = Generated (Err ''context canceled'')"

subsection \<open>Operations\<close>

definition NewAuthWorkerPool :: "nat \<Rightarrow> pool" where
  "NewAuthWorkerPool n = \<lparr>compareJobs = [], generateJobs = [], p_workers = replicate n Idle, p_result = Map.empty,
     p_callers = (\<lambda>_. NotCalled), p_cancelled = (\<lambda>_. False), p_done = False, p_shutdown = Running\<rparr>"

definition closed_compare :: "pool \<Rightarrow> bool" where "closed_compare p \<longleftrightarrow> p_shutdown p \<noteq> Running"
definition closed_generate :: "pool \<Rightarrow> bool" where "closed_generate p \<longleftrightarrow> p_shutdown p \<in> {ClosedBoth, Finished}"

fun closed_for :: "request \<Rightarrow> pool \<Rightarrow> bool" where
  "closed_for (CompareReq _ _) p = closed_compare p"
| "closed_for (GenerateReq _) p = closed_generate p"

fun room_for :: "request \<Rightarrow> pool \<Rightarrow> bool" where
  "room_for (CompareReq _ _) p \<longleftrightarrow> length (compareJobs p) < cap"
| "room_for (GenerateReq _) p \<longleftrightarrow> length (generateJobs p) < cap"

fun enqueue :: "nat \<Rightarrow> request \<Rightarrow> pool \<Rightarrow> pool" where
  "enqueue c (CompareReq a b) p = p\<lparr>compareJobs := compareJobs p @ [(c, CompareReq a b)]\<rparr>"
| "enqueue c (GenerateReq a) p = p\<lparr>generateJobs := generateJobs p @ [(c, GenerateReq a)]\<rparr>"

definition set_caller :: "nat \<Rightarrow> caller \<Rightarrow> pool \<Rightarrow> pool" where
  "set_caller c x p = p\<lparr>p_callers := (p_callers p)(c := x)\<rparr>"

definition set_worker :: "nat \<Rightarrow> worker \<Rightarrow> pool \<Rightarrow> pool" where
  "set_worker i w p = p\<lparr>p_workers := (p_workers p)[i := w]\<rparr>"

text \<open>
  The cases: of Compare and Generate (\<open>call\<close> to \<open>give_up\<close>), of the worker loop
  (\<open>take_compare\<close> to \<open>reply\<close>), of the contexts, and of Shutdown.  The result channel holds one
  value, so the reply blocks while it is full.
\<close>

inductive pool_step :: "(string \<Rightarrow> string \<Rightarrow> bool) \<Rightarrow> (string \<Rightarrow> (string, string) result) \<Rightarrow> pool \<Rightarrow> pool \<Rightarrow> bool"
  for bc gn where
  call: "p_callers p c = NotCalled \<Longrightarrow> pool_step bc gn p (set_caller c (Sending q) p)"
| send: "p_callers p c = Sending q \<Longrightarrow> \<not> closed_for q p \<Longrightarrow> room_for q p \<Longrightarrow> pool_step bc gn p (set_caller c (Waiting q) (enqueue c q p))"
| send_closed: "p_callers p c = Sending q \<Longrightarrow> closed_for q p \<Longrightarrow> pool_step bc gn p (set_caller c (Panicked q) p)"
| give_up_send: "p_callers p c = Sending q \<Longrightarrow> p_cancelled p c \<Longrightarrow> pool_step bc gn p (set_caller c (Returned q (ctx_err q)) p)"
| receive: "p_callers p c = Waiting q \<Longrightarrow> p_result p c = Some a \<Longrightarrow>
    pool_step bc gn p (set_caller c (Returned q a) (p\<lparr>p_result := (p_result p)(c := None)\<rparr>))"
| give_up: "p_callers p c = Waiting q \<Longrightarrow> p_cancelled p c \<Longrightarrow> pool_step bc gn p (set_caller c (Returned q (ctx_err q)) p)"
| take_compare: "i < length (p_workers p) \<Longrightarrow> p_workers p ! i = Idle \<Longrightarrow> compareJobs p = j # js \<Longrightarrow>
    pool_step bc gn p (set_worker i (Busy j) (p\<lparr>compareJobs := js\<rparr>))"
| take_generate: "i < length (p_workers p) \<Longrightarrow> p_workers p ! i = Idle \<Longrightarrow> generateJobs p = j # js \<Longrightarrow>
    pool_step bc gn p (set_worker i (Busy j) (p\<lparr>generateJobs := js\<rparr>))"
| exit_done: "i < length (p_workers p) \<Longrightarrow> p_workers p ! i = Idle \<Longrightarrow> p_done p \<Longrightarrow> pool_step bc gn p (set_worker i Exited p)"
| exit_compare: "i < length (p_workers p) \<Longrightarrow> p_workers p ! i = Idle \<Longrightarrow> closed_compare p \<Longrightarrow> compareJobs p = [] \<Longrightarrow>
    pool_step bc gn p (set_worker i Exited p)"
| exit_generate: "i < length (p_workers p) \<Longrightarrow> p_workers p ! i = Idle \<Longrightarrow> closed_generate p \<Longrightarrow> generateJobs p = [] \<Longrightarrow>
    pool_step bc gn p (set_worker i Exited p)"
| reply: "i < length (p_workers p) \<Longrightarrow> p_workers p ! i = Busy (c, q) \<Longrightarrow> p_result p c = None \<Longrightarrow>
    pool_step bc gn p (set_worker i Idle (p\<lparr>p_result := (p_result p)(c \<mapsto> answer_of bc gn q)\<rparr>))"
| cancel: "pool_step bc gn p (p\<lparr>p_cancelled := (p_cancelled p)(c := True)\<rparr>)"
| cancel_pool: "pool_step bc gn p (p\<lparr>p_done := True\<rparr>)"
| close_compare: "p_shutdown p = Running \<Longrightarrow> pool_step bc gn p (p\<lparr>p_shutdown := ClosedCompare\<rparr>)"
| close_generate: "p_shutdown p = ClosedCompare \<Longrightarrow> pool_step bc gn p (p\<lparr>p_shutdown := ClosedBoth\<rparr>)"
| wait: "p_shutdown p = ClosedBoth \<Longrightarrow> set (p_workers p) \<subseteq> {Exited} \<Longrightarrow> pool_step bc gn p (p\<lparr>p_shutdown := Finished\<rparr>)"

subsection \<open>The invariant\<close>

fun held :: "worker \<Rightarrow> job list" where
  "held (Busy j) = [j]"
| "held _ = []"

text \<open>All jobs on their way: queued, or held by a worker.\<close>

definition pending :: "pool \<Rightarrow> job multiset" where
  "pending p = mset (compareJobs p) + mset (generateJobs p) + mset (concat (map held (p_workers p)))"

fun req_of :: "caller \<Rightarrow> request option" where
  "req_of NotCalled = None"
| "req_of (Sending q) = Some q"
| "req_of (Waiting q) = Some q"
| "req_of (Returned q _) = Some q"
| "req_of (Panicked q) = Some q"

fun submitted :: "caller \<Rightarrow> bool" where
  "submitted (Waiting _) = True"
| "submitted (Returned _ _) = True"
| "submitted _ = False"

text \<open>How many answers of a call are on their way or in its channel.\<close>

definition slots :: "pool \<Rightarrow> nat \<Rightarrow> nat" where
  "slots p c = count (image_mset fst (pending p)) c + (if p_result p c = None then 0 else 1)"

definition pool_inv :: "(string \<Rightarrow> string \<Rightarrow> bool) \<Rightarrow> (string \<Rightarrow> (string, string) result) \<Rightarrow> pool \<Rightarrow> bool" where
  "pool_inv bc gn p \<longleftrightarrow>
     length (compareJobs p) \<le> cap \<and> length (generateJobs p) \<le> cap \<and>
     (\<forall>c. slots p c \<le> (if submitted (p_callers p c) then 1 else 0)) \<and>
     (\<forall>c q. (c, q) \<in># pending p \<longrightarrow> req_of (p_callers p c) = Some q) \<and>
     (\<forall>c a. p_result p c = Some a \<longrightarrow> (\<exists>q. req_of (p_callers p c) = Some q \<and> a = answer_of bc gn q)) \<and>
     (\<forall>c q a. p_callers p c = Returned q a \<longrightarrow> a \<in> {answer_of bc gn q, ctx_err q}) \<and>
     (\<forall>c q. p_callers p c = Waiting q \<longrightarrow> slots p c = 1)"

lemma pool_invI:
  assumes "length (compareJobs p) \<le> cap" "length (generateJobs p) \<le> cap"
    and "\<And>c. slots p c \<le> (if submitted (p_callers p c) then 1 else 0)"
    and "\<And>c q. (c, q) \<in># pending p \<Longrightarrow> req_of (p_callers p c) = Some q"
    and "\<And>c a. p_result p c = Some a \<Longrightarrow> \<exists>q. req_of (p_callers p c) = Some q \<and> a = answer_of bc gn q"
    and "\<And>c q a. p_callers p c = Returned q a \<Longrightarrow> a \<in> {answer_of bc gn q, ctx_err q}"
    and "\<And>c q. p_callers p c = Waiting q \<Longrightarrow> slots p c = 1"
  shows "pool_inv bc gn p"
  using assms unfolding pool_inv_def by blast

lemma pool_invD:
  assumes "pool_inv bc gn p"
  shows "length (compareJobs p) \<le> cap" "length (generateJobs p) \<le> cap"
    and "slots p c \<le> (if submitted (p_callers p c) then 1 else 0)"
    and "(c, q) \<in># pending p \<Longrightarrow> req_of (p_callers p c) = Some q"
    and "p_result p c = Some a \<Longrightarrow> \<exists>q. req_of (p_callers p c) = Some q \<and> a = answer_of bc gn q"
    and "p_callers p c = Returned q a \<Longrightarrow> a \<in> {answer_of bc gn q, ctx_err q}"
    and "p_callers p c = Waiting q \<Longrightarrow> slots p c = 1"
  using assms unfolding pool_inv_def by blast+

lemma held_update:
  assumes "i < length ws"
  shows "mset (concat (map held (ws[i := w]))) + mset (held (ws ! i)) = mset (concat (map held ws)) + mset (held w)"
  using assms
proof (induction ws arbitrary: i)
  case (Cons x ws)
  then show ?case by (cases i) (auto simp: ac_simps)
qed simp

lemma pending_simps [simp]:
  "pending (set_caller c x p) = pending p"
  "pending (p\<lparr>p_result := r\<rparr>) = pending p"
  "pending (p\<lparr>p_cancelled := f\<rparr>) = pending p"
  "pending (p\<lparr>p_done := b\<rparr>) = pending p"
  "pending (p\<lparr>p_shutdown := d\<rparr>) = pending p"
  "pending (enqueue c q p) = add_mset (c, q) (pending p)"
  by (cases q; simp add: pending_def set_caller_def)+

lemma pending_worker:
  assumes "i < length (p_workers p)"
  shows "pending (set_worker i w p) + mset (held (p_workers p ! i)) = pending p + mset (held w)"
  using held_update [OF assms, of w] by (simp add: pending_def set_worker_def ac_simps)

lemma pool_simps [simp]:
  "compareJobs (set_caller c x p) = compareJobs p" "generateJobs (set_caller c x p) = generateJobs p"
  "p_result (set_caller c x p) = p_result p" "p_callers (set_caller c x p) = (p_callers p)(c := x)"
  "compareJobs (set_worker i w p) = compareJobs p" "generateJobs (set_worker i w p) = generateJobs p"
  "p_result (set_worker i w p) = p_result p" "p_callers (set_worker i w p) = p_callers p"
  "p_result (enqueue c q p) = p_result p" "p_callers (enqueue c q p) = p_callers p"
  "p_workers (set_worker i w p) = (p_workers p)[i := w]" "p_workers (set_caller c x p) = p_workers p" "p_workers (enqueue c q p) = p_workers p"
  by (cases q; simp add: set_caller_def set_worker_def)+

text \<open>Steps that move no job and no answer.\<close>

lemma inv_same:
  assumes "pool_inv bc gn p" "pending p' = pending p" "p_result p' = p_result p" "p_callers p' = p_callers p"
    and "length (compareJobs p') \<le> length (compareJobs p)" "length (generateJobs p') \<le> length (generateJobs p)"
  shows "pool_inv bc gn p'"
  using assms unfolding pool_inv_def slots_def by simp

text \<open>Steps of one caller.\<close>

lemma inv_caller:
  assumes inv: "pool_inv bc gn p" and x: "req_of x = Some q" "\<And>q' a. x = Returned q' a \<Longrightarrow> a \<in> {answer_of bc gn q', ctx_err q'}"
    and old: "req_of (p_callers p c) \<in> {None, Some q}" "submitted (p_callers p c) \<Longrightarrow> submitted x" "\<And>q. x \<noteq> Waiting q"
  shows "pool_inv bc gn (set_caller c x p)"
proof (rule pool_invI)
  note D = pool_invD [OF inv]
  show "length (compareJobs (set_caller c x p)) \<le> cap" "length (generateJobs (set_caller c x p)) \<le> cap" using D(1,2) by simp_all
  show "slots (set_caller c x p) c' \<le> (if submitted (p_callers (set_caller c x p) c') then 1 else 0)" for c'
    using D(3) [of c'] old(2) by (auto simp: slots_def split: if_splits)
  have "req_of (p_callers p c) = Some q" if "(c, q') \<in># pending p" for q' using D(4) [OF that] old(1) by auto
  then show "req_of (p_callers (set_caller c x p) c') = Some q'" if "(c', q') \<in># pending (set_caller c x p)" for c' q'
    using D(4) that x(1) by fastforce
  show "\<exists>q. req_of (p_callers (set_caller c x p) c') = Some q \<and> a = answer_of bc gn q" if "p_result (set_caller c x p) c' = Some a" for c' a
    using D(5) [of c' a] that x(1) old(1) by auto
  show "a \<in> {answer_of bc gn q', ctx_err q'}" if "p_callers (set_caller c x p) c' = Returned q' a" for c' q' a
    using D(6) [of c' q' a] x(2) that by (auto split: if_splits)
  show "slots (set_caller c x p) c' = 1" if "p_callers (set_caller c x p) c' = Waiting q'" for c' q'
    using D(7) [of c' q'] old(3) that by (auto simp: slots_def split: if_splits)
qed

lemma count_fst_0: "count (image_mset fst M) c = 0 \<Longrightarrow> (c, q) \<notin># M"
  by (metis count_eq_zero_iff fst_conv image_eqI set_image_mset)


lemma inv_send:
  assumes inv: "pool_inv bc gn p" and c: "p_callers p c = Sending q" "room_for q p"
  shows "pool_inv bc gn (set_caller c (Waiting q) (enqueue c q p))"
proof (rule pool_invI)
  let ?p = "set_caller c (Waiting q) (enqueue c q p)"
  note D = pool_invD [OF inv]
  have none: "slots p c = 0" using D(3) [of c] c(1) by simp
  show "length (compareJobs ?p) \<le> cap" "length (generateJobs ?p) \<le> cap" using D(1,2) c(2) by (cases q; simp)+
  show "slots ?p c' \<le> (if submitted (p_callers ?p c') then 1 else 0)" for c'
    using D(3) [of c'] none by (auto simp: slots_def split: if_splits)
  show "req_of (p_callers ?p c') = Some q'" if "(c', q') \<in># pending ?p" for c' q'
    using that D(4) [of c' q'] c(1) by auto
  show "\<exists>q. req_of (p_callers ?p c') = Some q \<and> a = answer_of bc gn q" if "p_result ?p c' = Some a" for c' a
    using D(5) [of c' a] that none by (auto simp: slots_def)
  show "a \<in> {answer_of bc gn q', ctx_err q'}" if "p_callers ?p c' = Returned q' a" for c' q' a
    using D(6) [of c' q' a] that by (auto split: if_splits)
  show "slots ?p c' = 1" if "p_callers ?p c' = Waiting q'" for c' q'
    using D(7) [of c' q'] none that by (cases "c' = c") (auto simp: slots_def split: if_splits)
qed

lemma inv_receive:
  assumes inv: "pool_inv bc gn p" and c: "p_callers p c = Waiting q" "p_result p c = Some a"
  shows "pool_inv bc gn (set_caller c (Returned q a) (p\<lparr>p_result := (p_result p)(c := None)\<rparr>))"
proof (rule pool_invI)
  let ?p = "set_caller c (Returned q a) (p\<lparr>p_result := (p_result p)(c := None)\<rparr>)"
  note D = pool_invD [OF inv]
  have slots: "slots ?p c' \<le> slots p c'" "c' \<noteq> c \<Longrightarrow> slots ?p c' = slots p c'" for c' by (auto simp: slots_def)
  show "length (compareJobs ?p) \<le> cap" "length (generateJobs ?p) \<le> cap" using D(1,2) by simp_all
  show "slots ?p c' \<le> (if submitted (p_callers ?p c') then 1 else 0)" for c'
    using D(3) [of c'] slots(1) [of c'] c(1) by (auto split: if_splits)
  show "req_of (p_callers ?p c') = Some q'" if "(c', q') \<in># pending ?p" for c' q' using that D(4) [of c' q'] c(1) by auto
  show "\<exists>q. req_of (p_callers ?p c') = Some q \<and> a = answer_of bc gn q" if "p_result ?p c' = Some a" for c' a
    using D(5) [of c' a] that by (auto split: if_splits)
  show "a' \<in> {answer_of bc gn q', ctx_err q'}" if "p_callers ?p c' = Returned q' a'" for c' q' a'
    using D(6) [of c' q' a'] D(5) [OF c(2)] c(1) that by (auto split: if_splits)
  show "slots ?p c' = 1" if "p_callers ?p c' = Waiting q'" for c' q'
    using D(7) [of c' q'] slots(2) [of c'] that by (auto split: if_splits)
qed

lemma inv_reply:
  assumes inv: "pool_inv bc gn p" and w: "i < length (p_workers p)" "p_workers p ! i = Busy (c, q)" and free: "p_result p c = None"
  shows "pool_inv bc gn (set_worker i Idle (p\<lparr>p_result := (p_result p)(c \<mapsto> answer_of bc gn q)\<rparr>))"
proof (rule pool_invI)
  let ?p = "set_worker i Idle (p\<lparr>p_result := (p_result p)(c \<mapsto> answer_of bc gn q)\<rparr>)"
  note D = pool_invD [OF inv]
  have pend: "pending p = add_mset (c, q) (pending ?p)"
    using pending_worker [of i "p\<lparr>p_result := (p_result p)(c \<mapsto> answer_of bc gn q)\<rparr>" Idle] w by simp
  then have slots: "slots ?p c' = slots p c'" for c' using free by (cases "c' = c") (simp_all add: slots_def)
  show "length (compareJobs ?p) \<le> cap" "length (generateJobs ?p) \<le> cap" using D(1,2) by simp_all
  show "slots ?p c' \<le> (if submitted (p_callers ?p c') then 1 else 0)" for c' using D(3) [of c'] by (simp only: slots) simp
  show "req_of (p_callers ?p c') = Some q'" if "(c', q') \<in># pending ?p" for c' q' using D(4) [of c' q'] that pend by simp
  show "\<exists>q. req_of (p_callers ?p c') = Some q \<and> a = answer_of bc gn q" if "p_result ?p c' = Some a" for c' a
    using D(5) [of c' a] D(4) [of c q] that pend by (auto split: if_splits)
  show "a \<in> {answer_of bc gn q', ctx_err q'}" if "p_callers ?p c' = Returned q' a" for c' q' a using D(6) that by simp
  show "slots ?p c' = 1" if "p_callers ?p c' = Waiting q'" for c' q' using D(7) [of c' q'] that by (simp only: slots) simp
qed

lemma inv_take:
  assumes inv: "pool_inv bc gn p" and w: "i < length (p_workers p)" "p_workers p ! i = Idle"
    and p': "p_workers p' = p_workers p" "p_result p' = p_result p" "p_callers p' = p_callers p" "pending p = add_mset j (pending p')"
      "length (compareJobs p') \<le> length (compareJobs p)" "length (generateJobs p') \<le> length (generateJobs p)"
  shows "pool_inv bc gn (set_worker i (Busy j) p')"
proof (rule inv_same [OF inv])
  show "pending (set_worker i (Busy j) p') = pending p"
    using pending_worker [of i p' "Busy j"] w p'(1,4) by simp
qed (use p' in simp_all)

lemma inv_exit:
  assumes "pool_inv bc gn p" "i < length (p_workers p)" "p_workers p ! i = Idle"
  shows "pool_inv bc gn (set_worker i Exited p)"
  using pending_worker [OF assms(2), of Exited] assms(3) by (intro inv_same [OF assms(1)]) simp_all

lemma pool_step_inv:
  assumes "pool_inv bc gn p" "pool_step bc gn p p'"
  shows "pool_inv bc gn p'"
  using assms(2)
proof cases
  case (take_compare i j js)
  then show ?thesis by (simp only:) (rule inv_take [OF assms(1)]; simp add: pending_def)
next
  case (take_generate i j js)
  then show ?thesis by (simp only:) (rule inv_take [OF assms(1)]; simp add: pending_def)
qed (use assms(1) in \<open>auto intro: inv_send inv_receive inv_reply inv_exit inv_caller inv_same\<close>)

interpretation auth_pool: step_invariant "pool_step bc gn" "pool_inv bc gn" for bc gn
  by unfold_locales (rule pool_step_inv)

lemma new_pool_inv: "pool_inv bc gn (NewAuthWorkerPool n)"
proof -
  have "concat (map held (replicate n Idle)) = []" by (induction n) auto
  then have "pending (NewAuthWorkerPool n) = {#}" by (simp add: pending_def NewAuthWorkerPool_def)
  then show ?thesis by (intro pool_invI) (simp_all add: NewAuthWorkerPool_def slots_def)
qed


subsection \<open>Answers\<close>

lemma busy_free:
  assumes "pool_inv bc gn p" "Busy (c, q) \<in> set (p_workers p)"
  shows "p_result p c = None"
proof -
  have "(c, q) \<in> set (concat (map held (p_workers p)))" using assms(2) by force
  then have "(c, q) \<in># pending p" by (simp add: pending_def)
  then have "count (image_mset fst (pending p)) c \<noteq> 0" using count_fst_0 by metis
  moreover have "slots p c \<le> 1" using pool_invD(3) [OF assms(1), of c] by (simp split: if_splits)
  moreover have "slots p c = count (image_mset fst (pending p)) c + 1" if "p_result p c \<noteq> None" using that by (simp add: slots_def)
  ultimately show ?thesis by linarith
qed

text \<open>
  C28. Integrity of the pool: after any interleaving of calls, workers,
  cancellations and a shutdown, a returned Compare has the result of the
  sequential comparison of its own password and hash, with the context alive or cancelled at the
  two selects, as the login path of \<open>IAM_Auth\<close> takes it; at most 100 jobs wait in each channel, and a
  worker that has computed an answer can always hand it over.
\<close>

theorem pool_refines_compare:
  assumes "(pool_step (a_bcrypt io) gn)\<^sup>*\<^sup>* (NewAuthWorkerPool n) p"
  shows "(p_callers p c = Returned (CompareReq password hash) a \<longrightarrow>
       (\<exists>queued fin. a = Compared (Compare (io\<lparr>a_job_queued := queued, a_job_done := fin\<rparr>) password hash)))
     \<and> length (compareJobs p) \<le> 100 \<and> length (generateJobs p) \<le> 100
     \<and> (Busy (c, q) \<in> set (p_workers p) \<longrightarrow> p_result p c = None)"
proof (intro conjI impI)
  note D = pool_invD [OF auth_pool.reach_inv [OF assms new_pool_inv]]
  show "\<exists>queued fin. a = Compared (Compare (io\<lparr>a_job_queued := queued, a_job_done := fin\<rparr>) password hash)"
    if "p_callers p c = Returned (CompareReq password hash) a"
  proof (cases "a = ctx_err (CompareReq password hash)")
    case True
    then show ?thesis by (intro exI [of _ False]) (simp add: Compare_def)
  next
    case False
    then show ?thesis using D(6) [OF that] by (intro exI [of _ True]) (auto simp: Compare_def)
  qed
  show "length (compareJobs p) \<le> 100" "length (generateJobs p) \<le> 100" using D(1,2) by (simp_all add: cap_def)
  show "p_result p c = None" if "Busy (c, q) \<in> set (p_workers p)"
    using that by (rule busy_free [OF auth_pool.reach_inv [OF assms new_pool_inv]])
qed

subsection \<open>Progress\<close>

abbreviation reach where "reach bc gn \<equiv> (pool_step bc gn)\<^sup>*\<^sup>*"

text \<open>A worker that has not exited can always come to be idle, leaving the queues alone.\<close>

lemma becomes_idle:
  assumes inv: "pool_inv bc gn p" and w: "i < length (p_workers p)" "p_workers p ! i \<noteq> Exited"
  shows "\<exists>p'. reach bc gn p p' \<and> p_workers p' ! i = Idle \<and> length (p_workers p') = length (p_workers p) \<and> compareJobs p' = compareJobs p
     \<and> generateJobs p' = generateJobs p \<and> p_callers p' = p_callers p \<and> (\<forall>c q. p_workers p ! i = Busy (c, q) \<longrightarrow> p_result p' c \<noteq> None)"
proof (cases "p_workers p ! i")
  case (Busy j)
  obtain c q where j: "j = (c, q)" by fastforce
  have "Busy (c, q) \<in> set (p_workers p)" using Busy j w(1) by (metis nth_mem)
  from reply [OF w(1) Busy [unfolded j] busy_free [OF inv this], of bc gn] show ?thesis
    using w(1) Busy j by (intro exI [of _ "set_worker i Idle (p\<lparr>p_result := (p_result p)(c \<mapsto> answer_of bc gn q)\<rparr>)"]) auto
qed (use w in auto)

text \<open>One worker alone empties a queue up to a job of interest.\<close>

lemma take_job:
  assumes "i < length (p_workers p)" "p_workers p ! i = Idle" "queue \<in> {compareJobs, generateJobs}" "queue p = j # js"
  shows "\<exists>p'. pool_step bc gn p p' \<and> queue p' = js \<and> p_workers p' = (p_workers p)[i := Busy j] \<and> p_callers p' = p_callers p"
  using assms(3,4) take_compare [OF assms(1,2), of j js bc gn] take_generate [OF assms(1,2), of j js bc gn] by fastforce

lemma drains:
  assumes "pool_inv bc gn p" "i < length (p_workers p)" "p_workers p ! i \<noteq> Exited" "queue \<in> {compareJobs, generateJobs}"
    and "queue p = xs @ (c, q) # ys"
  shows "\<exists>p'. reach bc gn p p' \<and> p_callers p' = p_callers p \<and> p_result p' c \<noteq> None"
  using assms
proof (induction xs arbitrary: p)
  case Nil
  obtain p1 where p1: "reach bc gn p p1" "p_workers p1 ! i = Idle" "length (p_workers p1) = length (p_workers p)" "queue p1 = queue p"
    "p_callers p1 = p_callers p" using becomes_idle [OF Nil(1-3)] Nil(4) by blast
  then obtain p2 where p2: "pool_step bc gn p1 p2" "p_workers p2 = (p_workers p1)[i := Busy (c, q)]" "p_callers p2 = p_callers p1"
    using take_job [of i p1 queue "(c, q)" ys bc gn] Nil by auto
  have reach: "reach bc gn p p2" using p1(1) p2(1) by simp
  then have "pool_inv bc gn p2" using auth_pool.reach_inv Nil(1) by blast
  from becomes_idle [OF this, of i] obtain p3 where "reach bc gn p2 p3" "p_callers p3 = p_callers p2" "p_result p3 c \<noteq> None"
    using p1(3) p2(2) Nil(2) by auto
  then show ?case using reach p1(5) p2(3) by (metis rtranclp_trans)
next
  case (Cons x xs)
  obtain p1 where p1: "reach bc gn p p1" "p_workers p1 ! i = Idle" "length (p_workers p1) = length (p_workers p)" "queue p1 = queue p"
    "p_callers p1 = p_callers p" using becomes_idle [OF Cons.prems(1-3)] Cons.prems(4) by blast
  then obtain p2 where p2: "pool_step bc gn p1 p2" "queue p2 = xs @ (c, q) # ys" "p_workers p2 = (p_workers p1)[i := Busy x]"
    "p_callers p2 = p_callers p1"
    using take_job [of i p1 queue x "xs @ (c, q) # ys" bc gn] Cons.prems by auto
  have reach: "reach bc gn p p2" using p1(1) p2(1) by simp
  then have "pool_inv bc gn p2" using auth_pool.reach_inv Cons.prems(1) by blast
  from Cons.IH [OF this _ _ Cons.prems(4) p2(2)] obtain p3 where "reach bc gn p2 p3" "p_callers p3 = p_callers p2" "p_result p3 c \<noteq> None"
    using p1(3) p2(3) Cons.prems(2) by auto
  then show ?case using reach p1(5) p2(4) by (metis rtranclp_trans)
qed


lemma waiting_answerable:
  assumes inv: "pool_inv bc gn p" and c: "p_callers p c = Waiting q" and w: "w \<in> set (p_workers p)" "w \<noteq> Exited"
  shows "\<exists>p'. reach bc gn p p' \<and> p_callers p' c = Waiting q \<and> p_result p' c \<noteq> None"
proof (cases "p_result p c = None")
  case True
  then have "count (image_mset fst (pending p)) c = 1" using pool_invD(7) [OF inv c] by (simp add: slots_def)
  then obtain q' where "(c, q') \<in># pending p" by (metis count_eq_zero_iff imageE prod.collapse set_image_mset zero_neq_one)
  then consider "(c, q') \<in> set (compareJobs p)" | "(c, q') \<in> set (generateJobs p)" | "(c, q') \<in> set (concat (map held (p_workers p)))"
    by (auto simp: pending_def)
  then show ?thesis
  proof cases
    case 3
    then obtain v where "v \<in> set (p_workers p)" "(c, q') \<in> set (held v)" by auto
    then obtain i where "i < length (p_workers p)" "(c, q') \<in> set (held (p_workers p ! i))" by (metis in_set_conv_nth)
    then have i: "i < length (p_workers p)" "p_workers p ! i = Busy (c, q')" by (cases "p_workers p ! i"; simp)+
    then show ?thesis using becomes_idle [OF inv, of i] c by auto
  qed (use w drains [OF inv] c in \<open>(metis in_set_conv_nth split_list insertCI)+\<close>)
qed (use c in blast)

subsection \<open>Nobody left\<close>

definition stranded :: "nat \<Rightarrow> request \<Rightarrow> pool \<Rightarrow> bool" where
  "stranded c q p \<longleftrightarrow> set (p_workers p) \<subseteq> {Exited} \<and>
     (p_callers p c = Waiting q \<and> p_result p c = None \<or> p_callers p c = Returned q (ctx_err q))"

lemma stranded_step:
  assumes s: "stranded c q p" and step: "pool_step bc gn p p'"
  shows "stranded c q p'"
proof -
  have w: "p_workers p ! i = Exited" if "i < length (p_workers p)" for i
    using s nth_mem [OF that] by (auto simp: stranded_def)
  show ?thesis using step
    by cases (use s w in \<open>auto simp: stranded_def\<close>)
qed

interpretation left: step_invariant "pool_step bc gn" "stranded c q" for bc gn c q
  by unfold_locales (rule stranded_step)

text \<open>
  C29. A waiting Compare can still get its answer exactly as long as a worker is left: from any
  state the pool can reach, some continuation returns bcrypt's verdict to a caller whose answer is not
  there yet if and only if not all workers have exited.
\<close>

theorem answerable_iff_worker_left:
  assumes "(pool_step bc gn)\<^sup>*\<^sup>* (NewAuthWorkerPool n) p"
    and "p_callers p c = Waiting (CompareReq password hash)" "p_result p c = None"
  shows "(\<exists>p'. (pool_step bc gn)\<^sup>*\<^sup>* p p' \<and>
       p_callers p' c = Returned (CompareReq password hash) (answer_of bc gn (CompareReq password hash)))
     \<longleftrightarrow> (\<exists>w\<in>set (p_workers p). w \<noteq> Exited)"
proof
  let ?q = "CompareReq password hash"
  have inv: "pool_inv bc gn p" using auth_pool.reach_inv [OF assms(1) new_pool_inv] .
  assume "\<exists>w\<in>set (p_workers p). w \<noteq> Exited"
  then obtain p1 a where p1: "reach bc gn p p1" "p_callers p1 c = Waiting ?q" "p_result p1 c = Some a"
    using waiting_answerable [OF inv assms(2)] by blast
  have "a = answer_of bc gn ?q"
    using pool_invD(5) [OF auth_pool.reach_inv [OF p1(1) inv] p1(3)] p1(2) by simp
  with receive [OF p1(2,3), of bc gn] p1(1)
  show "\<exists>p'. reach bc gn p p' \<and> p_callers p' c = Returned ?q (answer_of bc gn ?q)"
    by (intro exI [of _ "set_caller c (Returned ?q a) (p1\<lparr>p_result := (p_result p1)(c := None)\<rparr>)"]) auto
next
  let ?q = "CompareReq password hash"
  assume "\<exists>p'. reach bc gn p p' \<and> p_callers p' c = Returned ?q (answer_of bc gn ?q)"
  then obtain p' where p': "reach bc gn p p'" "p_callers p' c = Returned ?q (answer_of bc gn ?q)" by blast
  show "\<exists>w\<in>set (p_workers p). w \<noteq> Exited"
  proof (rule ccontr)
    assume "\<not> ?thesis"
    then have "stranded c ?q p" using assms(2,3) by (auto simp: stranded_def)
    then have "stranded c ?q p'" by (rule left.reach_inv [OF p'(1)])
    then show False using p'(2) by (auto simp: stranded_def split: if_splits)
  qed
qed


lemma set_replicate_subset [simp]: "set (replicate n x) \<subseteq> {x}"
  by auto

text \<open>Workers that find the context of the pool done.\<close>

lemma all_exit:
  assumes "p_done p" "p_workers p = replicate k Exited @ replicate m Idle"
  shows "reach bc gn p (p\<lparr>p_workers := replicate (k + m) Exited\<rparr>)"
  using assms
proof (induction m arbitrary: k p)
  case 0
  then show ?case by (cases p) simp
next
  case (Suc m)
  define p1 where "p1 = set_worker k Exited p"
  have "p_workers p1 = replicate (Suc k) Exited @ replicate m Idle"
    using Suc.prems(2) by (simp add: p1_def list_update_append replicate_app_Cons_same)
  moreover have "p_done p1" using Suc.prems(1) by (simp add: p1_def set_worker_def)
  ultimately have "reach bc gn p1 (p1\<lparr>p_workers := replicate (Suc k + m) Exited\<rparr>)" by (intro Suc.IH)
  moreover have "pool_step bc gn p p1"
    unfolding p1_def using Suc.prems by (intro exit_done) (simp_all add: nth_append)
  moreover have "p1\<lparr>p_workers := replicate (Suc k + m) Exited\<rparr> = p\<lparr>p_workers := replicate (k + Suc m) Exited\<rparr>"
    by (simp add: p1_def set_worker_def)
  ultimately show ?case by (metis converse_rtranclp_into_rtranclp)
qed

text \<open>
  A shutdown in the order of the IAM service, which first cancels the context the workers share,
  can strand a login: for every number of workers the pool reaches a state in which Shutdown has returned
  and a Compare still waits, its own context alive, and no continuation ever gives it bcrypt's verdict.
\<close>

theorem shutdown_strands_caller:
  "\<exists>p. (pool_step bc gn)\<^sup>*\<^sup>* (NewAuthWorkerPool n) p \<and> p_shutdown p = Finished \<and> p_callers p 0 = Waiting (CompareReq password hash)
     \<and> \<not> p_cancelled p 0 \<and> (\<forall>p'. (pool_step bc gn)\<^sup>*\<^sup>* p p' \<longrightarrow>
       p_callers p' 0 \<in> {Waiting (CompareReq password hash), Returned (CompareReq password hash) (ctx_err (CompareReq password hash))})"
proof -
  let ?q = "CompareReq password hash"
  define p0 where "p0 = NewAuthWorkerPool n"
  define p1 where "p1 = set_caller 0 (Sending ?q) p0"
  define p2 where "p2 = set_caller 0 (Waiting ?q) (enqueue 0 ?q p1)"
  define p3 where "p3 = p2\<lparr>p_done := True\<rparr>"
  define p4 where "p4 = p3\<lparr>p_workers := replicate n Exited\<rparr>"
  define p5 where "p5 = p4\<lparr>p_shutdown := ClosedCompare\<rparr>"
  define p6 where "p6 = p5\<lparr>p_shutdown := ClosedBoth\<rparr>"
  define p7 where "p7 = p6\<lparr>p_shutdown := Finished\<rparr>"
  note defs = p0_def p1_def p2_def p3_def p4_def p5_def p6_def p7_def NewAuthWorkerPool_def set_caller_def closed_compare_def cap_def
  have steps: "pool_step bc gn p0 p1" "pool_step bc gn p1 p2" "pool_step bc gn p2 p3"
    "pool_step bc gn p4 p5" "pool_step bc gn p5 p6" "pool_step bc gn p6 p7"
    using call [of p0 0 bc gn ?q] send [of p1 0 ?q bc gn] cancel_pool [of bc gn p2] close_compare [of p4 bc gn] close_generate [of p5 bc gn] wait [of p6 bc gn]
    by (auto simp: defs)
  have "reach bc gn p3 p4" using all_exit [of p3 0 n bc gn] by (simp add: defs)
  then have r: "reach bc gn (NewAuthWorkerPool n) p7" using steps unfolding p0_def [symmetric]
    by (meson converse_rtranclp_into_rtranclp rtranclp_trans r_into_rtranclp)
  have "stranded 0 ?q p7" by (simp add: stranded_def defs)
  then have "\<forall>p'. reach bc gn p7 p' \<longrightarrow> p_callers p' 0 \<in> {Waiting ?q, Returned ?q (ctx_err ?q)}"
    using left.reach_inv [of bc gn p7 _ 0 ?q] by (auto simp: stranded_def)
  moreover have "p_shutdown p7 = Finished" "p_callers p7 0 = Waiting ?q" "\<not> p_cancelled p7 0" by (simp_all add: defs)
  ultimately show ?thesis using r by blast
qed

subsection \<open>Instances\<close>

definition sample_req :: request where "sample_req = CompareReq ''pw'' ''h''"

definition queued_pool :: pool where
  "queued_pool = set_caller 0 (Waiting sample_req) (enqueue 0 sample_req (set_caller 0 (Sending sample_req) (NewAuthWorkerPool 1)))"

lemma queued_reach: "reach bc gn (NewAuthWorkerPool 1) queued_pool"
proof -
  have "pool_step bc gn (NewAuthWorkerPool 1) (set_caller 0 (Sending sample_req) (NewAuthWorkerPool 1))"
    by (rule call) (simp add: NewAuthWorkerPool_def)
  moreover have "pool_step bc gn (set_caller 0 (Sending sample_req) (NewAuthWorkerPool 1)) queued_pool"
    unfolding queued_pool_def
    by (rule send) (simp_all add: NewAuthWorkerPool_def set_caller_def sample_req_def closed_compare_def cap_def)
  ultimately show ?thesis by simp
qed

theorem answerable_iff_worker_left_witness:
  "\<exists>p'. (pool_step (\<lambda>a b. a = b) Ok)\<^sup>*\<^sup>* queued_pool p' \<and> p_callers p' 0 = Returned sample_req (Compared (Err ''mismatched hash and password''))"
  using answerable_iff_worker_left [OF queued_reach, of 0 "''pw''" "''h''" "\<lambda>a b. a = b" Ok]
  by (simp add: queued_pool_def sample_req_def NewAuthWorkerPool_def)

definition answered_pool :: "(string \<Rightarrow> string \<Rightarrow> bool) \<Rightarrow> pool" where
  "answered_pool bc = queued_pool\<lparr>compareJobs := [], p_callers := (\<lambda>_. NotCalled)(0 := Returned sample_req (answer_of bc Ok sample_req))\<rparr>"

lemma answered_reach: "reach bc Ok (NewAuthWorkerPool 1) (answered_pool bc)"
proof -
  define p1 where "p1 = set_worker 0 (Busy (0, sample_req)) (queued_pool\<lparr>compareJobs := []\<rparr>)"
  define p2 where "p2 = set_worker 0 Idle (p1\<lparr>p_result := (p_result p1)(0 \<mapsto> answer_of bc Ok sample_req)\<rparr>)"
  note defs = p1_def p2_def queued_pool_def sample_req_def set_caller_def set_worker_def NewAuthWorkerPool_def answered_pool_def
  have "pool_step bc Ok queued_pool p1" unfolding p1_def by (rule take_compare) (simp_all add: defs)
  moreover have "pool_step bc Ok p1 p2" unfolding p2_def by (rule reply) (simp_all add: defs)
  moreover have "pool_step bc Ok p2 (answered_pool bc)"
    using receive [of p2 0 sample_req "answer_of bc Ok sample_req" bc Ok] by (simp add: defs)
  ultimately show ?thesis using queued_reach [of bc Ok] by (meson rtranclp.rtrancl_into_rtrancl)
qed

theorem pool_refines_compare_witness:
  "\<forall>io. \<exists>queued fin. Compared (if a_bcrypt io ''pw'' ''h'' then Ok () else Err ''mismatched hash and password'')
     = Compared (Compare (io\<lparr>a_job_queued := queued, a_job_done := fin\<rparr>) ''pw'' ''h'')"
proof
  fix io :: auth_io
  show "\<exists>queued fin. Compared (if a_bcrypt io ''pw'' ''h'' then Ok () else Err ''mismatched hash and password'')
     = Compared (Compare (io\<lparr>a_job_queued := queued, a_job_done := fin\<rparr>) ''pw'' ''h'')"
    using pool_refines_compare [OF answered_reach, of io 0 "''pw''" "''h''" "answer_of (a_bcrypt io) Ok sample_req" sample_req]
    by (simp add: answered_pool_def sample_req_def del: ex_simps split del: if_split)
qed

end
