(* ===== verification/Startup.thy ===== *)
theory Startup
  imports Jwt "HOL-Library.Char_ord" "HOL-Library.List_Lexorder"
begin

text \<open>
  What a service does before it serves: secrets and the JWT keyring
  (shared/secrets/manager.go and the main functions), the migration runner and
  its distributed lock (shared/database/migrate.go), and the second JWT
  middleware of the IAM service (services/iam/pkg/middleware/auth.go).
\<close>

subsection \<open>Secrets\<close>

text \<open>The environment, and AWS Secrets Manager by its two calls: set-up, and the string of a secret (\<open>None\<close> for a binary one).\<close>

datatype provider = EnvProvider | AWSProvider

record secrets_io =
  se_getenv :: "string \<Rightarrow> string"
  se_aws_config :: "string \<Rightarrow> string \<Rightarrow> string \<Rightarrow> string \<Rightarrow> bool"
  se_aws_get :: "string \<Rightarrow> (string, string option) result"

definition GetProvider :: "secrets_io \<Rightarrow> (string, provider) result" where
  "GetProvider io =
     (let getenv = se_getenv io in
      if getenv ''USE_AWS_SECRETS_MANAGER'' = ''true''
      then (let region = (if getenv ''AWS_REGION'' = [] then ''us-east-1'' else getenv ''AWS_REGION'')
            in if se_aws_config io (getenv ''AWS_SECRETSMANAGER_ENDPOINT'') region (getenv ''AWS_ACCESS_KEY_ID'') (getenv ''AWS_SECRET_ACCESS_KEY'')
               then Ok AWSProvider else Err ''aws config'')
      else Ok EnvProvider)"

fun GetSecret :: "secrets_io \<Rightarrow> provider \<Rightarrow> string \<Rightarrow> (string, string) result" where
  "GetSecret io EnvProvider secretID =
     (let val = se_getenv io secretID in
      if val = [] then Err (''environment variable '' @ secretID @ '' not set'') else Ok val)"
| "GetSecret io AWSProvider secretID =
     (case se_aws_get io secretID of
        Inl e \<Rightarrow> Err (''failed to get secret '' @ secretID @ '' from AWS: '' @ e)
      | Inr None \<Rightarrow> Err (''secret '' @ secretID @ '' has no string value'')
      | Inr (Some s) \<Rightarrow> Ok s)"

text \<open>
  The keyring of a service.  \<open>parse\<close> reads a JSON text; the default keyring is
  the literal of the source.  \<open>None\<close> is \<open>os.Exit(1)\<close>.
\<close>

definition dev_key :: JWTKey where
  "dev_key = \<lparr>Kid = ''dev-key'', Secret = ''dev-secret-at-least-32-chars-long-!!'', Algorithm = ''HS256'', key_Status = ''active''\<rparr>"

definition dev_keyring_json :: raw_json where
  "dev_keyring_json = Some (JArr [JObj [(''kid'', JStr ''dev-key''), (''secret'', JStr ''dev-secret-at-least-32-chars-long-!!''),
     (''algorithm'', JStr ''HS256''), (''status'', JStr ''active'')]])"

definition service_keyring :: "(string \<Rightarrow> raw_json) \<Rightarrow> secrets_io \<Rightarrow> JWTKey list option" where
  "service_keyring parse io =
     (case GetProvider io of
        Inl _ \<Rightarrow> None
      | Inr p \<Rightarrow>
          (case LoadKeyring (case GetSecret io p ''IAM_JWT_KEYS'' of Inl _ \<Rightarrow> dev_keyring_json | Inr s \<Rightarrow> parse s) of
             Inl _ \<Rightarrow> None | Inr ks \<Rightarrow> Some ks))"

lemma dev_keyring: "LoadKeyring dev_keyring_json = Ok [dev_key]"
proof -
  have "ToLower ''kid'' = ''kid''" "ToLower ''secret'' = ''secret''" "ToLower ''algorithm'' = ''algorithm''" "ToLower ''status'' = ''status''"
    by code_simp+
  then show ?thesis by (simp add: dev_keyring_json_def dev_key_def dec_key_def key_is_def zero_key_def)
qed

lemma keyring_default:
  assumes "GetProvider io = Ok p" "GetSecret io p ''IAM_JWT_KEYS'' = Err e"
  shows "service_keyring parse io = Some [dev_key]"
  using assms by (simp add: service_keyring_def dev_keyring)

text \<open>
  A missing secret opens the services: whenever the provider cannot give the
  keyring (the variable unset, or AWS refusing), the service starts with the
  key printed in its source, and a token signed with that key for any
  organization and user passes the JWT middleware as that user while its claims are current and not revoked.
\<close>

theorem missing_secret_accepts_forged:
  assumes "GetProvider io = Ok p" "GetSecret io p ''IAM_JWT_KEYS'' = Err e"
    and "jwt_contract lib" "jl_sign lib ''HS256'' ''dev-key'' ''dev-secret-at-least-32-chars-long-!!'' claims = Some t" "t \<noteq> []"
    and "\<not> expired now claims" "\<not> not_yet now claims" "cl_ExpiresAt claims \<noteq> None"
    and "blocklist = None \<or> (\<exists>f. blocklist = Some f \<and> f (''blocklist:'' @ cl_ID claims) = (None, Ok False))"
  shows "\<exists>ks ctx'. service_keyring parse io = Some ks \<and> AuthJWTWithBlocklist lib ks blocklist now (Some t) h ctx = Next ctx'
     \<and> GetOrgID ctx' = cl_OrgID claims \<and> GetUserID ctx' = cl_UserID claims"
proof -
  have sign: "Sign lib claims [dev_key] = Ok t" using assms(4) by (simp add: Sign_def dev_key_def)
  have "Verify lib now t [dev_key] = Ok claims"
    by (rule sign_verify [OF assms(3) sign, of dev_key _ dev_key]) (use assms in \<open>simp_all add: dev_key_def\<close>)
  moreover have "\<not> (case blocklist of None \<Rightarrow> False | Some exists \<Rightarrow> (case exists (''blocklist:'' @ cl_ID claims) of (refusal, n) \<Rightarrow>
      (case Call ''blocklist'' refusal n of Inl _ \<Rightarrow> False | Inr b \<Rightarrow> b)))"
    using assms(9) by (auto simp: Call_def)
  ultimately obtain ctx' where "AuthJWTWithBlocklist lib [dev_key] blocklist now (Some t) h ctx = Next ctx'"
      "GetOrgID ctx' = cl_OrgID claims" "GetUserID ctx' = cl_UserID claims"
    using assms(5,8) by (auto simp: AuthJWTWithBlocklist_def extractToken_def Let_def ctx_getters split: option.splits)
  then show ?thesis using keyring_default [OF assms(1,2)] by blast
qed

subsection \<open>The JWT middleware of the IAM service\<close>

text \<open>
  Written beside the shared middleware: an empty cookie falls back to the
  header, and a failing Redis refuses the request.
\<close>

definition iam_Auth :: "jwt_lib \<Rightarrow> JWTKey list \<Rightarrow> (string \<Rightarrow> (string, bool) result) option \<Rightarrow> time \<Rightarrow> string option \<Rightarrow> headers \<Rightarrow> req_ctx \<Rightarrow> verdict" where
  "iam_Auth lib keyring rdb now cookie h ctx =
     (let c = (case cookie of None \<Rightarrow> [] | Some v \<Rightarrow> v); authHeader = hget h ''Authorization'';
          tokenStr = (if c \<noteq> [] then c else if HasPrefix authHeader ''Bearer '' then TrimPrefix authHeader ''Bearer '' else [])
      in if tokenStr = [] then Reject 401 ''Unauthorized: missing token''
         else (case Verify lib now tokenStr keyring of
           Inl _ \<Rightarrow> Reject 401 ''Unauthorized: invalid token''
         | Inr claims \<Rightarrow>
             (case (case rdb of None \<Rightarrow> Ok False | Some exists \<Rightarrow> exists (''blocklist:'' @ cl_ID claims)) of
                Inl _ \<Rightarrow> Reject 401 ''Unauthorized: auth service unavailable''
              | Inr True \<Rightarrow> Reject 401 ''Unauthorized: token revoked''
              | Inr False \<Rightarrow> (case cl_ExpiresAt claims of
                  None \<Rightarrow> Panics
                | Some e \<Rightarrow> Next (ctx\<lparr>cx_user_id := Some (cl_UserID claims), cx_org_id := Some (cl_OrgID claims),
                    cx_jti := Some (cl_ID claims), cx_expires_at := Some e\<rparr>)))))"

text \<open>
  The two JWT middlewares admit the same requests while Redis answers (an empty
  session cookie apart) and give them the same identity; when Redis fails, the one of the IAM package refuses what the shared
  one, which the services mount, lets through.
\<close>

theorem jwt_middlewares_agree:
  assumes "cookie \<noteq> Some []" "Verify lib now (extractToken cookie h) ks = Ok claims" "extractToken cookie h \<noteq> []" "cl_ExpiresAt claims \<noteq> None"
  shows "(case exists (''blocklist:'' @ cl_ID claims) of
      Inr b \<Rightarrow> (\<exists>c. iam_Auth lib ks (Some exists) now cookie h ctx = Next c) = (\<exists>c. AuthJWTWithBlocklist lib ks (Some (\<lambda>k. (None, exists k))) now cookie h ctx = Next c)
        \<and> (\<forall>c c'. iam_Auth lib ks (Some exists) now cookie h ctx = Next c \<longrightarrow>
            AuthJWTWithBlocklist lib ks (Some (\<lambda>k. (None, exists k))) now cookie h ctx = Next c' \<longrightarrow> GetOrgID c = GetOrgID c' \<and> GetUserID c = GetUserID c')
    | Inl _ \<Rightarrow> iam_Auth lib ks (Some exists) now cookie h ctx = Reject 401 ''Unauthorized: auth service unavailable''
        \<and> (\<exists>c. AuthJWTWithBlocklist lib ks (Some (\<lambda>k. (None, exists k))) now cookie h ctx = Next c \<and> GetUserID c = cl_UserID claims))"
proof -
  have tok: "(let c = (case cookie of None \<Rightarrow> [] | Some v \<Rightarrow> v); a = hget h ''Authorization'' in
      if c \<noteq> [] then c else if HasPrefix a ''Bearer '' then TrimPrefix a ''Bearer '' else []) = extractToken cookie h"
    using assms(1) by (cases cookie) (simp_all add: extractToken_def)
  show ?thesis using assms(2-4)
    unfolding iam_Auth_def AuthJWTWithBlocklist_def
    by (cases "exists (''blocklist:'' @ cl_ID claims)") (auto simp: tok [unfolded Let_def] Let_def Call_def ctx_getters)
qed

subsection \<open>Migrations\<close>

text \<open>
  \<open>read\<close> is the content of a file, \<open>exec\<close> one simple-protocol query: its error,
  if any, and the new database.
\<close>

fun apply_files :: "(string \<Rightarrow> string option) \<Rightarrow> (string \<Rightarrow> 'db \<Rightarrow> string option \<times> 'db) \<Rightarrow> string list \<Rightarrow> 'db \<Rightarrow> (string, unit) result \<times> 'db" where
  "apply_files read exec [] db = (Ok (), db)"
| "apply_files read exec (f # fs) db =
     (case read f of
        None \<Rightarrow> (Err (''read migration file '' @ f), db)
      | Some content \<Rightarrow>
          (case exec content db of
             (None, db') \<Rightarrow> apply_files read exec fs db'
           | (Some err, db') \<Rightarrow>
               if Contains err ''already exists'' then apply_files read exec fs db'
               else (Err (''execute migration '' @ f @ '': '' @ err), db')))"

definition sql_files :: "(string \<times> bool) list \<Rightarrow> string list" where
  "sql_files entries = sort (map fst (filter (\<lambda>(name, isdir). \<not> isdir \<and> HasSuffix name ''.up.sql'') entries))"

definition Migrate :: "(string \<times> bool) list option \<Rightarrow> (string \<Rightarrow> string option) \<Rightarrow> (string \<Rightarrow> 'db \<Rightarrow> string option \<times> 'db) \<Rightarrow> 'db \<Rightarrow>
    (string, unit) result \<times> 'db" where
  "Migrate dir read exec db =
     (case dir of None \<Rightarrow> (Err ''read migrations dir'', db) | Some entries \<Rightarrow> apply_files read exec (sql_files entries) db)"

text \<open>What PostgreSQL promises of a query of several statements: it is one transaction.\<close>

definition atomic_exec :: "(string \<Rightarrow> 'db \<Rightarrow> string option \<times> 'db) \<Rightarrow> bool" where
  "atomic_exec exec \<longleftrightarrow> (\<forall>q db. fst (exec q db) \<noteq> None \<longrightarrow> snd (exec q db) = db)"

lemma apply_files_append:
  "apply_files read exec (fs @ gs) db = (case apply_files read exec fs db of
     (Inl e, db') \<Rightarrow> (Err e, db') | (Inr _, db') \<Rightarrow> apply_files read exec gs db')"
  by (induction fs arbitrary: db) (auto split: option.splits prod.splits)

text \<open>The files a run applies: readable, accepted by the server or refused as already there.\<close>

fun applied :: "(string \<Rightarrow> string option) \<Rightarrow> (string \<Rightarrow> 'db \<Rightarrow> string option \<times> 'db) \<Rightarrow> string list \<Rightarrow> 'db \<Rightarrow> string list" where
  "applied read exec [] db = []"
| "applied read exec (f # fs) db = (case read f of
     None \<Rightarrow> [] | Some content \<Rightarrow> (case exec content db of
       (None, db') \<Rightarrow> f # applied read exec fs db'
     | (Some err, db') \<Rightarrow> if Contains err ''already exists'' then applied read exec fs db' else []))"

definition run_all :: "(string \<Rightarrow> string option) \<Rightarrow> (string \<Rightarrow> 'db \<Rightarrow> string option \<times> 'db) \<Rightarrow> string list \<Rightarrow> 'db \<Rightarrow> 'db" where
  "run_all read exec = fold (\<lambda>f db. snd (exec (the (read f)) db))"

lemma apply_files_run:
  "atomic_exec exec \<Longrightarrow> snd (apply_files read exec fs db) = run_all read exec (applied read exec fs db) db"
proof (induction fs arbitrary: db)
  case (Cons f fs)
  show ?case
  proof (cases "read f")
    case (Some content)
    obtain err db' where e: "exec content db = (err, db')" by fastforce
    have "err \<noteq> None \<Longrightarrow> db' = db" using Cons.prems e unfolding atomic_exec_def by (metis fst_conv snd_conv)
    then show ?thesis using Cons Some e by (cases err) (auto simp: run_all_def)
  qed (simp add: run_all_def)
qed (simp add: run_all_def)

lemma subseq_subset: "subseq xs ys \<Longrightarrow> set xs \<subseteq> set ys"
  by (induction rule: list_emb.induct) auto

lemma subseq_sorted: "subseq xs ys \<Longrightarrow> sorted ys \<Longrightarrow> sorted (xs :: string list)"
proof (induction rule: list_emb.induct)
  case (list_emb_Cons2 x y xs ys)
  then show ?case using subseq_subset [of xs ys] by auto
qed auto

lemma applied_subseq: "subseq (applied read exec fs db) fs"
  by (induction fs arbitrary: db) (auto split: option.splits prod.splits intro: subseq_drop_many list_emb.intros)

text \<open>
  Migrations run in name order, whole files only: the database after Migrate
  is what a sorted selection of the \<open>.up.sql\<close> files makes of it, each run
  completely.
\<close>

theorem migrate_runs_sorted_files:
  assumes "atomic_exec exec"
  shows "\<exists>fs. snd (Migrate (Some entries) read exec db) = run_all read exec fs db \<and> sorted fs
     \<and> set fs \<subseteq> {name. (name, False) \<in> set entries \<and> HasSuffix name ''.up.sql''}"
proof (intro exI conjI)
  let ?fs = "applied read exec (sql_files entries) db"
  have sub: "subseq ?fs (sql_files entries)" by (rule applied_subseq)
  show "snd (Migrate (Some entries) read exec db) = run_all read exec ?fs db"
    using apply_files_run [OF assms] by (simp add: Migrate_def)
  show "sorted ?fs" using sub by (rule subseq_sorted) (simp add: sql_files_def)
  have "set (sql_files entries) \<subseteq> {name. (name, False) \<in> set entries \<and> HasSuffix name ''.up.sql''}" by (auto simp: sql_files_def)
  then show "set ?fs \<subseteq> {name. (name, False) \<in> set entries \<and> HasSuffix name ''.up.sql''}"
    using subseq_subset [OF sub] by blast
qed

text \<open>
  A file refused as already there is dropped in silence: when one statement of
  a file meets an existing object, none of the file takes effect and Migrate
  goes on exactly as if the file were not there, its success included.
\<close>

theorem migrate_drops_conflicting_file:
  assumes "atomic_exec exec" "apply_files read exec fs db = (Ok (), db1)"
    and "read f = Some content" "fst (exec content db1) = Some err" "Contains err ''already exists''"
    and "sql_files entries = fs @ f # gs"
  shows "Migrate (Some entries) read exec db = apply_files read exec (fs @ gs) db"
proof -
  have "exec content db1 = (Some err, db1)" using assms(1,4) unfolding atomic_exec_def by (metis option.distinct(1) prod.collapse)
  then show ?thesis using assms(2,3,5,6) by (simp add: Migrate_def apply_files_append)
qed

subsection \<open>The migration lock\<close>

text \<open>
  RunWithLock of several instances against one Redis key with a lifetime of 60
  seconds.  An instance that gets the key runs the task with a heartbeat and
  then deletes the key, whoever holds it by then; one that does not polls up to 30 times, two seconds apart, and returns nil.
  The task's result is whether the migration worked.
\<close>

datatype phase = NotStarted | Migrating time | Polling nat time | TaskDone bool | ReturnedNil

record lock_st =
  lk_now :: time
  lk_expiry :: "time option"
  lk_phase :: "nat \<Rightarrow> phase"

definition lockTTL :: time where "lockTTL = 60 * Second"

definition key_live :: "lock_st \<Rightarrow> bool" where
  "key_live s \<longleftrightarrow> (case lk_expiry s of None \<Rightarrow> False | Some t \<Rightarrow> lk_now s < t)"

definition set_phase :: "nat \<Rightarrow> phase \<Rightarrow> lock_st \<Rightarrow> lock_st" where
  "set_phase i p s = s\<lparr>lk_phase := (lk_phase s)(i := p)\<rparr>"

text \<open>\<open>Migrating b\<close> remembers the last time the instance set or renewed the key, or tried to.\<close>

inductive lock_step :: "lock_st \<Rightarrow> lock_st \<Rightarrow> bool" where
  acquire: "lk_phase s i = NotStarted \<Longrightarrow> \<not> key_live s \<Longrightarrow>
    lock_step s (set_phase i (Migrating (lk_now s)) (s\<lparr>lk_expiry := Some (lk_now s + lockTTL)\<rparr>))"
| refused: "lk_phase s i = NotStarted \<Longrightarrow> key_live s \<Longrightarrow> lock_step s (set_phase i (Polling 0 (lk_now s)) s)"
| poll: "lk_phase s i = Polling k t \<Longrightarrow> t + 2 * Second \<le> lk_now s \<Longrightarrow>
    lock_step s (set_phase i (if key_live s \<and> Suc k < 30 then Polling (Suc k) (lk_now s) else ReturnedNil) s)"
| heartbeat: "lk_phase s i = Migrating b \<Longrightarrow>
    lock_step s (set_phase i (Migrating (lk_now s)) (s\<lparr>lk_expiry := if key_live s then Some (lk_now s + lockTTL) else lk_expiry s\<rparr>))"
| finish: "lk_phase s i = Migrating b \<Longrightarrow> lock_step s (set_phase i (TaskDone ok) (s\<lparr>lk_expiry := None\<rparr>))"
| pass: "0 \<le> d \<Longrightarrow> lock_step s (s\<lparr>lk_now := lk_now s + d\<rparr>)"

text \<open>Steps in which no heartbeat is a whole lifetime late.\<close>

definition timely :: "lock_st \<Rightarrow> bool" where
  "timely s \<longleftrightarrow> (\<forall>i b. lk_phase s i = Migrating b \<longrightarrow> lk_now s < b + lockTTL)"

definition timely_step :: "lock_st \<Rightarrow> lock_st \<Rightarrow> bool" where
  "timely_step s t \<longleftrightarrow> lock_step s t \<and> timely t"

definition lock_inv :: "lock_st \<Rightarrow> bool" where
  "lock_inv s \<longleftrightarrow> timely s \<and> (\<forall>i b. lk_phase s i = Migrating b \<longrightarrow> lk_expiry s = Some (b + lockTTL))
     \<and> (\<forall>i j b c. lk_phase s i = Migrating b \<longrightarrow> lk_phase s j = Migrating c \<longrightarrow> i = j)"

lemma lock_inv_step: "lock_inv s \<Longrightarrow> timely_step s t \<Longrightarrow> lock_inv t"
  unfolding timely_step_def
  by (elim conjE lock_step.cases)
    (auto simp: lock_inv_def set_phase_def timely_def key_live_def split: if_splits option.splits)

interpretation migration_lock: step_invariant timely_step lock_inv
  by unfold_locales (rule lock_inv_step)

definition lock_start :: "time \<Rightarrow> lock_st" where
  "lock_start now = \<lparr>lk_now = now, lk_expiry = None, lk_phase = (\<lambda>_. NotStarted)\<rparr>"

text \<open>
  C30. Mutual exclusion of migrations: while every instance that migrates renews the
  key at least once a lifetime (the code tries every ten seconds), no two
  instances migrate at the same time, and the key is there whenever one does.
\<close>

theorem migrations_exclusive:
  assumes "timely_step\<^sup>*\<^sup>* (lock_start now) s" "lk_phase s i = Migrating b"
  shows "key_live s \<and> (\<forall>j c. lk_phase s j = Migrating c \<longrightarrow> j = i)"
proof -
  have "lock_inv (lock_start now)" by (simp add: lock_inv_def timely_def lock_start_def)
  then have "lock_inv s" using migration_lock.reach_inv [OF assms(1)] by blast
  then show ?thesis using assms(2) by (auto simp: lock_inv_def timely_def key_live_def)
qed

text \<open>Instance 0 has just renewed the key and instance 1 has polled \<open>k\<close> times.\<close>

definition both :: "nat \<Rightarrow> time \<Rightarrow> lock_st" where
  "both k now = \<lparr>lk_now = now, lk_expiry = Some (now + lockTTL), lk_phase = (\<lambda>_. NotStarted)(0 := Migrating now, 1 := Polling k now)\<rparr>"

definition polled :: "nat \<Rightarrow> time \<Rightarrow> lock_st" where
  "polled k now = (both k now)\<lparr>lk_phase := (\<lambda>_. NotStarted)(0 := Migrating now, 1 := if Suc k < 30 then Polling (Suc k) now else ReturnedNil)\<rparr>"

lemmas lock_defs = timely_step_def set_phase_def key_live_def timely_def lockTTL_def time_units both_def lock_start_def

text \<open>
  A waiting instance starts whatever became of the migration: it can return nil,
  as if the schema were in place, after the migrating instance failed, and also
  while that instance still migrates and the key is still there.
\<close>

theorem waiter_returns_nil:
  "\<exists>s t. timely_step\<^sup>*\<^sup>* (lock_start 0) s \<and> lk_phase s 0 = TaskDone False \<and> lk_phase s 1 = ReturnedNil \<and>
     timely_step\<^sup>*\<^sup>* (lock_start 0) t \<and> (\<exists>b. lk_phase t 0 = Migrating b) \<and> key_live t \<and> lk_phase t 1 = ReturnedNil"
proof -
  have start: "timely_step\<^sup>*\<^sup>* (lock_start 0) (both 0 0)"
  proof -
    define s1 where "s1 = \<lparr>lk_now = 0, lk_expiry = Some lockTTL, lk_phase = (\<lambda>_. NotStarted)(0 := Migrating 0)\<rparr>"
    have "timely_step (lock_start 0) s1" using acquire [of "lock_start 0" 0] by (simp add: lock_defs s1_def)
    moreover have "timely_step s1 (both 0 0)" using refused [of s1 1] by (simp add: lock_defs s1_def)
    ultimately show ?thesis by (meson rtranclp.rtrancl_into_rtrancl rtranclp.rtrancl_refl)
  qed
  have round: "timely_step\<^sup>*\<^sup>* (both k n) (polled k (n + 2 * Second))" for k n
  proof -
    define s1 where "s1 = (both k n)\<lparr>lk_now := n + 2 * Second\<rparr>"
    define s2 where "s2 = (polled k (n + 2 * Second))\<lparr>lk_phase := (\<lambda>_. NotStarted)(0 := Migrating (n + 2 * Second), 1 := Polling k n)\<rparr>"
    have "timely_step (both k n) s1" using pass [of "2 * Second" "both k n"] by (auto simp: lock_defs s1_def)
    moreover have "timely_step s1 s2" using heartbeat [of s1 0 n] by (auto simp: lock_defs s1_def s2_def polled_def fun_upd_twist)
    moreover have "timely_step s2 (polled k (n + 2 * Second))" using poll [of s2 1 k n] by (auto simp: lock_defs s2_def polled_def)
    ultimately show ?thesis by (meson rtranclp.rtrancl_into_rtrancl rtranclp.rtrancl_refl)
  qed
  have "timely_step\<^sup>*\<^sup>* (lock_start 0) (both k (int k * (2 * Second)))" if "k < 30" for k
    using that
  proof (induction k)
    case (Suc k)
    then show ?case using round [of k "int k * (2 * Second)"]
      by (auto simp: polled_def both_def algebra_simps elim!: rtranclp_trans)
  qed (use start in simp)
  from this [of 29] round [of 29 "29 * (2 * Second)"]
  have t: "timely_step\<^sup>*\<^sup>* (lock_start 0) (polled 29 (30 * (2 * Second)))" by (auto elim!: rtranclp_trans)
  define s1 where "s1 = \<lparr>lk_now = 0, lk_expiry = None, lk_phase = (\<lambda>_. NotStarted)(0 := TaskDone False, 1 := Polling 0 0)\<rparr>"
  define s2 where "s2 = s1\<lparr>lk_now := 2 * Second\<rparr>"
  define s3 where "s3 = set_phase 1 ReturnedNil s2"
  have "timely_step (both 0 0) s1" using finish [of "both 0 0" 0 0 False] by (simp add: lock_defs s1_def fun_upd_twist)
  moreover have "timely_step s1 s2" using pass [of "2 * Second" s1] by (simp add: lock_defs s1_def s2_def)
  moreover have "timely_step s2 s3" using poll [of s2 1 0 0] by (simp add: lock_defs s1_def s2_def s3_def)
  ultimately have "timely_step\<^sup>*\<^sup>* (lock_start 0) s3" using start by (meson rtranclp.rtrancl_into_rtrancl)
  moreover have "lk_phase s3 0 = TaskDone False" "lk_phase s3 1 = ReturnedNil" by (simp_all add: s1_def s2_def s3_def set_phase_def)
  moreover have "lk_phase (polled 29 (30 * (2 * Second))) 0 = Migrating (30 * (2 * Second))" "lk_phase (polled 29 (30 * (2 * Second))) 1 = ReturnedNil"
    "key_live (polled 29 (30 * (2 * Second)))" by (simp_all add: polled_def lock_defs)
  ultimately show ?thesis using t by blast
qed

subsection \<open>Instances\<close>

definition dev_jwt :: jwt_lib where
  "dev_jwt = \<lparr>jl_sign = (\<lambda>alg kid s c. if c = toy_claims \<and> alg = ''HS256'' \<and> kid = ''dev-key'' \<and> s = Secret dev_key then Some ''tok'' else None),
     jl_header = (\<lambda>t. if t = ''tok'' then Some (Some ''dev-key'', ''HS256'') else None),
     jl_claims = (\<lambda>t. if t = ''tok'' then Some toy_claims else None),
     jl_valid = (\<lambda>alg s t. t = ''tok'' \<and> alg = ''HS256'' \<and> s = Secret dev_key)\<rparr>"

definition bare_env :: secrets_io where
  "bare_env = \<lparr>se_getenv = (\<lambda>_. []), se_aws_config = (\<lambda>_ _ _ _. False), se_aws_get = (\<lambda>_. Err ''no'')\<rparr>"

lemma toy_current: "\<not> expired 0 toy_claims" "\<not> not_yet 0 toy_claims" "cl_ExpiresAt toy_claims \<noteq> None"
  using fresh_claims_valid [of 0 0 Hour] by (simp_all add: toy_claims_def NewStandardClaims_def time_units)

theorem missing_secret_accepts_forged_witness:
  "\<exists>ks ctx'. service_keyring (\<lambda>_. None) bare_env = Some ks \<and> AuthJWTWithBlocklist dev_jwt ks None 0 (Some ''tok'') [] empty_ctx = Next ctx'
     \<and> GetOrgID ctx' = ''o1'' \<and> GetUserID ctx' = ''u1''"
proof -
  have c: "jwt_contract dev_jwt" by (auto simp: jwt_contract_def dev_jwt_def split: if_splits)
  have p: "GetProvider bare_env = Ok EnvProvider" "GetSecret bare_env EnvProvider ''IAM_JWT_KEYS'' = Err (''environment variable '' @ ''IAM_JWT_KEYS'' @ '' not set'')"
    by (simp_all add: GetProvider_def bare_env_def)
  have "jl_sign dev_jwt ''HS256'' ''dev-key'' ''dev-secret-at-least-32-chars-long-!!'' toy_claims = Some ''tok''"
    by (simp add: dev_jwt_def dev_key_def)
  from missing_secret_accepts_forged [OF p c this _ toy_current, of None "\<lambda>_. None" "[]" empty_ctx]
  show ?thesis by (simp add: toy_claims_def NewStandardClaims_def)
qed

theorem jwt_middlewares_agree_witness:
  "iam_Auth dev_jwt [dev_key] (Some (\<lambda>_. Err ''down'')) 0 (Some ''tok'') [] empty_ctx = Reject 401 ''Unauthorized: auth service unavailable''
   \<and> (\<exists>c. AuthJWTWithBlocklist dev_jwt [dev_key] (Some (\<lambda>k. (None, Err ''down''))) 0 (Some ''tok'') [] empty_ctx = Next c \<and> GetUserID c = ''u1'')"
proof -
  have "Verify dev_jwt 0 ''tok'' [dev_key] = Ok toy_claims"
    using toy_current by (simp add: Verify_def dev_jwt_def key_func_def dev_key_def)
  then have "Verify dev_jwt 0 (extractToken (Some ''tok'') []) [dev_key] = Ok toy_claims" "extractToken (Some ''tok'') [] \<noteq> []"
    by (simp_all add: extractToken_def)
  from jwt_middlewares_agree [OF _ this toy_current(3), of "\<lambda>_. Err ''down''" empty_ctx]
  show ?thesis by (simp add: toy_claims_def NewStandardClaims_def)
qed

text \<open>A database that is the list of the statements run; creating \<open>t\<close> twice is refused.\<close>

definition toy_exec :: "string \<Rightarrow> string list \<Rightarrow> string option \<times> string list" where
  "toy_exec q db = (if q \<in> set db then (Some ''relation t already exists'', db) else (None, db @ [q]))"

lemma toy_atomic: "atomic_exec toy_exec"
  by (simp add: atomic_exec_def toy_exec_def)

lemma toy_files: "sql_files [(''2.up.sql'', False), (''1.up.sql'', False), (''1.down.sql'', False)] = [''1.up.sql'', ''2.up.sql'']"
  by code_simp

theorem migrate_runs_sorted_files_witness:
  "\<exists>fs. snd (Migrate (Some [(''2.up.sql'', False), (''1.up.sql'', False), (''1.down.sql'', False)]) Some toy_exec []) = run_all Some toy_exec fs []
     \<and> sorted fs"
  using migrate_runs_sorted_files [OF toy_atomic, of "[(''2.up.sql'', False), (''1.up.sql'', False), (''1.down.sql'', False)]" Some "[]"] by blast

theorem migrate_drops_conflicting_file_witness:
  "Migrate (Some [(''2.up.sql'', False), (''1.up.sql'', False), (''1.down.sql'', False)]) Some toy_exec [''1.up.sql''] =
     (Ok (), [''1.up.sql'', ''2.up.sql''])"
proof -
  have "Contains ''relation t already exists'' ''already exists''" by code_simp
  moreover have "sql_files [(''2.up.sql'', False), (''1.up.sql'', False), (''1.down.sql'', False)] = [] @ ''1.up.sql'' # [''2.up.sql'']"
    using toy_files by simp
  moreover have "apply_files Some toy_exec [] [''1.up.sql''] = (Ok (), [''1.up.sql''])"
    "fst (toy_exec ''1.up.sql'' [''1.up.sql'']) = Some ''relation t already exists''" by (simp_all add: toy_exec_def)
  ultimately have "Migrate (Some [(''2.up.sql'', False), (''1.up.sql'', False), (''1.down.sql'', False)]) Some toy_exec [''1.up.sql''] =
      apply_files Some toy_exec ([] @ [''2.up.sql'']) [''1.up.sql'']"
    by (intro migrate_drops_conflicting_file [OF toy_atomic _ refl])
  then show ?thesis by (simp add: toy_exec_def)
qed

theorem migrations_exclusive_witness:
  "\<exists>s b. lk_phase s 0 = Migrating b \<and> key_live s \<and> (\<forall>j c. lk_phase s j = Migrating c \<longrightarrow> j = 0)"
proof -
  define s where "s = \<lparr>lk_now = 0, lk_expiry = Some lockTTL, lk_phase = (\<lambda>_. NotStarted)(0 := Migrating 0)\<rparr>"
  have "timely_step (lock_start 0) s" using acquire [of "lock_start 0" 0] by (simp add: lock_defs s_def)
  moreover have "lk_phase s 0 = Migrating 0" by (simp add: s_def)
  ultimately show ?thesis using migrations_exclusive [of 0 s 0 0] by blast
qed

end
