(* ===== verification/Audit_Stream.thy ===== *)
theory Audit_Stream
  imports Audit_Trail Jwt "HOL-Library.Char_ord" "HOL-Library.List_Lexorder"
begin

text \<open>
  The live stream of audit events (services/audit/pkg/handlers/sse.go): an
  authenticated request is answered with a server-sent event per document that
  the change stream of the collection reports for the caller's organization.
  The reader of such a stream, as the HTML standard defines it, is the
  reference the text is checked against.
\<close>

subsection \<open>The handler\<close>

record stream_io =
  st_getenv :: "string \<Rightarrow> string"
  st_flusher :: bool
  st_watch :: bool

text \<open>
  A change: its full document, if it has one, and whether the driver decodes
  it.  MongoDB's match of a field with a string also holds of an array that
  contains it.
\<close>

type_synonym change = "event option \<times> bool"

definition org_match :: "string \<Rightarrow> change \<Rightarrow> bool" where
  "org_match orgID c = (case fst c of None \<Rightarrow> False | Some e \<Rightarrow>
     (case json_lookup e ''org_id'' of
        Some (JStr s) \<Rightarrow> s = orgID | Some (JArr js) \<Rightarrow> JStr orgID \<in> set js | _ \<Rightarrow> False))"

definition LF :: char where "LF = CHR 0x0A"
definition CR :: char where "CR = CHR 0x0D"

text \<open>\<open>json.Marshal\<close> of a map prints its keys in order.\<close>

definition event_text :: "event \<Rightarrow> string" where
  "event_text e = json_marshal (JObj (sort_key fst e))"

definition frame :: "event \<Rightarrow> string" where
  "frame e = (let i = json_str e ''event_id'' in if i \<noteq> [] then ''id: '' @ i @ [LF] else []) @ ''data: '' @ event_text e @ [LF, LF]"

fun stream_body :: "change list \<Rightarrow> string" where
  "stream_body [] = []"
| "stream_body ((d, ok) # cs) = (if ok then frame (case d of None \<Rightarrow> [] | Some e \<Rightarrow> e) else []) @ stream_body cs"

definition StreamEvents :: "stream_io \<Rightarrow> req_ctx \<Rightarrow> change list \<Rightarrow> string http_resp" where
  "StreamEvents io ctx changes =
     (let orgID = GetOrgID ctx; getenv = st_getenv io in
      if orgID = [] then \<lparr>rs_code = 401, rs_headers = [], rs_body = ''Unauthorized''\<rparr>
      else
        (let h = hset (hset (hset [] ''Content-Type'' ''text/event-stream'') ''Cache-Control'' ''no-cache'') ''Connection'' ''keep-alive'';
             unset = getenv ''ALLOWED_ORIGIN'' = []
         in if unset \<and> (getenv ''APP_ENV'' = ''production'' \<or> getenv ''ENV'' = ''prod'')
            then \<lparr>rs_code = 500, rs_headers = h, rs_body = ''ALLOWED_ORIGIN must be set in production for authenticated SSE''\<rparr>
            else
              (let allowedOrigin = (if unset then ''http://localhost:4200'' else getenv ''ALLOWED_ORIGIN'');
                   h' = hset (hset h ''Access-Control-Allow-Origin'' allowedOrigin) ''Access-Control-Allow-Credentials'' ''true''
               in if \<not> st_flusher io then \<lparr>rs_code = 500, rs_headers = h', rs_body = ''SSE not supported''\<rparr>
                  else if \<not> st_watch io then \<lparr>rs_code = 500, rs_headers = h', rs_body = ''stream unavailable''\<rparr>
                  else \<lparr>rs_code = 200, rs_headers = h', rs_body = stream_body (filter (org_match orgID) changes)\<rparr>)))"

subsection \<open>A reader of event streams\<close>

text \<open>Lines end at LF, CR or both (the flag says that a CR has just ended one); what follows the last end is no line.\<close>

fun sse_lines :: "bool \<Rightarrow> string \<Rightarrow> string \<Rightarrow> string list" where
  "sse_lines cr acc [] = []"
| "sse_lines cr acc (c # cs) =
     (if c = LF then (if cr then sse_lines False acc cs else acc # sse_lines False [] cs)
      else if c = CR then acc # sse_lines True [] cs
      else sse_lines False (acc @ [c]) cs)"

record sse_client =
  sc_id :: string
  sc_data :: "string list"
  sc_events :: "(string \<times> string) list"

definition sse_line :: "string \<Rightarrow> sse_client \<Rightarrow> sse_client" where
  "sse_line l s =
     (if l = [] then (if sc_data s = [] then s else s\<lparr>sc_data := [], sc_events := sc_events s @ [(sc_id s, Join (sc_data s) [LF])]\<rparr>)
      else (case split_first '':'' l of (name, v) \<Rightarrow>
        (let val = (case v of None \<Rightarrow> [] | Some r \<Rightarrow> TrimPrefix r '' '') in
         if name = ''data'' then s\<lparr>sc_data := sc_data s @ [val]\<rparr>
         else if name = ''id'' \<and> CHR 0x00 \<notin> set val then s\<lparr>sc_id := val\<rparr>
         else s)))"

definition sse_read :: "string \<Rightarrow> (string \<times> string) list" where
  "sse_read body = sc_events (fold sse_line (sse_lines False [] body) \<lparr>sc_id = [], sc_data = [], sc_events = []\<rparr>)"

text \<open>What a client should see of a list of events: each with its own id, or the id of the one before.\<close>

fun sse_expected :: "string \<Rightarrow> event list \<Rightarrow> (string \<times> string) list" where
  "sse_expected i [] = []"
| "sse_expected i (e # es) =
     (let j = (if json_str e ''event_id'' = [] then i else json_str e ''event_id'') in (j, event_text e) # sse_expected j es)"

subsection \<open>JSON text has no line breaks\<close>

definition plain :: "string \<Rightarrow> bool" where "plain s \<longleftrightarrow> LF \<notin> set s \<and> CR \<notin> set s"

lemma plain_simps [simp]:
  "plain []" "plain (c # s) \<longleftrightarrow> c \<noteq> LF \<and> c \<noteq> CR \<and> plain s" "plain (s @ t) \<longleftrightarrow> plain s \<and> plain t"
  by (auto simp: plain_def)

lemma plain_Join: "(\<And>s. s \<in> set ss \<Longrightarrow> plain s) \<Longrightarrow> plain sep \<Longrightarrow> plain (Join ss sep)"
  by (induction ss sep rule: Join.induct) auto

lemma hex_byte_plain: "plain (hex_byte c)"
proof -
  have "digit n \<noteq> LF \<and> digit n \<noteq> CR" if "n < 16" for n
  proof -
    have "(of_char (digit n) :: nat) \<noteq> of_char LF \<and> (of_char (digit n) :: nat) \<noteq> of_char CR" using that by (simp add: LF_def CR_def)
    then show ?thesis by auto
  qed
  moreover have "(of_char c :: nat) div 16 < 16" using nat_of_char_less_256 [of c] by (auto simp: less_mult_imp_div_less)
  ultimately show ?thesis by (simp add: hex_byte_def)
qed

lemma plain_itoa: "plain (itoa n)"
proof -
  have "plain (nat_str m)" for m
    using nat_str_digits [of m] by (auto simp: plain_def list_all_iff is_digit_def LF_def CR_def)
  then show ?thesis by (simp add: itoa_def LF_def CR_def)
qed

lemma plain_quote: "plain (json_quote s)"
proof -
  have "plain (json_esc c)" for c
    by (auto simp: json_esc_def hex_byte_plain LF_def CR_def)
  then have "plain (concat (map json_esc s))" by (induction s) simp_all
  then show ?thesis by (simp add: json_quote_def LF_def CR_def)
qed

lemma plain_marshal: "plain (json_marshal j)"
proof (induction j)
  case (JArr js)
  then have "plain (Join (map json_marshal js) '','')" by (intro plain_Join) (auto simp: LF_def CR_def)
  then show ?case by (simp add: LF_def CR_def)
next
  case (JObj ms)
  have "plain (Join (map (\<lambda>(k, j). json_quote k @ '':'' @ json_marshal j) ms) '','')"
  proof (rule plain_Join)
    fix s assume "s \<in> set (map (\<lambda>(k, j). json_quote k @ '':'' @ json_marshal j) ms)"
    then obtain k j where "(k, j) \<in> set ms" "s = json_quote k @ '':'' @ json_marshal j" by auto
    then show "plain s" using JObj [of "(k, j)" j] plain_quote by (simp add: LF_def CR_def)
  qed (simp add: LF_def CR_def)
  then show ?case by (simp add: LF_def CR_def)
qed (simp_all add: plain_quote plain_itoa LF_def CR_def)

subsection \<open>The stream and its reader\<close>

lemma lines_plain: "plain l \<Longrightarrow> sse_lines cr acc (l @ LF # r) = (if l = [] \<and> cr then sse_lines False acc r else (acc @ l) # sse_lines False [] r)"
  by (induction l arbitrary: cr acc) auto

lemma line_id: "CHR 0x00 \<notin> set i \<Longrightarrow> sse_line (''id: '' @ i) s = s\<lparr>sc_id := i\<rparr>"
  by (simp add: sse_line_def HasPrefix_def TrimPrefix_def Let_def)

lemma line_data: "sse_line (''data: '' @ d) s = s\<lparr>sc_data := sc_data s @ [d]\<rparr>"
  by (simp add: sse_line_def HasPrefix_def TrimPrefix_def Let_def)

definition clean_id :: "event \<Rightarrow> bool" where
  "clean_id e \<longleftrightarrow> plain (json_str e ''event_id'') \<and> CHR 0x00 \<notin> set (json_str e ''event_id'')"

lemma read_frame:
  assumes "clean_id e" "sc_data s = []"
  shows "fold sse_line (sse_lines False [] (frame e @ r)) s =
     fold sse_line (sse_lines False [] r)
       (let i = (if json_str e ''event_id'' = [] then sc_id s else json_str e ''event_id'')
        in s\<lparr>sc_id := i, sc_events := sc_events s @ [(i, event_text e)]\<rparr>)"
proof -
  let ?i = "json_str e ''event_id''"
  have p: "plain (''data: '' @ event_text e)" "plain (''id: '' @ ?i)"
    using assms(1) plain_marshal [of "JObj (sort_key fst e)"] by (simp_all add: event_text_def clean_id_def LF_def CR_def del: json_marshal.simps)
  have lines: "sse_lines False [] (frame e @ r) =
      (if ?i = [] then [] else [''id: '' @ ?i]) @ [''data: '' @ event_text e, []] @ sse_lines False [] r"
    using lines_plain [OF p(2), of False "[]" "''data: '' @ event_text e @ LF # LF # r"] lines_plain [OF p(1), of False "[]" "LF # r"]
    by (simp add: frame_def Let_def)
  show ?thesis
    using assms unfolding lines
    by (cases s) (simp add: clean_id_def line_id [unfolded append_Cons append_Nil] line_data [unfolded append_Cons append_Nil] sse_line_def [of "[]"] Let_def)
qed

lemma read_frames:
  assumes "\<forall>e\<in>set es. clean_id e" "sc_data s = []"
  shows "sc_events (fold sse_line (sse_lines False [] (concat (map frame es))) s) = sc_events s @ sse_expected (sc_id s) es"
  using assms
proof (induction es arbitrary: s)
  case (Cons e es)
  then show ?case by (simp add: read_frame Let_def)
qed simp

lemma stream_body_frames:
  "(\<And>c. c \<in> set cs \<Longrightarrow> fst c \<noteq> None) \<Longrightarrow> stream_body cs = concat (map frame [e. (Some e, True) \<leftarrow> cs])"
proof (induction cs)
  case (Cons c cs)
  obtain d ok where c: "c = (d, ok)" by fastforce
  then obtain e where "d = Some e" using Cons.prems [of c] by auto
  then show ?case using Cons c by (cases ok) auto
qed simp


text \<open>
  An event id can forge events: the ingest endpoint takes the id from the
  request, and the stream writes it unescaped, so an event whose id holds line
  breaks makes the reader see an extra event with a text of the sender's
  choice.
\<close>

theorem event_id_injects:
  assumes "plain forged" "json_str e ''event_id'' = ''x'' @ [LF] @ ''data: '' @ forged @ [LF, LF] @ ''id: y''"
  shows "sse_read (frame e) = [(''x'', forged), (''y'', event_text e)]"
proof -
  have p: "plain (''data: '' @ event_text e)" "plain (''data: '' @ forged)" "plain ''id: x''" "plain ''id: y''"
    using assms(1) plain_marshal [of "JObj (sort_key fst e)"] by (simp_all add: event_text_def LF_def CR_def del: json_marshal.simps)
  have "frame e = ''id: x'' @ LF # (''data: '' @ forged) @ LF # [] @ LF # ''id: y'' @ LF # (''data: '' @ event_text e) @ LF # [] @ LF # []"
    using assms(2) by (simp add: frame_def)
  then have "sse_lines False [] (frame e) = [''id: x'', ''data: '' @ forged, [], ''id: y'', ''data: '' @ event_text e, []]"
    using p by (simp only: lines_plain plain_simps(1)) simp
  then show ?thesis
    using line_id [of "''x''"] line_id [of "''y''"] line_data [of forged] line_data [of "event_text e"]
    by (simp add: sse_read_def sse_line_def [of "[]"])
qed

subsection \<open>Instances\<close>

definition sample_doc :: "string \<Rightarrow> string \<Rightarrow> event" where
  "sample_doc i o' = [(''event_id'', JStr i), (''org_id'', JStr o')]"

lemma sample_doc_str: "json_str (sample_doc i o') ''event_id'' = i" "org_match o' (Some (sample_doc i o''), b) \<longleftrightarrow> o'' = o'"
  by (simp_all add: sample_doc_def json_str_def json_lookup_def org_match_def)


theorem event_id_injects_witness:
  "sse_read (frame (sample_doc (''x'' @ [LF] @ ''data: '' @ ''boo'' @ [LF, LF] @ ''id: y'') ''o1''))
     = [(''x'', ''boo''), (''y'', event_text (sample_doc (''x'' @ [LF] @ ''data: '' @ ''boo'' @ [LF, LF] @ ''id: y'') ''o1''))]"
  by (rule event_id_injects) (simp_all add: sample_doc_str LF_def CR_def)

end
