(* ===== verification/Telemetry.thy ===== *)
theory Telemetry
  imports Http
begin

text \<open>
  The logging handler that every service wraps around its JSON logger
  (shared/telemetry/safe_logger.go, logger.go), the correlation id of the IAM service
  (services/iam/pkg/middleware/middleware.go) and the Kafka publisher with its
  trace headers (shared/kafka/publisher.go).
\<close>

subsection \<open>Attributes\<close>

text \<open>
  A value of package slog: one that is printed, a group of attributes, or a
  LogValuer with the value it resolves to.  GroupValue drops empty groups.
\<close>

datatype attr_value = VText string | VGroup "(string \<times> attr_value) list" | VLazy attr_value

type_synonym attr = "string \<times> attr_value"

definition group_value :: "attr list \<Rightarrow> attr_value" where
  "group_value as = VGroup (filter (\<lambda>a. snd a \<noteq> VGroup []) as)"

definition sensitiveFields :: "string list" where
  "sensitiveFields = [''password'', ''token'', ''secret'', ''api_key'', ''authorization'', ''cookie'', ''access_token'', ''refresh_token'']"

definition sensitive :: "string \<Rightarrow> bool" where
  "sensitive k \<longleftrightarrow> ToLower k \<in> set sensitiveFields"

fun redact :: "string \<Rightarrow> attr_value \<Rightarrow> attr_value" where
  "redact k (VGroup as) = group_value (map (\<lambda>a. (fst a, redact (fst a) (snd a))) as)"
| "redact k (VText s) = (if sensitive k then VText ''[REDACTED]'' else VText s)"
| "redact k (VLazy v) = (if sensitive k then VText ''[REDACTED]'' else VLazy v)"

definition redactAttr :: "attr \<Rightarrow> attr" where
  "redactAttr a = (fst a, redact (fst a) (snd a))"

subsection \<open>The handler\<close>

text \<open>The wrapped handler, by what it was given: attributes and groups, oldest first.\<close>

datatype scope = WithAttrs "attr list" | WithGroup string

type_synonym handler = "scope list"

definition WithAttrsH :: "attr list \<Rightarrow> handler \<Rightarrow> handler" where
  "WithAttrsH attrs h = h @ [WithAttrs (map redactAttr attrs)]"

definition WithGroupH :: "string \<Rightarrow> handler \<Rightarrow> handler" where
  "WithGroupH name h = h @ [WithGroup name]"

text \<open>Record.AddAttrs drops empty groups.\<close>

definition Handle :: "handler \<Rightarrow> attr list \<Rightarrow> handler \<times> attr list" where
  "Handle h attrs = (h, filter (\<lambda>a. snd a \<noteq> VGroup []) (map redactAttr attrs))"

text \<open>What a JSON line shows: every printed value with the key it stands under.\<close>

fun leaves :: "string \<Rightarrow> attr_value \<Rightarrow> (string \<times> string) list" where
  "leaves k (VText s) = [(k, s)]"
| "leaves k (VLazy v) = leaves k v"
| "leaves k (VGroup as) = concat (map (\<lambda>a. leaves (fst a) (snd a)) as)"

definition attr_leaves :: "attr list \<Rightarrow> (string \<times> string) list" where
  "attr_leaves as = concat (map (\<lambda>a. leaves (fst a) (snd a)) as)"

fun scope_leaves :: "scope \<Rightarrow> (string \<times> string) list" where
  "scope_leaves (WithAttrs as) = attr_leaves as"
| "scope_leaves (WithGroup _) = []"

definition line :: "handler \<times> attr list \<Rightarrow> (string \<times> string) list" where
  "line r = concat (map scope_leaves (fst r)) @ attr_leaves (snd r)"

text \<open>A logger made by With and WithGroup from a fresh one.\<close>

fun derive :: "scope \<Rightarrow> handler \<Rightarrow> handler" where
  "derive (WithAttrs as) h = WithAttrsH as h"
| "derive (WithGroup n) h = WithGroupH n h"

subsection \<open>Redaction\<close>

fun eager :: "attr_value \<Rightarrow> bool" where
  "eager (VText _) = True"
| "eager (VLazy _) = False"
| "eager (VGroup as) = (\<forall>a\<in>set as. eager (snd a))"

definition masked :: "string \<times> string \<Rightarrow> string \<times> string" where
  "masked l = (fst l, if sensitive (fst l) then ''[REDACTED]'' else snd l)"

lemma leaves_filter: "concat (map (\<lambda>a. leaves (fst a) (snd a)) (filter (\<lambda>a. snd a \<noteq> VGroup []) as)) = concat (map (\<lambda>a. leaves (fst a) (snd a)) as)"
  by (induction as) auto

lemma leaves_redact: "eager v \<Longrightarrow> leaves k (redact k v) = map masked (leaves k v)"
proof (induction k v rule: redact.induct)
  case (1 k as)
  then have "map (\<lambda>a. leaves (fst a) (redact (fst a) (snd a))) as = map (\<lambda>a. map masked (leaves (fst a) (snd a))) as" by simp
  then show ?case by (simp only: redact.simps group_value_def leaves.simps leaves_filter map_map map_concat o_def fst_conv snd_conv)
qed (simp_all add: masked_def)

lemma attr_leaves_redact: "\<forall>a\<in>set as. eager (snd a) \<Longrightarrow> attr_leaves (map redactAttr as) = map masked (attr_leaves as)"
  by (induction as) (simp_all add: attr_leaves_def redactAttr_def leaves_redact)

fun eager_scope :: "scope \<Rightarrow> bool" where
  "eager_scope (WithAttrs as) = (\<forall>a\<in>set as. eager (snd a))"
| "eager_scope (WithGroup _) = True"

lemma derive_leaves:
  "\<forall>s\<in>set ss. eager_scope s \<Longrightarrow> concat (map scope_leaves (fold derive ss h)) = concat (map scope_leaves h) @ map masked (concat (map scope_leaves ss))"
proof (induction ss arbitrary: h)
  case (Cons s ss)
  then show ?case by (cases s) (simp_all add: WithAttrsH_def WithGroupH_def attr_leaves_redact)
qed simp


text \<open>A LogValuer that resolves to a group escapes: the values in it are printed as they are.\<close>

theorem lazy_group_leaks:
  "\<not> sensitive k \<Longrightarrow> line (Handle [] [(k, VLazy (VGroup [(''password'', VText s)]))]) = [(''password'', s)]"
  by (simp add: line_def Handle_def redactAttr_def attr_leaves_def)

subsection \<open>NewLogger\<close>

text \<open>
  The logger of shared/telemetry/logger.go redacts in ReplaceAttr, which the
  JSON handler calls for every printed value, those of a resolved LogValuer
  included, with a shorter list of keys.
\<close>

definition ReplaceAttr :: "string \<times> string \<Rightarrow> string \<times> string" where
  "ReplaceAttr a = (let key = ToLower (fst a) in
     if key = ''password'' \<or> key = ''token'' \<or> key = ''secret'' \<or> key = ''api_key'' \<or> key = ''authorization''
     then (fst a, ''[REDACTED]'') else a)"

definition NewLogger_line :: "string \<Rightarrow> attr list \<Rightarrow> (string \<times> string) list" where
  "NewLogger_line serviceName attrs = map ReplaceAttr ((''service'', serviceName) # attr_leaves attrs)"

definition RequestID :: string where "RequestID = []"

text \<open>
  The two loggers redact alike but for cookies and the two kinds of OAuth tokens,
  which NewLogger prints.
\<close>

theorem loggers_differ_on_tokens:
  "ReplaceAttr a = (if ToLower (fst a) \<in> {''cookie'', ''access_token'', ''refresh_token''} then a else masked a)"
  by (cases a) (auto simp: ReplaceAttr_def masked_def sensitive_def sensitiveFields_def Let_def)

subsection \<open>Correlation ids\<close>

definition Correlation :: "string \<Rightarrow> headers \<Rightarrow> handler \<Rightarrow> handler" where
  "Correlation uuid h dflt =
     (let correlationID = (if hget h ''X-Correlation-ID'' = [] then uuid else hget h ''X-Correlation-ID'')
      in WithAttrsH [(''correlationId'', VText correlationID)] dflt)"

definition GetLogger :: "handler option \<Rightarrow> handler \<Rightarrow> handler" where
  "GetLogger ctx dflt = (case ctx of Some l \<Rightarrow> l | None \<Rightarrow> dflt)"

subsection \<open>The Kafka publisher\<close>

type_synonym kafka_headers = "(string \<times> string) list"

definition carrier_Get :: "string \<Rightarrow> kafka_headers \<Rightarrow> string" where
  "carrier_Get key hs = (case find (\<lambda>h. fst h = key) hs of None \<Rightarrow> [] | Some h \<Rightarrow> snd h)"

definition carrier_Set :: "string \<Rightarrow> string \<Rightarrow> kafka_headers \<Rightarrow> kafka_headers" where
  "carrier_Set key value hs = hs @ [(key, value)]"

definition carrier_Keys :: "kafka_headers \<Rightarrow> string list" where
  "carrier_Keys hs = map fst hs"

record kafka_message =
  km_Topic :: string
  km_Key :: string
  km_Value :: string
  km_Headers :: kafka_headers

text \<open>\<open>fields\<close> are the entries the propagator injects for the context; \<open>write\<close> is the synchronous write, acknowledged by all replicas.\<close>

definition Publish :: "(kafka_message \<Rightarrow> 'b \<Rightarrow> (string, 'b) result) \<Rightarrow> (string \<times> string) list \<Rightarrow> string \<Rightarrow> string \<Rightarrow> string \<Rightarrow> 'b \<Rightarrow>
    (string, unit) result \<times> 'b" where
  "Publish write injected topic key payload broker =
     (let m = \<lparr>km_Topic = topic, km_Key = key, km_Value = payload, km_Headers = fold (\<lambda>(k, v). carrier_Set k v) injected []\<rparr>
      in case write m broker of Inl e \<Rightarrow> (Err (''kafka publish: '' @ e), broker) | Inr broker' \<Rightarrow> (Ok (), broker'))"

lemma inject_headers: "fold (\<lambda>(k, v). carrier_Set k v) injected hs = hs @ injected"
  by (induction injected arbitrary: hs) (auto simp: carrier_Set_def)

lemma carrier_Get_map_of: "carrier_Get k hs = (case map_of hs k of None \<Rightarrow> [] | Some v \<Rightarrow> v)"
  by (induction hs) (auto simp: carrier_Get_def)

text \<open>
  Trace context survives the broker: with distinct keys, a consumer that reads
  the headers of the message that was written gets every injected value back, and
  no other key.
\<close>

theorem trace_context_roundtrip:
  assumes "Publish (\<lambda>m b. Ok (b @ [m])) injected topic key payload [] = (Ok (), [m])" "distinct (map fst injected)" "(k, v) \<in> set injected"
  shows "carrier_Get k (km_Headers m) = v \<and> carrier_Keys (km_Headers m) = map fst injected"
proof -
  have "km_Headers m = injected" using assms(1) by (auto simp: Publish_def Let_def inject_headers)
  then show ?thesis using assms(2,3) by (simp add: carrier_Get_map_of carrier_Keys_def)
qed

text \<open>A second value for a key does not replace the first, which OpenTelemetry asks of a carrier.\<close>

theorem carrier_set_keeps_first:
  "carrier_Get k (carrier_Set k w (carrier_Set k v hs)) = carrier_Get k (carrier_Set k v hs)"
  by (simp add: carrier_Get_map_of carrier_Set_def map_add_Some_iff map_of_append split: option.splits)

subsection \<open>Instances\<close>


theorem lazy_group_leaks_witness:
  "line (Handle [] [(''user'', VLazy (VGroup [(''password'', VText ''pw'')]))]) = [(''password'', ''pw'')]"
  by (rule lazy_group_leaks) code_simp

theorem trace_context_roundtrip_witness:
  "carrier_Get ''traceparent'' (km_Headers \<lparr>km_Topic = ''t'', km_Key = ''k'', km_Value = ''v'', km_Headers = [(''traceparent'', ''00-1'')]\<rparr>) = ''00-1''"
  using trace_context_roundtrip [of "[(''traceparent'', ''00-1'')]" "''t''" "''k''" "''v''"
      "\<lparr>km_Topic = ''t'', km_Key = ''k'', km_Value = ''v'', km_Headers = [(''traceparent'', ''00-1'')]\<rparr>" "''traceparent''" "''00-1''"]
  by (simp add: Publish_def carrier_Set_def)

end
