(* ===== verification/Spec2Isabelle.thy ===== *)
theory Spec2Isabelle
  imports Policy_Handlers Audit_Trail IAM_Handlers IAM_Schema Outbox_Spec Connector_Registry Webhooks Alert_Service Policy_Direct Alert_Consumer Sdk Dlp Compliance IAM_Federation
    Auth_Pool Startup Audit_Stream Telemetry
begin

text \<open>
  Verification of OpenGuard, a set of Go services for identity, authorization,
  audit and threat detection in several tenants.  The services share the packages
  under src/shared, keep their rows in PostgreSQL, documents in MongoDB and short-lived
  state in Redis, and exchange events over Kafka; a client reaches them through the
  control plane or the Go SDK.

  \<^bold>\<open>Shared packages.\<close>
  \<^item> Prelude: results, strings, JSON values, integers of Go, times, and the collections of lemmas.
  \<^item> Rls (shared/rls/context.go): the tenant of a context, of a connection and of a transaction.
  \<^item> Resilience (shared/resilience): breaker call and bulkhead; gobreaker decides when to refuse and is a parameter.
  \<^item> Outbox (shared/kafka/outbox): the writer, and the relay as a step relation over table and log.
    Outbox_Spec refines both to an abstract mailbox.
  \<^item> Http: requests, headers, responses.
  \<^item> Jwt (shared/crypto/jwt.go, shared/middleware/jwt_auth.go, context.go): keyring, tokens, request context, middleware.
  \<^item> Crypto (shared/crypto/aes.go, kdf.go and the verifier of apikey.go): AES-GCM keyring and PBKDF2 hashes.
  \<^item> Net_IP (shared/middleware/security.go): addresses, networks and the dialer that keeps out of private networks.
  \<^item> Middleware (shared/middleware): API keys, SCIM tokens, idempotent replay, rate limits, header middlewares.
  \<^item> Startup (shared/secrets, shared/database): secrets and the keyring a service starts with, the migration
    runner, the migration lock of several instances as a step relation, and the JWT middleware that
    services/iam/pkg/middleware keeps beside the shared one.
  \<^item> Telemetry (shared/telemetry/safe_logger.go, shared/kafka/publisher.go): the redacting log handler,
    correlation ids, and the publisher with its trace headers.

  \<^bold>\<open>Policy service\<close> (services/policy).  Policy_Engine: evaluation of policies with deny before
  allow.  Policy_Store: the SQL repository under row-level security.  Policy_Direct: its
  mutations outside a transaction against the transactional ones.  Policy_Service: decision cache,
  mutations with their outbox event, evaluation log.  Policy_Handlers: the endpoints.

  \<^bold>\<open>IAM service\<close> (services/iam).  IAM_Store: users, sessions, refresh tokens, MFA
  configurations, connectors, orgs, outbox.  IAM_Schema: the constraints of its tables as an
  invariant of every sequence of statements.  IAM_Auth and IAM_Tokens: login, lockout, tokens and
  their rotation, risk score, TOTP and backup codes, authorization codes.  IAM_Users: registration,
  the provisioning saga and its deadline watcher, SCIM patches.  IAM_Handlers: the endpoints.
  IAM_Federation: SAML and WebAuthn logins.  Auth_Pool (pkg/service/auth_pool.go): the goroutines that run
  bcrypt, as a step relation over callers, channels and workers, refined to the sequential
  comparison that IAM_Auth uses.

  \<^bold>\<open>Other services.\<close>  Audit_Trail (services/audit): ingest, batching consumer and hash chain.  Audit_Stream:
  the live stream of events, checked against a reader of server-sent events.
  Connector_Registry (services/connector-registry): registration and validation of API keys.
  Alerting (services/alerting): alert collection, saga, SIEM delivery.  Alert_Consumer: the loop with its
  goroutines that runs the saga, as a step relation.  Webhooks
  (services/webhook-delivery): signed deliveries with retries and dead letters.  Threat
  (services/threat): alert store and the detectors with discrete decisions.  Threat_Travel: impossible travel,
  data exfiltration and the composite score, over a record of the floating-point operations they call.
  Threat_Service: constructors, consumer loops and the Kafka groups main gives the detectors.  Alert_Service:
  the routers of the alerting and the threat service behind the JWT middleware, and their statistics.  Dlp (services/dlp): scan rules, findings,
  consumer.  Compliance (services/compliance): event store, posture, report jobs as a step relation.
  Gateway (services/control-plane): routes and reverse proxy.  Sdk (sdk): the client
  library and its composition with the control plane and the policy service.

  \<^bold>\<open>How the code is modelled.\<close>  A struct is a record, a table or collection the list of its rows
  in insertion order, a Redis key space a function to values with their expiry.  An
  operation takes the state and returns the new one; what it reads from outside (clock, random
  bytes, generated ids, errors of a database, a broker or a peer) is an argument, usually a
  record with suffix \<open>io\<close> or \<open>env\<close>, so that every error branch of the code is a branch of the
  definition.  Errors are values of sum types.  Code outside the repository (golang-jwt, bcrypt,
  AES-GCM, SHA-256, CEL, gobreaker, PostgreSQL's own checks) is a parameter, and what the theorems
  need of it is a named hypothesis that a witness instantiates.  Loops are structural
  recursion or come with a termination proof (\<open>Sdk.do_loop\<close>, \<open>Webhooks.deliver_loop\<close>,
  \<open>Outbox.drain_loop\<close>); the only bound chosen here is that of \<open>Dlp.find_all\<close>, the length of the
  scanned text plus one, which is enough because each step consumes a character.  Services that
  run for ever are step relations, and claims about them hold in all reachable states.  Integers
  whose overflow matters wrap at 64 bits (\<open>IAM_Tokens.lockout_wraps\<close>).

  \<^bold>\<open>What is shown.\<close>  Authorization: deny overrides, evaluation fails closed, what the cache may
  still serve, mutations atomic with their event and confined to their tenant.  Authentication:
  what a login, an MFA answer, a code grant and a refresh require; refresh tokens and
  authorization codes are used once.  Integrity: the audit chain, the IAM schema, the outbox as a
  mailbox, redaction of log lines.  Concurrency: the worker pool answers each caller with its own result and
  as long as a worker is left, the alert consumer has the effect of a sequential one, migrations exclude each other while heartbeats are in time.  Interfaces: the tokens the IAM service issues are those the middleware admits, the
  keys the registry issues validate, the payload of policy changes against the threat
  detectors, the routes of the control plane against those of its targets, the SDK
  against the policy service, the audit service against the DLP service (below).  Where the code
  does not do what it is meant to, the theorem states what it does.

  \<^bold>\<open>Not modelled.\<close>  Rounding of floating-point numbers (the operations are arguments, and what the formulas
  compute is stated in exact arithmetic), the generation of key pairs and certificates, exporters of metrics and
  traces, seed data, the set-up and the signal handling of the processes apart from the parts named above,
  the web client and the examples: they call libraries and take no decision of the program.
\<close>

subsection \<open>Event ingestion and the DLP service\<close>

text \<open>
  The address a base URL with path \<open>base\<close> is extended to, and the exchange: the DLP
  service answers a request that none of its routes takes with the status of its router,
  and any other as \<open>served\<close> says.
\<close>

definition scan_path :: "string \<Rightarrow> string" where
  "scan_path base = base @ ''/v1/scan''"

definition dlp_post :: "string \<Rightarrow> (event \<Rightarrow> http_reply) \<Rightarrow> raw_json \<Rightarrow> event \<Rightarrow> http_reply" where
  "dlp_post base served refusal ev = (case dlp_unserved ''POST'' (scan_path base) of
      Some status \<Rightarrow> Reply status refusal
    | None \<Rightarrow> served ev)"

lemma append_eq_literal: "xs @ ys = zs \<longleftrightarrow> length ys \<le> length zs \<and> xs = take (length zs - length ys) zs \<and> ys = drop (length zs - length ys) zs"
proof
  assume "xs @ ys = zs"
  then show "length ys \<le> length zs \<and> xs = take (length zs - length ys) zs \<and> ys = drop (length zs - length ys) zs" by auto
qed (metis append_take_drop_id)

lemma scan_path_unserved: "dlp_unserved ''POST'' (scan_path base) = Some 404"
  by (simp add: dlp_unserved_def dlp_routes_def scan_path_def append_eq_literal)

text \<open>
  C40. In block mode the audit service rejects every event with 422, whatever it
  holds: the path under which it asks for a scan, below any base path, is none of the DLP
  service, and an answer other than 200 counts as blocked.
\<close>

theorem block_mode_rejects_every_event:
  assumes "ih_dlpURL h \<noteq> []" "orgID \<noteq> []"
  shows "Ingest (h\<lparr>ih_dlpMode := ''block''\<rparr>) orgID (Some (JObj ev)) now (dlp_post base served refusal) ok = Rejected 422"
  using assms by (simp add: Ingest_def Let_def dlp_post_def scan_path_unserved)

theorem block_mode_rejects_every_event_witness:
  "Ingest ((NewIngestHandler ''http://dlp:8087'' ''audit'')\<lparr>ih_dlpMode := ''block''\<rparr>) ''o1'' (Some (JObj [(''action'', JStr ''login'')])) 7
     (dlp_post [] (\<lambda>_. Reply 200 (Some (JArr []))) None) True = Rejected 422"
  by (rule block_mode_rejects_every_event) (simp_all add: NewIngestHandler_def)

end
